(* ===== verification/Prelude.thy ===== *)
theory Prelude
  imports Main "HOL-Library.Word" "HOL-Library.Sublist" "HOL-Library.Char_ord"
begin

text \<open>
  What the components share: C and C++ strings (\<open>std::string\<close> searching, the
  decimal printing of \<open>StringPrintf\<close>, \<open>strtol\<close> and \<open>atoi\<close>) and the fixed-width
  conversions of the source's integer types.  A \<open>char*\<close> that may be null is a
  \<open>string option\<close>; \<open>std::string::npos\<close> is \<open>None\<close>.
\<close>

named_theorems cstr \<open>facts about C strings and string searching\<close>

type_synonym cstring = "string option"

section \<open>Searching\<close>

fun index_of :: "('a \<Rightarrow> bool) \<Rightarrow> 'a list \<Rightarrow> nat option" where
  "index_of P [] = None"
| "index_of P (x # xs) = (if P x then Some 0 else map_option Suc (index_of P xs))"

lemma index_of_None [simp, cstr]: "index_of P xs = None \<longleftrightarrow> (\<forall>x \<in> set xs. \<not> P x)"
  by (induction xs) auto

lemma index_of_Some:
  "index_of P xs = Some i \<longleftrightarrow> i < length xs \<and> P (xs ! i) \<and> (\<forall>x \<in> set (take i xs). \<not> P x)"
proof (induction xs arbitrary: i)
  case (Cons x xs)
  show ?case
    by (cases i) (auto simp: Cons.IH)
qed simp

lemma index_of_append_sep:
  "\<forall>x \<in> set xs. \<not> P x \<Longrightarrow> P y \<Longrightarrow> index_of P (xs @ y # ys) = Some (length xs)"
  by (induction xs) auto

lemma index_of_split:
  assumes "index_of P xs = Some i"
  shows "xs = take i xs @ xs ! i # drop (Suc i) xs"
  using assms by (simp add: index_of_Some id_take_nth_drop)

text \<open>\<open>s.find(c, pos)\<close>, \<open>s.rfind(c)\<close> and \<open>s.find(pat)\<close>.\<close>

definition find_char :: "char \<Rightarrow> string \<Rightarrow> nat \<Rightarrow> nat option" where
  "find_char c s pos = map_option (\<lambda>i. i + pos) (index_of ((=) c) (drop pos s))"

definition rfind_char :: "char \<Rightarrow> string \<Rightarrow> nat option" where
  "rfind_char c s = map_option (\<lambda>i. length s - 1 - i) (index_of ((=) c) (rev s))"

fun find_sub :: "string \<Rightarrow> string \<Rightarrow> nat option" where
  "find_sub pat [] = (if pat = [] then Some 0 else None)"
| "find_sub pat (c # s) =
     (if prefix pat (c # s) then Some 0 else map_option Suc (find_sub pat s))"

lemma find_char_None [cstr]: "find_char c s pos = None \<longleftrightarrow> c \<notin> set (drop pos s)"
  by (auto simp: find_char_def)

lemma find_char_Some_bounds:
  assumes "find_char c s pos = Some i"
  shows "pos \<le> i" "i < length s" "s ! i = c"
  using assms by (auto simp: find_char_def index_of_Some add.commute)

lemma rfind_char_None [cstr]: "rfind_char c s = None \<longleftrightarrow> c \<notin> set s"
  by (auto simp: rfind_char_def)

lemma rfind_char_append:
  assumes "c \<notin> set t"
  shows "rfind_char c (s @ c # t) = Some (length s)"
proof -
  have "index_of ((=) c) (rev t @ c # rev s) = Some (length (rev t))"
    by (rule index_of_append_sep) (use assms in auto)
  then show ?thesis by (simp add: rfind_char_def)
qed

lemma rfind_char_last: "rfind_char c (s @ [c]) = Some (length s)"
  by (simp add: rfind_char_append)

lemma rfind_char_Some:
  assumes "rfind_char c s = Some i"
  shows "s = take i s @ c # drop (Suc i) s" "c \<notin> set (drop (Suc i) s)" "i < length s"
proof -
  from assms obtain j where j: "index_of ((=) c) (rev s) = Some j" and i: "i = length s - 1 - j"
    by (auto simp: rfind_char_def)
  then have jl: "j < length s" and cj: "rev s ! j = c"
    and nin: "\<forall>x \<in> set (take j (rev s)). c \<noteq> x"
    by (auto simp: index_of_Some)
  from jl i show il: "i < length s" by simp
  from cj jl i have "s ! i = c" by (simp add: rev_nth)
  with il show "s = take i s @ c # drop (Suc i) s" by (metis id_take_nth_drop)
  have "drop (Suc i) s = rev (take j (rev s))"
    using jl i by (simp add: take_rev Suc_diff_Suc)
  with nin show "c \<notin> set (drop (Suc i) s)" by auto
qed

lemma find_sub_None [cstr]: "find_sub pat s = None \<longleftrightarrow> \<not> sublist pat s"
  by (induction s) (auto simp: sublist_Cons_right)

lemma find_sub_Some_sublist: "find_sub pat s = Some i \<Longrightarrow> sublist pat s"
  by (metis find_sub_None option.distinct(1))

lemma sublist_singleton: "sublist [c] s \<longleftrightarrow> c \<in> set s"
  by (metis in_set_conv_decomp list.set_intros(1) set_mono_sublist subsetD sublist_def
      append_Cons append_Nil)

text \<open>\<open>android::base::Split\<close> at one character, which keeps empty pieces, and \<open>Join\<close>.\<close>

fun split_on :: "char \<Rightarrow> string \<Rightarrow> string list" where
  "split_on c [] = [[]]"
| "split_on c (x # s) =
     (if x = c then [] # split_on c s
      else (case split_on c s of [] \<Rightarrow> [[x]] | w # ws \<Rightarrow> (x # w) # ws))"

fun join_with :: "string \<Rightarrow> string list \<Rightarrow> string" where
  "join_with sep [] = []"
| "join_with sep [w] = w"
| "join_with sep (w # ws) = w @ sep @ join_with sep ws"

lemma split_on_not_Nil [simp]: "split_on c s \<noteq> []"
  by (induction s) (auto split: list.splits)

lemma join_split [simp]: "join_with [c] (split_on c s) = s"
proof (induction s)
  case (Cons x s)
  then show ?case by (cases "split_on c s"; cases "tl (split_on c s)") auto
qed simp

section \<open>Decimal printing\<close>

definition digit_chr :: "nat \<Rightarrow> char" where
  "digit_chr d = ''0123456789'' ! d"

fun dec_nat :: "nat \<Rightarrow> string" where
  "dec_nat n = (if n < 10 then [digit_chr n] else dec_nat (n div 10) @ [digit_chr (n mod 10)])"

declare dec_nat.simps [simp del]

definition dec_int :: "int \<Rightarrow> string" where
  "dec_int i = (if i < 0 then CHR ''-'' # dec_nat (nat (- i)) else dec_nat (nat i))"

definition is_digit_chr :: "char \<Rightarrow> bool" where
  "is_digit_chr c \<longleftrightarrow> CHR ''0'' \<le> c \<and> c \<le> CHR ''9''"

definition digit_val :: "char \<Rightarrow> nat" where
  "digit_val c = of_char c - 48"

lemma less_10_cases:
  "(d::nat) < 10 \<Longrightarrow> d = 0 \<or> d = 1 \<or> d = 2 \<or> d = 3 \<or> d = 4 \<or> d = 5 \<or> d = 6 \<or> d = 7 \<or> d = 8 \<or> d = 9"
  by arith

lemma digit_val_chr: "d < 10 \<Longrightarrow> digit_val (digit_chr d) = d"
  by (drule less_10_cases) (auto simp: digit_val_def digit_chr_def)

lemma is_digit_digit_chr: "d < 10 \<Longrightarrow> is_digit_chr (digit_chr d)"
  by (drule less_10_cases) (auto simp: is_digit_chr_def digit_chr_def)

lemma dec_nat_digits: "c \<in> set (dec_nat n) \<Longrightarrow> is_digit_chr c"
  by (induction n rule: dec_nat.induct)
    (subst (asm) (2) dec_nat.simps, auto simp: is_digit_digit_chr split: if_splits)

lemma dec_nat_not_Nil [simp]: "dec_nat n \<noteq> []"
  by (subst dec_nat.simps) simp

lemma slash_not_digit [simp]: "\<not> is_digit_chr CHR ''/''"
  by (simp add: is_digit_chr_def)

lemma dec_nat_no_slash [simp]: "CHR ''/'' \<notin> set (dec_nat n)"
  using dec_nat_digits slash_not_digit by blast

text \<open>Reading the digits back: the value of a digit string, most significant first.\<close>

definition digits_val :: "string \<Rightarrow> nat" where
  "digits_val s = foldl (\<lambda>a c. 10 * a + digit_val c) 0 s"

lemma digits_val_dec_nat [simp]: "digits_val (dec_nat n) = n"
proof (induction n rule: dec_nat.induct)
  case (1 n)
  show ?case
  proof (cases "n < 10")
    case True
    then show ?thesis
      by (simp add: dec_nat.simps [of n] digits_val_def digit_val_chr)
  next
    case False
    then have "digits_val (dec_nat (n div 10)) = n div 10" by (rule "1.IH")
    with False show ?thesis
      by (simp add: dec_nat.simps [of n] digits_val_def digit_val_chr)
  qed
qed

lemma dec_nat_inj [simp]: "dec_nat m = dec_nat n \<longleftrightarrow> m = n"
  by (metis digits_val_dec_nat)

section \<open>Reading numbers\<close>

text \<open>
  The fixed-width conversions: C's implicit conversion to a narrower signed type keeps the
  low bits.
\<close>

definition to_i32 :: "int \<Rightarrow> int" where
  "to_i32 i = (i + 2 ^ 31) mod 2 ^ 32 - 2 ^ 31"

definition to_u32 :: "int \<Rightarrow> int" where
  "to_u32 i = i mod 2 ^ 32"

definition to_i64 :: "int \<Rightarrow> int" where
  "to_i64 i = (i + 2 ^ 63) mod 2 ^ 64 - 2 ^ 63"

lemma to_i32_bounds: "- (2 ^ 31) \<le> to_i32 i" "to_i32 i < 2 ^ 31"
  using pos_mod_bound [of "2 ^ 32" "i + 2 ^ 31"] by (simp_all add: to_i32_def)

lemma to_i32_id: "- (2 ^ 31) \<le> i \<Longrightarrow> i < 2 ^ 31 \<Longrightarrow> to_i32 i = i"
  by (simp add: to_i32_def)

lemma to_i64_id: "- (2 ^ 63) \<le> i \<Longrightarrow> i < 2 ^ 63 \<Longrightarrow> to_i64 i = i"
  by (simp add: to_i64_def)

definition is_space_chr :: "char \<Rightarrow> bool" where
  "is_space_chr c \<longleftrightarrow> c = CHR '' '' \<or> c = CHR 0x09 \<or> c = CHR 0x0A \<or> c = CHR 0x0B \<or>
     c = CHR 0x0C \<or> c = CHR 0x0D"

text \<open>
  The value of a character as a digit of any base up to 36, as \<open>strtol\<close> reads it.
\<close>

definition any_digit :: "nat \<Rightarrow> char \<Rightarrow> nat option" where
  "any_digit base c =
     (let d = (if CHR ''0'' \<le> c \<and> c \<le> CHR ''9'' then Some (of_char c - 48)
               else if CHR ''a'' \<le> c \<and> c \<le> CHR ''z'' then Some (of_char c - 87)
               else if CHR ''A'' \<le> c \<and> c \<le> CHR ''Z'' then Some (of_char c - 55)
               else None)
      in case d of None \<Rightarrow> None | Some v \<Rightarrow> if v < base then Some v else None)"

fun scan_digits :: "nat \<Rightarrow> nat \<Rightarrow> string \<Rightarrow> nat \<times> string" where
  "scan_digits base acc [] = (acc, [])"
| "scan_digits base acc (c # s) =
     (case any_digit base c of
        None \<Rightarrow> (acc, c # s)
      | Some v \<Rightarrow> scan_digits base (base * acc + v) s)"

definition clamp_i64 :: "int \<Rightarrow> int" where
  "clamp_i64 i = (if i < - (2 ^ 63) then - (2 ^ 63) else if i \<ge> 2 ^ 63 then 2 ^ 63 - 1 else i)"

text \<open>
  \<open>strtol(s, &end, base)\<close> and \<open>strtoll\<close>, both 64 bits wide: the value and the text from
  \<open>end\<close> on.  Leading white space and one sign are skipped; base 0 takes the base from a
  \<open>0x\<close> or \<open>0\<close> prefix; no digits leave \<open>end\<close> at the start and give 0; values out of
  range are clamped.
\<close>

definition strtol :: "nat \<Rightarrow> string \<Rightarrow> int \<times> string" where
  "strtol base0 s =
     (let s1 = dropWhile is_space_chr s;
          (neg, s2) = (case s1 of
                         c # t \<Rightarrow> if c = CHR ''-'' then (True, t)
                                  else if c = CHR ''+'' then (False, t) else (False, s1)
                       | [] \<Rightarrow> (False, s1));
          hex = ((base0 = 0 \<or> base0 = 16) \<and>
                 (case s2 of
                    z # x # h # _ \<Rightarrow> z = CHR ''0'' \<and> (x = CHR ''x'' \<or> x = CHR ''X'') \<and>
                                    any_digit 16 h \<noteq> None
                  | _ \<Rightarrow> False));
          base = (if base0 \<noteq> 0 then base0
                  else if hex then 16
                  else if s2 \<noteq> [] \<and> hd s2 = CHR ''0'' then 8 else 10);
          s3 = (if hex then drop 2 s2 else s2)
      in case s3 of
           [] \<Rightarrow> (0, s)
         | c # _ \<Rightarrow>
             if any_digit base c = None then (0, s)
             else (let (v, rest) = scan_digits base 0 s3
                   in (clamp_i64 (if neg then - int v else int v), rest)))"

text \<open>\<open>atoi\<close>: \<open>strtol\<close> in base 10, converted to \<open>int\<close>.\<close>

definition atoi :: "string \<Rightarrow> int" where
  "atoi s = to_i32 (fst (strtol 10 s))"

lemma any_digit_10: "is_digit_chr c \<Longrightarrow> any_digit 10 c = Some (digit_val c)"
  by (auto simp: any_digit_def is_digit_chr_def digit_val_def less_eq_char_def Let_def)

lemma scan_digits_all:
  "\<forall>c \<in> set s. is_digit_chr c \<Longrightarrow>
     scan_digits 10 acc s = (foldl (\<lambda>a c. 10 * a + digit_val c) acc s, [])"
  by (induction s arbitrary: acc) (auto simp: any_digit_10)

lemma digit_not_space: "is_digit_chr c \<Longrightarrow> \<not> is_space_chr c"
  by (auto simp: is_digit_chr_def is_space_chr_def)

lemma digit_not_sign: "is_digit_chr c \<Longrightarrow> c \<noteq> CHR ''-'' \<and> c \<noteq> CHR ''+''"
  by (auto simp: is_digit_chr_def)

text \<open>Printing with \<open>%u\<close> and reading back with \<open>strtol\<close> give the same number.\<close>

lemma strtol_dec_nat:
  assumes "n < 2 ^ 63"
  shows "strtol 10 (dec_nat n) = (int n, [])"
proof -
  obtain c t where ct: "dec_nat n = c # t" by (cases "dec_nat n") auto
  have dig: "\<forall>x \<in> set (dec_nat n). is_digit_chr x" using dec_nat_digits by blast
  with ct have c: "is_digit_chr c" by simp
  have "scan_digits 10 0 (c # t) = (n, [])"
    using scan_digits_all [OF dig, of 0] digits_val_dec_nat [of n] ct
    by (simp add: digits_val_def)
  moreover have "clamp_i64 (int n) = int n"
    using assms by (simp add: clamp_i64_def)
  ultimately show ?thesis
    using ct c digit_not_space [OF c] digit_not_sign [OF c] any_digit_10 [OF c]
    by (simp add: strtol_def)
qed

lemma atoi_dec_nat: "n < 2 ^ 31 \<Longrightarrow> atoi (dec_nat n) = int n"
  by (simp add: atoi_def strtol_dec_nat to_i32_id)

section \<open>File modes\<close>

definition S_IFMT_of :: "int \<Rightarrow> int" where "S_IFMT_of m = (m div 4096) mod 16"
definition S_ISDIR :: "int \<Rightarrow> bool" where "S_ISDIR m \<longleftrightarrow> S_IFMT_of m = 4"
definition S_ISREG :: "int \<Rightarrow> bool" where "S_ISREG m \<longleftrightarrow> S_IFMT_of m = 8"
definition S_IFDIR :: int where "S_IFDIR = 16384"
definition S_IFREG :: int where "S_IFREG = 32768"

lemma S_IS_simps [simp]:
  "0 \<le> m \<Longrightarrow> m < 4096 \<Longrightarrow> S_ISDIR (S_IFDIR + m)"
  "0 \<le> m \<Longrightarrow> m < 4096 \<Longrightarrow> S_ISREG (S_IFREG + m)"
  "S_ISDIR m \<Longrightarrow> \<not> S_ISREG m"
  by (simp_all add: S_ISDIR_def S_ISREG_def S_IFMT_of_def S_IFDIR_def S_IFREG_def)

end
