(* ===== verification/OtaUtils.thy ===== *)
theory OtaUtils
  imports Prelude
begin

text \<open>
  The check of a slot suffix that \<open>otapreopt\<close> and installd share (\<open>installd/otapreopt_utils.h\<close>).
\<close>

text \<open>\<open>std::regex_match\<close> against \<open>[a-zA-Z0-9_]+\<close>.\<close>

definition ValidateTargetSlotSuffix :: "string \<Rightarrow> bool" where
  "ValidateTargetSlotSuffix input \<longleftrightarrow>
     input \<noteq> [] \<and>
     list_all (\<lambda>c. (CHR ''a'' \<le> c \<and> c \<le> CHR ''z'') \<or> (CHR ''A'' \<le> c \<and> c \<le> CHR ''Z'') \<or>
                   (CHR ''0'' \<le> c \<and> c \<le> CHR ''9'') \<or> c = CHR ''_'') input"

end
