(* ===== verification/OtaParams.thy ===== *)
theory OtaParams
  imports OtaUtils
begin

unbundle bit_operations_syntax

text \<open>
  The command line of \<open>otapreopt\<close> (\<open>installd/otapreopt_parameters.cpp\<close>): the dexopt
  parameters that the package manager of the old system passes to the new one, in ten
  versions.  \<open>argv\<close> is a list; reading at or behind its end gives the terminating null.
  The members of the parameter object are the state; a call that fails leaves the members
  written so far.
\<close>

record ota_params =
  apk_path :: cstring
  uid :: int
  pkgName :: cstring
  instruction_set :: cstring
  dexopt_needed :: int
  oat_dir :: cstring
  dexopt_flags :: int
  compiler_filter :: cstring
  volume_uuid :: cstring
  shared_libraries :: cstring
  se_info :: cstring
  downgrade :: bool
  target_sdk_version :: int
  profile_name :: cstring
  dex_metadata_path :: cstring
  compilation_reason :: cstring
  target_slot :: string

text \<open>The flags of \<open>installd/installd_constants.h\<close> and \<open>DEX2OAT_FROM_SCRATCH\<close>.\<close>

definition DEXOPT_PUBLIC :: int where "DEXOPT_PUBLIC = 2"
definition DEXOPT_DEBUGGABLE :: int where "DEXOPT_DEBUGGABLE = 4"
definition DEXOPT_BOOTCOMPLETE :: int where "DEXOPT_BOOTCOMPLETE = 8"
definition DEXOPT_PROFILE_GUIDED :: int where "DEXOPT_PROFILE_GUIDED = 16"
definition DEXOPT_GENERATE_COMPACT_DEX :: int where "DEXOPT_GENERATE_COMPACT_DEX = 2048"
definition DEX2OAT_FROM_SCRATCH :: int where "DEX2OAT_FROM_SCRATCH = 1"

lemmas dexopt_flag_defs = DEXOPT_PUBLIC_def DEXOPT_DEBUGGABLE_def DEXOPT_BOOTCOMPLETE_def
  DEXOPT_PROFILE_GUIDED_def DEXOPT_GENERATE_COMPACT_DEX_def DEX2OAT_FROM_SCRATCH_def

definition argv_at :: "string list \<Rightarrow> nat \<Rightarrow> cstring" where
  "argv_at argv i = (if i < length argv then Some (argv ! i) else None)"

definition ParseBool :: "string \<Rightarrow> bool" where
  "ParseBool i = (if i = ''true'' then True else False)"

definition ParseNull :: "string \<Rightarrow> cstring" where
  "ParseNull arg = (if arg = ''!'' then None else Some arg)"

text \<open>
  \<open>in == end\<close> holds when nothing was read, that is when the text from \<open>end\<close> on is the
  whole input.
\<close>

definition ParseUInt :: "string \<Rightarrow> int option" where
  "ParseUInt i =
     (let (result, rest) = strtol 0 i
      in if rest = i \<or> rest \<noteq> [] then None
         else if result < 0 \<or> 2 ^ 32 - 1 < result then None
         else Some (to_u32 result))"

definition ReplaceMask :: "int \<Rightarrow> int \<Rightarrow> int \<Rightarrow> int" where
  "ReplaceMask i old_mask new_mask = (if i AND old_mask \<noteq> 0 then new_mask else 0)"

definition SetDefaultsForPostV1Arguments :: "ota_params \<Rightarrow> ota_params" where
  "SetDefaultsForPostV1Arguments p =
     p\<lparr> se_info := None, downgrade := False, target_sdk_version := 0,
        profile_name := Some ''primary.prof'', dex_metadata_path := None,
        compilation_reason := Some ''ab-ota'', dexopt_flags := DEXOPT_GENERATE_COMPACT_DEX \<rparr>"

text \<open>The \<open>switch\<close> of \<open>ReadArgumentsV1\<close>; \<open>None\<close> is its \<open>default\<close>.\<close>

definition v1_switch :: "nat \<Rightarrow> string \<Rightarrow> ota_params \<Rightarrow> ota_params option" where
  "v1_switch param_index param p =
     (if param_index = 0 then Some (p\<lparr>apk_path := Some param\<rparr>)
      else if param_index = 1 then Some (p\<lparr>uid := to_u32 (atoi param)\<rparr>)
      else if param_index = 2 then Some (p\<lparr>pkgName := Some param\<rparr>)
      else if param_index = 3 then Some (p\<lparr>instruction_set := Some param\<rparr>)
      else if param_index = 4 then Some (p\<lparr>dexopt_needed := DEX2OAT_FROM_SCRATCH\<rparr>)
      else if param_index = 5 then Some (p\<lparr>oat_dir := Some param\<rparr>)
      else if param_index = 6 then
        (let i = atoi param
         in Some (p\<lparr>dexopt_flags := dexopt_flags p OR
              (ReplaceMask i 2 DEXOPT_PUBLIC OR
               ReplaceMask i 8 DEXOPT_DEBUGGABLE OR
               ReplaceMask i 16 DEXOPT_BOOTCOMPLETE OR
               ReplaceMask i 32 DEXOPT_PROFILE_GUIDED OR
               ReplaceMask i 64 0)\<rparr>))
      else if param_index = 7 then Some (p\<lparr>compiler_filter := Some param\<rparr>)
      else if param_index = 8 then Some (p\<lparr>volume_uuid := ParseNull param\<rparr>)
      else if param_index = 9 then Some (p\<lparr>shared_libraries := ParseNull param\<rparr>)
      else None)"

text \<open>The loop over the parameters: the index it stops at, or the early \<open>return false\<close>.\<close>

fun v1_loop :: "nat \<Rightarrow> string list \<Rightarrow> ota_params \<Rightarrow> (nat option) \<times> ota_params" where
  "v1_loop param_index [] p = (Some param_index, p)"
| "v1_loop param_index (param # rest) p =
     (case v1_switch param_index param p of
        None \<Rightarrow> (None, p)
      | Some p' \<Rightarrow> v1_loop (param_index + 1) rest p')"

definition ReadArgumentsV1 :: "string list \<Rightarrow> ota_params \<Rightarrow> bool \<times> ota_params" where
  "ReadArgumentsV1 argv p =
     (case argv_at argv 2 of
        None \<Rightarrow> (False, p)
      | Some a \<Rightarrow>
          if a \<noteq> ''dexopt'' then (False, p)
          else (case v1_loop 0 (drop 3 argv) (SetDefaultsForPostV1Arguments p) of
                  (None, p') \<Rightarrow> (False, p')
                | (Some param_index, p') \<Rightarrow> (param_index = 10, p')))"

definition num_args_expected :: "int \<Rightarrow> nat option" where
  "num_args_expected version =
     (if version = 2 then Some 11
      else if version = 3 then Some 12
      else if version = 4 then Some 13
      else if version = 5 then Some 14
      else if version = 6 then Some 15
      else if version = 7 \<or> version = 8 then Some 16
      else if version = 9 then Some 16
      else if version = 10 then Some 16
      else None)"

text \<open>The \<open>switch\<close> of \<open>ReadArgumentsPostV1\<close>; \<open>None\<close> is the fatal \<open>default\<close>.\<close>

definition post_v1_switch :: "int \<Rightarrow> nat \<Rightarrow> string \<Rightarrow> ota_params \<Rightarrow> ota_params option" where
  "post_v1_switch version param_index param p =
     (if param_index = 0 then Some (p\<lparr>apk_path := Some param\<rparr>)
      else if param_index = 1 then Some (p\<lparr>uid := to_u32 (atoi param)\<rparr>)
      else if param_index = 2 then Some (p\<lparr>pkgName := Some param\<rparr>)
      else if param_index = 3 then Some (p\<lparr>instruction_set := Some param\<rparr>)
      else if param_index = 4 then Some (p\<lparr>dexopt_needed := atoi param\<rparr>)
      else if param_index = 5 then Some (p\<lparr>oat_dir := Some param\<rparr>)
      else if param_index = 6 then
        Some (p\<lparr>dexopt_flags := atoi param OR (if version < 8 then DEXOPT_GENERATE_COMPACT_DEX else 0)\<rparr>)
      else if param_index = 7 then Some (p\<lparr>compiler_filter := Some param\<rparr>)
      else if param_index = 8 then Some (p\<lparr>volume_uuid := ParseNull param\<rparr>)
      else if param_index = 9 then Some (p\<lparr>shared_libraries := ParseNull param\<rparr>)
      else if param_index = 10 then Some (p\<lparr>se_info := ParseNull param\<rparr>)
      else if param_index = 11 then Some (p\<lparr>downgrade := ParseBool param\<rparr>)
      else if param_index = 12 then Some (p\<lparr>target_sdk_version := atoi param\<rparr>)
      else if param_index = 13 then Some (p\<lparr>profile_name := ParseNull param\<rparr>)
      else if param_index = 14 then Some (p\<lparr>dex_metadata_path := ParseNull param\<rparr>)
      else if param_index = 15 then Some (p\<lparr>compilation_reason := ParseNull param\<rparr>)
      else None)"

fun post_v1_loop :: "int \<Rightarrow> nat \<Rightarrow> string list \<Rightarrow> ota_params \<Rightarrow> bool \<times> ota_params" where
  "post_v1_loop version param_index [] p = (True, p)"
| "post_v1_loop version param_index (param # rest) p =
     (case post_v1_switch version param_index param p of
        None \<Rightarrow> (False, p)
      | Some p' \<Rightarrow> post_v1_loop version (param_index + 1) rest p')"

definition ReadArgumentsPostV1 ::
  "int \<Rightarrow> string list \<Rightarrow> bool \<Rightarrow> ota_params \<Rightarrow> bool \<times> ota_params" where
  "ReadArgumentsPostV1 version argv versioned p =
     (case num_args_expected version of
        None \<Rightarrow> (False, p)
      | Some expected \<Rightarrow>
          (let dexopt_index = (if versioned then 3 else 2)
           in case argv_at argv dexopt_index of
                None \<Rightarrow> (False, p)
              | Some a \<Rightarrow>
                  if a \<noteq> ''dexopt'' then (False, p)
                  else if length (drop (dexopt_index + 1) argv) \<noteq> expected then (False, p)
                  else (case post_v1_loop version 0 (drop (dexopt_index + 1) argv)
                               (SetDefaultsForPostV1Arguments p) of
                          (False, p') \<Rightarrow> (False, p')
                        | (True, p') \<Rightarrow>
                            if version < 10 \<and> shared_libraries p' = Some ''&'' then (False, p')
                            else (True, p'))))"

definition ReadArguments :: "string list \<Rightarrow> ota_params \<Rightarrow> bool \<times> ota_params" where
  "ReadArguments argv p =
     (case argv_at argv 1 of
        None \<Rightarrow> (False, p)
      | Some target_slot_arg \<Rightarrow>
          (let p1 = p\<lparr>target_slot := target_slot_arg\<rparr>
           in if \<not> ValidateTargetSlotSuffix (target_slot p1) then (False, p1)
              else (case argv_at argv 2 of
                      None \<Rightarrow> (False, p1)
                    | Some a \<Rightarrow>
                        if a = ''dexopt'' then
                          (if length argv = 14 then ReadArgumentsPostV1 2 argv False p1
                           else ReadArgumentsV1 argv p1)
                        else (case ParseUInt a of
                                None \<Rightarrow> (False, p1)
                              | Some version \<Rightarrow> ReadArgumentsPostV1 version argv True p1))))"

section \<open>Counting the parameters\<close>

lemma v1_switch_None: "v1_switch i a p = None \<longleftrightarrow> 10 \<le> i"
  by (auto simp: v1_switch_def Let_def)

lemma v1_loop_index:
  "i \<le> 10 \<Longrightarrow> fst (v1_loop i ps p) = (if i + length ps \<le> 10 then Some (i + length ps) else None)"
proof (induction i ps p rule: v1_loop.induct)
  case (2 i a rest p)
  then show ?case
    using v1_switch_None [of i a p] by (cases "v1_switch i a p") auto
qed simp

lemma post_v1_switch_None: "post_v1_switch v i a p = None \<longleftrightarrow> 16 \<le> i"
  unfolding post_v1_switch_def by (simp, arith)

lemma post_v1_loop_ok: "i \<le> 16 \<Longrightarrow> fst (post_v1_loop v i ps p) \<longleftrightarrow> i + length ps \<le> 16"
proof (induction v i ps p rule: post_v1_loop.induct)
  case (2 v i a rest p)
  then show ?case
    using post_v1_switch_None [of v i a p] by (cases "post_v1_switch v i a p") auto
qed simp

lemma num_args_expected_bounds:
  "num_args_expected v = Some n \<Longrightarrow> 11 \<le> n \<and> n \<le> 16 \<and> 2 \<le> v \<and> v \<le> 10"
  by (auto simp: num_args_expected_def split: if_splits)

section \<open>The reference: which member each parameter fills\<close>

definition given :: "string list \<Rightarrow> nat \<Rightarrow> (string \<Rightarrow> 'a) \<Rightarrow> 'a \<Rightarrow> 'a" where
  "given ps i f d = (if i < length ps then f (ps ! i) else d)"

definition ota_spec :: "int \<Rightarrow> string \<Rightarrow> string list \<Rightarrow> ota_params" where
  "ota_spec v slot ps =
     \<lparr> apk_path = Some (ps ! 0), uid = to_u32 (atoi (ps ! 1)), pkgName = Some (ps ! 2),
       instruction_set = Some (ps ! 3), dexopt_needed = atoi (ps ! 4), oat_dir = Some (ps ! 5),
       dexopt_flags = atoi (ps ! 6) OR (if v < 8 then DEXOPT_GENERATE_COMPACT_DEX else 0),
       compiler_filter = Some (ps ! 7), volume_uuid = ParseNull (ps ! 8),
       shared_libraries = ParseNull (ps ! 9), se_info = given ps 10 ParseNull None,
       downgrade = given ps 11 ParseBool False, target_sdk_version = given ps 12 atoi 0,
       profile_name = given ps 13 ParseNull (Some ''primary.prof''),
       dex_metadata_path = given ps 14 ParseNull None,
       compilation_reason = given ps 15 ParseNull (Some ''ab-ota''), target_slot = slot \<rparr>"

definition ota_spec_v1 :: "string \<Rightarrow> string list \<Rightarrow> ota_params" where
  "ota_spec_v1 slot ps =
     (ota_spec 1 slot ps)\<lparr> dexopt_needed := 1,
       dexopt_flags := 2048 OR (ReplaceMask (atoi (ps ! 6)) 2 2 OR ReplaceMask (atoi (ps ! 6)) 8 4 OR
         ReplaceMask (atoi (ps ! 6)) 16 8 OR ReplaceMask (atoi (ps ! 6)) 32 16 OR
         ReplaceMask (atoi (ps ! 6)) 64 0) \<rparr>"

lemma upt_eval:
  "[0..<10] = [0, 1, 2, 3, 4, 5, 6, 7, 8, 9]"
  "[0..<11] = [0..<10] @ [10]" "[0..<12] = [0..<11] @ [11]" "[0..<13] = [0..<12] @ [12]"
  "[0..<14] = [0..<13] @ [13]" "[0..<15] = [0..<14] @ [14]" "[0..<16] = [0..<15] @ [15]"
  by code_simp+

lemmas post_v1_eval = post_v1_switch_def SetDefaultsForPostV1Arguments_def ota_spec_def given_def

lemma post_v1_loop_spec:
  assumes "num_args_expected v = Some n" and "length ps = n"
  shows "post_v1_loop v 0 ps (SetDefaultsForPostV1Arguments p) = (True, ota_spec v (target_slot p) ps)"
proof -
  from num_args_expected_bounds [OF assms(1)]
  have n: "n = 11 \<or> n = 12 \<or> n = 13 \<or> n = 14 \<or> n = 15 \<or> n = 16" by arith
  have ps: "ps = map ((!) ps) [0..<n]" using map_nth [of ps] assms(2) by simp
  have "post_v1_loop v 0 (map ((!) ps) [0..<n]) (SetDefaultsForPostV1Arguments p) =
      (True, ota_spec v (target_slot p) ps)"
    using n assms(2) by (elim disjE) (simp_all add: upt_eval post_v1_eval)
  with ps show ?thesis by metis
qed

lemma v1_loop_spec:
  assumes "length ps = 10"
  shows "v1_loop 0 ps (SetDefaultsForPostV1Arguments p) = (Some 10, ota_spec_v1 (target_slot p) ps)"
proof -
  have ps: "ps = map ((!) ps) [0..<10]" using map_nth [of ps] assms by simp
  have "v1_loop 0 (map ((!) ps) [0..<10]) (SetDefaultsForPostV1Arguments p) =
      (Some 10, ota_spec_v1 (target_slot p) ps)"
    using assms by (simp add: upt_eval v1_switch_def post_v1_eval ota_spec_v1_def dexopt_flag_defs Let_def)
  with ps show ?thesis by metis
qed

lemma ParseNull_amp: "ParseNull a = Some ''&'' \<longleftrightarrow> a = ''&''"
  by (auto simp: ParseNull_def)

lemma ReadArgumentsPostV1_spec:
  assumes v: "num_args_expected v = Some n" and ps: "drop (if versioned then 4 else 3) argv = ps"
    and d: "argv_at argv (if versioned then 3 else 2) = Some ''dexopt''"
  shows "ReadArgumentsPostV1 v argv versioned p =
    (if length ps \<noteq> n then (False, p)
     else (\<not> (v < 10 \<and> ps ! 9 = ''&''), ota_spec v (target_slot p) ps))"
proof -
  have i: "(if versioned then 3 else 2) + 1 = (if versioned then 4 else 3 :: nat)" by simp
  show ?thesis
  proof (cases "length ps = n")
    case True
    have "shared_libraries (ota_spec v (target_slot p) ps) = ParseNull (ps ! 9)"
      by (simp add: ota_spec_def)
    with True post_v1_loop_spec [OF v True, of p] show ?thesis
      unfolding ReadArgumentsPostV1_def v d Let_def option.case i ps by (simp add: ParseNull_amp)
  next
    case False
    then show ?thesis
      unfolding ReadArgumentsPostV1_def v d Let_def option.case i ps by simp
  qed
qed

text \<open>
  C39: with a version argument, \<open>ReadArguments\<close> accepts exactly when the slot is a word over
  \<open>[a-zA-Z0-9_]\<close>, the version is one of 2 to 10, the number of parameters is the version's and,
  before version 10, the libraries are not \<open>&\<close>; then every member of the object has the value
  of its parameter or its default, whatever it held before.
\<close>

theorem ReadArguments_versioned:
  assumes "ParseUInt ver = Some v"
  shows "ReadArguments (prog # slot # ver # ''dexopt'' # ps) p =
    (if \<not> ValidateTargetSlotSuffix slot then (False, p\<lparr>target_slot := slot\<rparr>)
     else if num_args_expected v \<noteq> Some (length ps) then (False, p\<lparr>target_slot := slot\<rparr>)
     else (\<not> (v < 10 \<and> ps ! 9 = ''&''), ota_spec v slot ps))"
proof -
  let ?argv = "prog # slot # ver # ''dexopt'' # ps" and ?p = "p\<lparr>target_slot := slot\<rparr>"
  have "ParseUInt ''dexopt'' = None"
    by (simp add: ParseUInt_def strtol_def is_space_chr_def any_digit_def)
  with assms have "ver \<noteq> ''dexopt''" by auto
  then have r: "ReadArguments ?argv p =
      (if \<not> ValidateTargetSlotSuffix slot then (False, ?p) else ReadArgumentsPostV1 v ?argv True ?p)"
    using assms by (simp add: ReadArguments_def argv_at_def Let_def)
  have a: "argv_at ?argv (if True then 3 else 2) = Some ''dexopt''" by (simp add: argv_at_def)
  show ?thesis
  proof (cases "num_args_expected v")
    case None
    then show ?thesis unfolding r by (simp add: ReadArgumentsPostV1_def)
  next
    case (Some n)
    show ?thesis
      unfolding r ReadArgumentsPostV1_spec [OF Some refl a] by (simp add: Some)
  qed
qed

theorem ReadArguments_versioned_witness:
  "(\<forall>p. ReadArguments [''otapreopt'', ''a'', ''3'', ''dexopt'', ''foo.apk'', ''123'', ''pkg'', ''arm'', ''1'',
      ''oat'', ''0'', ''speed'', ''!'', ''lib'', ''!'', ''true''] p =
    (True, ota_spec 3 ''a'' [''foo.apk'', ''123'', ''pkg'', ''arm'', ''1'', ''oat'', ''0'', ''speed'',
      ''!'', ''lib'', ''!'', ''true''])) \<and>
   downgrade (ota_spec 3 ''a'' [''foo.apk'', ''123'', ''pkg'', ''arm'', ''1'', ''oat'', ''0'', ''speed'',
      ''!'', ''lib'', ''!'', ''true'']) = True"
proof -
  have v: "ParseUInt ''3'' = Some 3"
    by (simp add: ParseUInt_def strtol_def is_space_chr_def any_digit_def clamp_i64_def to_u32_def)
  show ?thesis
    using ReadArguments_versioned [OF v, of "''otapreopt''" "''a''"
        "[''foo.apk'', ''123'', ''pkg'', ''arm'', ''1'', ''oat'', ''0'', ''speed'', ''!'', ''lib'', ''!'', ''true'']"]
    by (simp add: ValidateTargetSlotSuffix_def num_args_expected_def ota_spec_def given_def ParseBool_def)
qed

text \<open>
  without a version argument, eleven parameters are read as version 2 and ten as version 1;
  every other number is refused, and so is an illegal slot.  The version 1 reading does not
  refuse \<open>&\<close> as libraries.
\<close>

theorem ReadArguments_unversioned:
  "ReadArguments (prog # slot # ''dexopt'' # ps) p =
    (if \<not> ValidateTargetSlotSuffix slot then (False, p\<lparr>target_slot := slot\<rparr>)
     else if length ps = 11 then (ps ! 9 \<noteq> ''&'', ota_spec 2 slot ps)
     else if length ps = 10 then (True, ota_spec_v1 slot ps)
     else (False, snd (v1_loop 0 ps (SetDefaultsForPostV1Arguments (p\<lparr>target_slot := slot\<rparr>)))))"
proof -
  let ?argv = "prog # slot # ''dexopt'' # ps" and ?p = "p\<lparr>target_slot := slot\<rparr>"
  have r: "ReadArguments ?argv p =
      (if \<not> ValidateTargetSlotSuffix slot then (False, ?p)
       else if length ps = 11 then ReadArgumentsPostV1 2 ?argv False ?p else ReadArgumentsV1 ?argv ?p)"
    by (simp add: ReadArguments_def argv_at_def Let_def)
  have a: "argv_at ?argv (if False then 3 else 2) = Some ''dexopt''" by (simp add: argv_at_def)
  have n: "num_args_expected 2 = Some 11" by (simp add: num_args_expected_def)
  have two: "ReadArgumentsPostV1 2 ?argv False ?p = (ps ! 9 \<noteq> ''&'', ota_spec 2 slot ps)"
    if "length ps = 11"
    unfolding ReadArgumentsPostV1_spec [OF n refl a] using that by simp
  have v1: "ReadArgumentsV1 ?argv ?p =
      (case v1_loop 0 ps (SetDefaultsForPostV1Arguments ?p) of
         (None, p') \<Rightarrow> (False, p') | (Some i, p') \<Rightarrow> (i = 10, p'))"
    by (simp add: ReadArgumentsV1_def argv_at_def numeral_3_eq_3)
  have one: "ReadArgumentsV1 ?argv ?p = (True, ota_spec_v1 slot ps)" if "length ps = 10"
    unfolding v1 v1_loop_spec [OF that] by simp
  have other: "ReadArgumentsV1 ?argv ?p = (False, snd (v1_loop 0 ps (SetDefaultsForPostV1Arguments ?p)))"
    if "length ps \<noteq> 10"
    using v1_loop_index [of 0 ps "SetDefaultsForPostV1Arguments ?p"] that unfolding v1
    by (auto split: prod.splits option.splits if_splits)
  show ?thesis unfolding r using two one other by simp
qed

lemma bit_ReplaceMask:
  "bit (ReplaceMask i (2 ^ m) (2 ^ n)) k \<longleftrightarrow> k = n \<and> bit i m"
  by (auto simp: ReplaceMask_def and_exp_eq_0_iff_not_bit bit_simps)

text \<open>
  a version 1 command line sets exactly these flags: compact dex always, public,
  debuggable, boot-complete and profile-guided from bits 1, 3, 4 and 5 of the old word.
\<close>

theorem v1_flag_bits:
  "bit (dexopt_flags (ota_spec_v1 slot ps)) k \<longleftrightarrow>
     k = 11 \<or> (k = 1 \<and> bit (atoi (ps ! 6)) 1) \<or> (k = 2 \<and> bit (atoi (ps ! 6)) 3) \<or>
     (k = 3 \<and> bit (atoi (ps ! 6)) 4) \<or> (k = 4 \<and> bit (atoi (ps ! 6)) 5)"
proof -
  let ?i = "atoi (ps ! 6)"
  have "bit (2048 :: int) k \<longleftrightarrow> k = 11"
    using bit_exp_iff [where 'a = int, of 11 k] by auto
  moreover have "\<not> bit (ReplaceMask ?i 64 0) k" by (simp add: ReplaceMask_def)
  moreover note bit_ReplaceMask [of ?i 1 1 k, simplified] bit_ReplaceMask [of ?i 3 2 k, simplified]
    bit_ReplaceMask [of ?i 4 3 k, simplified] bit_ReplaceMask [of ?i 5 4 k, simplified]
  ultimately show ?thesis
    by (auto simp: ota_spec_v1_def bit_or_iff)
qed

end
