(* ===== verification/Fs.thy ===== *)
theory Fs
  imports Prelude "HOL-Library.AList"
begin

text \<open>
  The file system as the C programs see it through \<open>stat\<close>, \<open>opendir\<close>, \<open>mkdir\<close>, \<open>fopen\<close>
  and the calls that change one entry.  An entry is stored under its absolute path; the order
  of the list is the order of \<open>readdir\<close>.  Paths are keys: no link, \<open>.\<close> or \<open>..\<close> is resolved.
  Every call asks a fault oracle first, so that each failure branch of a caller can be taken.
  The stdio streams are a byte string with the room left behind it, or the bytes still unread.
\<close>

section \<open>Inodes and the file system\<close>

record inode =
  st_mode :: int
  st_uid :: int
  st_gid :: int
  st_size :: int
  st_atime :: int
  st_mtime :: int
  st_ctime :: int
  contents :: string

type_synonym fs = "(string \<times> inode) list"

datatype errno = EEXIST | ENOENT | ENOTDIR | EISDIR | ENOTEMPTY | EIO | EPERM

datatype syscall =
  SysOpendir | SysLstat | SysMkdir | SysFopenR | SysFopenW | SysUnlink | SysRmdir | SysChmod |
  SysChown | SysUtime | SysFlush | SysFsync

record sys_env =
  fault :: "syscall \<Rightarrow> string \<Rightarrow> errno option"
  now :: int
  disk_room :: "string \<Rightarrow> nat"

definition lookup :: "fs \<Rightarrow> string \<Rightarrow> inode option" where
  "lookup t p = map_of t p"

definition is_dir :: "fs \<Rightarrow> string \<Rightarrow> bool" where
  "is_dir t p = (case lookup t p of None \<Rightarrow> False | Some i \<Rightarrow> S_ISDIR (st_mode i))"

definition parent_of :: "string \<Rightarrow> string" where
  "parent_of p = (case rfind_char CHR ''/'' p of None \<Rightarrow> ''.'' | Some i \<Rightarrow> take i p)"

text \<open>The names that \<open>readdir\<close> reports for a directory.\<close>

definition children :: "fs \<Rightarrow> string \<Rightarrow> string list" where
  "children t p =
     map (\<lambda>q. drop (length p + 1) q)
       (filter (\<lambda>q. prefix (p @ ''/'') q \<and> length p + 1 < length q \<and>
                    CHR ''/'' \<notin> set (drop (length p + 1) q)) (map fst t))"

definition sys_opendir :: "sys_env \<Rightarrow> fs \<Rightarrow> string \<Rightarrow> errno + string list" where
  "sys_opendir e t p =
     (case fault e SysOpendir p of
        Some x \<Rightarrow> Inl x
      | None \<Rightarrow>
          (case lookup t p of
             None \<Rightarrow> Inl ENOENT
           | Some i \<Rightarrow> if S_ISDIR (st_mode i) then Inr (''.'' # ''..'' # children t p) else Inl ENOTDIR))"

definition sys_lstat :: "sys_env \<Rightarrow> fs \<Rightarrow> string \<Rightarrow> errno + inode" where
  "sys_lstat e t p =
     (case fault e SysLstat p of
        Some x \<Rightarrow> Inl x
      | None \<Rightarrow> (case lookup t p of None \<Rightarrow> Inl ENOENT | Some i \<Rightarrow> Inr i))"

text \<open>Adding or removing a name sets the times of the directory that holds it.\<close>

definition touch_parent :: "sys_env \<Rightarrow> string \<Rightarrow> fs \<Rightarrow> fs" where
  "touch_parent e p t =
     (case lookup t (parent_of p) of
        None \<Rightarrow> t
      | Some d \<Rightarrow> AList.update (parent_of p) (d\<lparr>st_mtime := now e, st_ctime := now e\<rparr>) t)"

definition new_inode :: "sys_env \<Rightarrow> int \<Rightarrow> inode" where
  "new_inode e m = \<lparr>st_mode = m, st_uid = 0, st_gid = 0, st_size = 0, st_atime = now e,
     st_mtime = now e, st_ctime = now e, contents = []\<rparr>"

definition sys_mkdir :: "sys_env \<Rightarrow> string \<Rightarrow> int \<Rightarrow> fs \<Rightarrow> errno + fs" where
  "sys_mkdir e p m t =
     (case fault e SysMkdir p of
        Some x \<Rightarrow> Inl x
      | None \<Rightarrow>
          if lookup t p \<noteq> None then Inl EEXIST
          else if \<not> is_dir t (parent_of p) then Inl ENOENT
          else Inr (touch_parent e p (AList.update p (new_inode e (S_IFDIR + m mod 4096)) t)))"

text \<open>\<open>fopen(p, "w")\<close> creates the file or truncates it; \<open>write_file\<close> stores what was written.\<close>

definition sys_fopen_w :: "sys_env \<Rightarrow> string \<Rightarrow> fs \<Rightarrow> errno + fs" where
  "sys_fopen_w e p t =
     (case fault e SysFopenW p of
        Some x \<Rightarrow> Inl x
      | None \<Rightarrow>
          (case lookup t p of
             Some i \<Rightarrow>
               if S_ISDIR (st_mode i) then Inl EISDIR
               else Inr (AList.update p (i\<lparr>contents := [], st_size := 0, st_mtime := now e,
                           st_ctime := now e\<rparr>) t)
           | None \<Rightarrow>
               if \<not> is_dir t (parent_of p) then Inl ENOENT
               else Inr (touch_parent e p (AList.update p (new_inode e (S_IFREG + 420)) t))))"

definition write_file :: "sys_env \<Rightarrow> string \<Rightarrow> string \<Rightarrow> fs \<Rightarrow> fs" where
  "write_file e p s t =
     (case lookup t p of
        None \<Rightarrow> t
      | Some i \<Rightarrow> AList.update p (i\<lparr>contents := s, st_size := int (length s)\<rparr>) t)"

definition sys_fopen_r :: "sys_env \<Rightarrow> string \<Rightarrow> fs \<Rightarrow> errno + string" where
  "sys_fopen_r e p t =
     (case fault e SysFopenR p of
        Some x \<Rightarrow> Inl x
      | None \<Rightarrow> (case lookup t p of None \<Rightarrow> Inl ENOENT | Some i \<Rightarrow> Inr (contents i)))"

definition sys_unlink :: "sys_env \<Rightarrow> string \<Rightarrow> fs \<Rightarrow> errno + fs" where
  "sys_unlink e p t =
     (case fault e SysUnlink p of
        Some x \<Rightarrow> Inl x
      | None \<Rightarrow>
          if lookup t p = None then Inl ENOENT
          else if is_dir t p then Inl EISDIR
          else Inr (touch_parent e p (AList.delete p t)))"

definition sys_rmdir :: "sys_env \<Rightarrow> string \<Rightarrow> fs \<Rightarrow> errno + fs" where
  "sys_rmdir e p t =
     (case fault e SysRmdir p of
        Some x \<Rightarrow> Inl x
      | None \<Rightarrow>
          if lookup t p = None then Inl ENOENT
          else if \<not> is_dir t p then Inl ENOTDIR
          else if children t p \<noteq> [] then Inl ENOTEMPTY
          else Inr (touch_parent e p (AList.delete p t)))"

text \<open>The calls that change the attributes of one entry.\<close>

definition sys_attr ::
  "syscall \<Rightarrow> (inode \<Rightarrow> inode) \<Rightarrow> sys_env \<Rightarrow> string \<Rightarrow> fs \<Rightarrow> errno + fs" where
  "sys_attr c f e p t =
     (case fault e c p of
        Some x \<Rightarrow> Inl x
      | None \<Rightarrow>
          (case lookup t p of
             None \<Rightarrow> Inl ENOENT
           | Some i \<Rightarrow> Inr (AList.update p ((f i)\<lparr>st_ctime := now e\<rparr>) t)))"

definition sys_chmod :: "sys_env \<Rightarrow> string \<Rightarrow> int \<Rightarrow> fs \<Rightarrow> errno + fs" where
  "sys_chmod e p m =
     sys_attr SysChmod (\<lambda>i. i\<lparr>st_mode := (st_mode i div 4096) * 4096 + m mod 4096\<rparr>) e p"

definition sys_chown :: "sys_env \<Rightarrow> string \<Rightarrow> int \<Rightarrow> int \<Rightarrow> fs \<Rightarrow> errno + fs" where
  "sys_chown e p u g = sys_attr SysChown (\<lambda>i. i\<lparr>st_uid := u, st_gid := g\<rparr>) e p"

definition sys_utime :: "sys_env \<Rightarrow> string \<Rightarrow> int \<Rightarrow> int \<Rightarrow> fs \<Rightarrow> errno + fs" where
  "sys_utime e p at mt = sys_attr SysUtime (\<lambda>i. i\<lparr>st_atime := at, st_mtime := mt\<rparr>) e p"

section \<open>Streams\<close>

record wfile =
  w_data :: string
  w_room :: nat

definition fwrite :: "string \<Rightarrow> wfile \<Rightarrow> nat \<times> wfile" where
  "fwrite s f =
     (let n = min (length s) (w_room f)
      in (n, \<lparr>w_data = w_data f @ take n s, w_room = w_room f - n\<rparr>))"

definition fread :: "nat \<Rightarrow> string \<Rightarrow> string \<times> string" where
  "fread n s = (take n s, drop n s)"

section \<open>Lookup after each change\<close>

lemma lookup_update [simp]:
  "lookup (AList.update p i t) q = (if q = p then Some i else lookup t q)"
  by (simp add: lookup_def update_conv')

lemma lookup_delete [simp]:
  "lookup (AList.delete p t) q = (if q = p then None else lookup t q)"
  by (simp add: lookup_def delete_conv')

lemma is_dir_iff: "is_dir t p \<longleftrightarrow> (\<exists>i. lookup t p = Some i \<and> S_ISDIR (st_mode i))"
  by (simp add: is_dir_def split: option.split)

lemma parent_of_child [simp]:
  "CHR ''/'' \<notin> set n \<Longrightarrow> parent_of (p @ CHR ''/'' # n) = p"
  by (simp add: parent_of_def rfind_char_append)

lemma parent_of_neq: "p \<noteq> [] \<Longrightarrow> p \<noteq> ''.'' \<Longrightarrow> parent_of p \<noteq> p"
  using rfind_char_Some(3) [of "CHR ''/''" p]
  by (auto simp: parent_of_def dest: arg_cong [where f = length] split: option.splits)

lemma lookup_touch_parent:
  "lookup (touch_parent e p t) q =
     (if q = parent_of p then map_option (\<lambda>d. d\<lparr>st_mtime := now e, st_ctime := now e\<rparr>) (lookup t q)
      else lookup t q)"
  by (simp add: touch_parent_def split: option.split)

lemma lookup_None_iff: "lookup t p = None \<longleftrightarrow> p \<notin> fst ` set t"
  by (simp add: lookup_def map_of_eq_None_iff)

lemma fst_update: "fst ` set (AList.update p i t) = insert p (fst ` set t)"
  using dom_update [of p i t] by simp

lemma fst_touch_parent: "fst ` set (touch_parent e p t) = fst ` set t"
  using lookup_None_iff [of t "parent_of p"]
  by (auto simp: touch_parent_def fst_update insert_absorb split: option.split)

lemma mem_children:
  "n \<in> set (children t p) \<longleftrightarrow>
     n \<noteq> [] \<and> CHR ''/'' \<notin> set n \<and> lookup t (p @ CHR ''/'' # n) \<noteq> None"
proof -
  let ?q = "p @ CHR ''/'' # n"
  have "n \<in> set (children t p) \<longleftrightarrow> ?q \<in> fst ` set t \<and> n \<noteq> [] \<and> CHR ''/'' \<notin> set n"
    (is "_ \<longleftrightarrow> ?r")
  proof
    show "n \<in> set (children t p) \<Longrightarrow> ?r" by (force simp: children_def prefix_def)
    assume r: ?r
    then have "drop (length p + 1) ?q = n" "prefix (p @ ''/'') ?q \<and> length p + 1 < length ?q" by auto
    with r show "n \<in> set (children t p)" unfolding children_def set_map set_filter
      by (intro image_eqI [of _ _ ?q]) (simp_all del: drop_append)
  qed
  then show ?thesis by (auto simp: lookup_None_iff)
qed

end
