(* ===== verification/Bytes.thy ===== *)
theory Bytes
  imports Prelude
begin

text \<open>
  Numbers as byte strings, the least significant byte first, as the archive format of \<open>rawbu\<close>
  and the binder protocol lay them out in memory.
\<close>

fun le_bytes :: "nat \<Rightarrow> nat \<Rightarrow> string" where
  "le_bytes 0 v = []"
| "le_bytes (Suc k) v = char_of (v mod 256) # le_bytes k (v div 256)"

fun le_val :: "string \<Rightarrow> nat" where
  "le_val [] = 0"
| "le_val (c # s) = of_char c + 256 * le_val s"

lemma length_le_bytes [simp]: "length (le_bytes k v) = k"
  by (induction k arbitrary: v) simp_all

lemma le_val_bytes: "le_val (le_bytes k v) = v mod 256 ^ k"
proof (induction k arbitrary: v)
  case (Suc k)
  have "v mod 256 ^ Suc k = v mod 256 + 256 * (v div 256 mod 256 ^ k)"
    by (simp add: mod_mult2_eq)
  with Suc show ?case by simp
qed simp

lemma le_val_bound: "le_val s < 256 ^ length s"
proof (induction s)
  case (Cons c s)
  have a: "of_char c < (256::nat)" by simp
  have b: "le_val s + 1 \<le> 256 ^ length s" using Cons by simp
  show ?case using a mult_le_mono2 [OF b, of 256]
    unfolding le_val.simps length_Cons power_Suc distrib_left mult_1_right by linarith
qed simp

lemma le_val_append: "le_val (s @ t) = le_val s + 256 ^ length s * le_val t"
  by (induction s) (simp_all add: algebra_simps)

lemma le_val_bytes_id: "v < 256 ^ k \<Longrightarrow> le_val (le_bytes k v) = v"
  by (simp add: le_val_bytes)

lemma le_bytes_val: "le_bytes (length s) (le_val s) = s"
  by (induction s) (simp_all del: of_char_eq_iff)

section \<open>Memory\<close>

text \<open>\<open>memcpy\<close> into a buffer, and reading from it.\<close>

definition write_at :: "nat \<Rightarrow> string \<Rightarrow> string \<Rightarrow> string" where
  "write_at pos s buf = take pos buf @ s @ drop (pos + length s) buf"

definition bytes_at :: "nat \<Rightarrow> nat \<Rightarrow> string \<Rightarrow> string" where
  "bytes_at pos n buf = take n (drop pos buf)"

lemma length_write_at [simp]: "pos + length s \<le> length buf \<Longrightarrow> length (write_at pos s buf) = length buf"
  by (simp add: write_at_def)

lemma length_bytes_at [simp]: "length (bytes_at pos n buf) = min n (length buf - pos)"
  by (simp add: bytes_at_def)

lemma bytes_at_written:
  assumes "pos + length s \<le> length buf" "pos \<le> q" "q + n \<le> pos + length s"
  shows "bytes_at q n (write_at pos s buf) = bytes_at (q - pos) n s"
  using assms by (simp add: bytes_at_def write_at_def)

lemma bytes_at_before:
  assumes "q + n \<le> pos" "pos \<le> length buf"
  shows "bytes_at q n (write_at pos s buf) = bytes_at q n buf"
  using assms by (simp add: bytes_at_def write_at_def take_drop min_def)

lemma take_write_at: "pos \<le> length buf \<Longrightarrow> take pos (write_at pos s buf) = take pos buf"
  by (simp add: write_at_def)

lemma take_written:
  assumes "pos + length s \<le> length buf"
  shows "take (pos + length s) (write_at pos s buf) = take pos buf @ s"
  using assms by (simp add: write_at_def)

end
