(* ===== verification/RawArchive.thy ===== *)
theory RawArchive
  imports Fs Bytes
begin

text \<open>
  The archive of \<open>rawbu\<close> (\<open>rawbu/backup.cpp\<close>): integers, the copying of contents and the record
  headers, written to a stream and read back.  Archives are byte strings, the integers in them
  little endian.  A function that returns 0 or 1 returns a \<open>bool\<close>; functions that write take
  the stream last and return it with the result.
\<close>

section \<open>Integers in the archive\<close>

definition FILE_VERSION_1 :: int where "FILE_VERSION_1 = 4294901761"
definition FILE_VERSION_2 :: int where "FILE_VERSION_2 = 4294901762"
definition FILE_VERSION :: int where "FILE_VERSION = FILE_VERSION_2"

text \<open>The C idiom \<open>if (!m) return 0;\<close> on functions that write to the same stream.\<close>

definition and_then :: "(wfile \<Rightarrow> bool \<times> wfile) \<Rightarrow> (wfile \<Rightarrow> bool \<times> wfile) \<Rightarrow> wfile \<Rightarrow> bool \<times> wfile" where
  "and_then m k f = (let (ok, f') = m f in if ok then k f' else (False, f'))"

definition write_all :: "string \<Rightarrow> wfile \<Rightarrow> bool \<times> wfile" where
  "write_all s f = (let (n, f') = fwrite s f in (n = length s, f'))"

definition int32_bytes :: "int \<Rightarrow> string" where
  "int32_bytes val = le_bytes 4 (nat (val mod 2 ^ 32))"

definition int64_bytes :: "int \<Rightarrow> string" where
  "int64_bytes val = le_bytes 8 (nat (val mod 2 ^ 64))"

definition write_int32 :: "int \<Rightarrow> wfile \<Rightarrow> bool \<times> wfile" where
  "write_int32 val = write_all (int32_bytes val)"

definition write_int64 :: "int \<Rightarrow> wfile \<Rightarrow> bool \<times> wfile" where
  "write_int64 val = write_all (int64_bytes val)"

definition read_int32 :: "int \<Rightarrow> string \<Rightarrow> int \<times> string" where
  "read_int32 defVal s =
     (let (v, s') = fread 4 s
      in (if length v \<noteq> 4 then defVal else to_i32 (int (le_val v)), s'))"

definition read_int64 :: "int \<Rightarrow> string \<Rightarrow> int \<times> string" where
  "read_int64 defVal s =
     (let (v, s') = fread 8 s
      in (if length v \<noteq> 8 then defVal else to_i64 (int (le_val v)), s'))"

section \<open>Copying\<close>

text \<open>
  \<open>copy_file\<close>: chunks of at most 8192 bytes, until \<open>sz\<close> bytes are copied, the source ends or
  the destination is full.  The result holds the rest of the source.
\<close>

function copy_file :: "int \<Rightarrow> wfile \<Rightarrow> string \<Rightarrow> bool \<times> wfile \<times> string" where
  "copy_file sz dest src =
     (if sz > 0 then
        (let amt = (if sz > 8192 then 8192 else sz);
             (buf, src') = fread (nat amt) src
         in if length buf = 0 then (False, dest, src')
            else (let (writeLen, dest') = fwrite buf dest
                  in if writeLen \<noteq> length buf then (False, dest', src')
                     else copy_file (sz - int (length buf)) dest' src'))
      else (True, dest, src))"
  by pat_completeness auto
termination
  by (relation "measure (\<lambda>(sz, _, _). nat sz)") (auto simp: fread_def)

declare copy_file.simps [simp del]

section \<open>Headers\<close>

definition TYPE_END :: int where "TYPE_END = 0"
definition TYPE_DIR :: int where "TYPE_DIR = 1"
definition TYPE_FILE :: int where "TYPE_FILE = 2"

definition write_header :: "int \<Rightarrow> string \<Rightarrow> inode \<Rightarrow> wfile \<Rightarrow> bool \<times> wfile" where
  "write_header type path st =
     and_then (write_int32 type) (
     and_then (write_int32 (int (length path))) (
     and_then (write_all path) (
     and_then (write_int32 (st_uid st)) (
     and_then (write_int32 (st_gid st)) (
     and_then (write_int32 (st_mode st)) (
     and_then (write_int64 (to_i64 (st_atime st * 1000 * 1000 * 1000))) (
     and_then (write_int64 (to_i64 (st_mtime st * 1000 * 1000 * 1000)))
       (write_int64 (to_i64 (st_ctime st * 1000 * 1000 * 1000))))))))))"

record hdr =
  h_type :: int
  h_path :: string
  h_uid :: int
  h_gid :: int
  h_mode :: int
  h_atime :: int
  h_mtime :: int
  h_ctime :: int

text \<open>
  Reading a header field by field: a reader returns \<open>None\<close> for the early \<open>return 0\<close>, and the
  rest of the stream in both cases.
\<close>

definition read_then ::
  "(string \<Rightarrow> 'a option \<times> string) \<Rightarrow> ('a \<Rightarrow> string \<Rightarrow> 'b option \<times> string) \<Rightarrow> string \<Rightarrow> 'b option \<times> string" where
  "read_then m k s = (case m s of (None, s') \<Rightarrow> (None, s') | (Some a, s') \<Rightarrow> k a s')"

definition get_int32 :: "(int \<Rightarrow> bool) \<Rightarrow> string \<Rightarrow> int option \<times> string" where
  "get_int32 bad s = (let (v, s') = read_int32 (-1) s in (if bad v then None else Some v, s'))"

definition get_int64 :: "(int \<Rightarrow> bool) \<Rightarrow> string \<Rightarrow> int option \<times> string" where
  "get_int64 bad s = (let (v, s') = read_int64 (-1) s in (if bad v then None else Some v, s'))"

definition get_path :: "int \<Rightarrow> string \<Rightarrow> string option \<times> string" where
  "get_path pathLen s =
     (let (readPath, s') = fread (nat pathLen) s
      in (if length readPath \<noteq> nat pathLen then None else Some readPath, s'))"

text \<open>
  The end marker leaves the members of the header alone (here zero).  The path is used as a C
  string, up to its first null byte.
\<close>

definition read_header :: "string \<Rightarrow> hdr option \<times> string" where
  "read_header =
     read_then (get_int32 (\<lambda>type. type \<noteq> TYPE_END \<and> type < 0)) (\<lambda>type.
     if type = TYPE_END then
       (\<lambda>s. (Some \<lparr>h_type = type, h_path = [], h_uid = 0, h_gid = 0, h_mode = 0, h_atime = 0,
          h_mtime = 0, h_ctime = 0\<rparr>, s))
     else
     read_then (get_int32 (\<lambda>pathLen. pathLen \<le> 0)) (\<lambda>pathLen.
     read_then (get_path pathLen) (\<lambda>readPath.
     read_then (get_int32 (\<lambda>uid. to_u32 uid = to_u32 (-1))) (\<lambda>uid.
     read_then (get_int32 (\<lambda>gid. to_u32 gid = to_u32 (-1))) (\<lambda>gid.
     read_then (get_int32 (\<lambda>mode. to_u32 mode = to_u32 (-1))) (\<lambda>mode.
     read_then (get_int64 (\<lambda>ltime. ltime < 0)) (\<lambda>atime.
     read_then (get_int64 (\<lambda>ltime. ltime < 0)) (\<lambda>mtime.
     read_then (get_int64 (\<lambda>ltime. ltime < 0)) (\<lambda>ctime s.
       (Some \<lparr>h_type = type, h_path = takeWhile (\<lambda>c. c \<noteq> CHR 0x00) readPath,
          h_uid = to_u32 uid, h_gid = to_u32 gid, h_mode = to_u32 mode mod 512,
          h_atime = atime div 1000 div 1000 div 1000,
          h_mtime = mtime div 1000 div 1000 div 1000,
          h_ctime = ctime div 1000 div 1000 div 1000\<rparr>, s))))))))))"

definition copy_to :: "int \<Rightarrow> string \<Rightarrow> wfile \<Rightarrow> bool \<times> wfile" where
  "copy_to sz src f = (let (ok, f', _) = copy_file sz f src in (ok, f'))"

section \<open>What a reader leaves\<close>

lemma read_int64_rest: "read_int64 d s = (v, s') \<Longrightarrow> length s' \<le> length s"
  by (auto simp: read_int64_def fread_def)

text \<open>Readers never give back more than they got.\<close>

definition shrinks :: "(string \<Rightarrow> 'a option \<times> string) \<Rightarrow> bool" where
  "shrinks m \<longleftrightarrow> (\<forall>s. length (snd (m s)) \<le> length s)"

lemma shrinks_prims:
  "shrinks (get_int32 P)" "shrinks (get_int64 P)" "shrinks (get_path n)" "shrinks (\<lambda>s. (r, s))"
  by (auto simp: shrinks_def get_int32_def get_int64_def get_path_def read_int32_def read_int64_def
      fread_def Let_def)

lemma shrinks_then:
  assumes m: "shrinks m" and k: "\<And>a. shrinks (k a)"
  shows "shrinks (read_then m k)"
  unfolding shrinks_def
proof
  fix s
  show "length (snd (read_then m k s)) \<le> length s"
  proof (cases "m s")
    case (Pair r s1)
    then have "length s1 \<le> length s" using m unfolding shrinks_def by (metis snd_conv)
    moreover have "length (snd (k a s1)) \<le> length s1" for a using k unfolding shrinks_def by blast
    ultimately show ?thesis
      using Pair by (auto simp: read_then_def split: option.split intro: le_trans)
  qed
qed

lemma read_header_less:
  assumes "read_header s = (Some h, s')" and "h_type h \<noteq> TYPE_END"
  shows "length s' < length s"
proof -
  have "\<exists>k. read_header = read_then (get_int32 (\<lambda>type. type \<noteq> TYPE_END \<and> type < 0)) k \<and>
      (\<forall>a. shrinks (k a))"
    unfolding read_header_def
    by (intro exI conjI allI, rule refl) (auto intro!: shrinks_then shrinks_prims)
  then obtain k where rh: "read_header = read_then (get_int32 (\<lambda>type. type \<noteq> TYPE_END \<and> type < 0)) k"
    and k: "\<And>a. shrinks (k a)"
    by auto
  from assms(1) obtain v s1 where "read_int32 (-1) s = (v, s1)" "0 \<le> v" "k v s1 = (Some h, s')"
    by (auto simp: rh read_then_def get_int32_def TYPE_END_def Let_def
        split: option.splits prod.splits if_splits)
  moreover from this have "length s1 < length s"
    by (auto simp: read_int32_def fread_def split: if_splits)
  moreover have "length s' \<le> length s1"
    using k [of v] calculation(3) by (auto simp: shrinks_def) (metis snd_conv)
  ultimately show ?thesis by linarith
qed

lemma copy_file_step:
  assumes "0 < sz" and "src \<noteq> []" and b: "b = take (nat (min 8192 sz)) src"
  shows "copy_file sz dest src =
    (if w_room dest < length b then (False, snd (fwrite b dest), drop (length b) src)
     else copy_file (sz - int (length b))
            \<lparr>w_data = w_data dest @ b, w_room = w_room dest - length b\<rparr> (drop (length b) src))"
proof -
  define amt where "amt = (if sz > 8192 then 8192 else sz)"
  have b': "b = take (nat amt) src" and "0 < amt" using b assms(1) by (auto simp: amt_def)
  have ne: "b \<noteq> []" using assms(2) \<open>0 < amt\<close> b' by auto
  have d: "drop (nat amt) src = drop (length b) src"
    by (auto simp: b' min_def)
  have "fread (nat amt) src = (b, drop (length b) src)" by (simp only: fread_def d flip: b')
  then show ?thesis
    using assms(1) ne
    by (subst copy_file.simps) (simp add: Let_def fwrite_def flip: amt_def)
qed

lemma copy_file_rest: "length (snd (snd (copy_file sz dest src))) \<le> length src"
proof (induction "length src" arbitrary: sz dest src rule: less_induct)
  case less
  show ?case
  proof (cases "0 < sz \<and> src \<noteq> []")
    case True
    define b where "b = take (nat (min 8192 sz)) src"
    have "length (drop (length b) src) < length src" using True by (auto simp: b_def)
    from less.hyps [OF this] this True show ?thesis
      by (subst copy_file_step [OF _ _ b_def]) (simp_all, meson diff_le_self le_trans)
  next
    case False
    then show ?thesis by (subst copy_file.simps) (auto simp: fread_def)
  qed
qed

section \<open>What a writer appends\<close>

text \<open>
  A function writes the string \<open>s\<close> and succeeds when \<open>ok\<close> holds and there is room; without
  room it writes what fits and fails.  All functions of the archive have this form.
\<close>

definition writer :: "(wfile \<Rightarrow> bool \<times> wfile) \<Rightarrow> string \<Rightarrow> bool \<Rightarrow> bool" where
  "writer m s ok \<longleftrightarrow>
     (\<forall>f. m f = (ok \<and> length s \<le> w_room f,
        \<lparr>w_data = w_data f @ take (w_room f) s, w_room = w_room f - length s\<rparr>))"

lemma writerI:
  "(\<And>f. m f = (ok \<and> length s \<le> w_room f,
      \<lparr>w_data = w_data f @ take (w_room f) s, w_room = w_room f - length s\<rparr>)) \<Longrightarrow> writer m s ok"
  by (simp add: writer_def)

lemma writerD:
  "writer m s ok \<Longrightarrow> m f = (ok \<and> length s \<le> w_room f,
      \<lparr>w_data = w_data f @ take (w_room f) s, w_room = w_room f - length s\<rparr>)"
  by (simp add: writer_def)

lemma writer_write_all: "writer (write_all s) s True"
  by (rule writerI) (auto simp: write_all_def fwrite_def Let_def min_def)

lemma writer_int32: "writer (write_int32 v) (int32_bytes v) True"
  by (simp add: write_int32_def writer_write_all)

lemma writer_int64: "writer (write_int64 v) (int64_bytes v) True"
  by (simp add: write_int64_def writer_write_all)

lemma writer_and_then:
  assumes "writer m s ok" and "writer k s' ok'"
  shows "writer (and_then m k) (if ok then s @ s' else s) (ok \<and> ok')"
  by (rule writerI) (auto simp: and_then_def writerD [OF assms(1)] writerD [OF assms(2)])

lemma writer_and_then_True:
  "writer m s True \<Longrightarrow> writer k s' ok' \<Longrightarrow> writer (and_then m k) (s @ s') ok'"
  using writer_and_then [of m s True k s' ok'] by simp

lemma writer_and_then_False: "writer m s False \<Longrightarrow> writer (and_then m k) s False"
  by (rule writerI) (auto simp: and_then_def writerD [of m s False])

lemma writer_return: "writer (\<lambda>f. (b, f)) [] b"
  by (rule writerI) simp

lemma take_split: "a \<le> n \<Longrightarrow> take a s @ take (n - a) (drop a s) = take n s"
  by (metis add_diff_inverse_nat linorder_not_less take_add)

lemma min_chunk:
  assumes "b = min L A" and "b \<le> r" and "A \<le> S"
  shows "r - b - min (S - b) (L - A) = r - min S (L :: nat)"
proof (cases "A \<le> L")
  case True
  then have "b = A" "A \<le> min S L" using assms by auto
  then show ?thesis by (simp only: min_diff diff_diff_eq le_add_diff_inverse)
next
  case False
  then show ?thesis using assms by simp
qed

lemma copy_file_eq:
  "copy_file sz dest src =
     (sz \<le> int (length src) \<and> nat sz \<le> w_room dest,
      \<lparr>w_data = w_data dest @ take (w_room dest) (take (nat sz) src),
        w_room = w_room dest - min (nat sz) (length src)\<rparr>,
      snd (snd (copy_file sz dest src)))"
proof (induction sz dest src rule: copy_file.induct)
  case (1 sz dest src)
  show ?case
  proof (cases "0 < sz \<and> src \<noteq> []")
    case False
    then show ?thesis
      by (subst (1 2) copy_file.simps) (auto simp: fread_def)
  next
    case True
    define amt where "amt = min 8192 sz"
    define buf where "buf = take (nat amt) src"
    have amt: "0 < amt" "amt \<le> sz" "(if 8192 < sz then 8192 else sz) = amt"
      using True by (auto simp: amt_def)
    have lb: "length buf = min (length src) (nat amt)" by (simp add: buf_def)
    have ne: "buf \<noteq> []" using True amt by (auto simp: buf_def)
    have fr: "fread (nat amt) src = (buf, drop (nat amt) src)" by (simp add: fread_def buf_def)
    show ?thesis
    proof (cases "w_room dest < length buf")
      case room: True
      have eq: "copy_file sz dest src = (False, snd (fwrite buf dest), drop (nat amt) src)"
        using True room ne by (subst copy_file.simps) (simp add: amt fr fwrite_def Let_def)
      have "w_room dest \<le> nat sz" using room lb nat_mono [OF amt(2)] by simp
      then have "take (w_room dest) buf = take (w_room dest) (take (nat sz) src)"
        using room amt lb by (simp add: buf_def min_absorb1)
      with room lb amt show ?thesis
        unfolding eq by (auto simp: fwrite_def Let_def)
    next
      case room: False
      let ?d = "\<lparr>w_data = w_data dest @ buf, w_room = w_room dest - length buf\<rparr>"
      let ?n = "sz - int (length buf)"
      have eq: "copy_file sz dest src = copy_file ?n ?d (drop (nat amt) src)"
        using True room ne by (subst copy_file.simps) (simp add: amt fr fwrite_def Let_def)
      have IH: "copy_file ?n ?d (drop (nat amt) src) =
         (?n \<le> int (length (drop (nat amt) src)) \<and> nat ?n \<le> w_room ?d,
          \<lparr>w_data = w_data ?d @ take (w_room ?d) (take (nat ?n) (drop (nat amt) src)),
            w_room = w_room ?d - min (nat ?n) (length (drop (nat amt) src))\<rparr>,
          snd (snd (copy_file ?n ?d (drop (nat amt) src))))"
        using "1" [of amt "(buf, drop (nat amt) src)" buf "drop (nat amt) src" "(length buf, ?d)"
            "length buf" ?d] True ne room amt fr
        by (simp add: fwrite_def Let_def)
      have split: "buf @ take (w_room dest - length buf) (take (nat ?n) (drop (nat amt) src)) =
          take (w_room dest) (take (nat sz) src)"
      proof (cases "nat amt \<le> length src")
        case True
        then have l: "length buf = nat amt" using lb by simp
        have n: "nat ?n = nat sz - nat amt" using l amt by (simp add: nat_diff_distrib)
        have "nat amt \<le> min (w_room dest) (nat sz)" using room l nat_mono [OF amt(2)] by simp
        from take_split [OF this, of src] show ?thesis
          unfolding n unfolding l unfolding take_take min_diff buf_def by simp
      next
        case False
        then show ?thesis using room amt by (simp add: buf_def)
      qed
      have nn: "nat ?n = nat sz - length buf" by (simp add: nat_diff_distrib)
      have A: "length buf \<le> w_room dest" "nat amt \<le> nat sz" "0 < nat sz"
        using room amt nat_mono [OF amt(2)] by auto
      have 1: "(?n \<le> int (length (drop (nat amt) src)) \<and> nat ?n \<le> w_room ?d) \<longleftrightarrow>
          (sz \<le> int (length src) \<and> nat sz \<le> w_room dest)"
        unfolding nn using lb A by (cases "nat amt \<le> length src") (simp_all, linarith+)
      have 2: "w_room ?d - min (nat ?n) (length (drop (nat amt) src)) =
          w_room dest - min (nat sz) (length src)"
        unfolding nn length_drop wfile.select_convs by (rule min_chunk [OF lb A(1,2)])
      have 3: "w_data ?d @ take (w_room ?d) (take (nat ?n) (drop (nat amt) src)) =
          w_data dest @ take (w_room dest) (take (nat sz) src)"
        using split by simp
      show ?thesis unfolding eq by (rule IH [unfolded 1 2 3])
    qed
  qed
qed

lemma writer_copy_to:
  "writer (copy_to sz src) (take (nat sz) src) (sz \<le> int (length src))"
proof (rule writerI)
  fix f :: wfile
  have "copy_to sz src f = (fst (copy_file sz f src), fst (snd (copy_file sz f src)))"
    by (simp add: copy_to_def Let_def split: prod.split)
  moreover have "sz \<le> int (length src) \<and> nat sz \<le> w_room f \<longleftrightarrow>
      sz \<le> int (length src) \<and> length (take (nat sz) src) \<le> w_room f"
    by auto
  ultimately show "copy_to sz src f = (sz \<le> int (length src) \<and> length (take (nat sz) src) \<le> w_room f,
      \<lparr>w_data = w_data f @ take (w_room f) (take (nat sz) src),
       w_room = w_room f - length (take (nat sz) src)\<rparr>)"
    using copy_file_eq [of sz f src]
    by (cases "copy_file sz f src") (simp add: min.commute)
qed

section \<open>Reading back what was written\<close>

lemma to_i32_mod [simp]: "to_i32 (v mod 2 ^ 32) = to_i32 v"
  by (simp add: to_i32_def mod_simps)

lemma to_i64_mod [simp]: "to_i64 (v mod 2 ^ 64) = to_i64 v"
  by (simp add: to_i64_def mod_simps)

lemma read_int32_bytes [simp]: "read_int32 d (int32_bytes v @ s) = (to_i32 v, s)"
proof -
  have "le_val (le_bytes 4 (nat (v mod 2 ^ 32))) = nat (v mod 2 ^ 32)"
    unfolding le_val_bytes by (simp add: nat_less_iff)
  then have "int (le_val (int32_bytes v)) = v mod 2 ^ 32" by (simp add: int32_bytes_def)
  moreover have "length (int32_bytes v) = 4" by (simp add: int32_bytes_def)
  ultimately show ?thesis using to_i32_mod [of v] by (simp add: read_int32_def fread_def)
qed

lemma read_int64_bytes [simp]: "read_int64 d (int64_bytes v @ s) = (to_i64 v, s)"
proof -
  have "le_val (le_bytes 8 (nat (v mod 2 ^ 64))) = nat (v mod 2 ^ 64)"
    unfolding le_val_bytes by (simp add: nat_less_iff)
  then have "int (le_val (int64_bytes v)) = v mod 2 ^ 64" by (simp add: int64_bytes_def)
  moreover have "length (int64_bytes v) = 8" by (simp add: int64_bytes_def)
  ultimately show ?thesis using to_i64_mod [of v] by (simp add: read_int64_def fread_def)
qed

definition header_bytes :: "int \<Rightarrow> string \<Rightarrow> inode \<Rightarrow> string" where
  "header_bytes type path st =
     int32_bytes type @ int32_bytes (int (length path)) @ path @ int32_bytes (st_uid st) @
     int32_bytes (st_gid st) @ int32_bytes (st_mode st) @
     int64_bytes (to_i64 (st_atime st * 1000 * 1000 * 1000)) @
     int64_bytes (to_i64 (st_mtime st * 1000 * 1000 * 1000)) @
     int64_bytes (to_i64 (st_ctime st * 1000 * 1000 * 1000))"

lemma writer_header: "writer (write_header type path st) (header_bytes type path st) True"
  unfolding write_header_def header_bytes_def
  by (intro writer_and_then_True writer_int32 writer_int64 writer_write_all)

text \<open>What an inode must satisfy for its header to be accepted by \<open>read_header\<close>.\<close>

definition sane_time :: "int \<Rightarrow> bool" where
  "sane_time t \<longleftrightarrow> 0 \<le> t \<and> t * 1000000000 < 2 ^ 63"

definition sane_inode :: "inode \<Rightarrow> bool" where
  "sane_inode st \<longleftrightarrow> 0 \<le> st_uid st \<and> st_uid st < 2 ^ 32 - 1 \<and> 0 \<le> st_gid st \<and> st_gid st < 2 ^ 32 - 1 \<and>
     0 \<le> st_mode st \<and> st_mode st < 2 ^ 32 - 1 \<and> sane_time (st_atime st) \<and> sane_time (st_mtime st) \<and>
     sane_time (st_ctime st)"

definition sane_path :: "string \<Rightarrow> bool" where
  "sane_path p \<longleftrightarrow> p \<noteq> [] \<and> hd p = CHR ''/'' \<and> CHR 0x00 \<notin> set p \<and> length p < 2 ^ 31"

lemma to_u32_i32: "to_u32 (to_i32 v) = to_u32 v"
  by (simp add: to_u32_def to_i32_def mod_simps)

lemma to_u32_id: "0 \<le> v \<Longrightarrow> v < 2 ^ 32 \<Longrightarrow> to_u32 v = v"
  by (simp add: to_u32_def)

lemma sane_time_back:
  assumes "sane_time t"
  shows "to_i64 (to_i64 (1000000000 * t)) = 1000000000 * t"
    "1000000000 * t div 1000 div 1000 div 1000 = t" "\<not> 1000000000 * t < 0"
proof -
  have "to_i64 (1000000000 * t) = 1000000000 * t"
    using assms by (intro to_i64_id) (auto simp: sane_time_def)
  then show "to_i64 (to_i64 (1000000000 * t)) = 1000000000 * t" by simp
  show "1000000000 * t div 1000 div 1000 div 1000 = t"
    by (simp add: zdiv_zmult2_eq [symmetric])
  show "\<not> 1000000000 * t < 0" using assms by (simp add: sane_time_def)
qed

lemma get_int32_bytes:
  "get_int32 bad (int32_bytes v @ s) = (if bad (to_i32 v) then None else Some (to_i32 v), s)"
  by (simp add: get_int32_def)

lemma get_int64_bytes:
  "get_int64 bad (int64_bytes v @ s) = (if bad (to_i64 v) then None else Some (to_i64 v), s)"
  by (simp add: get_int64_def)

lemma get_path_append: "get_path (int (length p)) (p @ s) = (Some p, s)"
  by (simp add: get_path_def fread_def)

lemma read_header_bytes:
  assumes type: "type = TYPE_DIR \<or> type = TYPE_FILE" and p: "sane_path path" and st: "sane_inode st"
  shows "read_header (header_bytes type path st @ s) =
    (Some \<lparr>h_type = type, h_path = path, h_uid = st_uid st, h_gid = st_gid st,
       h_mode = st_mode st mod 512, h_atime = st_atime st, h_mtime = st_mtime st,
       h_ctime = st_ctime st\<rparr>, s)"
proof -
  have ty: "to_i32 type = type" "0 < type" using type by (auto simp: TYPE_DIR_def TYPE_FILE_def to_i32_def)
  have len: "to_i32 (int (length path)) = int (length path)" "0 < int (length path)"
    using p by (auto simp: sane_path_def intro!: to_i32_id)
  have u: "to_u32 (st_uid st) = st_uid st" "to_u32 (st_gid st) = st_gid st" "to_u32 (st_mode st) = st_mode st"
    using st by (auto simp: sane_inode_def intro!: to_u32_id)
  have m1: "to_u32 (- 1) = 2 ^ 32 - 1" by (simp add: to_u32_def)
  have tw: "takeWhile (\<lambda>c. c \<noteq> CHR 0x00) path = path"
    using p by (auto simp: sane_path_def takeWhile_eq_all_conv)
  have "sane_time (st_atime st)" "sane_time (st_mtime st)" "sane_time (st_ctime st)"
    using st by (simp_all add: sane_inode_def)
  note times = this [THEN sane_time_back(1)] this [THEN sane_time_back(2)] this [THEN sane_time_back(3)]
  show ?thesis
    using st ty len times unfolding header_bytes_def append_assoc read_header_def read_then_def
    by (simp add: get_int32_bytes get_int64_bytes get_path_append to_u32_i32 u m1 tw TYPE_END_def
        sane_inode_def)
qed

end
