(* ===== verification/Getopt.thy ===== *)
theory Getopt
  imports Prelude
begin

text \<open>
  The C library's \<open>getopt\<close> for short options, as the programs with an option loop use it: no
  permutation, the scan stops at the first word that is not an option.  The state is the rest of
  the option word being read (\<open>place\<close>) and the words from \<open>optind\<close> on; a call returns the
  option with its argument, \<open>'?'\<close>, or -1.
\<close>

datatype gret = GEnd | GOpt char cstring | GBad

record gopt =
  place :: string
  from_optind :: "string list"

text \<open>\<open>Some True\<close>: the option takes an argument; \<open>None\<close>: it is not in the option string.\<close>

fun opt_lookup :: "string \<Rightarrow> char \<Rightarrow> bool option" where
  "opt_lookup [] c = None"
| "opt_lookup (x # xs) c =
     (if x = c \<and> c \<noteq> CHR '':'' then Some (xs \<noteq> [] \<and> hd xs = CHR '':'') else opt_lookup xs c)"

definition getopt_char :: "string \<Rightarrow> char \<Rightarrow> string \<Rightarrow> string list \<Rightarrow> gret \<times> gopt" where
  "getopt_char os c pl args =
     (case opt_lookup os c of
        None \<Rightarrow>
          if c = CHR ''-'' \<and> pl = [] then (GEnd, \<lparr>place = [], from_optind = args\<rparr>)
          else (GBad, \<lparr>place = pl, from_optind = (if pl = [] then tl args else args)\<rparr>)
      | Some False \<Rightarrow>
          (GOpt c None, \<lparr>place = pl, from_optind = (if pl = [] then tl args else args)\<rparr>)
      | Some True \<Rightarrow>
          if pl \<noteq> [] then (GOpt c (Some pl), \<lparr>place = [], from_optind = tl args\<rparr>)
          else (case tl args of
                  [] \<Rightarrow> (GBad, \<lparr>place = [], from_optind = []\<rparr>)
                | a # rest \<Rightarrow> (GOpt c (Some a), \<lparr>place = [], from_optind = rest\<rparr>)))"

definition getopt :: "string \<Rightarrow> gopt \<Rightarrow> gret \<times> gopt" where
  "getopt os g =
     (case place g of
        c # pl \<Rightarrow> getopt_char os c pl (from_optind g)
      | [] \<Rightarrow>
          (case from_optind g of
             [] \<Rightarrow> (GEnd, g)
           | a # rest \<Rightarrow>
               if a = ''--'' then (GEnd, g\<lparr>from_optind := rest\<rparr>)
               else (case a of
                       x # c # pl \<Rightarrow>
                         if x = CHR ''-'' then getopt_char os c pl (from_optind g) else (GEnd, g)
                     | _ \<Rightarrow> (GEnd, g))))"

text \<open>Every call that does not end the scan consumes a character, so option loops end.\<close>

definition gopt_size :: "gopt \<Rightarrow> nat" where
  "gopt_size g =
     (case from_optind g of
        [] \<Rightarrow> 2 * length (place g)
      | a # rest \<Rightarrow>
          sum_list (map (\<lambda>w. 2 * length w + 1) rest) + 1 +
          (if place g = [] then 2 * length a else 2 * length (place g)))"

lemma gopt_size_Nil: "gopt_size \<lparr>place = [], from_optind = xs\<rparr> = sum_list (map (\<lambda>w. 2 * length w + 1) xs)"
  by (cases xs) (simp_all add: gopt_size_def)

lemma getopt_char_progress:
  assumes "getopt_char os c pl args = (r, g')" and "r \<noteq> GEnd"
  shows "gopt_size g' < sum_list (map (\<lambda>w. 2 * length w + 1) (tl args)) + 1 + 2 * (length pl + 1)"
  using assms
  by (cases args; cases "tl args")
    (auto simp: getopt_char_def gopt_size_def split: option.splits bool.splits if_splits list.split)

lemma getopt_char_progress_Nil:
  assumes "getopt_char os c pl [] = (r, g')" and "r \<noteq> GEnd"
  shows "gopt_size g' < 2 * (length pl + 1)"
  using assms
  by (auto simp: getopt_char_def gopt_size_def split: option.splits bool.splits if_splits)

lemma getopt_progress:
  assumes "getopt os g = (r, g')" and "r \<noteq> GEnd"
  shows "gopt_size g' < gopt_size g"
proof (cases "place g")
  case (Cons c pl)
  then show ?thesis
    using assms getopt_char_progress [of os c pl "from_optind g" r g']
      getopt_char_progress_Nil [of os c pl r g']
    by (cases "from_optind g") (simp_all add: getopt_def gopt_size_def)
next
  case Nil
  with assms obtain x c pl rest where "from_optind g = (x # c # pl) # rest"
    and "getopt_char os c pl ((x # c # pl) # rest) = (r, g')"
    by (auto simp: getopt_def split: list.splits if_splits)
  with getopt_char_progress [of os c pl "(x # c # pl) # rest" r g'] assms(2) Nil show ?thesis
    by (simp add: gopt_size_def)
qed

end
