(* ===== verification/RawBackup.thy ===== *)
theory RawBackup
  imports RawArchive Getopt
begin

text \<open>
  \<open>rawbu\<close> (\<open>rawbu/backup.cpp\<close>): the wipe of \<open>/data\<close>, the backup, the restore and the command
  line, over the archive format of \<open>RawArchive\<close> and the file system of \<open>Fs\<close>.
\<close>

section \<open>Wiping\<close>

datatype special = SPECIAL_NO_TOUCH | SPECIAL_NO_BACKUP

definition SKIP_PATHS :: "(string \<times> special) list" where
  "SKIP_PATHS =
     [(''/data/misc'', SPECIAL_NO_TOUCH),
      (''/data/system/batterystats.bin'', SPECIAL_NO_TOUCH),
      (''/data/system/location'', SPECIAL_NO_TOUCH),
      (''/data/dalvik-cache'', SPECIAL_NO_BACKUP)]"

definition skipped_name :: "string \<Rightarrow> bool" where
  "skipped_name n \<longleftrightarrow> n = ''.'' \<or> n = ''..'' \<or> n = ''lost+found''"

text \<open>The calls that only warn keep the file system when they fail.\<close>

definition or_warn :: "(fs \<Rightarrow> errno + fs) \<Rightarrow> fs \<Rightarrow> fs" where
  "or_warn c t = (case c t of Inl _ \<Rightarrow> t | Inr t' \<Rightarrow> t')"

text \<open>
  The loop over the names of one directory; \<open>rec\<close> is the recursive call, \<open>None\<close> stands for
  fuel that ran out.
\<close>

primrec wipe_entries ::
  "sys_env \<Rightarrow> bool \<Rightarrow> cstring \<Rightarrow> (string \<Rightarrow> fs \<Rightarrow> (bool \<times> fs) option) \<Rightarrow> string \<Rightarrow>
   string list \<Rightarrow> fs \<Rightarrow> (bool \<times> fs) option" where
  "wipe_entries e backupAll bfp rec path [] t = Some (True, t)"
| "wipe_entries e backupAll bfp rec path (n # ns) t =
     (if skipped_name n then wipe_entries e backupAll bfp rec path ns t
      else
        (let nameBuffer = path @ ''/'' @ n;
             special = map_of SKIP_PATHS nameBuffer;
             noBackup = (special \<noteq> None \<and> (backupAll \<or> special = Some SPECIAL_NO_BACKUP))
         in if \<not> noBackup \<and> special \<noteq> None then wipe_entries e backupAll bfp rec path ns t
            else
              (case sys_lstat e t nameBuffer of
                 Inl _ \<Rightarrow> wipe_entries e backupAll bfp rec path ns t
               | Inr st \<Rightarrow>
                   if S_ISDIR (st_mode st) then
                     (case rec nameBuffer t of
                        None \<Rightarrow> None
                      | Some (ok, t') \<Rightarrow>
                          if \<not> ok then Some (False, t')
                          else wipe_entries e backupAll bfp rec path ns
                                 (if noBackup then t' else or_warn (sys_rmdir e nameBuffer) t'))
                   else if bfp = Some nameBuffer then wipe_entries e backupAll bfp rec path ns t
                   else wipe_entries e backupAll bfp rec path ns
                          (or_warn (sys_unlink e nameBuffer) t))))"

primrec wipe :: "nat \<Rightarrow> sys_env \<Rightarrow> bool \<Rightarrow> cstring \<Rightarrow> string \<Rightarrow> fs \<Rightarrow> (bool \<times> fs) option" where
  "wipe 0 e backupAll bfp path t = None"
| "wipe (Suc fuel) e backupAll bfp path t =
     (case sys_opendir e t path of
        Inl _ \<Rightarrow> Some (False, t)
      | Inr names \<Rightarrow> wipe_entries e backupAll bfp (wipe fuel e backupAll bfp) path names t)"

section \<open>Backup\<close>

text \<open>How many entries lie below a directory: the measure of the walks.\<close>

definition below :: "fs \<Rightarrow> string \<Rightarrow> nat" where
  "below t p = length (filter (prefix (p @ ''/'')) (map fst t))"

lemma below_child:
  assumes "lookup t (p @ CHR ''/'' # n) \<noteq> None"
  shows "below t (p @ CHR ''/'' # n) < below t p"
proof -
  let ?q = "p @ CHR ''/'' # n" and ?ks = "map fst t"
  let ?rest = "filter (\<lambda>k. prefix (p @ ''/'') k \<and> k \<noteq> ?q) ?ks"
  have "k \<noteq> ?q" if "prefix (?q @ ''/'') k" for k using that by (auto simp: prefix_def)
  then have eq: "filter (prefix (?q @ ''/'')) ?ks = filter (prefix (?q @ ''/'')) ?rest"
    unfolding filter_filter by (intro filter_cong) (auto simp: prefix_def)
  have q: "?q \<in> set (filter (prefix (p @ ''/'')) ?ks)"
    using assms by (auto simp: lookup_None_iff)
  have "below t ?q \<le> length ?rest"
    unfolding below_def eq by (rule length_filter_le)
  also have "?rest = filter (\<lambda>k. k \<noteq> ?q) (filter (prefix (p @ ''/'')) ?ks)"
    by (simp add: conj_commute)
  also have "length \<dots> < below t p"
    unfolding below_def using q by (rule length_filter_less) simp
  finally show ?thesis .
qed

function backup_dir :: "sys_env \<Rightarrow> fs \<Rightarrow> bool \<Rightarrow> cstring \<Rightarrow> string \<Rightarrow> wfile \<Rightarrow> bool \<times> wfile"
  and backup_entries ::
    "sys_env \<Rightarrow> fs \<Rightarrow> bool \<Rightarrow> cstring \<Rightarrow> string \<Rightarrow> string list \<Rightarrow> wfile \<Rightarrow> bool \<times> wfile" where
  "backup_dir e t backupAll bfp srcPath =
     (case sys_opendir e t srcPath of
        Inl _ \<Rightarrow> (\<lambda>f. (False, f))
      | Inr names \<Rightarrow> backup_entries e t backupAll bfp srcPath names)"
| "backup_entries e t backupAll bfp srcPath [] = (\<lambda>f. (True, f))"
| "backup_entries e t backupAll bfp srcPath (n # ns) =
     (if skipped_name n then backup_entries e t backupAll bfp srcPath ns
      else
        (let fullPath = srcPath @ ''/'' @ n
         in if \<not> backupAll \<and> map_of SKIP_PATHS fullPath \<noteq> None
            then backup_entries e t backupAll bfp srcPath ns
            else
              (case sys_lstat e t fullPath of
                 Inl _ \<Rightarrow> (\<lambda>f. (False, f))
               | Inr st \<Rightarrow>
                   if S_ISDIR (st_mode st) then
                     and_then (write_header TYPE_DIR fullPath st) (
                     and_then (backup_dir e t backupAll bfp fullPath)
                       (backup_entries e t backupAll bfp srcPath ns))
                   else if S_ISREG (st_mode st) then
                     (if bfp = Some fullPath then backup_entries e t backupAll bfp srcPath ns
                      else
                        and_then (write_header TYPE_FILE fullPath st) (
                        and_then (write_int64 (st_size st)) (
                          case sys_fopen_r e fullPath t of
                            Inl _ \<Rightarrow> (\<lambda>f. (False, f))
                          | Inr src \<Rightarrow>
                              and_then (copy_to (st_size st) src)
                                (backup_entries e t backupAll bfp srcPath ns))))
                   else backup_entries e t backupAll bfp srcPath ns)))"
  by pat_completeness auto
termination
  by (relation "inv_image (less_than <*lex*> less_than <*lex*> less_than)
        (\<lambda>x. case x of Inl (e, t, a, b, p) \<Rightarrow> (below t p, 1, 0)
                     | Inr (e, t, a, b, p, ns) \<Rightarrow> (below t p, 0, length ns))")
    (auto simp: sys_lstat_def intro!: below_child split: option.splits)

declare backup_dir.simps [simp del] backup_entries.simps(2) [simp del]

definition backup_data :: "sys_env \<Rightarrow> bool \<Rightarrow> string \<Rightarrow> fs \<Rightarrow> int \<times> fs" where
  "backup_data e backupAll destPath t =
     (case sys_fopen_w e destPath t of
        Inl _ \<Rightarrow> (-1, t)
      | Inr t1 \<Rightarrow>
          (let (ok, f) =
             and_then (write_int32 FILE_VERSION) (
             and_then (write_int32 (if backupAll then 1 else 0)) (
             and_then (backup_dir e t1 backupAll (Some destPath) ''/data'')
               (write_int32 0)))
               \<lparr>w_data = [], w_room = disk_room e destPath\<rparr>;
               t2 = write_file e destPath (w_data f) t1
           in if fault e SysFlush destPath \<noteq> None then (-1, t2)
              else if fault e SysFsync destPath \<noteq> None then (-1, t2)
              else (if ok then 0 else -1, t2)))"

section \<open>Restore\<close>

text \<open>
  One record of the restore loop up to the attributes: the directory is made, or the file is
  written from the stream.  An existing entry under the path of a directory is accepted.
\<close>

definition restore_node :: "sys_env \<Rightarrow> hdr \<Rightarrow> string \<Rightarrow> fs \<Rightarrow> bool \<times> string \<times> fs" where
  "restore_node e h s t =
     (if h_type h = TYPE_DIR then
        (case sys_mkdir e (h_path h) (h_mode h) t of
           Inl x \<Rightarrow> (x = EEXIST, s, t)
         | Inr t' \<Rightarrow> (True, s, t'))
      else if h_type h = TYPE_FILE then
        (let (sz, s) = read_int64 (-1) s
         in if sz < 0 then (False, s, t)
            else (case sys_fopen_w e (h_path h) t of
                    Inl _ \<Rightarrow> (False, s, t)
                  | Inr t' \<Rightarrow>
                      (let (copyres, dest, s) =
                         copy_file sz \<lparr>w_data = [], w_room = disk_room e (h_path h)\<rparr> s
                       in (copyres, s, write_file e (h_path h) (w_data dest) t'))))
      else (False, s, t))"

definition restore_attrs :: "sys_env \<Rightarrow> hdr \<Rightarrow> fs \<Rightarrow> bool \<times> fs" where
  "restore_attrs e h t =
     (case sys_chmod e (h_path h) (h_mode h mod 512) t of
        Inl _ \<Rightarrow> (False, t)
      | Inr t \<Rightarrow>
          (case sys_chown e (h_path h) (h_uid h) (h_gid h) t of
             Inl _ \<Rightarrow> (False, t)
           | Inr t \<Rightarrow>
               (case sys_utime e (h_path h) (h_atime h) (h_mtime h) t of
                  Inl _ \<Rightarrow> (False, t)
                | Inr t \<Rightarrow> (True, t))))"

lemma restore_node_rest:
  assumes "restore_node e h s t = (ok, s', t')"
  shows "length s' \<le> length s"
proof (cases "h_type h = TYPE_FILE")
  case False
  then show ?thesis using assms
    by (auto simp: restore_node_def split: if_splits sum.splits)
next
  case True
  obtain sz s1 where r: "read_int64 (-1) s = (sz, s1)" by fastforce
  have "length s1 \<le> length s" using r by (rule read_int64_rest)
  moreover have "s' = s1 \<or> (\<exists>d. s' = snd (snd (copy_file sz d s1)))"
    using assms True by (auto simp: restore_node_def r Let_def TYPE_FILE_def TYPE_DIR_def
        split: if_splits sum.splits prod.splits) (metis snd_conv)
  ultimately show ?thesis using copy_file_rest le_trans by metis
qed

text \<open>The loop over the records: it ends at the end marker or at the first failure.\<close>

function restore_loop :: "sys_env \<Rightarrow> string \<Rightarrow> fs \<Rightarrow> bool \<times> fs" where
  "restore_loop e s t =
     (case read_header s of
        (None, _) \<Rightarrow> (False, t)
      | (Some h, s1) \<Rightarrow>
          if h_type h = TYPE_END then (True, t)
          else (case restore_node e h s1 t of
                  (False, _, t1) \<Rightarrow> (False, t1)
                | (True, s2, t1) \<Rightarrow>
                    (case restore_attrs e h t1 of
                       (False, t2) \<Rightarrow> (False, t2)
                     | (True, t2) \<Rightarrow> restore_loop e s2 t2)))"
  by pat_completeness auto
termination
  by (relation "measure (\<lambda>(e, s, t). length s)")
    (auto dest!: read_header_less [OF sym] restore_node_rest [OF sym])

declare restore_loop.simps [simp del]

text \<open>
  \<open>None\<close> only when the fuel of the wipe runs out, which lemma \<open>restore_data_returns\<close>
  excludes.
\<close>

definition restore_data :: "sys_env \<Rightarrow> string \<Rightarrow> fs \<Rightarrow> (int \<times> fs) option" where
  "restore_data e srcPath t =
     (case sys_fopen_r e srcPath t of
        Inl _ \<Rightarrow> Some (-1, t)
      | Inr s \<Rightarrow>
          (let (v, s) = read_int32 0 s;
               inputFileVersion = to_u32 v
           in if inputFileVersion < FILE_VERSION_1 \<or> inputFileVersion > FILE_VERSION then Some (-1, t)
              else
                (let (opt_backupAll, s) =
                       (if inputFileVersion \<ge> FILE_VERSION_2 then read_int32 0 s else (0, s))
                 in case wipe (Suc (length t)) e (opt_backupAll \<noteq> 0) (Some srcPath) ''/data'' t of
                      None \<Rightarrow> None
                    | Some (False, t1) \<Rightarrow> Some (-1, t1)
                    | Some (True, t1) \<Rightarrow>
                        (case restore_loop e s t1 of
                           (ok, t2) \<Rightarrow> Some (if ok then 0 else -1, t2)))))"

section \<open>The command line\<close>

datatype raw_action = PropertySet string string | SleepFor nat

text \<open>The option loop: the exit status of an early exit, or the flag and the words left.\<close>

function raw_options :: "bool \<Rightarrow> gopt \<Rightarrow> int + bool \<times> string list" where
  "raw_options backupAll g =
     (case getopt ''ah'' g of
        (GEnd, g') \<Rightarrow> Inr (backupAll, from_optind g')
      | (GOpt c _, g') \<Rightarrow>
          if c = CHR ''a'' then raw_options True g'
          else if c = CHR ''h'' then Inl 0
          else Inl (-1)
      | (GBad, g') \<Rightarrow> Inl (-1))"
  by pat_completeness auto
termination
  by (relation "measure (\<lambda>(b, g). gopt_size g)") (auto dest!: getopt_progress [OF sym])

declare raw_options.simps [simp del]

text \<open>
  \<open>main\<close>: the exit status, the file system and the calls to the property service and the
  clock.  \<open>AID_ROOT\<close> comes from a header of the platform.
\<close>

definition raw_main ::
  "int \<Rightarrow> sys_env \<Rightarrow> int \<Rightarrow> string list \<Rightarrow> fs \<Rightarrow> (int \<times> fs \<times> raw_action list) option" where
  "raw_main AID_ROOT e uid argv t =
     (if uid \<noteq> AID_ROOT then Some (-1, t, [])
      else if length argv < 2 then Some (-1, t, [])
      else if argv ! 1 = ''help'' then Some (0, t, [])
      else if argv ! 1 \<noteq> ''restore'' \<and> argv ! 1 \<noteq> ''backup'' then Some (-1, t, [])
      else
        (let restore = (argv ! 1 = ''restore'')
         in case raw_options False \<lparr>place = [], from_optind = drop 2 argv\<rparr> of
              Inl status \<Rightarrow> Some (status, t, [])
            | Inr (opt_backupAll, args) \<Rightarrow>
                if length args > 1 then Some (-1, t, [])
                else
                  (let backupFile = (if args = [] then ''/sdcard/backup.dat'' else hd args);
                       stop = [PropertySet ''ctl.stop'' ''runtime'', PropertySet ''ctl.stop'' ''zygote'',
                               SleepFor 1];
                       start = [PropertySet ''ctl.start'' ''zygote'', PropertySet ''ctl.start'' ''runtime'']
                   in if restore then
                        (case restore_data e backupFile t of
                           None \<Rightarrow> None
                         | Some (res, t') \<Rightarrow>
                             if res \<noteq> 0 then Some (res, t', stop) else Some (0, t', stop @ start))
                      else
                        (case backup_data e opt_backupAll backupFile t of
                           (res, t') \<Rightarrow> Some (0, t', stop @ start)))))"

end
