(* ===== verification/RawBackupCorrect.thy ===== *)
theory RawBackupCorrect
  imports RawBackup
begin

text \<open>
  Correctness of \<open>rawbu\<close>: what a backup contains, what a wipe spares, that restoring an archive
  recreates its entries, and that truncated archives are refused.
\<close>

section \<open>What a backup contains\<close>

text \<open>The entries in the order of the archive, without faults.\<close>

function walk_dir :: "fs \<Rightarrow> bool \<Rightarrow> cstring \<Rightarrow> string \<Rightarrow> (string \<times> inode) list"
  and walk_entries :: "fs \<Rightarrow> bool \<Rightarrow> cstring \<Rightarrow> string \<Rightarrow> string list \<Rightarrow> (string \<times> inode) list" where
  "walk_dir t backupAll bfp src = walk_entries t backupAll bfp src (children t src)"
| "walk_entries t backupAll bfp src [] = []"
| "walk_entries t backupAll bfp src (n # ns) =
     (let q = src @ ''/'' @ n; rest = walk_entries t backupAll bfp src ns
      in if skipped_name n \<or> (\<not> backupAll \<and> map_of SKIP_PATHS q \<noteq> None) then rest
         else (case lookup t q of
                 None \<Rightarrow> rest
               | Some i \<Rightarrow>
                   if S_ISDIR (st_mode i) then (q, i) # walk_dir t backupAll bfp q @ rest
                   else if S_ISREG (st_mode i) \<and> bfp \<noteq> Some q then (q, i) # rest
                   else rest))"
  by pat_completeness auto
termination
  by (relation "inv_image (less_than <*lex*> less_than <*lex*> less_than)
        (\<lambda>x. case x of Inl (t, a, b, p) \<Rightarrow> (below t p, 1, 0)
                     | Inr (t, a, b, p, ns) \<Rightarrow> (below t p, 0, length ns))")
    (auto intro!: below_child)

declare walk_dir.simps [simp del] walk_entries.simps(2) [simp del]

fun record_bytes :: "string \<times> inode \<Rightarrow> string" where
  "record_bytes (q, i) =
     (if S_ISDIR (st_mode i) then header_bytes TYPE_DIR q i
      else header_bytes TYPE_FILE q i @ int64_bytes (st_size i) @ contents i)"

definition no_faults :: "sys_env \<Rightarrow> bool" where
  "no_faults e \<longleftrightarrow> (\<forall>c p. fault e c p = None)"

lemma no_faultsD [simp]: "no_faults e \<Longrightarrow> fault e c p = None"
  by (simp add: no_faults_def)

definition sizes_ok :: "fs \<Rightarrow> bool" where
  "sizes_ok t \<longleftrightarrow> list_all (\<lambda>(q, i). S_ISREG (st_mode i) \<longrightarrow> st_size i = int (length (contents i))) t"

lemma sizes_okD:
  "sizes_ok t \<Longrightarrow> lookup t q = Some i \<Longrightarrow> S_ISREG (st_mode i) \<Longrightarrow> st_size i = int (length (contents i))"
  by (auto simp: sizes_ok_def list_all_iff lookup_def dest!: map_of_SomeD)

lemma skipped_dots [simp]: "skipped_name ''.''" "skipped_name ''..''"
  by (simp_all add: skipped_name_def)

lemma writer_reg:
  assumes "writer k s True" and "st_size i = int (length (contents i))"
  shows "writer (and_then (write_header TYPE_FILE q i) (and_then (write_int64 (st_size i))
      (and_then (copy_to (st_size i) (contents i)) k)))
    (header_bytes TYPE_FILE q i @ int64_bytes (st_size i) @ contents i @ s) True"
proof -
  have "writer (copy_to (st_size i) (contents i)) (contents i) True"
    using writer_copy_to [of "st_size i" "contents i"] assms(2) by simp
  from this assms(1) show ?thesis
    by (intro writer_and_then_True writer_header writer_int64)
qed

lemma backup_dir_writer:
  assumes e: "no_faults e"
  shows "sizes_ok t \<Longrightarrow> is_dir t src \<Longrightarrow>
      writer (backup_dir e t a b src) (concat (map record_bytes (walk_dir t a b src))) True"
    and "sizes_ok t \<Longrightarrow>
      \<forall>n \<in> set ns. skipped_name n \<or> lookup t (src @ ''/'' @ n) \<noteq> None \<Longrightarrow>
      writer (backup_entries e t a b src ns) (concat (map record_bytes (walk_entries t a b src ns))) True"
proof (induction t a b src and t a b src ns rule: walk_dir_walk_entries.induct)
  case (1 t a b src)
  obtain i where i: "lookup t src = Some i" "S_ISDIR (st_mode i)" using 1 by (auto simp: is_dir_iff)
  have "backup_dir e t a b src = backup_entries e t a b src (''.'' # ''..'' # children t src)"
    using e i by (simp add: backup_dir.simps sys_opendir_def)
  also have "\<dots> = backup_entries e t a b src (children t src)"
    by (simp add: backup_entries.simps(2))
  finally show ?case
    using 1 by (simp add: walk_dir.simps mem_children)
next
  case (2 t a b src)
  then show ?case by (simp add: writer_return)
next
  case (3 t a b src n ns)
  let ?q = "src @ ''/'' @ n" and ?rest = "walk_entries t a b src ns"
  show ?case
  proof (cases "skipped_name n \<or> (\<not> a \<and> map_of SKIP_PATHS ?q \<noteq> None)")
    case True
    with 3 show ?thesis by (auto simp: backup_entries.simps(2) walk_entries.simps(2) Let_def)
  next
    case False
    then obtain i where i: "lookup t ?q = Some i" using 3(4) by auto
    have st: "sys_lstat e t ?q = Inr i" and fo: "sys_fopen_r e ?q t = Inr (contents i)"
      using e i by (simp_all add: sys_lstat_def sys_fopen_r_def)
    have IH: "writer (backup_entries e t a b src ns) (concat (map record_bytes ?rest)) True"
      using 3(1,3,4) by simp
    consider (dir) "S_ISDIR (st_mode i)" | (reg) "\<not> S_ISDIR (st_mode i)" "S_ISREG (st_mode i)" "b \<noteq> Some ?q"
      | (other) "\<not> S_ISDIR (st_mode i)" "S_ISREG (st_mode i) \<longrightarrow> b = Some ?q"
      by blast
    then show ?thesis
    proof cases
      case dir
      then have "writer (backup_dir e t a b ?q) (concat (map record_bytes (walk_dir t a b ?q))) True"
        using 3(2) [OF refl refl False i dir 3(3)] i by (simp add: is_dir_iff)
      from writer_and_then_True [OF writer_header [of TYPE_DIR ?q i] writer_and_then_True [OF this IH]]
      show ?thesis
        using dir False i st
        by (auto simp: backup_entries.simps(2) walk_entries.simps(2) Let_def)
    next
      case reg
      have "st_size i = int (length (contents i))" using sizes_okD [OF 3(3) i reg(2)] .
      from writer_reg [OF IH this, of ?q] show ?thesis
        using reg False i st fo
        by (auto simp: backup_entries.simps(2) walk_entries.simps(2) Let_def)
    next
      case other
      then show ?thesis
        using IH False i st
        by (auto simp: backup_entries.simps(2) walk_entries.simps(2) Let_def)
    qed
  qed
qed

text \<open>The same set of entries, described without the walk.\<close>

inductive archived :: "fs \<Rightarrow> bool \<Rightarrow> cstring \<Rightarrow> string \<Rightarrow> string \<Rightarrow> bool"
  for t :: fs and a :: bool and b :: cstring and root :: string where
  here: "n \<in> set (children t d) \<Longrightarrow> d = root \<or> archived t a b root d \<and> is_dir t d \<Longrightarrow>
     \<not> skipped_name n \<Longrightarrow> a \<or> map_of SKIP_PATHS (d @ ''/'' @ n) = None \<Longrightarrow>
     lookup t (d @ ''/'' @ n) = Some i \<Longrightarrow>
     S_ISDIR (st_mode i) \<or> S_ISREG (st_mode i) \<and> b \<noteq> Some (d @ ''/'' @ n) \<Longrightarrow>
     archived t a b root (d @ ''/'' @ n)"

lemma walk_entries_mem:
  assumes "n \<in> set ns" and "\<not> skipped_name n" and "a \<or> map_of SKIP_PATHS (d @ ''/'' @ n) = None"
    and "lookup t (d @ ''/'' @ n) = Some i"
    and "S_ISDIR (st_mode i) \<or> S_ISREG (st_mode i) \<and> b \<noteq> Some (d @ ''/'' @ n)"
  shows "(d @ ''/'' @ n, i) \<in> set (walk_entries t a b d ns)"
    and "S_ISDIR (st_mode i) \<Longrightarrow>
      set (walk_dir t a b (d @ ''/'' @ n)) \<subseteq> set (walk_entries t a b d ns)"
  using assms
  by (induction ns) (auto simp: walk_entries.simps(2) Let_def split: option.split)

lemma walk_entries_lookup:
  shows "(q, i) \<in> set (walk_dir t a b src) \<Longrightarrow> lookup t q = Some i"
    and "(q, i) \<in> set (walk_entries t a b src ns) \<Longrightarrow> lookup t q = Some i"
  by (induction t a b src and t a b src ns rule: walk_dir_walk_entries.induct)
    (auto simp: walk_dir.simps walk_entries.simps(2) Let_def split: option.splits if_splits)

lemma walk_closed:
  shows "(d, j) \<in> set (walk_dir t a b src) \<Longrightarrow> S_ISDIR (st_mode j) \<Longrightarrow>
      set (walk_dir t a b d) \<subseteq> set (walk_dir t a b src)"
    and "(d, j) \<in> set (walk_entries t a b src ns) \<Longrightarrow> S_ISDIR (st_mode j) \<Longrightarrow>
      set (walk_dir t a b d) \<subseteq> set (walk_entries t a b src ns)"
proof (induction t a b src and t a b src ns rule: walk_dir_walk_entries.induct)
  case (1 t a b src)
  then show ?case unfolding walk_dir.simps [of t a b src] by blast
next
  case (3 t a b src n ns)
  then show ?case
    by (auto simp: walk_entries.simps(2) Let_def split: option.splits if_splits)
qed simp

lemma archived_walk:
  "archived t a b root q \<Longrightarrow> \<exists>i. lookup t q = Some i \<and> (q, i) \<in> set (walk_dir t a b root)"
proof (induction rule: archived.induct)
  case (here n d i)
  have mem: "(d @ ''/'' @ n, i) \<in> set (walk_dir t a b d)"
    unfolding walk_dir.simps [of t a b d]
    by (rule walk_entries_mem) (use here in auto)
  have "set (walk_dir t a b d) \<subseteq> set (walk_dir t a b root)"
  proof (cases "d = root")
    case False
    then obtain j where "(d, j) \<in> set (walk_dir t a b root)" "lookup t d = Some j" "S_ISDIR (st_mode j)"
      using here.IH by (auto simp: is_dir_iff)
    then show ?thesis by (rule_tac walk_closed)
  qed simp
  with mem here.hyps show ?case by blast
qed

text \<open>A directory comes before its entries.\<close>

fun parents_first :: "string set \<Rightarrow> (string \<times> inode) list \<Rightarrow> bool" where
  "parents_first D [] \<longleftrightarrow> True"
| "parents_first D ((q, i) # es) \<longleftrightarrow>
     parent_of q \<in> D \<and> parents_first (if S_ISDIR (st_mode i) then insert q D else D) es"

lemma parents_first_mono: "parents_first D es \<Longrightarrow> D \<subseteq> D' \<Longrightarrow> parents_first D' es"
proof (induction es arbitrary: D D')
  case (Cons x es)
  obtain q i where x: "x = (q, i)" by fastforce
  show ?case
    using Cons.IH [of "insert q D" "insert q D'"] Cons.IH [of D D'] Cons.prems
    by (auto simp: x subset_insertI subset_insertI2)
qed simp

lemma parents_first_append:
  "parents_first D xs \<Longrightarrow> parents_first D ys \<Longrightarrow> parents_first D (xs @ ys)"
proof (induction xs arbitrary: D)
  case (Cons x xs)
  obtain q i where x: "x = (q, i)" by fastforce
  show ?case
    using Cons.IH [of D] Cons.IH [of "insert q D"] Cons.prems
      parents_first_mono [of D ys "insert q D"]
    by (auto simp: x subset_insertI subset_insertI2)
qed simp

lemma walk_parents_first:
  shows "src \<in> D \<Longrightarrow> parents_first D (walk_dir t a b src)"
    and "src \<in> D \<Longrightarrow> \<forall>n \<in> set ns. CHR ''/'' \<notin> set n \<Longrightarrow> parents_first D (walk_entries t a b src ns)"
proof (induction t a b src and t a b src ns arbitrary: D and D rule: walk_dir_walk_entries.induct)
  case (1 t a b src)
  then show ?case by (simp add: walk_dir.simps mem_children)
next
  case (3 t a b src n ns)
  then show ?case
    by (auto simp: walk_entries.simps(2) Let_def intro!: parents_first_append split: option.split)
qed simp

section \<open>What a restore recreates\<close>

lemma copy_file_all:
  "length c \<le> w_room d \<Longrightarrow> copy_file (int (length c)) d (c @ s) =
     (True, \<lparr>w_data = w_data d @ c, w_room = w_room d - length c\<rparr>, s)"
proof (induction "length c" arbitrary: c d rule: less_induct)
  case less
  show ?case
  proof (cases "c = []")
    case True
    then show ?thesis by (subst copy_file.simps) simp
  next
    case False
    define b where "b = take (nat (min 8192 (int (length c)))) (c @ s)"
    have n: "nat (min 8192 (int (length c))) = min 8192 (length c)" by simp
    have b: "b = take 8192 c" unfolding b_def n by (simp add: min_def)
    have c: "c = b @ drop (length b) c" unfolding b by (simp add: min_def)
    have l: "length (drop (length b) c) < length c" using False by (simp add: b)
    have d: "drop (length b) (c @ s) = drop (length b) c @ s" by (simp add: b)
    have "copy_file (int (length c) - int (length b))
        \<lparr>w_data = w_data d @ b, w_room = w_room d - length b\<rparr> (drop (length b) c @ s) =
      (True, \<lparr>w_data = w_data d @ c, w_room = w_room d - length c\<rparr>, s)"
      using less.hyps [OF l, of "\<lparr>w_data = w_data d @ b, w_room = w_room d - length b\<rparr>"] less.prems c
      by (simp add: b of_nat_diff)
    moreover have "length b \<le> w_room d" using less.prems by (simp add: b)
    ultimately show ?thesis
      using False by (subst copy_file_step [OF _ _ b_def]) (simp, simp, simp add: d del: drop_append)
  qed
qed

definition kind_eq :: "inode \<Rightarrow> inode \<Rightarrow> bool" where
  "kind_eq i j \<longleftrightarrow> S_ISDIR (st_mode i) = S_ISDIR (st_mode j) \<and> S_ISREG (st_mode i) = S_ISREG (st_mode j)"

text \<open>
  The restored entry: kind, permission bits, owner; for files also the times and the contents.
  The set-id bits are lost, and so are the times of a directory that gets entries later.
\<close>

definition same_node :: "inode \<Rightarrow> inode \<Rightarrow> bool" where
  "same_node i j \<longleftrightarrow> kind_eq i j \<and> st_mode j mod 4096 = st_mode i mod 512 \<and>
     st_uid j = st_uid i \<and> st_gid j = st_gid i \<and>
     (S_ISREG (st_mode i) \<longrightarrow> st_atime j = st_atime i \<and> st_mtime j = st_mtime i \<and>
        contents j = contents i \<and> st_size j = st_size i)"

definition dir_times :: "inode \<Rightarrow> inode \<Rightarrow> bool" where
  "dir_times a b \<longleftrightarrow> a = b \<or>
     S_ISDIR (st_mode a) \<and> st_mode b = st_mode a \<and> st_uid b = st_uid a \<and> st_gid b = st_gid a \<and>
     st_size b = st_size a \<and> st_atime b = st_atime a \<and> contents b = contents a"

definition agrees :: "inode option \<Rightarrow> inode option \<Rightarrow> bool" where
  "agrees x y = rel_option dir_times x y"

lemma agrees_refl [simp]: "agrees x x"
  by (cases x) (simp_all add: agrees_def dir_times_def)

lemma agrees_trans: "agrees x y \<Longrightarrow> agrees y z \<Longrightarrow> agrees x z"
  by (cases x; cases y; cases z) (auto simp: agrees_def dir_times_def)

lemma agrees_same_node:
  "agrees (Some j) y \<Longrightarrow> same_node i j \<Longrightarrow> \<exists>j'. y = Some j' \<and> same_node i j'"
  by (cases y) (auto simp: agrees_def dir_times_def same_node_def kind_eq_def)

lemma agrees_is_dir: "agrees (lookup t r) (lookup t' r) \<Longrightarrow> is_dir t r \<Longrightarrow> is_dir t' r"
  by (cases "lookup t' r") (auto simp: agrees_def dir_times_def is_dir_iff)

lemma agrees_touch_parent:
  "is_dir t (parent_of p) \<Longrightarrow> agrees (lookup t r) (lookup (touch_parent e p t) r)"
  by (cases "r = parent_of p") (auto simp: lookup_touch_parent is_dir_iff agrees_def dir_times_def)

lemma mode_parts:
  fixes m k :: int
  assumes "0 \<le> k" "k < 4096"
  shows "S_ISDIR (m div 4096 * 4096 + k) = S_ISDIR m" "S_ISREG (m div 4096 * 4096 + k) = S_ISREG m"
    "(m div 4096 * 4096 + k) mod 4096 = k"
proof -
  have "(m div 4096 * 4096 + k) div 4096 = m div 4096" using assms by simp
  then show "S_ISDIR (m div 4096 * 4096 + k) = S_ISDIR m" "S_ISREG (m div 4096 * 4096 + k) = S_ISREG m"
    by (simp_all add: S_ISDIR_def S_ISREG_def S_IFMT_of_def)
  show "(m div 4096 * 4096 + k) mod 4096 = k" using assms by simp
qed

lemma restore_attrs_ok:
  assumes "no_faults e" and "lookup t (h_path h) = Some i"
  shows "\<exists>t2. restore_attrs e h t = (True, t2) \<and>
    lookup t2 (h_path h) = Some (i\<lparr>st_mode := st_mode i div 4096 * 4096 + h_mode h mod 512,
      st_uid := h_uid h, st_gid := h_gid h, st_atime := h_atime h, st_mtime := h_mtime h,
      st_ctime := now e\<rparr>) \<and>
    (\<forall>r. r \<noteq> h_path h \<longrightarrow> lookup t2 r = lookup t r)"
proof -
  have "h_mode h mod 512 mod 4096 = h_mode h mod 512"
    by (rule mod_pos_pos_trivial) (auto intro: less_trans [OF pos_mod_bound])
  with assms show ?thesis
    by (simp add: restore_attrs_def sys_chmod_def sys_chown_def sys_utime_def sys_attr_def)
qed

definition archivable :: "string \<Rightarrow> inode \<Rightarrow> bool" where
  "archivable q i \<longleftrightarrow> sane_path q \<and> sane_inode i \<and>
     (S_ISDIR (st_mode i) \<or>
      S_ISREG (st_mode i) \<and> st_size i = int (length (contents i)) \<and> st_size i < 2 ^ 63)"

definition storable :: "sys_env \<Rightarrow> string \<Rightarrow> inode \<Rightarrow> bool" where
  "storable e q i \<longleftrightarrow> archivable q i \<and> (S_ISREG (st_mode i) \<longrightarrow> length (contents i) \<le> disk_room e q)"

definition no_conflict :: "fs \<Rightarrow> string \<Rightarrow> inode \<Rightarrow> bool" where
  "no_conflict t q i \<longleftrightarrow> (case lookup t q of None \<Rightarrow> True | Some j \<Rightarrow> kind_eq i j)"

lemma mod512: "0 \<le> (m :: int) mod 512" "(m :: int) mod 512 < 4096" "(m :: int) mod 512 mod 4096 = m mod 512"
  by (auto intro!: mod_pos_pos_trivial less_trans [OF pos_mod_bound])

lemma restore_node_dir:
  assumes e: "no_faults e" and "is_dir t (parent_of q)" and "no_conflict t q i" and "S_ISDIR (st_mode i)"
    and h: "h_type h = TYPE_DIR" "h_path h = q" "q \<noteq> parent_of q"
  shows "\<exists>t1 j. restore_node e h s t = (True, s, t1) \<and> lookup t1 q = Some j \<and> kind_eq i j \<and>
    (\<forall>r. r \<noteq> q \<longrightarrow> agrees (lookup t r) (lookup t1 r))"
proof (cases "lookup t q")
  case (Some j)
  then have "restore_node e h s t = (True, s, t)"
    using e h by (simp add: restore_node_def sys_mkdir_def)
  with Some assms(3) show ?thesis by (auto simp: no_conflict_def)
next
  case None
  let ?n = "new_inode e (S_IFDIR + h_mode h mod 4096)"
  let ?u = "AList.update q ?n t"
  let ?t1 = "touch_parent e q ?u"
  have pd: "is_dir ?u (parent_of q)" using assms(2) h(3) by (auto simp: is_dir_iff)
  have "restore_node e h s t = (True, s, ?t1)"
    using e h None assms(2) by (simp add: restore_node_def sys_mkdir_def)
  moreover have "lookup ?t1 q = Some ?n" using h(3) by (simp add: lookup_touch_parent)
  moreover have "kind_eq i ?n"
    using assms(4) by (auto simp: kind_eq_def new_inode_def dest: S_IS_simps(3))
  moreover have "agrees (lookup t r) (lookup ?t1 r)" if "r \<noteq> q" for r
    using agrees_touch_parent [OF pd, of r e] that by simp
  ultimately show ?thesis by blast
qed

lemma restore_node_file:
  assumes e: "no_faults e" and "is_dir t (parent_of q)" and "no_conflict t q i" and reg: "S_ISREG (st_mode i)"
    and h: "h_type h = TYPE_FILE" "h_path h = q" "q \<noteq> parent_of q" and "storable e q i"
  shows "\<exists>t1 j. restore_node e h (int64_bytes (st_size i) @ contents i @ s) t = (True, s, t1) \<and>
    lookup t1 q = Some j \<and> kind_eq i j \<and> contents j = contents i \<and> st_size j = st_size i \<and>
    (\<forall>r. r \<noteq> q \<longrightarrow> agrees (lookup t r) (lookup t1 r))"
proof -
  have nd: "\<not> S_ISDIR (st_mode i)" using reg S_IS_simps(3) by blast
  have sz: "st_size i = int (length (contents i))" "to_i64 (st_size i) = st_size i"
    "length (contents i) \<le> disk_room e q"
    using assms(8) nd by (auto simp: storable_def archivable_def to_i64_id)
  have "\<exists>t1 j. sys_fopen_w e q t = Inr t1 \<and> lookup t1 q = Some j \<and> kind_eq i j \<and>
    (\<forall>r. r \<noteq> q \<longrightarrow> agrees (lookup t r) (lookup t1 r))"
  proof (cases "lookup t q")
    case (Some j)
    with assms(3) nd have "\<not> S_ISDIR (st_mode j)" by (simp add: no_conflict_def kind_eq_def)
    with Some e assms(3) show ?thesis by (auto simp: sys_fopen_w_def no_conflict_def kind_eq_def)
  next
    case None
    let ?n = "new_inode e (S_IFREG + 420)"
    let ?u = "AList.update q ?n t"
    let ?t1 = "touch_parent e q ?u"
    have pd: "is_dir ?u (parent_of q)" using assms(2) h(3) by (auto simp: is_dir_iff)
    have "sys_fopen_w e q t = Inr ?t1" using e None assms(2) by (simp add: sys_fopen_w_def)
    moreover have "lookup ?t1 q = Some ?n" using h(3) by (simp add: lookup_touch_parent)
    moreover have "kind_eq i ?n"
      using reg nd by (auto simp: kind_eq_def new_inode_def dest: S_IS_simps(3))
    moreover have "agrees (lookup t r) (lookup ?t1 r)" if "r \<noteq> q" for r
      using agrees_touch_parent [OF pd, of r e] that by simp
    ultimately show ?thesis by blast
  qed
  then obtain t1 j where t1: "sys_fopen_w e q t = Inr t1" "lookup t1 q = Some j" "kind_eq i j"
    "\<forall>r. r \<noteq> q \<longrightarrow> agrees (lookup t r) (lookup t1 r)" by blast
  have "restore_node e h (int64_bytes (st_size i) @ contents i @ s) t =
      (True, s, write_file e q (contents i) t1)"
    using h sz t1(1) copy_file_all [of "contents i" "\<lparr>w_data = [], w_room = disk_room e q\<rparr>" s]
    by (simp add: restore_node_def TYPE_DIR_def TYPE_FILE_def)
  with t1 sz(1) show ?thesis by (auto simp: write_file_def kind_eq_def)
qed

lemma restore_step:
  assumes e: "no_faults e" and d: "is_dir t (parent_of q)" and c: "no_conflict t q i" and st: "storable e q i"
    and ne: "parent_of q \<noteq> q"
  shows "\<exists>t2 j. restore_loop e (record_bytes (q, i) @ s) t = restore_loop e s t2 \<and>
    lookup t2 q = Some j \<and> same_node i j \<and> (\<forall>r. r \<noteq> q \<longrightarrow> agrees (lookup t r) (lookup t2 r))"
proof -
  define h where "h = \<lparr>h_type = (if S_ISDIR (st_mode i) then TYPE_DIR else TYPE_FILE), h_path = q,
    h_uid = st_uid i, h_gid = st_gid i, h_mode = st_mode i mod 512, h_atime = st_atime i,
    h_mtime = st_mtime i, h_ctime = st_ctime i\<rparr>"
  define body where "body = (if S_ISDIR (st_mode i) then [] else int64_bytes (st_size i) @ contents i)"
  have hd: "read_header (record_bytes (q, i) @ s) = (Some h, body @ s)"
    using read_header_bytes [of "h_type h" q i] st
    by (auto simp: h_def body_def storable_def archivable_def)
  have hp: "h_path h = q" "h_mode h = st_mode i mod 512" "h_type h \<noteq> TYPE_END"
    by (auto simp: h_def TYPE_DIR_def TYPE_FILE_def TYPE_END_def)
  have "\<exists>t1 j. restore_node e h (body @ s) t = (True, s, t1) \<and> lookup t1 q = Some j \<and> kind_eq i j \<and>
    (S_ISREG (st_mode i) \<longrightarrow> contents j = contents i \<and> st_size j = st_size i) \<and>
    (\<forall>r. r \<noteq> q \<longrightarrow> agrees (lookup t r) (lookup t1 r))"
  proof (cases "S_ISDIR (st_mode i)")
    case True
    from restore_node_dir [OF e d c True _ hp(1), of s] ne True show ?thesis
      by (auto simp: h_def body_def dest: S_IS_simps(3))
  next
    case False
    then have "S_ISREG (st_mode i)" using st by (auto simp: storable_def archivable_def)
    from restore_node_file [OF e d c this _ hp(1) _ st, of s] ne False show ?thesis
      by (auto simp: h_def body_def)
  qed
  then obtain t1 j where t1: "restore_node e h (body @ s) t = (True, s, t1)" "lookup t1 q = Some j"
    "kind_eq i j" "S_ISREG (st_mode i) \<longrightarrow> contents j = contents i \<and> st_size j = st_size i"
    "\<forall>r. r \<noteq> q \<longrightarrow> agrees (lookup t r) (lookup t1 r)" by blast
  from restore_attrs_ok [OF e, of t1 h j] t1(2) hp obtain t2 where t2: "restore_attrs e h t1 = (True, t2)"
    "lookup t2 q = Some (j\<lparr>st_mode := st_mode j div 4096 * 4096 + st_mode i mod 512,
      st_uid := st_uid i, st_gid := st_gid i, st_atime := st_atime i, st_mtime := st_mtime i,
      st_ctime := now e\<rparr>)"
    "\<forall>r. r \<noteq> q \<longrightarrow> lookup t2 r = lookup t1 r" by (auto simp: h_def)
  have "restore_loop e (record_bytes (q, i) @ s) t = restore_loop e s t2"
    using hd hp(3) t1(1) t2(1) by (subst restore_loop.simps) simp
  moreover have "same_node i (j\<lparr>st_mode := st_mode j div 4096 * 4096 + st_mode i mod 512,
      st_uid := st_uid i, st_gid := st_gid i, st_atime := st_atime i, st_mtime := st_mtime i,
      st_ctime := now e\<rparr>)"
    using t1(3,4) mode_parts [OF mod512(1,2), of "st_mode j" "st_mode i"]
    by (simp add: same_node_def kind_eq_def)
  ultimately show ?thesis using t2 t1(5) by (metis (no_types, lifting))
qed

definition holds_node :: "fs \<Rightarrow> string \<Rightarrow> inode \<Rightarrow> bool" where
  "holds_node t q i \<longleftrightarrow> (\<exists>j. lookup t q = Some j \<and> same_node i j)"

lemma agrees_no_conflict: "agrees (lookup t q) (lookup t' q) \<Longrightarrow> no_conflict t q i \<Longrightarrow> no_conflict t' q i"
  by (cases "lookup t q"; cases "lookup t' q")
    (auto simp: agrees_def dir_times_def no_conflict_def kind_eq_def)

lemma agrees_holds_node: "agrees (lookup t q) (lookup t' q) \<Longrightarrow> holds_node t q i \<Longrightarrow> holds_node t' q i"
  unfolding holds_node_def using agrees_same_node by metis

lemma holds_no_conflict: "holds_node t q i \<Longrightarrow> no_conflict t q i"
  by (auto simp: holds_node_def no_conflict_def same_node_def)

lemma holds_is_dir: "holds_node t q i \<Longrightarrow> S_ISDIR (st_mode i) \<Longrightarrow> is_dir t q"
  by (auto simp: holds_node_def same_node_def kind_eq_def is_dir_iff)

lemma restore_loop_all:
  assumes e: "no_faults e"
  shows "parents_first D es \<Longrightarrow> \<forall>r \<in> D. is_dir t r \<Longrightarrow>
    \<forall>(q, i) \<in> set es. storable e q i \<and> no_conflict t q i \<and> F q = Some i \<and> parent_of q \<noteq> q \<Longrightarrow>
    \<exists>t'. restore_loop e (concat (map record_bytes es) @ int32_bytes TYPE_END) t = (True, t') \<and>
      (\<forall>(q, i) \<in> set es. holds_node t' q i) \<and>
      (\<forall>q i. F q = Some i \<longrightarrow> holds_node t q i \<longrightarrow> holds_node t' q i)"
proof (induction es arbitrary: D t)
  case Nil
  have "read_header (int32_bytes TYPE_END @ []) =
      (Some \<lparr>h_type = 0, h_path = [], h_uid = 0, h_gid = 0, h_mode = 0, h_atime = 0, h_mtime = 0, h_ctime = 0\<rparr>, [])"
    unfolding read_header_def read_then_def get_int32_bytes by (simp add: TYPE_END_def to_i32_def)
  then show ?case by (subst restore_loop.simps) (simp add: TYPE_END_def)
next
  case (Cons x es)
  obtain q i where x: "x = (q, i)" by fastforce
  let ?s = "concat (map record_bytes es) @ int32_bytes TYPE_END"
  have pre: "is_dir t (parent_of q)" "no_conflict t q i" "storable e q i" "parent_of q \<noteq> q" "F q = Some i"
    using Cons.prems by (auto simp: x)
  from restore_step [OF e pre(1-4), of ?s] obtain t2 j where
    t2: "restore_loop e (record_bytes (q, i) @ ?s) t = restore_loop e ?s t2"
      "lookup t2 q = Some j" "same_node i j" "\<And>r. r \<noteq> q \<Longrightarrow> agrees (lookup t r) (lookup t2 r)"
    by blast
  have hq: "holds_node t2 q i" using t2 by (simp add: holds_node_def)
  let ?D = "if S_ISDIR (st_mode i) then insert q D else D"
  have dq: "is_dir t2 r" if "r \<in> ?D" for r
  proof (cases "r = q")
    case True
    show ?thesis
    proof (cases "S_ISDIR (st_mode i)")
      case False
      then have "is_dir t q" using that True Cons.prems(2) by auto
      then have "S_ISDIR (st_mode i)" using pre(2) by (auto simp: is_dir_iff no_conflict_def kind_eq_def)
      with False show ?thesis by simp
    qed (use True hq holds_is_dir in auto)
  next
    case False
    with that have "is_dir t r" using Cons.prems(2) by (auto split: if_splits)
    then show ?thesis using agrees_is_dir t2(4) [OF False] by blast
  qed
  have rest: "storable e q' i' \<and> no_conflict t2 q' i' \<and> F q' = Some i' \<and> parent_of q' \<noteq> q'"
    if "(q', i') \<in> set es" for q' i'
    using that Cons.prems(3) pre(5) hq holds_no_conflict agrees_no_conflict [OF t2(4)]
    by (cases "q' = q") (auto simp: x)
  from Cons.IH [of ?D t2] Cons.prems(1) dq rest obtain t' where
    t': "restore_loop e ?s t2 = (True, t')" "\<forall>(q, i) \<in> set es. holds_node t' q i"
      "\<forall>q i. F q = Some i \<longrightarrow> holds_node t2 q i \<longrightarrow> holds_node t' q i"
    by (auto simp: x)
  have "holds_node t' q' i'" if "F q' = Some i'" "holds_node t q' i'" for q' i'
    using that t'(3) hq pre(5) agrees_holds_node [OF t2(4)] by (cases "q' = q") auto
  with t' t2(1) hq pre(5) show ?case by (auto simp: x)
qed

section \<open>What a wipe keeps\<close>

text \<open>The calls of the wipe only remove entries and change the times of directories.\<close>

definition shrunk :: "fs \<Rightarrow> fs \<Rightarrow> bool" where
  "shrunk t t' \<longleftrightarrow> (\<forall>p. below t' p \<le> below t p) \<and>
     (\<forall>r j. lookup t' r = Some j \<longrightarrow> (\<exists>i. lookup t r = Some i \<and> st_mode i = st_mode j))"

lemma shrunk_refl [simp]: "shrunk t t"
  by (simp add: shrunk_def)

lemma shrunk_trans: "shrunk t t' \<Longrightarrow> shrunk t' t'' \<Longrightarrow> shrunk t t''"
  unfolding shrunk_def by (metis le_trans)

lemma map_fst_touch_parent: "map fst (touch_parent e p t) = map fst t"
  using lookup_None_iff [of t "parent_of p"]
  by (auto simp: touch_parent_def update_keys split: option.split)

lemma below_delete: "below (AList.delete p t) r \<le> below t r"
proof -
  have "filter Q (removeAll p ks) = filter (\<lambda>k. k \<noteq> p) (filter Q ks)" for Q and ks :: "string list"
    by (induction ks) auto
  then show ?thesis by (simp only: below_def delete_keys length_filter_le)
qed

lemma shrunk_remove: "shrunk t (touch_parent e p (AList.delete p t))"
  using below_delete
  by (auto simp: shrunk_def below_def map_fst_touch_parent lookup_touch_parent split: if_splits)

lemma shrunk_or_warn:
  "shrunk t (or_warn (sys_unlink e p) t)" "shrunk t (or_warn (sys_rmdir e p) t)"
  by (auto simp: or_warn_def sys_unlink_def sys_rmdir_def shrunk_remove split: sum.splits option.splits)

text \<open>Enough fuel: one unit for every entry below the directory.\<close>

lemma wipe_entries_total:
  assumes "\<And>n t'. n \<in> set ns \<Longrightarrow> shrunk t t' \<Longrightarrow> lookup t' (path @ ''/'' @ n) \<noteq> None \<Longrightarrow>
      \<exists>ok t''. rec (path @ ''/'' @ n) t' = Some (ok, t'') \<and> shrunk t' t''"
  shows "\<exists>ok t'. wipe_entries e a b rec path ns t = Some (ok, t') \<and> shrunk t t'"
  using assms
proof (induction ns arbitrary: t)
  case (Cons n ns)
  let ?q = "path @ ''/'' @ n"
  have IH: "\<exists>ok t'. wipe_entries e a b rec path ns t1 = Some (ok, t') \<and> shrunk t t'" if "shrunk t t1" for t1
  proof -
    have "\<exists>ok t'. wipe_entries e a b rec path ns t1 = Some (ok, t') \<and> shrunk t1 t'"
      by (rule Cons.IH) (use Cons.prems that shrunk_trans in \<open>meson list.set_intros(2)\<close>)
    with that shrunk_trans show ?thesis by blast
  qed
  show ?case
  proof (cases "sys_lstat e t ?q")
    case (Inr st)
    then have l: "lookup t ?q \<noteq> None" by (auto simp: sys_lstat_def split: option.splits)
    from Cons.prems [of n t, OF _ _ l] obtain ok t1 where r: "rec ?q t = Some (ok, t1)" "shrunk t t1" by auto
    have "shrunk t (or_warn (sys_rmdir e ?q) t1)" using r(2) shrunk_or_warn shrunk_trans by blast
    with r IH [of t] IH [of t1] IH [of "or_warn (sys_rmdir e ?q) t1"] IH [of "or_warn (sys_unlink e ?q) t"]
      shrunk_or_warn(1) [of t e ?q] Inr
    show ?thesis by (cases ok) (auto simp: Let_def)
  qed (use IH [of t] in \<open>auto simp: Let_def\<close>)
qed auto

lemma wipe_total:
  "below t path < fuel \<Longrightarrow> \<exists>ok t'. wipe fuel e a b path t = Some (ok, t') \<and> shrunk t t'"
proof (induction fuel arbitrary: path t)
  case (Suc fuel)
  have "\<exists>ok t'. wipe_entries e a b (wipe fuel e a b) path ns t = Some (ok, t') \<and> shrunk t t'" for ns
  proof (rule wipe_entries_total)
    fix n t' assume s: "shrunk t t'" and l: "lookup t' (path @ ''/'' @ n) \<noteq> None"
    have "below t' (path @ ''/'' @ n) < below t' path" using below_child l by simp
    also have "\<dots> \<le> below t path" using s by (simp add: shrunk_def)
    finally show "\<exists>ok t''. wipe fuel e a b (path @ ''/'' @ n) t' = Some (ok, t'') \<and> shrunk t' t''"
      using Suc.prems by (intro Suc.IH) simp
  qed
  then show ?case by (auto split: sum.split)
qed simp

lemma below_le: "below t p \<le> length t"
  unfolding below_def by (metis length_filter_le length_map)

lemma restore_data_returns: "\<exists>res t'. restore_data e srcPath t = Some (res, t')"
proof -
  have "below t ''/data'' < Suc (length t)" using below_le le_imp_less_Suc by blast
  then have W: "\<exists>ok t'. wipe (Suc (length t)) e a (Some srcPath) ''/data'' t = Some (ok, t')" for a
    using wipe_total by blast
  show ?thesis
  proof (cases "sys_fopen_r e srcPath t")
    case (Inr s)
    obtain v s1 where v: "read_int32 0 s = (v, s1)" by fastforce
    obtain a s2 where a: "(if to_u32 v \<ge> FILE_VERSION_2 then read_int32 0 s1 else (0, s1)) = (a, s2)"
      by fastforce
    obtain ok t1 where "wipe (Suc (length t)) e (a \<noteq> 0) (Some srcPath) ''/data'' t = Some (ok, t1)"
      using W by blast
    with Inr v a show ?thesis
      by (cases ok) (auto simp: restore_data_def Let_def simp del: wipe.simps split: prod.split)
  qed (simp add: restore_data_def)
qed

text \<open>The paths a wipe can remove: no component is skipped and none is a no-touch path.\<close>

inductive visited :: "bool \<Rightarrow> string \<Rightarrow> string \<Rightarrow> bool" for a :: bool and root :: string where
  step: "d = root \<or> visited a root d \<Longrightarrow> CHR ''/'' \<notin> set n \<Longrightarrow> \<not> skipped_name n \<Longrightarrow>
     a \<or> map_of SKIP_PATHS (d @ ''/'' @ n) \<noteq> Some SPECIAL_NO_TOUCH \<Longrightarrow> visited a root (d @ ''/'' @ n)"

lemma special_neq [simp]: "y \<noteq> SPECIAL_NO_BACKUP \<longleftrightarrow> y = SPECIAL_NO_TOUCH"
  by (cases y) auto

lemma last_name_eq:
  assumes "d @ CHR ''/'' # n = d' @ CHR ''/'' # n'" "CHR ''/'' \<notin> set n" "CHR ''/'' \<notin> set n'"
  shows "d = d' \<and> n = n'"
proof -
  have "d = d'" using arg_cong [OF assms(1), of parent_of] assms(2,3) by simp
  with assms(1) show ?thesis by simp
qed

lemma visited_inversion:
  assumes "visited a root (d @ CHR ''/'' # n)" and "CHR ''/'' \<notin> set n"
  shows "(d = root \<or> visited a root d) \<and> \<not> skipped_name n \<and>
    (a \<or> map_of SKIP_PATHS (d @ CHR ''/'' # n) \<noteq> Some SPECIAL_NO_TOUCH)"
  using assms(1)
proof cases
  case (step d' n')
  from last_name_eq [of d n d' n'] step(1,3) assms(2) have "d = d'" "n = n'" by auto
  with step(2,4,5) show ?thesis by simp
qed

lemma not_visited_below:
  assumes "\<not> visited a root p" and "p \<noteq> root" and "\<not> prefix (p @ ''/'') root"
  shows "\<not> visited a root (p @ CHR ''/'' # s)"
proof
  assume "visited a root (p @ CHR ''/'' # s)"
  then show False
  proof (induction "p @ CHR ''/'' # s" arbitrary: s rule: visited.induct)
    case (step d n)
    show ?case
    proof (cases "CHR ''/'' \<in> set s")
      case False
      then have "d = p" using last_name_eq [of d n p s] step.hyps by simp
      with step.hyps(1) assms show False by auto
    next
      case True
      then obtain s1 s2 where s: "s = s1 @ CHR ''/'' # s2" "CHR ''/'' \<notin> set s2"
        using split_list_last by metis
      then have "d = p @ CHR ''/'' # s1"
        using last_name_eq [of d n "p @ CHR ''/'' # s1" s2] step.hyps by simp
      with step.hyps(1) assms(3) show False by (auto simp: prefix_def)
    qed
  qed
qed

lemma visited_prefix: "visited a root q \<Longrightarrow> prefix (root @ ''/'') q"
  by (induction rule: visited.induct) (auto simp: prefix_def)

definition spared :: "bool \<Rightarrow> cstring \<Rightarrow> string \<Rightarrow> string \<Rightarrow> inode option \<Rightarrow> bool" where
  "spared a b root q x \<longleftrightarrow> \<not> visited a root q \<or>
     b = Some q \<and> (case x of None \<Rightarrow> True | Some i \<Rightarrow> \<not> S_ISDIR (st_mode i))"

lemma lookup_or_warn:
  assumes "q \<noteq> p" "q \<noteq> parent_of p"
  shows "lookup (or_warn (sys_unlink e p) t) q = lookup t q" "lookup (or_warn (sys_rmdir e p) t) q = lookup t q"
  using assms by (auto simp: or_warn_def sys_unlink_def sys_rmdir_def lookup_touch_parent
      split: sum.split option.split)

lemma wipe_entries_keeps:
  assumes rec: "\<And>p t ok t'. rec p t = Some (ok, t') \<Longrightarrow> visited a root p \<Longrightarrow> spared a b root q (lookup t q) \<Longrightarrow>
      lookup t' q = lookup t q"
    and path: "path = root \<or> visited a root path" "q \<noteq> path"
  shows "wipe_entries e a b rec path ns t = Some (ok, t') \<Longrightarrow> spared a b root q (lookup t q) \<Longrightarrow>
    \<forall>n \<in> set ns. CHR ''/'' \<notin> set n \<Longrightarrow> lookup t' q = lookup t q"
proof (induction ns arbitrary: t)
  case (Cons n ns)
  let ?q = "path @ CHR ''/'' # n" and ?loop = "wipe_entries e a b rec path ns"
  have IH: "lookup t' q = lookup t q" if "?loop t1 = Some (ok, t')" "lookup t1 q = lookup t q" for t1
    using Cons.IH [of t1] that Cons.prems by simp
  show ?case
  proof (cases "skipped_name n \<or> \<not> a \<and> map_of SKIP_PATHS ?q = Some SPECIAL_NO_TOUCH")
    case True
    then show ?thesis using Cons.prems(1) IH [of t] by (auto simp: Let_def split: if_splits)
  next
    case False
    have v: "visited a root ?q" using visited.step [OF path(1), of n] False Cons.prems(3) by auto
    have par: "parent_of ?q = path" using Cons.prems(3) by simp
    show ?thesis
    proof (cases "sys_lstat e t ?q")
      case (Inl x)
      with Cons.prems(1) IH False show ?thesis by (auto simp: Let_def split: if_splits)
    next
      case (Inr st)
      then have l: "lookup t ?q = Some st" by (auto simp: sys_lstat_def split: option.splits)
      show ?thesis
      proof (cases "S_ISDIR (st_mode st)")
        case True
        then have nq: "q \<noteq> ?q" using Cons.prems(2) v l by (auto simp: spared_def)
        from True Inr False Cons.prems(1) obtain ok1 t1 where r: "rec ?q t = Some (ok1, t1)"
          by (auto simp: Let_def split: if_splits option.splits)
        have l1: "lookup t1 q = lookup t q" using rec [OF r v] Cons.prems(2) by simp
        have l2: "lookup (or_warn (sys_rmdir e ?q) t1) q = lookup t q"
          using lookup_or_warn(2) [OF nq, of e t1] par path(2) l1 by simp
        show ?thesis
          using Cons.prems(1) False True Inr r IH [of t1] IH [OF _ l2] l1
          by (auto simp: Let_def split: if_splits)
      next
        case nd: False
        show ?thesis
        proof (cases "b = Some ?q")
          case True
          then show ?thesis using Cons.prems(1) False nd Inr IH [of t] by (auto simp: Let_def split: if_splits)
        next
          case nb: False
          then have nq: "q \<noteq> ?q" using Cons.prems(2) v by (auto simp: spared_def)
          have l2: "lookup (or_warn (sys_unlink e ?q) t) q = lookup t q"
            using lookup_or_warn(1) [OF nq, of e t] par path(2) by simp
          show ?thesis
            using Cons.prems(1) False nd nb Inr IH [OF _ l2] IH [of t] by (auto simp: Let_def split: if_splits)
        qed
      qed
    qed
  qed
qed simp

lemma wipe_keeps:
  "wipe fuel e a b path t = Some (ok, t') \<Longrightarrow> path = root \<or> visited a root path \<Longrightarrow> q \<noteq> root \<Longrightarrow>
    spared a b root q (lookup t q) \<Longrightarrow> lookup t' q = lookup t q"
proof (induction fuel arbitrary: path t ok t')
  case (Suc fuel)
  show ?case
  proof (cases "sys_opendir e t path")
    case (Inr names)
    then have d: "is_dir t path" "\<forall>n \<in> set names. CHR ''/'' \<notin> set n"
      by (auto simp: sys_opendir_def is_dir_iff mem_children split: option.splits if_splits)
    have "q \<noteq> path" using Suc.prems d(1) by (auto simp: spared_def is_dir_iff)
    have "lookup t'' q = lookup t1 q" if "wipe fuel e a b p t1 = Some (ok1, t'')" "visited a root p"
        "spared a b root q (lookup t1 q)" for p t1 ok1 t''
      using Suc.IH that Suc.prems(3) by blast
    from wipe_entries_keeps [of "wipe fuel e a b", OF this Suc.prems(2) \<open>q \<noteq> path\<close> _ Suc.prems(4) d(2)]
      Suc.prems(1) Inr
    show ?thesis by simp
  qed (use Suc.prems in simp)
qed simp

lemma wipe_entries_ok:
  assumes e: "no_faults e" and rec: "\<And>p t ok t'. is_dir t p \<Longrightarrow> rec p t = Some (ok, t') \<Longrightarrow> ok"
  shows "wipe_entries e a b rec path ns t = Some (ok, t') \<Longrightarrow> ok"
proof (induction ns arbitrary: t)
  case (Cons n ns)
  let ?q = "path @ CHR ''/'' # n"
  show ?case
  proof (cases "lookup t ?q")
    case (Some st)
    then have l: "sys_lstat e t ?q = Inr st" using e by (simp add: sys_lstat_def)
    have "ok1" if "S_ISDIR (st_mode st)" "rec ?q t = Some (ok1, t1)" for ok1 t1
      using rec [OF _ that(2)] that(1) Some by (simp add: is_dir_iff)
    with Cons l show ?thesis by (auto simp: Let_def split: if_splits option.splits)
  next
    case None
    then have "sys_lstat e t ?q = Inl ENOENT" using e by (simp add: sys_lstat_def)
    with Cons show ?thesis by (auto simp: Let_def split: if_splits)
  qed
qed simp

lemma wipe_ok: "no_faults e \<Longrightarrow> is_dir t path \<Longrightarrow> wipe fuel e a b path t = Some (ok, t') \<Longrightarrow> ok"
proof (induction fuel arbitrary: path t ok t')
  case (Suc fuel)
  then obtain names where "sys_opendir e t path = Inr names"
    by (auto simp: sys_opendir_def is_dir_iff)
  with Suc.prems have "wipe_entries e a b (wipe fuel e a b) path names t = Some (ok, t')" by simp
  then show ?case
    by (rule wipe_entries_ok [OF Suc.prems(1), rotated]) (rule Suc.IH [OF Suc.prems(1)])
qed simp

text \<open>The root of the wipe stays a directory.\<close>

lemma is_dir_touch_parent: "is_dir (touch_parent e p t) q = is_dir t q"
  by (auto simp: is_dir_def lookup_touch_parent split: option.split)

lemma is_dir_or_warn:
  assumes "length q < length p" "is_dir t q"
  shows "is_dir (or_warn (sys_unlink e p) t) q" "is_dir (or_warn (sys_rmdir e p) t) q"
  using assms by (auto simp: or_warn_def sys_unlink_def sys_rmdir_def is_dir_touch_parent
      split: sum.split option.split) (auto simp: is_dir_def split: option.splits)

lemma wipe_entries_root:
  assumes rec: "\<And>p t ok t'. rec p t = Some (ok, t') \<Longrightarrow> length q \<le> length p \<Longrightarrow> is_dir t q \<Longrightarrow> is_dir t' q"
    and len: "length q \<le> length path"
  shows "wipe_entries e a b rec path ns t = Some (ok, t') \<Longrightarrow> is_dir t q \<Longrightarrow> is_dir t' q"
proof (induction ns arbitrary: t)
  case (Cons n ns)
  let ?q = "path @ CHR ''/'' # n"
  have l: "length q < length ?q" using len by simp
  show ?case
  proof (cases "sys_lstat e t ?q")
    case (Inr st)
    have "is_dir t1 q" if "rec ?q t = Some (ok1, t1)" for ok1 t1
      using rec [OF that _ Cons.prems(2)] l by simp
    with Cons Inr is_dir_or_warn [OF l] show ?thesis
      by (auto simp: Let_def split: if_splits option.splits)
  next
    case (Inl x)
    with Cons show ?thesis by (auto simp: Let_def split: if_splits)
  qed
qed simp

lemma wipe_root:
  "wipe fuel e a b path t = Some (ok, t') \<Longrightarrow> length q \<le> length path \<Longrightarrow> is_dir t q \<Longrightarrow> is_dir t' q"
proof (induction fuel arbitrary: path t ok t')
  case (Suc fuel)
  show ?case
  proof (cases "sys_opendir e t path")
    case (Inr names)
    with Suc.prems have "wipe_entries e a b (wipe fuel e a b) path names t = Some (ok, t')" by simp
    then show ?thesis
      by (rule wipe_entries_root [of "wipe fuel e a b", OF _ Suc.prems(2) _ Suc.prems(3), rotated])
        (rule Suc.IH)
  qed (use Suc.prems in simp)
qed simp

section \<open>Properties\<close>

text \<open>The stream that a backup without faults writes.\<close>

definition archive :: "fs \<Rightarrow> bool \<Rightarrow> string \<Rightarrow> string" where
  "archive t backupAll destPath =
     int32_bytes FILE_VERSION @ int32_bytes (if backupAll then 1 else 0) @
     concat (map record_bytes (walk_dir t backupAll (Some destPath) ''/data'')) @ int32_bytes TYPE_END"

lemma length_archive:
  "length (archive t a p) = 12 + sum_list (map (\<lambda>(q, i). 44 + length q +
     (if S_ISDIR (st_mode i) then 0 else 8 + length (contents i))) (walk_dir t a (Some p) ''/data''))"
proof -
  have l: "length (int32_bytes v) = 4" "length (int64_bytes v) = 8" for v
    by (simp_all add: int32_bytes_def int64_bytes_def)
  have "length (concat (map record_bytes es)) = sum_list (map (\<lambda>(q, i). 44 + length q +
     (if S_ISDIR (st_mode i) then 0 else 8 + length (contents i))) es)" for es
    by (induction es) (auto simp: header_bytes_def l)
  then show ?thesis by (simp add: archive_def l)
qed

lemma backup_data_eq:
  assumes e: "no_faults e" and t1: "sys_fopen_w e destPath t = Inr t1" and "sizes_ok t1" and "is_dir t1 ''/data''"
  shows "backup_data e a destPath t =
    (if length (archive t1 a destPath) \<le> disk_room e destPath then 0 else -1,
     write_file e destPath (take (disk_room e destPath) (archive t1 a destPath)) t1)"
proof -
  let ?m = "and_then (write_int32 FILE_VERSION) (and_then (write_int32 (if a then 1 else 0))
      (and_then (backup_dir e t1 a (Some destPath) ''/data'') (write_int32 0)))"
  have "writer ?m (archive t1 a destPath) True"
    unfolding archive_def TYPE_END_def
    by (intro writer_and_then_True writer_int32 backup_dir_writer(1) assms)
  from writerD [OF this] show ?thesis
    using e unfolding backup_data_def t1 by simp
qed

lemma read_int32_archive:
  "read_int32 d (archive t a p) = (to_i32 FILE_VERSION, drop 4 (archive t a p))"
  "read_int32 d (drop 4 (archive t a p)) = (if a then 1 else 0, drop 8 (archive t a p))"
  "drop 8 (archive t a p) = concat (map record_bytes (walk_dir t a (Some p) ''/data'')) @ int32_bytes TYPE_END"
proof -
  have l: "length (int32_bytes v) = 4" for v by (simp add: int32_bytes_def)
  have d: "drop 4 (int32_bytes v @ s) = s" for v s using l [of v] by simp
  show "read_int32 d (archive t a p) = (to_i32 FILE_VERSION, drop 4 (archive t a p))"
    unfolding archive_def d by (rule read_int32_bytes)
  have 8: "drop 8 s = drop 4 (drop 4 s)" for s :: string by simp
  show "drop 8 (archive t a p) = concat (map record_bytes (walk_dir t a (Some p) ''/data'')) @ int32_bytes TYPE_END"
    unfolding archive_def 8 d ..
  show "read_int32 d (drop 4 (archive t a p)) = (if a then 1 else 0, drop 8 (archive t a p))"
    unfolding archive_def 8 d read_int32_bytes by (simp add: to_i32_def)
qed

lemma restore_data_archive:
  assumes "sys_fopen_r e srcPath t = Inr (archive t0 a p)"
    and "wipe (Suc (length t)) e a (Some srcPath) ''/data'' t = Some (True, t1)"
    and "restore_loop e (concat (map record_bytes (walk_dir t0 a (Some p) ''/data'')) @ int32_bytes TYPE_END) t1 =
      (True, t2)"
  shows "restore_data e srcPath t = Some (0, t2)"
proof -
  have "to_u32 (to_i32 FILE_VERSION) = FILE_VERSION"
    unfolding to_u32_i32 by (simp add: to_u32_def FILE_VERSION_def FILE_VERSION_2_def)
  then show ?thesis
    using assms unfolding restore_data_def
    by (cases a) (simp_all add: Let_def read_int32_archive FILE_VERSION_def FILE_VERSION_1_def FILE_VERSION_2_def
        del: wipe.simps)
qed

definition restorable :: "sys_env \<Rightarrow> fs \<Rightarrow> fs \<Rightarrow> bool" where
  "restorable e t0 t \<longleftrightarrow>
     list_all (\<lambda>(q, i). prefix ''/data/'' q \<and> (S_ISDIR (st_mode i) \<or> S_ISREG (st_mode i)) \<longrightarrow> storable e q i \<and> no_conflict t q i) t0"

lemma walk_kinds:
  shows "(q, i) \<in> set (walk_dir t a b src) \<Longrightarrow>
      (S_ISDIR (st_mode i) \<or> S_ISREG (st_mode i)) \<and> (\<exists>n. q = src @ CHR ''/'' # n)"
    and "(q, i) \<in> set (walk_entries t a b src ns) \<Longrightarrow>
      (S_ISDIR (st_mode i) \<or> S_ISREG (st_mode i)) \<and> (\<exists>n. q = src @ CHR ''/'' # n)"
proof (induction t a b src and t a b src ns rule: walk_dir_walk_entries.induct)
  case (1 t a b src)
  then show ?case by (simp add: walk_dir.simps [of t a b src])
next
  case (3 t a b src n ns)
  then show ?case
    by (fastforce simp: walk_entries.simps(2) Let_def split: option.splits if_splits)
qed simp

lemma restore_data_holds:
  assumes e: "no_faults e" and s: "sys_fopen_r e srcPath t = Inr (archive t0 a p)"
    and d: "is_dir t ''/data''" and r: "restorable e t0 t"
  shows "\<exists>t2. restore_data e srcPath t = Some (0, t2) \<and>
    (\<forall>q i. archived t0 a (Some p) ''/data'' q \<longrightarrow> lookup t0 q = Some i \<longrightarrow> holds_node t2 q i)"
proof -
  have "below t ''/data'' < Suc (length t)" using below_le le_imp_less_Suc by blast
  from wipe_total [OF this, of e a "Some srcPath"] obtain ok t1 where
    w: "wipe (Suc (length t)) e a (Some srcPath) ''/data'' t = Some (ok, t1)" and sh: "shrunk t t1" by blast
  have "ok" using wipe_ok [OF e d w] .
  have d1: "is_dir t1 ''/data''" by (rule wipe_root [OF w _ d]) simp
  let ?es = "walk_dir t0 a (Some p) ''/data''"
  have "storable e q i \<and> no_conflict t1 q i \<and> lookup t0 q = Some i \<and> parent_of q \<noteq> q"
    if m: "(q, i) \<in> set ?es" for q i
  proof -
    have l: "lookup t0 q = Some i" using walk_entries_lookup(1) [OF m] .
    then have "(q, i) \<in> set t0" by (auto simp: lookup_def dest: map_of_SomeD)
    then have "storable e q i" "no_conflict t q i"
      using r walk_kinds(1) [OF m] by (auto simp: restorable_def archivable_def list_all_iff prefix_def)
    moreover from this(2) sh have "no_conflict t1 q i"
      by (cases "lookup t1 q") (fastforce simp: no_conflict_def shrunk_def kind_eq_def)+
    moreover have "parent_of q \<noteq> q"
      using walk_kinds(1) [OF m] parent_of_neq [of q] by (auto simp: append_eq_Cons_conv)
    ultimately show ?thesis using l by blast
  qed
  then have "\<exists>t2. restore_loop e (concat (map record_bytes ?es) @ int32_bytes TYPE_END) t1 = (True, t2) \<and>
      (\<forall>(q, i) \<in> set ?es. holds_node t2 q i)"
    using restore_loop_all [OF e walk_parents_first(1) [of "''/data''" "{''/data''}" t0 a "Some p"],
        of t1 "lookup t0"] d1 by fastforce
  then obtain t2 where t2: "restore_loop e (concat (map record_bytes ?es) @ int32_bytes TYPE_END) t1 = (True, t2)"
    "\<forall>(q, i) \<in> set ?es. holds_node t2 q i" by blast
  have "restore_data e srcPath t = Some (0, t2)"
    using restore_data_archive [OF s _ t2(1)] w \<open>ok\<close> by simp
  moreover have "holds_node t2 q i" if "archived t0 a (Some p) ''/data'' q" "lookup t0 q = Some i" for q i
    using archived_walk [OF that(1)] that(2) t2(2) by auto
  ultimately show ?thesis by blast
qed

lemma restorable_spelled:
  assumes "\<forall>(q, i) \<in> set t0. prefix ''/data/'' q \<and> (S_ISDIR (st_mode i) \<or> S_ISREG (st_mode i)) \<longrightarrow>
      (\<forall>s \<in> {st_atime i, st_mtime i, st_ctime i}. 0 \<le> s \<and> s * 1000000000 < 2 ^ 63) \<and>
      (\<forall>n \<in> {st_uid i, st_gid i, st_mode i}. 0 \<le> n \<and> n < 2 ^ 32 - 1) \<and>
      CHR 0x00 \<notin> set q \<and> length q < 2 ^ 31 \<and>
      (S_ISREG (st_mode i) \<longrightarrow> st_size i = int (length (contents i)) \<and> st_size i < 2 ^ 63)"
    and "\<forall>(q, i) \<in> set t0. prefix ''/data/'' q \<and> (S_ISDIR (st_mode i) \<or> S_ISREG (st_mode i)) \<longrightarrow>
      no_conflict t q i \<and> (S_ISREG (st_mode i) \<longrightarrow> length (contents i) \<le> disk_room e q)"
  shows "restorable e t0 t"
  unfolding restorable_def list_all_iff
proof (rule ballI, clarify)
  fix q i assume m: "(q, i) \<in> set t0" "prefix ''/data/'' q" "S_ISDIR (st_mode i) \<or> S_ISREG (st_mode i)"
  from m(2) have "q \<noteq> []" "hd q = CHR ''/''" by (auto simp: prefix_def)
  with bspec [OF assms(1) m(1)] bspec [OF assms(2) m(1)] m(2,3) show "storable e q i \<and> no_conflict t q i"
    by (auto simp: storable_def archivable_def sane_path_def sane_inode_def sane_time_def)
qed

text \<open>
  C9: a backup followed by a restore.  When no call faults and the archive fits, the backup
  succeeds.  If moreover every directory and file below \<open>/data\<close> has times between 1970 and 2262 (the
  nanoseconds fit in 63 bits), an owner, a group and a mode other than -1 in 32 bits, a path that is not
  cut at a null byte or longer than 31 bits, and the size of its contents, then restoring the archive on
  any partition with a \<open>/data\<close> directory, no entry of another kind in the way and room for every file
  succeeds; every archived entry is then there with its kind, permission bits and owner, and every
  file with its contents and times.  (The backup does not ask for these times and owners: one file
  from before 1970 makes an archive whose restore fails, see \<open>negative_mtime_refused\<close>.)
\<close>

theorem backup_restore_roundtrip:
  assumes "no_faults e" and "no_faults e'" and "sys_fopen_w e destPath t = Inr t1" and "sizes_ok t1"
    and "is_dir t1 ''/data''" and "length (archive t1 a destPath) \<le> disk_room e destPath"
    and "lookup t1 destPath \<noteq> None"
    and header: "\<forall>(q, i) \<in> set t1. prefix ''/data/'' q \<and> (S_ISDIR (st_mode i) \<or> S_ISREG (st_mode i)) \<longrightarrow>
      (\<forall>s \<in> {st_atime i, st_mtime i, st_ctime i}. 0 \<le> s \<and> s * 1000000000 < 2 ^ 63) \<and>
      (\<forall>n \<in> {st_uid i, st_gid i, st_mode i}. 0 \<le> n \<and> n < 2 ^ 32 - 1) \<and>
      CHR 0x00 \<notin> set q \<and> length q < 2 ^ 31 \<and>
      (S_ISREG (st_mode i) \<longrightarrow> st_size i = int (length (contents i)) \<and> st_size i < 2 ^ 63)"
  shows "\<exists>tb d. backup_data e a destPath t = (0, tb) \<and> lookup tb destPath = Some d \<and>
    (\<forall>srcPath tr. sys_fopen_r e' srcPath tr = Inr (contents d) \<longrightarrow> is_dir tr ''/data'' \<longrightarrow>
      (\<forall>(q, i) \<in> set t1. prefix ''/data/'' q \<and> (S_ISDIR (st_mode i) \<or> S_ISREG (st_mode i)) \<longrightarrow>
         no_conflict tr q i \<and> (S_ISREG (st_mode i) \<longrightarrow> length (contents i) \<le> disk_room e' q)) \<longrightarrow>
      (\<exists>t2. restore_data e' srcPath tr = Some (0, t2) \<and>
        (\<forall>q i. archived t1 a (Some destPath) ''/data'' q \<longrightarrow> lookup t1 q = Some i \<longrightarrow> holds_node t2 q i)))"
  using assms restore_data_holds [OF assms(2), of _ _ t1 a destPath] restorable_spelled [OF header]
  by (auto simp: backup_data_eq [OF assms(1,3,4,5)] write_file_def)

definition demo_env :: sys_env where
  "demo_env = \<lparr>fault = (\<lambda>c p. None), now = 7, disk_room = (\<lambda>p. 400)\<rparr>"

definition demo_dir :: inode where
  "demo_dir = \<lparr>st_mode = S_IFDIR + 505, st_uid = 1000, st_gid = 1000, st_size = 0, st_atime = 1,
     st_mtime = 2, st_ctime = 3, contents = []\<rparr>"

definition demo_file :: "string \<Rightarrow> inode" where
  "demo_file s = \<lparr>st_mode = S_IFREG + 416, st_uid = 10001, st_gid = 10001, st_size = int (length s),
     st_atime = 4, st_mtime = 5, st_ctime = 6, contents = s\<rparr>"

definition demo_fs :: fs where
  "demo_fs = [([], demo_dir), (''/sdcard'', demo_dir), (''/data'', demo_dir), (''/data/app'', demo_dir),
     (''/data/app/a.apk'', demo_file ''code''), (''/data/misc'', demo_dir),
     (''/data/misc/key'', demo_file ''k''), (''/sdcard/b'', demo_file ''old'')]"

definition demo_opened :: fs where
  "demo_opened = [([], demo_dir), (''/sdcard'', demo_dir), (''/data'', demo_dir), (''/data/app'', demo_dir),
     (''/data/app/a.apk'', demo_file ''code''), (''/data/misc'', demo_dir),
     (''/data/misc/key'', demo_file ''k''),
     (''/sdcard/b'', (demo_file [])\<lparr>st_mtime := 7, st_ctime := 7\<rparr>)]"

definition demo_target :: fs where
  "demo_target = [([], demo_dir), (''/data'', demo_dir), (''/data/old'', demo_file ''x'')]"

theorem backup_restore_roundtrip_witness:
  "\<exists>tb d. backup_data demo_env False ''/sdcard/b'' demo_fs = (0, tb) \<and> lookup tb ''/sdcard/b'' = Some d \<and>
     (\<exists>t2. restore_data demo_env ''/x'' (demo_target @ [(''/x'', d)]) = Some (0, t2) \<and>
       holds_node t2 ''/data/app'' demo_dir)"
proof -
  have e: "no_faults demo_env" by (simp add: no_faults_def demo_env_def)
  have o: "sys_fopen_w demo_env ''/sdcard/b'' demo_fs = Inr demo_opened" by code_simp
  have s: "sizes_ok demo_opened" "is_dir demo_opened ''/data''" by code_simp+
  have l: "lookup demo_opened ''/sdcard/b'' \<noteq> None" by code_simp
  have w: "walk_dir demo_opened False (Some ''/sdcard/b'') ''/data'' =
      [(''/data/app'', demo_dir), (''/data/app/a.apk'', demo_file ''code'')]" by code_simp
  have n: "length (archive demo_opened False ''/sdcard/b'') \<le> disk_room demo_env ''/sdcard/b''"
    unfolding length_archive w by (simp add: demo_env_def demo_dir_def demo_file_def S_ISDIR_def S_IFMT_of_def
        S_IFDIR_def S_IFREG_def)
  have h: "\<forall>(q, i) \<in> set demo_opened. prefix ''/data/'' q \<and> (S_ISDIR (st_mode i) \<or> S_ISREG (st_mode i)) \<longrightarrow>
      (\<forall>s \<in> {st_atime i, st_mtime i, st_ctime i}. 0 \<le> s \<and> s * 1000000000 < 2 ^ 63) \<and>
      (\<forall>n \<in> {st_uid i, st_gid i, st_mode i}. 0 \<le> n \<and> n < 2 ^ 32 - 1) \<and>
      CHR 0x00 \<notin> set q \<and> length q < 2 ^ 31 \<and>
      (S_ISREG (st_mode i) \<longrightarrow> st_size i = int (length (contents i)) \<and> st_size i < 2 ^ 63)"
    by (simp add: demo_opened_def demo_dir_def demo_file_def S_ISDIR_def S_ISREG_def S_IFMT_of_def S_IFDIR_def S_IFREG_def)
  from backup_restore_roundtrip [OF e e o s n l h] obtain tb d where
    b: "backup_data demo_env False ''/sdcard/b'' demo_fs = (0, tb)" "lookup tb ''/sdcard/b'' = Some d"
    and r: "\<And>srcPath tr. sys_fopen_r demo_env srcPath tr = Inr (contents d) \<Longrightarrow> is_dir tr ''/data'' \<Longrightarrow>
      \<forall>(q, i) \<in> set demo_opened. prefix ''/data/'' q \<and> (S_ISDIR (st_mode i) \<or> S_ISREG (st_mode i)) \<longrightarrow>
        no_conflict tr q i \<and> (S_ISREG (st_mode i) \<longrightarrow> length (contents i) \<le> disk_room demo_env q) \<Longrightarrow>
      \<exists>t2. restore_data demo_env srcPath tr = Some (0, t2) \<and>
        (\<forall>q i. archived demo_opened False (Some ''/sdcard/b'') ''/data'' q \<longrightarrow>
          lookup demo_opened q = Some i \<longrightarrow> holds_node t2 q i)"
    by blast
  let ?tr = "demo_target @ [(''/x'', d)]"
  note defs = demo_env_def demo_dir_def demo_file_def demo_target_def demo_opened_def S_ISDIR_def S_ISREG_def
    S_IFMT_of_def S_IFDIR_def S_IFREG_def lookup_def
  have 1: "sys_fopen_r demo_env ''/x'' ?tr = Inr (contents d)" by (simp add: sys_fopen_r_def defs)
  have 2: "is_dir ?tr ''/data''" by (simp add: is_dir_def defs)
  have 3: "\<forall>(q, i) \<in> set demo_opened. prefix ''/data/'' q \<and> (S_ISDIR (st_mode i) \<or> S_ISREG (st_mode i)) \<longrightarrow>
      no_conflict ?tr q i \<and> (S_ISREG (st_mode i) \<longrightarrow> length (contents i) \<le> disk_room demo_env q)"
    by (simp add: no_conflict_def kind_eq_def defs)
  have "archived demo_opened False (Some ''/sdcard/b'') ''/data'' (''/data'' @ ''/'' @ ''app'')"
    by (rule archived.here [where i = demo_dir]; code_simp)
  moreover have "lookup demo_opened ''/data/app'' = Some demo_dir" by code_simp
  ultimately show ?thesis using b r [OF 1 2 3] by force
qed

text \<open>
  C29: a wipe spares, whatever calls fault, the no-touch paths and everything below them
  (without \<open>-a\<close>), everything outside the wiped directory, and the backup file.
\<close>

theorem wipe_spares:
  assumes "wipe fuel e a b ''/data'' t = Some (ok, t')" and "q \<noteq> ''/data''"
    and "\<not> prefix ''/data/'' q \<or> b = Some q \<and> \<not> is_dir t q \<or>
      \<not> a \<and> (\<exists>p. map_of SKIP_PATHS p = Some SPECIAL_NO_TOUCH \<and> (q = p \<or> prefix (p @ ''/'') q))"
  shows "lookup t' q = lookup t q"
proof (rule wipe_keeps [OF assms(1) _ assms(2)])
  show "spared a b ''/data'' q (lookup t q)"
    using assms(3)
  proof (elim disjE)
    assume "\<not> prefix ''/data/'' q"
    then show ?thesis using visited_prefix [of a "''/data''" q] by (auto simp: spared_def)
  next
    assume "b = Some q \<and> \<not> is_dir t q"
    then show ?thesis by (auto simp: spared_def is_dir_def split: option.splits)
  next
    assume "\<not> a \<and> (\<exists>p. map_of SKIP_PATHS p = Some SPECIAL_NO_TOUCH \<and> (q = p \<or> prefix (p @ ''/'') q))"
    then obtain p where p: "\<not> a" "map_of SKIP_PATHS p = Some SPECIAL_NO_TOUCH" "q = p \<or> prefix (p @ ''/'') q"
      by blast
    have nv: "\<not> visited a ''/data'' p"
      using p(1,2) by (auto elim: visited.cases)
    have "\<not> prefix (p @ ''/'') ''/data'' \<and> p \<noteq> ''/data''"
      using p(2) by (auto simp: SKIP_PATHS_def split: if_splits)
    with nv p(3) have "\<not> visited a ''/data'' q"
      using not_visited_below [OF nv] by (auto simp: prefix_def)
    then show ?thesis by (simp add: spared_def)
  qed
qed simp

lemma demo_wipe: "wipe 9 demo_env False None ''/data'' demo_fs = Some (True,
    [([], demo_dir), (''/sdcard'', demo_dir), (''/data'', demo_dir\<lparr>st_mtime := 7, st_ctime := 7\<rparr>),
     (''/data/misc'', demo_dir), (''/data/misc/key'', demo_file ''k''), (''/sdcard/b'', demo_file ''old'')])"
  by code_simp

theorem wipe_spares_witness:
  "\<exists>ok t'. wipe 9 demo_env False None ''/data'' demo_fs = Some (ok, t') \<and>
     lookup t' ''/data/misc/key'' = lookup demo_fs ''/data/misc/key'' \<and> lookup t' ''/data/app/a.apk'' = None"
proof -
  have "map_of SKIP_PATHS ''/data/misc'' = Some SPECIAL_NO_TOUCH" by code_simp
  then have "lookup [([], demo_dir), (''/sdcard'', demo_dir), (''/data'', demo_dir\<lparr>st_mtime := 7, st_ctime := 7\<rparr>),
     (''/data/misc'', demo_dir), (''/data/misc/key'', demo_file ''k''), (''/sdcard/b'', demo_file ''old'')]
     ''/data/misc/key'' = lookup demo_fs ''/data/misc/key''"
    by (intro wipe_spares [OF demo_wipe]) (simp, force simp: prefix_def)
  then show ?thesis using demo_wipe by (auto simp: lookup_def)
qed

section \<open>Truncated archives\<close>

text \<open>A reader that takes exactly the bytes \<open>a\<close>, gives \<open>v\<close>, and fails on less.\<close>

definition takes :: "(string \<Rightarrow> 'a option \<times> string) \<Rightarrow> string \<Rightarrow> 'a \<Rightarrow> bool" where
  "takes m a v \<longleftrightarrow> (\<forall>s. m (a @ s) = (Some v, s)) \<and> (\<forall>n < length a. fst (m (take n a)) = None)"

lemma takes_then:
  assumes "takes m a v" and "\<And>n. n < length b \<Longrightarrow> fst (k v (take n b)) = None"
  shows "n < length (a @ b) \<Longrightarrow> fst (read_then m k (take n (a @ b))) = None"
proof (cases "n < length a")
  case True
  then have "fst (m (take n a)) = None" using assms(1) by (simp add: takes_def)
  then show ?thesis using True by (auto simp: read_then_def split: prod.splits option.splits)
next
  case False
  assume "n < length (a @ b)"
  moreover have "m (a @ s) = (Some v, s)" for s using assms(1) by (simp add: takes_def)
  ultimately show ?thesis using False assms(2) [of "n - length a"] by (simp add: read_then_def)
qed

lemma takes_int32: "bad (-1) \<Longrightarrow> \<not> bad (to_i32 v) \<Longrightarrow> takes (get_int32 bad) (int32_bytes v) (to_i32 v)"
  unfolding takes_def by (simp add: get_int32_bytes) (simp add: get_int32_def read_int32_def fread_def int32_bytes_def)

lemma takes_int64: "bad (-1) \<Longrightarrow> \<not> bad (to_i64 v) \<Longrightarrow> takes (get_int64 bad) (int64_bytes v) (to_i64 v)"
  unfolding takes_def by (simp add: get_int64_bytes) (simp add: get_int64_def read_int64_def fread_def int64_bytes_def)

lemma takes_path: "takes (get_path (int (length p))) p p"
  by (auto simp: takes_def get_path_def fread_def)

lemma read_header_short:
  assumes type: "type = TYPE_DIR \<or> type = TYPE_FILE" and p: "sane_path path" and st: "sane_inode st"
    and n: "n < length (header_bytes type path st)"
  shows "fst (read_header (take n (header_bytes type path st))) = None"
proof -
  have ty: "to_i32 type = type" "type > 0" "type \<noteq> TYPE_END"
    using type by (auto simp: TYPE_DIR_def TYPE_FILE_def TYPE_END_def to_i32_def)
  have len: "to_i32 (int (length path)) = int (length path)" "0 < int (length path)"
    using p by (auto simp: sane_path_def intro!: to_i32_id)
  have u: "to_u32 (to_i32 (st_uid st)) \<noteq> to_u32 (-1)" "to_u32 (to_i32 (st_gid st)) \<noteq> to_u32 (-1)"
    "to_u32 (to_i32 (st_mode st)) \<noteq> to_u32 (-1)"
    using st unfolding to_u32_i32 by (auto simp: sane_inode_def to_u32_def)
  have tm: "\<not> to_i64 (to_i64 (t * 1000 * 1000 * 1000)) < 0" if "sane_time t" for t
    using sane_time_back(1,3) [OF that] by (simp add: mult.commute)
  have t: "\<not> to_i64 (to_i64 (st_atime st * 1000 * 1000 * 1000)) < 0"
    "\<not> to_i64 (to_i64 (st_mtime st * 1000 * 1000 * 1000)) < 0"
    "\<not> to_i64 (to_i64 (st_ctime st * 1000 * 1000 * 1000)) < 0"
    using st tm by (auto simp: sane_inode_def)
  have last: "fst (read_then (get_int64 (\<lambda>l. l < 0)) k (take n (int64_bytes v))) = None"
    if "n < length (int64_bytes v)" "\<not> to_i64 v < 0" for n v and k :: "int \<Rightarrow> string \<Rightarrow> hdr option \<times> string"
    using takes_then [OF takes_int64 [of "\<lambda>l. l < 0" v], of "[]" k n] that by simp
  show ?thesis
    using n unfolding header_bytes_def read_header_def
    apply (rule takes_then [OF takes_int32, rotated -1])
    subgoal by (simp add: TYPE_END_def)
    subgoal using ty by simp
    apply (simp only: ty if_False)
    apply (erule takes_then [OF takes_int32, rotated -1], simp, use len in simp)
    apply (simp only: len)
    apply (erule takes_then [OF takes_path, rotated -1])
    apply (erule takes_then [OF takes_int32, rotated -1], simp, use u in simp)
    apply (erule takes_then [OF takes_int32, rotated -1], simp, use u in simp)
    apply (erule takes_then [OF takes_int32, rotated -1], simp, use u in simp)
    apply (erule takes_then [OF takes_int64, rotated -1], simp, use t in simp)
    apply (erule takes_then [OF takes_int64, rotated -1], simp, use t in simp)
    by (erule last, use t in simp)
qed

declare record_bytes.simps [simp del]

lemma header_of_record:
  assumes "archivable q i"
  shows "\<exists>h body. record_bytes (q, i) = header_bytes (h_type h) q i @ body \<and> h_type h \<noteq> TYPE_END \<and>
    (\<forall>s. read_header (header_bytes (h_type h) q i @ s) = (Some h, s)) \<and>
    (h_type h = TYPE_DIR \<and> body = [] \<or>
     h_type h = TYPE_FILE \<and> body = int64_bytes (st_size i) @ contents i \<and> st_size i = int (length (contents i)) \<and>
       to_i64 (st_size i) = st_size i)"
proof -
  define ty where "ty = (if S_ISDIR (st_mode i) then TYPE_DIR else TYPE_FILE)"
  define h where "h = \<lparr>h_type = ty, h_path = q, h_uid = st_uid i, h_gid = st_gid i,
    h_mode = st_mode i mod 512, h_atime = st_atime i, h_mtime = st_mtime i, h_ctime = st_ctime i\<rparr>"
  have "read_header (header_bytes ty q i @ s) = (Some h, s)" for s
    unfolding h_def using assms by (intro read_header_bytes) (auto simp: ty_def archivable_def)
  then show ?thesis
    using assms by (intro exI [of _ h]) (auto simp: record_bytes.simps h_def ty_def archivable_def TYPE_DIR_def TYPE_FILE_def TYPE_END_def to_i64_id)
qed

lemma restore_loop_record:
  assumes "archivable q i"
  shows "(\<exists>t'. restore_loop e (record_bytes (q, i) @ s) t = (False, t')) \<or>
    (\<exists>t'. restore_loop e (record_bytes (q, i) @ s) t = restore_loop e s t')"
proof -
  from header_of_record [OF assms] obtain h body where hb: "record_bytes (q, i) = header_bytes (h_type h) q i @ body"
    "h_type h \<noteq> TYPE_END" "\<And>s. read_header (header_bytes (h_type h) q i @ s) = (Some h, s)"
    "h_type h = TYPE_DIR \<and> body = [] \<or>
     h_type h = TYPE_FILE \<and> body = int64_bytes (st_size i) @ contents i \<and> st_size i = int (length (contents i)) \<and>
       to_i64 (st_size i) = st_size i" by auto
  note h = hb(2) hb(3) [of "body @ s", folded append_assoc, folded hb(1)] hb(4)
  have "(\<exists>ok t1. restore_node e h (body @ s) t = (ok, s, t1)) \<or>
    (\<exists>s' t1. restore_node e h (body @ s) t = (False, s', t1))"
  proof (cases "h_type h = TYPE_DIR")
    case True
    with h(3) show ?thesis by (auto simp: restore_node_def TYPE_DIR_def TYPE_FILE_def split: sum.split)
  next
    case False
    with h(3) have b: "h_type h = TYPE_FILE" "body = int64_bytes (st_size i) @ contents i"
      "st_size i = int (length (contents i))" "to_i64 (st_size i) = st_size i" by auto
    let ?w = "\<lparr>w_data = [], w_room = disk_room e (h_path h)\<rparr>"
    have "copy_file (int (length (contents i))) ?w (contents i @ s) = (True, \<lparr>w_data = contents i,
        w_room = disk_room e (h_path h) - length (contents i)\<rparr>, s) \<or>
      fst (copy_file (int (length (contents i))) ?w (contents i @ s)) = False"
      using copy_file_all [of "contents i" ?w s]
        copy_file_eq [of "int (length (contents i))" ?w "contents i @ s"]
      by (cases "length (contents i) \<le> disk_room e (h_path h)") (simp, metis fst_conv nat_int wfile.select_convs(2))
    then show ?thesis
      using b False by (auto simp: restore_node_def split: sum.split prod.split)
  qed
  then show ?thesis
    using h(1,2) by (subst (1 2) restore_loop.simps) (fastforce split: prod.split bool.split)
qed

lemma restore_loop_record_short:
  assumes a: "archivable q i" and n: "n < length (record_bytes (q, i))"
  shows "\<exists>t'. restore_loop e (take n (record_bytes (q, i))) t = (False, t')"
proof -
  from header_of_record [OF assms(1)] obtain h body where h: "record_bytes (q, i) = header_bytes (h_type h) q i @ body"
    "h_type h \<noteq> TYPE_END" "\<And>s. read_header (header_bytes (h_type h) q i @ s) = (Some h, s)"
    "h_type h = TYPE_DIR \<and> body = [] \<or>
     h_type h = TYPE_FILE \<and> body = int64_bytes (st_size i) @ contents i \<and> st_size i = int (length (contents i)) \<and>
       to_i64 (st_size i) = st_size i" by auto
  let ?H = "header_bytes (h_type h) q i"
  show ?thesis
  proof (cases "n < length ?H")
    case True
    then have "fst (read_header (take n (record_bytes (q, i)))) = None"
      using read_header_short [of "h_type h" q i n] h(1,4) a by (auto simp: archivable_def)
    then show ?thesis by (subst restore_loop.simps) (auto split: prod.splits option.splits)
  next
    case False
    then obtain m where m: "n = length ?H + m" using le_Suc_ex not_less by blast
    with n h(1) have "m < length body" by simp
    with h(4) have b: "h_type h = TYPE_FILE" "body = int64_bytes (st_size i) @ contents i"
      "st_size i = int (length (contents i))" "to_i64 (st_size i) = st_size i" by auto
    have l8: "length (int64_bytes (st_size i)) = 8" by (simp add: int64_bytes_def)
    have "fst (restore_node e h (take m body) t) = False"
    proof (cases "m < 8")
      case True
      then have "length (take m body) \<noteq> 8" by simp
      then have "fst (read_int64 (-1) (take m body)) = -1"
        using True by (auto simp: read_int64_def fread_def min_def)
      then show ?thesis
        using b(1) by (cases "read_int64 (-1) (take m body)") (simp add: restore_node_def TYPE_DIR_def TYPE_FILE_def)
    next
      case False
      then have "take m body = int64_bytes (st_size i) @ take (m - 8) (contents i)"
        using l8 by (simp add: b(2))
      moreover have "fst (copy_file (int (length (contents i))) w (take (m - 8) (contents i))) = False" for w
      proof -
        have "\<not> length (contents i) \<le> m - 8" using \<open>m < length body\<close> b(2) l8 False by simp
        then show ?thesis
          using copy_file_eq [of "int (length (contents i))" w "take (m - 8) (contents i)"]
          by (metis (no_types, lifting) fst_conv length_take min.bounded_iff of_nat_le_iff)
      qed
      ultimately show ?thesis
        using b by (auto simp: restore_node_def TYPE_DIR_def TYPE_FILE_def split: sum.split prod.split) (metis fst_conv)
    qed
    then show ?thesis
      using h(1-3) m by (subst restore_loop.simps) (auto split: prod.splits)
  qed
qed

lemma restore_loop_short:
  "\<forall>(q, i) \<in> set es. archivable q i \<Longrightarrow> n < length (concat (map record_bytes es) @ int32_bytes TYPE_END) \<Longrightarrow>
    \<exists>t'. restore_loop e (take n (concat (map record_bytes es) @ int32_bytes TYPE_END)) t = (False, t')"
proof (induction es arbitrary: n t)
  case Nil
  then have "n < 4" by (simp add: int32_bytes_def)
  then have "read_int32 (-1) (take n (int32_bytes TYPE_END)) = (-1, [])"
    by (simp add: read_int32_def fread_def int32_bytes_def)
  then have "read_header (take n (int32_bytes TYPE_END)) = (None, [])"
    by (simp add: read_header_def read_then_def get_int32_def TYPE_END_def)
  then show ?case by (subst restore_loop.simps) simp
next
  case (Cons x es)
  obtain q i where x: "x = (q, i)" by fastforce
  then have a: "archivable q i" using Cons.prems by auto
  let ?s = "concat (map record_bytes es) @ int32_bytes TYPE_END"
  show ?case
  proof (cases "n < length (record_bytes (q, i))")
    case True
    then show ?thesis using restore_loop_record_short [OF a True] by (simp add: x)
  next
    case False
    then obtain m where m: "n = length (record_bytes (q, i)) + m" using le_Suc_ex not_less by blast
    have "\<exists>t'. restore_loop e (take m ?s) t1 = (False, t')" for t1
      using Cons.IH [of m t1] Cons.prems m by (simp add: x)
    with restore_loop_record [OF a, of e "take m ?s" t] show ?thesis by (auto simp: x m)
  qed
qed

lemma read_int32_few: "n < 4 \<Longrightarrow> read_int32 d (take n s) = (d, [])"
  by (auto simp: read_int32_def fread_def min_def)

lemma read_int32_take:
  "read_int32 d s = (v, drop 4 s) \<Longrightarrow> 4 \<le> n \<Longrightarrow> read_int32 d (take n s) = (v, take (n - 4) (drop 4 s))"
  by (auto simp: read_int32_def fread_def min_def drop_take split: if_splits)

lemma restore_data_fails:
  assumes s: "sys_fopen_r e srcPath t = Inr s" and v: "read_int32 0 s = (v, s1)" "to_u32 v = FILE_VERSION"
    and b: "read_int32 0 s1 = (b, s2)" and l: "\<And>t. \<exists>t'. restore_loop e s2 t = (False, t')"
  shows "\<exists>t'. restore_data e srcPath t = Some (-1, t')"
proof -
  have "below t ''/data'' < Suc (length t)" using below_le le_imp_less_Suc by blast
  from wipe_total [OF this, of e "b \<noteq> 0" "Some srcPath"] obtain ok t1 where
    w: "wipe (Suc (length t)) e (b \<noteq> 0) (Some srcPath) ''/data'' t = Some (ok, t1)" by blast
  obtain t2 where "restore_loop e s2 t1 = (False, t2)" using l by blast
  then show ?thesis
    using s v b w
    by (cases ok) (simp_all add: restore_data_def FILE_VERSION_def FILE_VERSION_1_def FILE_VERSION_2_def del: wipe.simps)
qed

text \<open>
  C30: every archive that was cut short is refused: whatever calls fault, \<open>restore_data\<close> returns
  -1 on a strict prefix of an archive, so the system is not started again.
\<close>

theorem truncated_archive_rejected:
  assumes "sys_fopen_r e srcPath t = Inr (take n (archive t0 a p))" and "n < length (archive t0 a p)"
    and "\<forall>(q, i) \<in> set (walk_dir t0 a (Some p) ''/data''). archivable q i"
  shows "\<exists>t'. restore_data e srcPath t = Some (-1, t')"
proof (cases "n < 4")
  case True
  then have "read_int32 0 (take n (archive t0 a p)) = (0, [])" by (rule read_int32_few)
  with assms(1) show ?thesis by (simp add: restore_data_def to_u32_def FILE_VERSION_1_def)
next
  case False
  let ?A = "archive t0 a p" and ?s = "concat (map record_bytes (walk_dir t0 a (Some p) ''/data'')) @ int32_bytes TYPE_END"
  have v: "read_int32 0 (take n ?A) = (to_i32 FILE_VERSION, take (n - 4) (drop 4 ?A))"
    using read_int32_take [OF read_int32_archive(1)] False by simp
  have v2: "to_u32 (to_i32 FILE_VERSION) = FILE_VERSION"
    unfolding to_u32_i32 by (simp add: to_u32_def FILE_VERSION_def FILE_VERSION_2_def)
  have "\<exists>b s2. read_int32 0 (take (n - 4) (drop 4 ?A)) = (b, s2) \<and> (\<forall>t. \<exists>t'. restore_loop e s2 t = (False, t'))"
  proof (cases "n < 8")
    case True
    then have "read_int32 0 (take (n - 4) (drop 4 ?A)) = (0, [])" by (intro read_int32_few) simp
    moreover have "restore_loop e [] t = (False, t)" for t
      by (subst restore_loop.simps)
        (simp add: read_header_def read_then_def get_int32_def read_int32_def fread_def TYPE_END_def)
    ultimately show ?thesis by auto
  next
    case n8: False
    have "length ?A = 8 + length ?s" by (simp add: archive_def int32_bytes_def)
    then have "\<exists>t'. restore_loop e (take (n - 8) ?s) t = (False, t')" for t
      using restore_loop_short [OF assms(3), of "n - 8" e t] assms(2) n8 by simp
    moreover have "read_int32 0 (take (n - 4) (drop 4 ?A)) = (if a then 1 else 0, take (n - 4 - 4) (drop 8 ?A))"
      using read_int32_take [of 0 "drop 4 ?A" "if a then 1 else 0" "n - 4"] read_int32_archive(2) [of 0 t0 a p] n8
      by simp
    ultimately show ?thesis unfolding read_int32_archive(3) by simp
  qed
  then obtain b s2 where "read_int32 0 (take (n - 4) (drop 4 ?A)) = (b, s2)"
    and l: "\<And>t. \<exists>t'. restore_loop e s2 t = (False, t')" by blast
  with assms(1) v v2 show ?thesis
    by (intro restore_data_fails [OF assms(1) v v2 _ l]) auto
qed

text \<open>
  a header that was written is read back with its fields, the mode reduced to the nine
  permission bits; a header is refused exactly when a time does not survive the conversion to
  nanoseconds as a non-negative number.
\<close>

theorem header_roundtrip:
  assumes "type = TYPE_DIR \<or> type = TYPE_FILE" and "sane_path path" and "sane_inode st"
    and "length (header_bytes type path st) \<le> w_room f"
  shows "\<exists>f'. write_header type path st f = (True, f') \<and>
    read_header (drop (length (w_data f)) (w_data f') @ s) =
      (Some \<lparr>h_type = type, h_path = path, h_uid = st_uid st, h_gid = st_gid st,
         h_mode = st_mode st mod 512, h_atime = st_atime st, h_mtime = st_mtime st,
         h_ctime = st_ctime st\<rparr>, s)"
  using assms writerD [OF writer_header [of type path st], of f] read_header_bytes [OF assms(1-3)] by simp

lemma negative_mtime_refused:
  assumes "type = TYPE_DIR \<or> type = TYPE_FILE" and "sane_path path" and "sane_inode st"
    and "- (2 ^ 33) < m" and "m < 0"
  shows "fst (read_header (header_bytes type path (st\<lparr>st_mtime := m\<rparr>) @ s)) = None"
proof -
  have ty: "to_i32 type = type" "0 < type"
    using assms(1) by (auto simp: TYPE_DIR_def TYPE_FILE_def to_i32_def)
  have len: "to_i32 (int (length path)) = int (length path)" "0 < int (length path)"
    using assms(2) by (auto simp: sane_path_def intro!: to_i32_id)
  have "to_i64 (1000000000 * m) = 1000000000 * m"
    using assms(4,5) by (intro to_i64_id) simp_all
  then have "to_i64 (to_i64 (1000000000 * m)) < 0" using assms(5) by simp
  then show ?thesis
    using ty len unfolding header_bytes_def append_assoc read_header_def read_then_def
    by (simp add: get_int32_bytes get_int64_bytes get_path_append TYPE_END_def)
qed

theorem truncated_archive_rejected_witness:
  "\<exists>t'. restore_data demo_env ''/x'' (demo_target @ [(''/x'', (demo_file [])\<lparr>contents :=
      take 9 (archive demo_opened False ''/sdcard/b'')\<rparr>)]) = Some (-1, t')"
proof (rule truncated_archive_rejected)
  let ?A = "archive demo_opened False ''/sdcard/b''"
  show "sys_fopen_r demo_env ''/x'' (demo_target @ [(''/x'', (demo_file [])\<lparr>contents := take 9 ?A\<rparr>)]) =
      Inr (take 9 ?A)"
    by (simp add: sys_fopen_r_def demo_env_def demo_target_def lookup_def)
  show "9 < length ?A" by (simp add: length_archive)
  have "walk_dir demo_opened False (Some ''/sdcard/b'') ''/data'' =
      [(''/data/app'', demo_dir), (''/data/app/a.apk'', demo_file ''code'')]" by code_simp
  then show "\<forall>(q, i) \<in> set (walk_dir demo_opened False (Some ''/sdcard/b'') ''/data''). archivable q i"
    by (simp add: archivable_def sane_path_def sane_inode_def sane_time_def demo_dir_def demo_file_def
        S_ISDIR_def S_ISREG_def S_IFMT_of_def S_IFDIR_def S_IFREG_def)
qed

theorem header_roundtrip_witness:
  "\<exists>f'. write_header TYPE_FILE ''/data/a'' (demo_file ''z'') \<lparr>w_data = ''..'', w_room = 400\<rparr> = (True, f') \<and>
    fst (read_header (drop 2 (w_data f'))) =
      Some \<lparr>h_type = 2, h_path = ''/data/a'', h_uid = 10001, h_gid = 10001, h_mode = 416, h_atime = 4,
        h_mtime = 5, h_ctime = 6\<rparr>"
proof -
  have s: "sane_path ''/data/a''" "sane_inode (demo_file ''z'')"
    by (simp_all add: sane_path_def sane_inode_def sane_time_def demo_file_def S_IFREG_def)
  have "length (header_bytes TYPE_FILE ''/data/a'' (demo_file ''z'')) \<le> 400"
    by (simp add: header_bytes_def int32_bytes_def int64_bytes_def)
  then show ?thesis
    using header_roundtrip [OF disjI2 [OF refl] s, of "\<lparr>w_data = ''..'', w_room = 400\<rparr>" "[]"]
    by (auto simp: demo_file_def TYPE_FILE_def S_IFREG_def numeral_2_eq_2)
qed

text \<open>
  the command.  Without root, without a command word or with an unknown one nothing is
  called and nothing changes; a run that starts the system again exits with 0.
\<close>

theorem raw_main_outcome:
  "\<exists>st t' acts. raw_main AID_ROOT e uid argv t = Some (st, t', acts) \<and>
     (uid \<noteq> AID_ROOT \<or> length argv < 2 \<or> argv ! 1 \<notin> {''backup'', ''restore''} \<longrightarrow> acts = []) \<and>
     (acts = [] \<longrightarrow> t' = t) \<and>
     (PropertySet ''ctl.start'' ''zygote'' \<in> set acts \<longrightarrow> st = 0)"
proof -
  let ?o = "raw_options False \<lparr>place = [], from_optind = drop 2 argv\<rparr>"
  consider (bad) "uid \<noteq> AID_ROOT \<or> length argv < 2 \<or> argv ! 1 \<notin> {''backup'', ''restore''}"
    | (cmd) "uid = AID_ROOT" "\<not> length argv < 2" "argv ! 1 = ''backup'' \<or> argv ! 1 = ''restore''" by auto
  then show ?thesis
  proof cases
    case bad
    then show ?thesis by (auto simp: raw_main_def)
  next
    case cmd
    show ?thesis
    proof (cases ?o)
      case (Inl status)
      with cmd show ?thesis by (auto simp: raw_main_def)
    next
      case (Inr x)
      obtain a args where x: "x = (a, args)" by fastforce
      define bf where "bf = (if args = [] then ''/sdcard/backup.dat'' else hd args)"
      obtain res t1 where r: "restore_data e bf t = Some (res, t1)" using restore_data_returns by blast
      obtain res' t2 where b: "backup_data e a bf t = (res', t2)" by fastforce
      from cmd Inr x r b show ?thesis
        by (cases "length args > 1"; cases "res = 0") (auto simp: raw_main_def Let_def simp flip: bf_def)
    qed
  qed
qed

theorem raw_main_outcome_witness:
  "\<exists>st t' acts. raw_main 0 demo_env 2000 [''rawbu'', ''backup''] demo_fs = Some (st, t', acts) \<and>
     acts = [] \<and> t' = demo_fs"
  using raw_main_outcome [of 0 demo_env 2000 "[''rawbu'', ''backup'']" demo_fs] by auto

lemma failed_backup_exit_status:
  assumes "fault e SysFopenW ''/b'' = Some EIO"
  shows "raw_main r e r [''rawbu'', ''backup'', ''/b''] t = Some (0, t, [PropertySet ''ctl.stop'' ''runtime'',
    PropertySet ''ctl.stop'' ''zygote'', SleepFor 1, PropertySet ''ctl.start'' ''zygote'',
    PropertySet ''ctl.start'' ''runtime''])"
proof -
  have "raw_options False \<lparr>place = [], from_optind = [''/b'']\<rparr> = Inr (False, [''/b''])" by code_simp
  with assms show ?thesis
    by (simp add: raw_main_def Let_def backup_data_def sys_fopen_w_def)
qed

end
