(* ===== verification/InstalldPaths.thy ===== *)
theory InstalldPaths
  imports Prelude "HOL-Library.Monad_Syntax"
begin

text \<open>
  The path layer of installd: the global directories of \<open>installd/globals.cpp\<close> and the
  path builders and validators of \<open>installd/utils.cpp\<close>.  A \<open>CHECK\<close> that fails
  aborts the process; the functions that contain one return \<open>None\<close> on that branch.
\<close>

named_theorems path_defs \<open>definitions of the path builders\<close>

section \<open>Globals\<close>

record globals =
  android_app_dir :: string
  android_app_ephemeral_dir :: string
  android_app_lib_dir :: string
  android_app_private_dir :: string
  android_asec_dir :: string
  android_data_dir :: string
  android_media_dir :: string
  android_mnt_expand_dir :: string
  android_profiles_dir :: string
  android_root_dir :: string
  android_staging_dir :: string
  android_system_dirs :: "string list"

text \<open>
  \<open>path.rfind('/') != path.size() - 1\<close> in unsigned arithmetic: for the empty path both
  sides are the largest \<open>size_t\<close>, so the empty path is returned as it is.
\<close>

definition ensure_trailing_slash :: "string \<Rightarrow> string" where
  "ensure_trailing_slash path =
     (if rfind_char CHR ''/'' path \<noteq> (if path = [] then None else Some (length path - 1))
      then path @ ''/'' else path)"

datatype init_result = Init_false | Init_abort | Init_true globals

text \<open>
  \<open>init_globals_from_data_and_root(data, root)\<close>; \<open>getenv(ASEC_MOUNTPOINT_ENV_NAME)\<close> is
  given to a \<open>std::string\<close> without a null test, so an unset variable aborts.
\<close>

definition init_globals_from_data_and_root ::
  "(string \<Rightarrow> cstring) \<Rightarrow> string \<Rightarrow> string \<Rightarrow> init_result" where
  "init_globals_from_data_and_root getenv data root =
     (let data_dir = ensure_trailing_slash data;
          root_dir = ensure_trailing_slash root
      in case getenv ''ASEC_MOUNTPOINT'' of
           None \<Rightarrow> Init_abort
         | Some asec \<Rightarrow> Init_true
             \<lparr> android_app_dir = data_dir @ ''app/'',
               android_app_ephemeral_dir = data_dir @ ''app-ephemeral/'',
               android_app_lib_dir = data_dir @ ''app-lib/'',
               android_app_private_dir = data_dir @ ''app-private/'',
               android_asec_dir = ensure_trailing_slash asec,
               android_data_dir = data_dir,
               android_media_dir = data_dir @ ''media/'',
               android_mnt_expand_dir = ''/mnt/expand/'',
               android_profiles_dir = data_dir @ ''misc/profiles'',
               android_root_dir = root_dir,
               android_staging_dir = data_dir @ ''app-staging/'',
               android_system_dirs =
                 [root_dir @ ''app/'', root_dir @ ''priv-app/'', ''/vendor/app/'', ''/oem/app/''] \<rparr>)"

definition init_globals_from_env :: "(string \<Rightarrow> cstring) \<Rightarrow> init_result" where
  "init_globals_from_env getenv =
     (case getenv ''ANDROID_DATA'' of
        None \<Rightarrow> Init_false
      | Some data_path \<Rightarrow>
          (case getenv ''ANDROID_ROOT'' of
             None \<Rightarrow> Init_false
           | Some root_path \<Rightarrow> init_globals_from_data_and_root getenv data_path root_path))"

section \<open>File and package names\<close>

definition is_valid_filename :: "string \<Rightarrow> bool" where
  "is_valid_filename name \<longleftrightarrow>
     \<not> (name = [] \<or> name = ''.'' \<or> name = ''..'' \<or> find_char CHR ''/'' name 0 \<noteq> None)"

definition is_alpha :: "char \<Rightarrow> bool" where
  "is_alpha c \<longleftrightarrow> (CHR ''a'' \<le> c \<and> c \<le> CHR ''z'') \<or> (CHR ''A'' \<le> c \<and> c \<le> CHR ''Z'')"

text \<open>
  The two loops of \<open>is_valid_package_name\<close>: the first consumes characters up to the first
  \<open>'-'\<close> and returns the rest of the string with the flag \<open>front\<close>; \<open>None\<close> is the
  early \<open>return false\<close>.
\<close>

fun package_base_loop :: "bool \<Rightarrow> string \<Rightarrow> (bool \<times> string) option" where
  "package_base_loop front [] = Some (front, [])"
| "package_base_loop front (c # it) =
     (if c = CHR ''-'' then Some (front, c # it)
      else if is_alpha c then package_base_loop False it
      else if \<not> front \<and> (is_digit_chr c \<or> c = CHR ''_'') then package_base_loop front it
      else if c = CHR ''.'' then package_base_loop True it
      else None)"

fun package_suffix_loop :: "string \<Rightarrow> bool" where
  "package_suffix_loop [] = True"
| "package_suffix_loop (c # it) =
     (if is_alpha c then package_suffix_loop it
      else if is_digit_chr c \<or> c = CHR ''_'' \<or> c = CHR ''-'' \<or> c = CHR ''='' then package_suffix_loop it
      else False)"

definition is_valid_package_name :: "string \<Rightarrow> bool" where
  "is_valid_package_name packageName =
     (case package_base_loop True packageName of
        None \<Rightarrow> False
      | Some (front, it) \<Rightarrow> if front then False else package_suffix_loop it)"

definition check_package_name :: "string \<Rightarrow> unit option" where
  "check_package_name package_name =
     (if is_valid_filename package_name \<and> is_valid_package_name package_name
      then Some () else None)"

section \<open>Path builders\<close>

text \<open>
  What the builders read from the system: the \<open>ro.debuggable\<close> property, whether \<open>lstat\<close>
  finds a directory, and the entries \<open>readdir\<close> gives for a directory (inode and name;
  \<open>None\<close> when \<open>opendir\<close> fails).
\<close>

record path_env =
  ro_debuggable :: bool
  lstat_is_dir :: "string \<Rightarrow> bool"
  dir_entries :: "string \<Rightarrow> (nat \<times> string) list option"

definition create_data_path :: "path_env \<Rightarrow> cstring \<Rightarrow> string option" where [path_defs]:
  "create_data_path env volume_uuid =
     (case volume_uuid of
        None \<Rightarrow> Some ''/data''
      | Some u \<Rightarrow>
          if u = ''TEST'' then (if ro_debuggable env then Some ''/data/local/tmp'' else None)
          else if is_valid_filename u then Some (''/mnt/expand/'' @ u) else None)"

definition create_data_app_path :: "path_env \<Rightarrow> cstring \<Rightarrow> string option" where [path_defs]:
  "create_data_app_path env volume_uuid =
     do { data \<leftarrow> create_data_path env volume_uuid; Some (data @ ''/app'') }"

definition create_data_app_package_path :: "path_env \<Rightarrow> cstring \<Rightarrow> string \<Rightarrow> string option" where [path_defs]:
  "create_data_app_package_path env volume_uuid package_name =
     do { check_package_name package_name;
          app \<leftarrow> create_data_app_path env volume_uuid;
          Some (app @ ''/'' @ package_name) }"

definition create_data_user_ce_path :: "path_env \<Rightarrow> cstring \<Rightarrow> nat \<Rightarrow> string option" where [path_defs]:
  "create_data_user_ce_path env volume_uuid userid =
     do { data \<leftarrow> create_data_path env volume_uuid;
          let legacy = data @ ''/data'';
          if volume_uuid = None \<and> userid = 0 \<and> lstat_is_dir env legacy
          then Some legacy
          else Some (data @ ''/user/'' @ dec_nat userid) }"

definition create_data_user_de_path :: "path_env \<Rightarrow> cstring \<Rightarrow> nat \<Rightarrow> string option" where [path_defs]:
  "create_data_user_de_path env volume_uuid userid =
     do { data \<leftarrow> create_data_path env volume_uuid;
          Some (data @ ''/user_de/'' @ dec_nat userid) }"

definition create_data_user_ce_package_path ::
  "path_env \<Rightarrow> cstring \<Rightarrow> nat \<Rightarrow> string \<Rightarrow> string option" where [path_defs]:
  "create_data_user_ce_package_path env volume_uuid user package_name =
     do { check_package_name package_name;
          ce \<leftarrow> create_data_user_ce_path env volume_uuid user;
          Some (ce @ ''/'' @ package_name) }"

definition create_data_user_ce_package_path_as_user_link ::
  "path_env \<Rightarrow> cstring \<Rightarrow> nat \<Rightarrow> string \<Rightarrow> string option" where [path_defs]:
  "create_data_user_ce_package_path_as_user_link env volume_uuid userid package_name =
     do { check_package_name package_name;
          data \<leftarrow> create_data_path env volume_uuid;
          Some (data @ ''/user/'' @ dec_nat userid @ ''/'' @ package_name) }"

definition create_data_user_de_package_path ::
  "path_env \<Rightarrow> cstring \<Rightarrow> nat \<Rightarrow> string \<Rightarrow> string option" where [path_defs]:
  "create_data_user_de_package_path env volume_uuid user package_name =
     do { check_package_name package_name;
          de \<leftarrow> create_data_user_de_path env volume_uuid user;
          Some (de @ ''/'' @ package_name) }"

definition resolve_ce_path_by_inode_or_fallback ::
  "path_env \<Rightarrow> string \<Rightarrow> nat \<Rightarrow> string \<Rightarrow> string" where
  "resolve_ce_path_by_inode_or_fallback env root_path ce_data_inode fallback =
     (if ce_data_inode \<noteq> 0 then
        (case dir_entries env root_path of
           None \<Rightarrow> fallback
         | Some ents \<Rightarrow>
             (case find (\<lambda>(ino, _). ino = ce_data_inode) ents of
                Some (_, name) \<Rightarrow> root_path @ ''/'' @ name
              | None \<Rightarrow> fallback))
      else fallback)"

text \<open>The overload of \<open>create_data_user_ce_package_path\<close> that takes an inode.\<close>

definition create_data_user_ce_package_path_inode ::
  "path_env \<Rightarrow> cstring \<Rightarrow> nat \<Rightarrow> string \<Rightarrow> nat \<Rightarrow> string option" where [path_defs]:
  "create_data_user_ce_package_path_inode env volume_uuid user package_name ce_data_inode =
     do { fallback \<leftarrow> create_data_user_ce_package_path env volume_uuid user package_name;
          user_path \<leftarrow> create_data_user_ce_path env volume_uuid user;
          Some (resolve_ce_path_by_inode_or_fallback env user_path ce_data_inode fallback) }"

text \<open>Rollback, media and profile directories.\<close>

definition create_data_misc_ce_rollback_base_path :: "path_env \<Rightarrow> cstring \<Rightarrow> nat \<Rightarrow> string option" where [path_defs]:
  "create_data_misc_ce_rollback_base_path env volume_uuid user =
     do { data \<leftarrow> create_data_path env volume_uuid;
          Some (data @ ''/misc_ce/'' @ dec_nat user @ ''/rollback'') }"

definition create_data_misc_de_rollback_base_path :: "path_env \<Rightarrow> cstring \<Rightarrow> nat \<Rightarrow> string option" where [path_defs]:
  "create_data_misc_de_rollback_base_path env volume_uuid user =
     do { data \<leftarrow> create_data_path env volume_uuid;
          Some (data @ ''/misc_de/'' @ dec_nat user @ ''/rollback'') }"

definition create_data_misc_ce_rollback_path :: "path_env \<Rightarrow> cstring \<Rightarrow> nat \<Rightarrow> int \<Rightarrow> string option" where [path_defs]:
  "create_data_misc_ce_rollback_path env volume_uuid user snapshot_id =
     do { base \<leftarrow> create_data_misc_ce_rollback_base_path env volume_uuid user;
          Some (base @ ''/'' @ dec_int snapshot_id) }"

definition create_data_misc_de_rollback_path :: "path_env \<Rightarrow> cstring \<Rightarrow> nat \<Rightarrow> int \<Rightarrow> string option" where [path_defs]:
  "create_data_misc_de_rollback_path env volume_uuid user snapshot_id =
     do { base \<leftarrow> create_data_misc_de_rollback_base_path env volume_uuid user;
          Some (base @ ''/'' @ dec_int snapshot_id) }"

definition create_data_misc_ce_rollback_package_path ::
  "path_env \<Rightarrow> cstring \<Rightarrow> nat \<Rightarrow> int \<Rightarrow> string \<Rightarrow> string option" where [path_defs]:
  "create_data_misc_ce_rollback_package_path env volume_uuid user snapshot_id package_name =
     do { p \<leftarrow> create_data_misc_ce_rollback_path env volume_uuid user snapshot_id;
          Some (p @ ''/'' @ package_name) }"

definition create_data_misc_ce_rollback_package_path_inode ::
  "path_env \<Rightarrow> cstring \<Rightarrow> nat \<Rightarrow> int \<Rightarrow> string \<Rightarrow> nat \<Rightarrow> string option" where [path_defs]:
  "create_data_misc_ce_rollback_package_path_inode env volume_uuid user snapshot_id package_name ino =
     do { fallback \<leftarrow> create_data_misc_ce_rollback_package_path env volume_uuid user snapshot_id package_name;
          user_path \<leftarrow> create_data_misc_ce_rollback_path env volume_uuid user snapshot_id;
          Some (resolve_ce_path_by_inode_or_fallback env user_path ino fallback) }"

definition create_data_misc_de_rollback_package_path ::
  "path_env \<Rightarrow> cstring \<Rightarrow> nat \<Rightarrow> int \<Rightarrow> string \<Rightarrow> string option" where [path_defs]:
  "create_data_misc_de_rollback_package_path env volume_uuid user snapshot_id package_name =
     do { p \<leftarrow> create_data_misc_de_rollback_path env volume_uuid user snapshot_id;
          Some (p @ ''/'' @ package_name) }"

definition create_data_media_path :: "path_env \<Rightarrow> cstring \<Rightarrow> nat \<Rightarrow> string option" where [path_defs]:
  "create_data_media_path env volume_uuid userid =
     do { data \<leftarrow> create_data_path env volume_uuid;
          Some (data @ ''/media/'' @ dec_nat userid) }"

definition create_data_media_package_path ::
  "path_env \<Rightarrow> cstring \<Rightarrow> nat \<Rightarrow> string \<Rightarrow> string \<Rightarrow> string option" where [path_defs]:
  "create_data_media_package_path env volume_uuid userid data_type package_name =
     do { m \<leftarrow> create_data_media_path env volume_uuid userid;
          Some (m @ ''/Android/'' @ data_type @ ''/'' @ package_name) }"

definition create_data_misc_legacy_path :: "path_env \<Rightarrow> nat \<Rightarrow> string option" where [path_defs]:
  "create_data_misc_legacy_path env userid =
     do { data \<leftarrow> create_data_path env None;
          Some (data @ ''/misc/user/'' @ dec_nat userid) }"

definition create_primary_cur_profile_dir_path :: "globals \<Rightarrow> nat \<Rightarrow> string" where [path_defs]:
  "create_primary_cur_profile_dir_path g userid = android_profiles_dir g @ ''/cur/'' @ dec_nat userid"

definition create_primary_current_profile_package_dir_path ::
  "globals \<Rightarrow> nat \<Rightarrow> string \<Rightarrow> string option" where [path_defs]:
  "create_primary_current_profile_package_dir_path g user package_name =
     do { check_package_name package_name;
          Some (create_primary_cur_profile_dir_path g user @ ''/'' @ package_name) }"

definition create_primary_ref_profile_dir_path :: "globals \<Rightarrow> string" where [path_defs]:
  "create_primary_ref_profile_dir_path g = android_profiles_dir g @ ''/ref''"

definition create_primary_reference_profile_package_dir_path :: "globals \<Rightarrow> string \<Rightarrow> string option" where [path_defs]:
  "create_primary_reference_profile_package_dir_path g package_name =
     do { check_package_name package_name;
          Some (android_profiles_dir g @ ''/ref/'' @ package_name) }"

definition create_data_dalvik_cache_path :: string where [path_defs]:
  "create_data_dalvik_cache_path = ''/data/dalvik-cache''"

definition get_secondary_dex_location :: "string \<Rightarrow> (string \<times> string) option" where
  "get_secondary_dex_location dex_path =
     (case rfind_char CHR ''/'' dex_path of
        None \<Rightarrow> None
      | Some dirIndex \<Rightarrow>
          if dirIndex = length dex_path - 1 then None
          else Some (take dirIndex dex_path, drop (dirIndex + 1) dex_path))"

definition create_current_profile_path ::
  "globals \<Rightarrow> nat \<Rightarrow> string \<Rightarrow> string \<Rightarrow> bool \<Rightarrow> string option" where
  "create_current_profile_path g user package_name location is_secondary_dex =
     (if is_secondary_dex then
        do { (dex_dir, dex_name) \<leftarrow> get_secondary_dex_location location;
             Some (dex_dir @ ''/oat/'' @ dex_name @ ''.cur'' @ ''.prof'') }
      else
        do { profile_dir \<leftarrow> create_primary_current_profile_package_dir_path g user package_name;
             Some (profile_dir @ ''/'' @ location) })"

definition create_reference_profile_path ::
  "globals \<Rightarrow> string \<Rightarrow> string \<Rightarrow> bool \<Rightarrow> string option" where
  "create_reference_profile_path g package_name location is_secondary_dex =
     (if is_secondary_dex then
        do { (dex_dir, dex_name) \<leftarrow> get_secondary_dex_location location;
             Some (dex_dir @ ''/oat/'' @ dex_name @ ''.prof'') }
      else
        do { profile_dir \<leftarrow> create_primary_reference_profile_package_dir_path g package_name;
             Some (profile_dir @ ''/'' @ location) })"

definition create_snapshot_profile_path :: "globals \<Rightarrow> string \<Rightarrow> string \<Rightarrow> string option" where
  "create_snapshot_profile_path g package profile_name =
     do { ref_profile \<leftarrow> create_reference_profile_path g package profile_name False;
          Some (ref_profile @ ''.snapshot'') }"

section \<open>Path validation\<close>

text \<open>
  The counting loop of \<open>validate_path\<close>: \<open>pos\<close> runs over the slashes; a slash counts
  unless the next character is a slash (\<open>next > pos + 1\<close>, where \<open>npos\<close> is the largest
  value).
\<close>

function count_subdirs :: "string \<Rightarrow> nat option \<Rightarrow> int \<Rightarrow> int" where
  "count_subdirs path None count = count"
| "count_subdirs path (Some pos) count =
     (let nxt = find_char CHR ''/'' path (pos + 1);
          count' = (case nxt of None \<Rightarrow> count + 1
                    | Some n \<Rightarrow> if n > pos + 1 then count + 1 else count)
      in count_subdirs path nxt count')"
  by pat_completeness auto
termination
proof (relation "measure (\<lambda>(path, pos, _). case pos of None \<Rightarrow> 0 | Some p \<Rightarrow> Suc (length path - p))",
    goal_cases)
  case (2 path pos count nxt count')
  show ?case
  proof (cases nxt)
    case (Some n)
    with 2 have "find_char CHR ''/'' path (pos + 1) = Some n" by simp
    from find_char_Some_bounds [OF this] Some show ?thesis by auto
  qed simp
qed simp

definition validate_path :: "string \<Rightarrow> string \<Rightarrow> int \<Rightarrow> int" where
  "validate_path dir path maxSubdirs =
     (if find_char CHR ''/'' dir 0 \<noteq> Some 0 \<or> rfind_char CHR ''/'' dir \<noteq> Some (length dir - 1)
         \<or> find_sub ''..'' dir \<noteq> None then -1
      else if find_sub ''..'' path \<noteq> None then -1
      else if take (length dir) path \<noteq> dir then -1
      else if count_subdirs path (find_char CHR ''/'' path (length dir)) 0 > maxSubdirs then -1
      else 0)"

definition validate_system_app_path :: "globals \<Rightarrow> string \<Rightarrow> int" where
  "validate_system_app_path g path =
     (if \<exists>dir \<in> set (android_system_dirs g). validate_path dir path 1 = 0 then 0 else -1)"

text \<open>
  \<open>validate_apk_path_internal\<close> calls itself on the rewritten path; the number of nested
  calls is the fuel, and \<open>None\<close> is running out of it.  The loop over
  \<open>android_app_dir\<close>, \<open>android_staging_dir\<close> and so on is the chain of \<open>else if\<close>.
\<close>

definition apk_dirs :: "globals \<Rightarrow> string list" where
  "apk_dirs g = [android_app_dir g, android_staging_dir g, android_app_private_dir g,
     android_app_ephemeral_dir g, android_asec_dir g]"

fun validate_apk_path_internal :: "nat \<Rightarrow> globals \<Rightarrow> string \<Rightarrow> int \<Rightarrow> int option" where
  "validate_apk_path_internal 0 g path maxSubdirs = None"
| "validate_apk_path_internal (Suc fuel) g path maxSubdirs =
     (if \<exists>dir \<in> set (apk_dirs g). validate_path dir path maxSubdirs = 0 then Some 0
      else if prefix (android_mnt_expand_dir g) path then
        (case find_char CHR ''/'' path (length (android_mnt_expand_dir g) + 1) of
           Some end \<Rightarrow>
             validate_apk_path_internal fuel g (android_data_dir g @ drop (end + 1) path) maxSubdirs
         | None \<Rightarrow> Some (-1))
      else Some (-1))"

text \<open>
  A rewritten path that is itself below the expansion mount is shorter than the one before,
  unless the data directory is below the mount too: the length of the path bounds the nested
  calls on every other configuration (\<open>validate_apk_path_returns\<close> below).
\<close>

definition validate_apk_path :: "globals \<Rightarrow> string \<Rightarrow> int option" where
  "validate_apk_path g path = validate_apk_path_internal (length path + 2) g path 1"

definition validate_apk_path_subdirs :: "globals \<Rightarrow> string \<Rightarrow> int option" where
  "validate_apk_path_subdirs g path = validate_apk_path_internal (length path + 2) g path 3"

text \<open>
  \<open>storage_flag\<close> is 1 (\<open>FLAG_STORAGE_DE\<close>) or 2 (\<open>FLAG_STORAGE_CE\<close>); any other
  value fails the \<open>CHECK\<close>.  \<open>multiuser_get_user_id\<close> belongs to libcutils and is a
  parameter.
\<close>

definition validate_secondary_dex_path ::
  "path_env \<Rightarrow> (int \<Rightarrow> nat) \<Rightarrow> string \<Rightarrow> string \<Rightarrow> cstring \<Rightarrow> int \<Rightarrow> int \<Rightarrow> bool option" where
  "validate_secondary_dex_path env multiuser_get_user_id pkgname dex_path volume_uuid uid storage_flag =
     (if \<not> (storage_flag = 2 \<or> storage_flag = 1) then None
      else if dex_path = [] then Some False
      else if hd dex_path \<noteq> CHR ''/'' then Some False
      else if last dex_path = CHR ''/'' then Some False
      else if find_sub ''/.'' dex_path \<noteq> None then Some False
      else if length dex_path > 1024 then Some False
      else do {
        app_private_dir \<leftarrow>
          (if storage_flag = 2
           then create_data_user_ce_package_path env volume_uuid (multiuser_get_user_id uid) pkgname
           else create_data_user_de_package_path env volume_uuid (multiuser_get_user_id uid) pkgname);
        if \<not> prefix app_private_dir dex_path then do {
          link \<leftarrow> create_data_user_ce_package_path_as_user_link env volume_uuid
                    (multiuser_get_user_id uid) pkgname;
          if \<not> prefix link dex_path then Some False else Some True
        } else Some True })"

section \<open>Package names: the grammar\<close>

text \<open>
  The grammar that the two loops recognise: segments that begin with a letter, with dots
  before and between them (repeated and leading dots are accepted: a dot is tested without
  regard to \<open>front\<close>), ending in a segment; then optionally a suffix that begins with a
  dash.
\<close>

definition segment_char :: "char \<Rightarrow> bool" where
  "segment_char c \<longleftrightarrow> is_alpha c \<or> is_digit_chr c \<or> c = CHR ''_''"

definition suffix_char :: "char \<Rightarrow> bool" where
  "suffix_char c \<longleftrightarrow> segment_char c \<or> c = CHR ''-'' \<or> c = CHR ''=''"

inductive package_base :: "string \<Rightarrow> bool" where
  segment: "is_alpha c \<Longrightarrow> list_all segment_char s \<Longrightarrow> package_base (c # s)"
| dot: "package_base t \<Longrightarrow> package_base (CHR ''.'' # t)"
| dotted: "is_alpha c \<Longrightarrow> list_all segment_char s \<Longrightarrow> package_base t \<Longrightarrow>
    package_base (c # s @ CHR ''.'' # t)"

definition package_grammar :: "string \<Rightarrow> bool" where
  "package_grammar name \<longleftrightarrow>
     (\<exists>b suf. name = b @ suf \<and> package_base b \<and>
        (suf = [] \<or> hd suf = CHR ''-'') \<and> list_all suffix_char suf)"

fun base_accept :: "bool \<Rightarrow> string \<Rightarrow> bool" where
  "base_accept front [] = (\<not> front)"
| "base_accept front (c # s) =
     (if is_alpha c then base_accept False s
      else if \<not> front \<and> (is_digit_chr c \<or> c = CHR ''_'') then base_accept front s
      else if c = CHR ''.'' then base_accept True s
      else False)"

lemma special_not_alpha [simp]:
  "\<not> is_alpha CHR ''-''" "\<not> is_alpha CHR ''.''" "\<not> is_alpha CHR ''/''" "\<not> is_alpha CHR ''_''"
  by (simp_all add: is_alpha_def)

lemma special_not_digit [simp]:
  "\<not> is_digit_chr CHR ''-''" "\<not> is_digit_chr CHR ''.''" "\<not> is_digit_chr CHR ''_''"
  by (simp_all add: is_digit_chr_def)

lemma special_not_segment [simp]:
  "\<not> segment_char CHR ''-''" "\<not> segment_char CHR ''.''" "\<not> segment_char CHR ''/''"
  by (simp_all add: segment_char_def)

lemma base_accept_no_dash: "base_accept f s \<Longrightarrow> CHR ''-'' \<notin> set s"
  by (induction f s rule: base_accept.induct) (auto split: if_splits)

lemma package_base_loop_accept:
  "package_base_loop f s = Some (False, it) \<longleftrightarrow>
     (\<exists>b. s = b @ it \<and> base_accept f b \<and> (it = [] \<or> hd it = CHR ''-''))"
proof (induction f s rule: package_base_loop.induct)
  case (2 front c s)
  show ?case
  proof (cases "c = CHR ''-''")
    case True
    show ?thesis
    proof
      assume "package_base_loop front (c # s) = Some (False, it)"
      with True show "\<exists>b. c # s = b @ it \<and> base_accept front b \<and> (it = [] \<or> hd it = CHR ''-'')"
        by (intro exI [of _ "[]"]) auto
    next
      assume "\<exists>b. c # s = b @ it \<and> base_accept front b \<and> (it = [] \<or> hd it = CHR ''-'')"
      then obtain b where b: "c # s = b @ it" "base_accept front b" by blast
      with True base_accept_no_dash [OF b(2)] have "b = []" by (cases b) auto
      with b have "it = c # s" "\<not> front" by auto
      with True show "package_base_loop front (c # s) = Some (False, it)" by simp
    qed
  next
    case False
    have split: "(\<exists>b. c # s = b @ it \<and> base_accept front b \<and> (it = [] \<or> hd it = CHR ''-'')) \<longleftrightarrow>
        (\<exists>b. s = b @ it \<and> base_accept front (c # b) \<and> (it = [] \<or> hd it = CHR ''-''))"
      (is "?L \<longleftrightarrow> ?R")
    proof
      assume ?L
      then obtain b where b: "c # s = b @ it" "base_accept front b" "it = [] \<or> hd it = CHR ''-''"
        by blast
      with False obtain b' where "b = c # b'" by (cases b) auto
      with b show ?R by auto
    next
      assume ?R
      then obtain b where "s = b @ it" "base_accept front (c # b)" "it = [] \<or> hd it = CHR ''-''"
        by blast
      then show ?L by (intro exI [of _ "c # b"]) simp
    qed
    note nd = False
    consider (alpha) "is_alpha c"
      | (digit) "\<not> is_alpha c" "\<not> front \<and> (is_digit_chr c \<or> c = CHR ''_'')"
      | (dot) "\<not> is_alpha c" "\<not> (\<not> front \<and> (is_digit_chr c \<or> c = CHR ''_''))" "c = CHR ''.''"
      | (bad) "\<not> is_alpha c" "\<not> (\<not> front \<and> (is_digit_chr c \<or> c = CHR ''_''))" "c \<noteq> CHR ''.''"
      by blast
    then show ?thesis
    proof cases
      case alpha
      then have "package_base_loop front (c # s) = package_base_loop False s"
        "base_accept front (c # b) = base_accept False b" for b using nd by auto
      with "2.IH"(1) [OF nd alpha] show ?thesis unfolding split by metis
    next
      case digit
      then have "package_base_loop front (c # s) = package_base_loop front s"
        "base_accept front (c # b) = base_accept front b" for b using nd by auto
      with "2.IH"(2) [OF nd digit] show ?thesis unfolding split by metis
    next
      case dot
      then have "package_base_loop front (c # s) = package_base_loop True s"
        "base_accept front (c # b) = base_accept True b" for b using nd by auto
      with "2.IH"(3) [OF nd dot] show ?thesis unfolding split by metis
    next
      case bad
      then have "package_base_loop front (c # s) = None" "\<not> base_accept front (c # b)" for b
        using nd by auto
      then show ?thesis unfolding split by simp
    qed
  qed
qed auto

lemma base_accept_segment:
  "list_all segment_char u \<Longrightarrow> base_accept False (u @ v) = base_accept False v"
  by (induction u) (auto simp: segment_char_def)

lemma base_accept_complete: "package_base s \<Longrightarrow> base_accept True s"
proof (induction rule: package_base.induct)
  case (segment c s)
  then show ?case using base_accept_segment [of s "[]"] by simp
next
  case (dot t)
  then show ?case by simp
next
  case (dotted c s t)
  then show ?case by (simp add: base_accept_segment)
qed

lemma base_accept_sound: "base_accept True s \<Longrightarrow> package_base s"
proof (induction s rule: length_induct)
  case (1 s)
  show ?case
  proof (cases s)
    case Nil
    with "1.prems" show ?thesis by simp
  next
    case (Cons c r)
    show ?thesis
    proof (cases "is_alpha c")
      case True
      let ?u = "takeWhile segment_char r" and ?v = "dropWhile segment_char r"
      have u: "list_all segment_char ?u" by (auto simp: list_all_iff dest: set_takeWhileD)
      from Cons True "1.prems" have "base_accept False r" by simp
      then have "base_accept False (?u @ ?v)" by (simp only: takeWhile_dropWhile_id)
      then have v: "base_accept False ?v" by (simp only: base_accept_segment [OF u])
      show ?thesis
      proof (cases ?v)
        case Nil
        then have "s = c # ?u" using Cons by (metis append_Nil2 takeWhile_dropWhile_id)
        with package_base.segment [OF True u] show ?thesis by simp
      next
        case (Cons d t)
        then have "\<not> segment_char d" using hd_dropWhile [of segment_char r] by auto
        with v Cons have d: "d = CHR ''.''" "base_accept True t"
          by (auto simp: segment_char_def split: if_splits)
        have eq: "s = c # ?u @ CHR ''.'' # t"
          using Cons d \<open>s = c # r\<close> by (metis takeWhile_dropWhile_id)
        moreover have "length t < length s" using eq by (metis length_Cons length_append less_Suc_eq not_add_less2 not_less_eq)
        ultimately show ?thesis
          using "1.IH" d package_base.dotted [OF True u] by metis
      qed
    next
      case False
      with Cons "1.prems" have c: "c = CHR ''.''" "base_accept True r" by (auto split: if_splits)
      with Cons "1.IH" have "package_base r" by auto
      with Cons c show ?thesis by (auto intro: package_base.dot)
    qed
  qed
qed

lemma package_suffix_loop_all: "package_suffix_loop s \<longleftrightarrow> list_all suffix_char s"
  by (induction s) (auto simp: suffix_char_def segment_char_def)

text \<open>
  C25: \<open>is_valid_package_name\<close> accepts exactly the names of the grammar: segments that begin
  with a letter, joined by dots (repeated and leading dots included), with an optional dash
  suffix.
\<close>

theorem is_valid_package_name_grammar:
  "is_valid_package_name name \<longleftrightarrow> package_grammar name"
proof -
  have "is_valid_package_name name \<longleftrightarrow>
      (\<exists>it. package_base_loop True name = Some (False, it) \<and> list_all suffix_char it)"
    by (auto simp: is_valid_package_name_def package_suffix_loop_all split: option.splits)
  then show ?thesis
    unfolding package_base_loop_accept package_grammar_def
    using base_accept_sound base_accept_complete by blast
qed

lemma package_base_chars: "package_base b \<Longrightarrow> c \<in> set b \<Longrightarrow> segment_char c \<or> c = CHR ''.''"
  by (induction rule: package_base.induct) (auto simp: list_all_iff segment_char_def)

lemma package_base_last: "package_base b \<Longrightarrow> b \<noteq> [] \<and> last b \<noteq> CHR ''.''"
proof (induction rule: package_base.induct)
  case (segment c s)
  then have "\<forall>x \<in> set (c # s). x \<noteq> CHR ''.''"
    by (auto simp: list_all_iff segment_char_def)
  then show ?case by (metis last_in_set list.distinct(1))
qed auto

lemma package_grammar_no_slash: "package_grammar p \<Longrightarrow> CHR ''/'' \<notin> set p"
proof -
  assume "package_grammar p"
  then obtain b suf where p: "p = b @ suf" "package_base b" "list_all suffix_char suf"
    by (auto simp: package_grammar_def)
  have "CHR ''/'' \<notin> set b" using package_base_chars [OF p(2), of "CHR ''/''"] by auto
  moreover have "CHR ''/'' \<notin> set suf" using p(3) by (auto simp: list_all_iff suffix_char_def)
  ultimately show ?thesis using p(1) by simp
qed

lemma valid_package_no_slash: "is_valid_package_name p \<Longrightarrow> CHR ''/'' \<notin> set p"
  by (simp add: is_valid_package_name_grammar package_grammar_no_slash)

lemma valid_package_filename:
  assumes "is_valid_package_name p"
  shows "is_valid_filename p"
proof -
  from assms obtain b suf where p: "p = b @ suf" "package_base b"
    by (auto simp: is_valid_package_name_grammar package_grammar_def)
  from package_base_last [OF p(2)] have "b \<noteq> []" "last b \<noteq> CHR ''.''" by auto
  with p(1) have "p \<noteq> ''.''" "p \<noteq> ''..''" "p \<noteq> []"
    by (auto simp: append_eq_Cons_conv)
  with valid_package_no_slash [OF assms] show ?thesis
    by (simp add: is_valid_filename_def find_char_None)
qed

lemma check_package_name_valid [simp]:
  "check_package_name p = Some () \<longleftrightarrow> is_valid_package_name p"
  by (auto simp: check_package_name_def valid_package_filename)

lemma check_package_name_bind:
  "Option.bind (check_package_name p) f = (if is_valid_package_name p then f () else None)"
  by (auto simp: check_package_name_def valid_package_filename)

definition usable_volume :: "path_env \<Rightarrow> cstring \<Rightarrow> bool" where
  "usable_volume env v \<longleftrightarrow>
     (case v of None \<Rightarrow> True | Some u \<Rightarrow> is_valid_filename u \<and> (u = ''TEST'' \<longrightarrow> ro_debuggable env))"

lemma create_data_path_usable: "usable_volume env v \<longleftrightarrow> create_data_path env v \<noteq> None"
proof -
  have "is_valid_filename ''TEST''"
    by (simp add: is_valid_filename_def find_char_def)
  then show ?thesis
    by (auto simp: usable_volume_def create_data_path_def split: option.splits)
qed

text \<open>
  for a volume and a package name that pass the checks at the service's entry (and a
  debuggable build when the volume is the test volume) no \<open>CHECK\<close> of the package path
  builders aborts.
\<close>

theorem package_paths_never_abort:
  assumes "usable_volume env v" and "is_valid_package_name p"
  shows "create_data_app_package_path env v p \<noteq> None \<and>
    create_data_user_ce_package_path env v user p \<noteq> None \<and>
    create_data_user_ce_package_path_inode env v user p ino \<noteq> None \<and>
    create_data_user_ce_package_path_as_user_link env v user p \<noteq> None \<and>
    create_data_user_de_package_path env v user p \<noteq> None \<and>
    create_primary_current_profile_package_dir_path g user p \<noteq> None \<and>
    create_primary_reference_profile_package_dir_path g p \<noteq> None"
proof -
  from assms(1) obtain d where "create_data_path env v = Some d"
    by (auto simp: create_data_path_usable)
  with assms(2) show ?thesis
    by (simp add: create_data_app_package_path_def create_data_app_path_def
        create_data_user_ce_package_path_def create_data_user_ce_path_def
        create_data_user_ce_package_path_inode_def
        create_data_user_ce_package_path_as_user_link_def create_data_user_de_package_path_def
        create_data_user_de_path_def create_primary_current_profile_package_dir_path_def
        create_primary_reference_profile_package_dir_path_def check_package_name_bind Let_def)
qed

theorem package_paths_never_abort_witness:
  "create_data_user_ce_package_path
     \<lparr>ro_debuggable = False, lstat_is_dir = (\<lambda>_. False), dir_entries = (\<lambda>_. None)\<rparr>
     (Some ''vol1'') 10 ''com.example-1'' \<noteq> None"
proof -
  let ?env = "\<lparr>ro_debuggable = False, lstat_is_dir = (\<lambda>_. False), dir_entries = (\<lambda>_. None)\<rparr>"
  have v: "usable_volume ?env (Some ''vol1'')"
    by (simp add: usable_volume_def is_valid_filename_def find_char_def)
  have p: "is_valid_package_name ''com.example-1''"
    by (simp add: is_valid_package_name_def is_alpha_def is_digit_chr_def)
  show ?thesis using package_paths_never_abort [OF v p] by blast
qed

subsection \<open>Paths determine what they were built from\<close>

lemma last_component_eq:
  assumes "a @ CHR ''/'' # p = b @ CHR ''/'' # q"
    and "CHR ''/'' \<notin> set p" and "CHR ''/'' \<notin> set q"
  shows "a = b \<and> p = q"
proof -
  from assms have "rfind_char CHR ''/'' (a @ CHR ''/'' # p) = Some (length a)"
    "rfind_char CHR ''/'' (a @ CHR ''/'' # p) = Some (length b)"
    by (metis rfind_char_append)+
  then have "length a = length b" by simp
  with assms(1) show ?thesis by simp
qed

lemma create_data_path_inj:
  assumes "create_data_path env v = Some d" and "create_data_path env v' = Some d"
  shows "v = v'"
  using assms by (auto simp: create_data_path_def split: option.splits if_splits)

lemma create_data_path_shape:
  assumes "create_data_path env v = Some d"
  shows "d = ''/data'' \<or> d = ''/data/local/tmp'' \<or> (\<exists>u. d = ''/mnt/expand/'' @ u \<and> CHR ''/'' \<notin> set u)"
  using assms
  by (auto simp: create_data_path_def is_valid_filename_def find_char_None
      split: option.splits if_splits)

lemma user_component_eq:
  assumes "d @ ''/user/'' @ dec_nat m = d' @ ''/user/'' @ dec_nat n"
  shows "d = d' \<and> m = n"
proof -
  have "(d @ ''/user'') @ CHR ''/'' # dec_nat m = (d' @ ''/user'') @ CHR ''/'' # dec_nat n"
    using assms by simp
  from last_component_eq [OF this] show ?thesis by simp
qed

lemma legacy_not_user: "''/data/data'' \<noteq> d @ ''/user/'' @ dec_nat n"
proof
  assume "''/data/data'' = d @ ''/user/'' @ dec_nat n"
  then have "''/data'' @ CHR ''/'' # ''data'' = (d @ ''/user'') @ CHR ''/'' # dec_nat n" by simp
  from last_component_eq [OF this] have "dec_nat n = ''data''" by simp
  moreover have "\<not> is_digit_chr CHR ''d''" by (simp add: is_digit_chr_def)
  ultimately show False using dec_nat_digits [of "CHR ''d''" n] by simp
qed

lemma create_data_user_ce_path_inj:
  assumes "create_data_user_ce_path env v m = Some x"
    and "create_data_user_ce_path env v' n = Some x"
  shows "v = v' \<and> m = n"
proof -
  from assms(1) obtain d where d: "create_data_path env v = Some d"
    and x: "x = (if v = None \<and> m = 0 \<and> lstat_is_dir env (d @ ''/data'') then d @ ''/data''
                 else d @ ''/user/'' @ dec_nat m)"
    by (auto simp: create_data_user_ce_path_def bind_eq_Some_conv Let_def split: if_splits)
  from assms(2) obtain d' where d': "create_data_path env v' = Some d'"
    and x': "x = (if v' = None \<and> n = 0 \<and> lstat_is_dir env (d' @ ''/data'') then d' @ ''/data''
                  else d' @ ''/user/'' @ dec_nat n)"
    by (auto simp: create_data_user_ce_path_def bind_eq_Some_conv Let_def split: if_splits)
  have nd: "v = None \<Longrightarrow> d = ''/data''" "v' = None \<Longrightarrow> d' = ''/data''"
    using d d' by (auto simp: create_data_path_def)
  show ?thesis
  proof (cases "(v = None \<and> m = 0 \<and> lstat_is_dir env (d @ ''/data'')) \<longleftrightarrow>
      (v' = None \<and> n = 0 \<and> lstat_is_dir env (d' @ ''/data''))")
    case True
    then show ?thesis
      using x x' d d' user_component_eq [of d m d' n] create_data_path_inj by (auto split: if_splits)
  next
    case False
    then show ?thesis
      using x x' nd legacy_not_user [of d m] legacy_not_user [of d' n] by (auto split: if_splits)
  qed
qed

text \<open>
  the credential-encrypted data directory determines its volume, its user and its package:
  no two of them share a directory (with or without the legacy layout).
\<close>

theorem ce_package_path_injective:
  assumes "create_data_user_ce_package_path env v m p = Some x"
    and "create_data_user_ce_package_path env v' n q = Some x"
  shows "v = v' \<and> m = n \<and> p = q"
proof -
  from assms(1) obtain a where a: "create_data_user_ce_path env v m = Some a"
    and xa: "x = a @ CHR ''/'' # p" and vp: "is_valid_package_name p"
    by (auto simp: create_data_user_ce_package_path_def check_package_name_bind
        bind_eq_Some_conv split: if_splits)
  from assms(2) obtain b where b: "create_data_user_ce_path env v' n = Some b"
    and xb: "x = b @ CHR ''/'' # q" and vq: "is_valid_package_name q"
    by (auto simp: create_data_user_ce_package_path_def check_package_name_bind
        bind_eq_Some_conv split: if_splits)
  have "a = b \<and> p = q"
    using xa xb valid_package_no_slash [OF vp] valid_package_no_slash [OF vq]
    by (intro last_component_eq) simp_all
  with a b create_data_user_ce_path_inj show ?thesis by blast
qed

theorem ce_package_path_injective_witness:
  "let env = \<lparr>ro_debuggable = False, lstat_is_dir = (\<lambda>p. p = ''/data/data''), dir_entries = (\<lambda>_. None)\<rparr>
   in create_data_user_ce_package_path env None 0 ''com.a'' = Some ''/data/data/com.a'' \<and>
      (None :: cstring) = None \<and> (0::nat) = 0 \<and> ''com.a'' = ''com.a''"
proof -
  let ?env = "\<lparr>ro_debuggable = False, lstat_is_dir = (\<lambda>p. p = ''/data/data''), dir_entries = (\<lambda>_. None)\<rparr>"
  have "create_data_user_ce_package_path ?env None 0 ''com.a'' = Some ''/data/data/com.a''"
    by (simp add: create_data_user_ce_package_path_def create_data_user_ce_path_def
        create_data_path_def check_package_name_def is_valid_filename_def find_char_def
        is_valid_package_name_def is_alpha_def is_digit_chr_def)
  from this ce_package_path_injective [OF this this] show ?thesis by (simp add: Let_def)
qed

section \<open>What validated paths look like\<close>

text \<open>The reference count: runs of slashes, a run counting at its last slash.\<close>

fun slash_runs :: "string \<Rightarrow> int" where
  "slash_runs [] = 0"
| "slash_runs (c # s) =
     (if c = CHR ''/'' \<and> (s = [] \<or> hd s \<noteq> CHR ''/'') then 1 else 0) + slash_runs s"

lemma slash_runs_none: "CHR ''/'' \<notin> set s \<Longrightarrow> slash_runs s = 0"
  by (induction s) auto

lemma slash_runs_skip: "CHR ''/'' \<notin> set s \<Longrightarrow> slash_runs (s @ t) = slash_runs t"
  by (induction s) auto

lemma find_char_drop:
  "find_char c s pos = Some n \<Longrightarrow>
     drop pos s = take (n - pos) (drop pos s) @ c # drop (n + 1) s \<and>
     c \<notin> set (take (n - pos) (drop pos s))"
proof -
  assume "find_char c s pos = Some n"
  then obtain i where i: "index_of ((=) c) (drop pos s) = Some i" and n: "n = i + pos"
    by (auto simp: find_char_def)
  from index_of_split [OF i] i have "drop pos s = take i (drop pos s) @ c # drop (Suc i) (drop pos s)"
    by (simp add: index_of_Some)
  moreover from i have "c \<notin> set (take i (drop pos s))" by (auto simp: index_of_Some)
  ultimately show ?thesis using n by (simp add: add.commute)
qed

lemma count_subdirs_slash_runs:
  "p = find_char CHR ''/'' path pos \<Longrightarrow> count_subdirs path p count = count + slash_runs (drop pos path)"
proof (induction path p count arbitrary: pos rule: count_subdirs.induct)
  case (1 path count)
  then have "CHR ''/'' \<notin> set (drop pos path)" by (metis find_char_None)
  then show ?case by (simp add: slash_runs_none)
next
  case (2 path p count)
  let ?r = "drop (p + 1) path" and ?n = "find_char CHR ''/'' path (p + 1)"
  have fp: "find_char CHR ''/'' path pos = Some p" using "2.prems" by simp
  from find_char_drop [OF fp] have "slash_runs (drop pos path) = slash_runs (CHR ''/'' # ?r)"
    by (metis slash_runs_skip)
  also have "\<dots> = (if ?r = [] \<or> hd ?r \<noteq> CHR ''/'' then 1 else 0) + slash_runs ?r" by simp
  finally have runs: "slash_runs (drop pos path) =
      (if ?r = [] \<or> hd ?r \<noteq> CHR ''/'' then 1 else 0) + slash_runs ?r" .
  have step: "(case ?n of None \<Rightarrow> count + 1 | Some n \<Rightarrow> if n > p + 1 then count + 1 else count) =
      count + (if ?r = [] \<or> hd ?r \<noteq> CHR ''/'' then 1 else 0)"
  proof (cases ?n)
    case None
    then have "CHR ''/'' \<notin> set ?r" by (simp add: find_char_None)
    then have "?r = [] \<or> hd ?r \<noteq> CHR ''/''" by (cases ?r) auto
    with None show ?thesis by simp
  next
    case (Some n)
    note b = find_char_Some_bounds [OF Some] and d = find_char_drop [OF Some]
    have ne: "?r \<noteq> []" using b by auto
    have hd: "hd ?r = path ! (p + 1)" using b by (simp add: hd_drop_conv_nth)
    have "n = p + 1 \<longleftrightarrow> hd ?r = CHR ''/''"
    proof
      assume "n = p + 1" with b hd show "hd ?r = CHR ''/''" by simp
    next
      assume h: "hd ?r = CHR ''/''"
      show "n = p + 1"
      proof (rule ccontr)
        assume "n \<noteq> p + 1"
        with b have "n - (p + 1) > 0" by simp
        with ne have "hd ?r \<in> set (take (n - (p + 1)) ?r)" by (cases ?r) (auto simp: take_Cons')
        with d h show False by simp
      qed
    qed
    with Some ne b show ?thesis by auto
  qed
  have "count_subdirs path (Some p) count =
      count_subdirs path ?n (count + (if ?r = [] \<or> hd ?r \<noteq> CHR ''/'' then 1 else 0))"
    by (simp only: count_subdirs.simps Let_def step)
  also have "\<dots> = count + (if ?r = [] \<or> hd ?r \<noteq> CHR ''/'' then 1 else 0) + slash_runs ?r"
    using "2.IH" [OF refl refl, of "p + 1"] by (simp only: Let_def step)
  finally show ?case using runs by simp
qed

text \<open>
  \<open>validate_path\<close> returns 0 exactly when the directory is absolute, ends in a slash and
  has no \<open>..\<close>, and the path is the directory followed by a rest such that the whole has no
  \<open>..\<close> and the rest at most \<open>maxSubdirs\<close> runs of slashes.
\<close>

theorem validate_path_iff:
  "validate_path dir path maxSubdirs = 0 \<longleftrightarrow>
     dir \<noteq> [] \<and> hd dir = CHR ''/'' \<and> last dir = CHR ''/'' \<and> \<not> sublist ''..'' dir \<and>
     (\<exists>rest. path = dir @ rest \<and> \<not> sublist ''..'' path \<and> slash_runs rest \<le> maxSubdirs)"
proof -
  have first: "find_char CHR ''/'' dir 0 = Some 0 \<longleftrightarrow> dir \<noteq> [] \<and> hd dir = CHR ''/''"
    by (cases dir) (auto simp: find_char_def)
  have last: "rfind_char CHR ''/'' dir = Some (length dir - 1) \<longleftrightarrow> last dir = CHR ''/''"
    if "dir \<noteq> []"
  proof
    assume "rfind_char CHR ''/'' dir = Some (length dir - 1)"
    from rfind_char_Some [OF this] that show "last dir = CHR ''/''"
      by (metis One_nat_def Suc_pred drop_all last_snoc length_greater_0_conv order_refl)
  next
    assume "last dir = CHR ''/''"
    then have "dir = butlast dir @ [CHR ''/'']" using that by (metis append_butlast_last_id)
    then show "rfind_char CHR ''/'' dir = Some (length dir - 1)"
      by (metis length_append_singleton diff_Suc_1 rfind_char_last)
  qed
  have rest: "take (length dir) path = dir \<longleftrightarrow> (\<exists>rest. path = dir @ rest)"
    by (metis append_eq_conv_conj append_take_drop_id)
  show ?thesis
    unfolding validate_path_def first
    using last rest count_subdirs_slash_runs [OF refl, of path "length dir" 0]
    by (auto simp: find_sub_None)
qed

lemma validate_path_range: "validate_path dir path n = 0 \<or> validate_path dir path n = -1"
  by (simp add: validate_path_def)

lemma validate_apk_path_internal_enough:
  assumes "android_mnt_expand_dir g = ''/mnt/expand/''"
    and "\<not> prefix ''/mnt/expand/'' (android_data_dir g)"
  shows "length path + 1 < fuel \<Longrightarrow>
    \<exists>r. validate_apk_path_internal fuel g path n = Some r \<and> (r = 0 \<or> r = -1)"
proof (induction fuel arbitrary: path)
  case (Suc fuel)
  let ?d = "android_data_dir g"
  have len: "length (android_mnt_expand_dir g) + 1 = 13" using assms(1) by simp
  consider (direct) "\<exists>dir \<in> set (apk_dirs g). validate_path dir path n = 0"
    | (outside) "\<not> prefix ''/mnt/expand/'' path"
    | (nosep) "find_char CHR ''/'' path 13 = None"
    | (sep) e where "\<not> (\<exists>dir \<in> set (apk_dirs g). validate_path dir path n = 0)"
        "prefix ''/mnt/expand/'' path" "find_char CHR ''/'' path 13 = Some e"
    by (cases "find_char CHR ''/'' path 13") auto
  then show ?case
  proof cases
    case nosep
    then show ?thesis unfolding validate_apk_path_internal.simps(2) len by simp
  next
    case (sep e)
    let ?m = "?d @ drop (e + 1) path"
    note b = find_char_Some_bounds [OF sep(3)]
    have rec: "validate_apk_path_internal (Suc fuel) g path n = validate_apk_path_internal fuel g ?m n"
      using sep(1) sep(2) [folded assms(1)] sep(3)
      unfolding validate_apk_path_internal.simps(2) len by simp
    show ?thesis
    proof (cases "prefix ''/mnt/expand/'' ?m")
      case True
      with assms(2) have "prefix ?d ''/mnt/expand/''" "?d \<noteq> ''/mnt/expand/''"
        using prefix_same_cases [of "''/mnt/expand/''" ?m ?d] by auto
      then have "length ?d \<le> 12" using prefix_length_le by fastforce
      then have "length ?m < length path" using b by simp
      with Suc.prems have "length ?m + 1 < fuel" by linarith
      with Suc.IH rec show ?thesis by simp
    next
      case False
      from Suc.prems obtain f where "fuel = Suc f" by (cases fuel) auto
      with False assms(1) have "\<exists>r. validate_apk_path_internal fuel g ?m n = Some r \<and> (r = 0 \<or> r = -1)"
        by simp
      with rec show ?thesis by simp
    qed
  qed (use assms(1) in auto)
qed simp

text \<open>
  C40: on the globals that initialisation sets up, both APK path checks return, with 0 or -1,
  whenever the data directory is not below \<open>/mnt/expand/\<close>.
\<close>

theorem validate_apk_path_returns:
  assumes "init_globals_from_data_and_root getenv data root = Init_true g"
    and "\<not> prefix ''/mnt/expand/'' (ensure_trailing_slash data)"
  shows "\<exists>r s. validate_apk_path g path = Some r \<and> (r = 0 \<or> r = -1) \<and>
    validate_apk_path_subdirs g path = Some s \<and> (s = 0 \<or> s = -1)"
proof -
  from assms(1) have g: "android_mnt_expand_dir g = ''/mnt/expand/''"
    "android_data_dir g = ensure_trailing_slash data"
    by (auto simp: init_globals_from_data_and_root_def Let_def split: option.splits)
  show ?thesis
    unfolding validate_apk_path_def validate_apk_path_subdirs_def
    using validate_apk_path_internal_enough [OF g(1), of path "length path + 2"] assms(2) g(2)
    by auto
qed

definition std_env :: "string \<Rightarrow> cstring" where
  "std_env v = (if v = ''ASEC_MOUNTPOINT'' then Some ''/mnt/asec'' else
     if v = ''ANDROID_DATA'' then Some ''/data'' else
     if v = ''ANDROID_ROOT'' then Some ''/system/'' else None)"

definition std_globals :: globals where
  "std_globals =
     \<lparr> android_app_dir = ''/data/app/'', android_app_ephemeral_dir = ''/data/app-ephemeral/'',
       android_app_lib_dir = ''/data/app-lib/'', android_app_private_dir = ''/data/app-private/'',
       android_asec_dir = ''/mnt/asec/'', android_data_dir = ''/data/'',
       android_media_dir = ''/data/media/'', android_mnt_expand_dir = ''/mnt/expand/'',
       android_profiles_dir = ''/data/misc/profiles'', android_root_dir = ''/system/'',
       android_staging_dir = ''/data/app-staging/'',
       android_system_dirs = [''/system/app/'', ''/system/priv-app/'', ''/vendor/app/'', ''/oem/app/''] \<rparr>"

lemma ensure_trailing_slash_eval:
  "ensure_trailing_slash ''/data'' = ''/data/''" "ensure_trailing_slash ''/system/'' = ''/system/''"
  "ensure_trailing_slash ''/mnt/asec'' = ''/mnt/asec/''"
  by (simp_all add: ensure_trailing_slash_def rfind_char_def)

lemma std_globals_init:
  "init_globals_from_data_and_root std_env ''/data'' ''/system/'' = Init_true std_globals"
  by (simp add: init_globals_from_data_and_root_def std_env_def std_globals_def
      ensure_trailing_slash_eval)

theorem validate_apk_path_returns_witness:
  "\<exists>r s. validate_apk_path std_globals ''/data/app/x/base.apk'' = Some r \<and> (r = 0 \<or> r = -1) \<and>
    validate_apk_path_subdirs std_globals ''/data/app/x/base.apk'' = Some s \<and> (s = 0 \<or> s = -1)"
  by (rule validate_apk_path_returns [OF std_globals_init]) (simp add: ensure_trailing_slash_eval)

text \<open>
  Rewriting a path below the expansion mount: the volume component (at least one character,
  not inspected) is replaced by the data directory.
\<close>

inductive volume_rewrite :: "globals \<Rightarrow> string \<Rightarrow> string \<Rightarrow> bool" for g where
  stay: "volume_rewrite g path path"
| strip: "CHR ''/'' \<notin> set vol \<Longrightarrow> volume_rewrite g (android_data_dir g @ tail) path' \<Longrightarrow>
    volume_rewrite g (android_mnt_expand_dir g @ c # vol @ CHR ''/'' # tail) path'"

lemma validate_apk_path_internal_sound:
  "validate_apk_path_internal fuel g path n = Some 0 \<Longrightarrow>
     \<exists>dir \<in> set (apk_dirs g). \<exists>path'. volume_rewrite g path path' \<and> validate_path dir path' n = 0"
proof (induction fuel g path n rule: validate_apk_path_internal.induct)
  case (2 fuel g path n)
  let ?m = "android_mnt_expand_dir g"
  show ?case
  proof (cases "\<exists>dir \<in> set (apk_dirs g). validate_path dir path n = 0")
    case True
    then show ?thesis using volume_rewrite.stay by blast
  next
    case False
    with "2.prems" obtain e where p: "prefix ?m path"
      and e: "find_char CHR ''/'' path (length ?m + 1) = Some e"
      and r: "validate_apk_path_internal fuel g (android_data_dir g @ drop (e + 1) path) n = Some 0"
      by (auto split: if_splits option.splits)
    from "2.IH" [OF False p e r] obtain dir path' where d: "dir \<in> set (apk_dirs g)"
      "volume_rewrite g (android_data_dir g @ drop (e + 1) path) path'" "validate_path dir path' n = 0"
      by blast
    from p obtain s where s: "path = ?m @ s" by (auto simp: prefix_def)
    from find_char_Some_bounds [OF e] s obtain c t where t: "s = c # t" by (cases s) auto
    from find_char_drop [OF e] s t obtain vol where
      "t = vol @ CHR ''/'' # drop (e + 1) path" "CHR ''/'' \<notin> set vol" by auto
    with s t d volume_rewrite.strip show ?thesis by metis
  qed
qed simp

text \<open>
  C26: an accepted APK path is, after rewriting volume components of the expansion mount, one
  of the five application directories followed by a rest without \<open>..\<close> and with at most one
  (for \<open>validate_apk_path_subdirs\<close> three) runs of slashes.
\<close>

theorem validate_apk_path_sound:
  assumes "(validate_apk_path g path = Some 0 \<and> n = 1) \<or>
    (validate_apk_path_subdirs g path = Some 0 \<and> n = 3)"
  shows "\<exists>dir \<in> set (apk_dirs g). \<exists>rest. volume_rewrite g path (dir @ rest) \<and>
    \<not> sublist ''..'' (dir @ rest) \<and> slash_runs rest \<le> n"
proof -
  from assms have "validate_apk_path_internal (length path + 2) g path n = Some 0"
    by (elim disjE conjE) (simp_all only: validate_apk_path_def validate_apk_path_subdirs_def)
  from validate_apk_path_internal_sound [OF this] show ?thesis
    unfolding validate_path_iff by blast
qed

text \<open>
  The volume component is not inspected: a path through \<open>/mnt/expand/..\<close> is accepted, although
  the file it names is outside every volume.
\<close>

lemma validate_apk_path_dotdot_volume:
  "validate_apk_path std_globals ''/mnt/expand/../app/x/base.apk'' = Some 0"
  by code_simp

theorem validate_apk_path_sound_witness:
  "validate_apk_path std_globals ''/data/app/x/base.apk'' = Some 0 \<and>
   (\<exists>dir \<in> set (apk_dirs std_globals). \<exists>rest.
      volume_rewrite std_globals ''/data/app/x/base.apk'' (dir @ rest) \<and>
      \<not> sublist ''..'' (dir @ rest) \<and> slash_runs rest \<le> 1)"
proof -
  have a: "validate_apk_path std_globals ''/data/app/x/base.apk'' = Some 0" by code_simp
  show ?thesis using validate_apk_path_sound [of std_globals _ 1] a by blast
qed

lemma prefix_bind_cases:
  "Option.bind m f = Some x \<Longrightarrow> (\<And>a. m = Some a \<Longrightarrow> f a = Some x \<Longrightarrow> P) \<Longrightarrow> P"
  by (cases m) auto

text \<open>
  a secondary dex path is accepted exactly when it is absolute, does not end in a slash,
  has no component that begins with a dot, is at most 1024 long and extends, as text, the
  package's private directory of the storage asked for or its \<open>/data/user\<close> link.
\<close>

theorem validate_secondary_dex_path_iff:
  assumes "flag = 1 \<or> flag = 2" and "usable_volume env v" and "is_valid_package_name p"
  shows "\<exists>dir link. (if flag = 2 then create_data_user_ce_package_path env v (user_id uid) p
      else create_data_user_de_package_path env v (user_id uid) p) = Some dir \<and>
    create_data_user_ce_package_path_as_user_link env v (user_id uid) p = Some link \<and>
    validate_secondary_dex_path env user_id p path v uid flag =
      Some (path \<noteq> [] \<and> hd path = CHR ''/'' \<and> last path \<noteq> CHR ''/'' \<and>
            \<not> sublist ''/.'' path \<and> length path \<le> 1024 \<and> (prefix dir path \<or> prefix link path))"
proof -
  note ex = package_paths_never_abort [OF assms(2,3), of "user_id uid"]
  let ?dir = "if flag = 2 then create_data_user_ce_package_path env v (user_id uid) p
      else create_data_user_de_package_path env v (user_id uid) p"
  obtain dir where dir: "?dir = Some dir" using ex by (cases "flag = 2") auto
  obtain link where link: "create_data_user_ce_package_path_as_user_link env v (user_id uid) p = Some link"
    using ex by auto
  have flags: "(\<not> (flag = 2 \<or> flag = 1)) = False" using assms(1) by blast
  have "validate_secondary_dex_path env user_id p path v uid flag =
      Some (path \<noteq> [] \<and> hd path = CHR ''/'' \<and> last path \<noteq> CHR ''/'' \<and>
            \<not> sublist ''/.'' path \<and> length path \<le> 1024 \<and> (prefix dir path \<or> prefix link path))"
    unfolding validate_secondary_dex_path_def dir link bind.bind_lunit flags if_False
    by (simp add: find_sub_None not_less del: length_greater_0_conv)
  with dir link show ?thesis by blast
qed

text \<open>
  The prefix test does not ask for a separator: the data of another package whose name extends
  the first one's is accepted.
\<close>

definition plain_env :: path_env where
  "plain_env = \<lparr>ro_debuggable = False, lstat_is_dir = (\<lambda>_. False), dir_entries = (\<lambda>_. None)\<rparr>"

lemma secondary_dex_of_other_package:
  "validate_secondary_dex_path plain_env (\<lambda>_. 0) ''com.foo'' ''/data/user/0/com.foobar/x.dex''
     None 10001 2 = Some True"
  by code_simp

theorem validate_secondary_dex_path_iff_witness:
  "\<exists>dir link. create_data_user_ce_package_path plain_env None 0 ''com.foo'' = Some dir \<and>
    create_data_user_ce_package_path_as_user_link plain_env None 0 ''com.foo'' = Some link \<and>
    validate_secondary_dex_path plain_env (\<lambda>_. 0) ''com.foo'' ''/data/user/0/com.foo/./x.dex'' None 10001 2 =
      Some (\<not> sublist ''/.'' ''/data/user/0/com.foo/./x.dex'' \<and>
        (prefix dir ''/data/user/0/com.foo/./x.dex'' \<or> prefix link ''/data/user/0/com.foo/./x.dex''))"
proof -
  have v: "usable_volume plain_env None" by (simp add: usable_volume_def)
  have p: "is_valid_package_name ''com.foo''"
    by (simp add: is_valid_package_name_def is_alpha_def is_digit_chr_def)
  show ?thesis
    using validate_secondary_dex_path_iff [OF _ v p, of 2 "\<lambda>_. 0" 10001 "''/data/user/0/com.foo/./x.dex''"]
    by simp
qed

end
