(* ===== verification/InstalldFs.thy ===== *)
theory InstalldFs
  imports InstalldPaths
begin

text \<open>
  The file system helpers of \<open>installd/utils.cpp\<close>: known users, tree sizes, recursive
  deletion, directory creation, copying and the inode markers.  A directory tree is what
  \<open>readdir\<close> and \<open>fts\<close> show of it; a call that can fail asks an oracle that is given the path.
\<close>

section \<open>Directory trees\<close>

record fattr =
  f_name :: string
  f_uid :: int
  f_gid :: int
  f_blocks :: int
  f_mtime :: int
  f_ino :: int
  f_xattrs :: "string list"

datatype leaf_kind = FTS_F | FTS_SL | FTS_SLNONE | FTS_DEFAULT

datatype ftree = Leaf leaf_kind fattr | Node fattr "ftree list"

fun attr_of :: "ftree \<Rightarrow> fattr" where
  "attr_of (Leaf k a) = a"
| "attr_of (Node a ts) = a"

definition name_of :: "ftree \<Rightarrow> string" where
  "name_of t = f_name (attr_of t)"

fun is_node :: "ftree \<Rightarrow> bool" where
  "is_node (Leaf k a) = False"
| "is_node (Node a ts) = True"

section \<open>Users\<close>

text \<open>
  \<open>get_known_users\<close>: the owner, then every directory whose name is a number other than 0;
  \<open>None\<close> when the directory of the users cannot be opened.  \<open>userid_t\<close> is 32 bits wide.
\<close>

definition get_known_users :: "(string \<times> bool) list option \<Rightarrow> int list" where
  "get_known_users ents =
     0 # (case ents of
            None \<Rightarrow> []
          | Some es \<Rightarrow>
              concat (map (\<lambda>(name, is_dir).
                if \<not> is_dir then []
                else (let (v, end) = strtol 10 name; user = to_u32 v
                      in if end = [] \<and> user \<noteq> 0 then [user] else [])) es))"

section \<open>Sizes\<close>

text \<open>
  The application ids: \<open>multiuser_get_app_id\<close> and the ranges of the platform's
  \<open>android_filesystem_config.h\<close>.
\<close>

record app_ids =
  multiuser_get_app_id :: "int \<Rightarrow> int"
  AID_APP_START :: int
  AID_APP_END :: int
  AID_CACHE_GID_START :: int
  AID_CACHE_GID_END :: int
  AID_SHARED_GID_START :: int
  AID_SHARED_GID_END :: int

definition excluded_app :: "app_ids \<Rightarrow> fattr \<Rightarrow> bool" where
  "excluded_app ids a \<longleftrightarrow>
     (let user_uid = multiuser_get_app_id ids (f_uid a); user_gid = multiuser_get_app_id ids (f_gid a)
      in (user_uid \<ge> AID_APP_START ids \<and> user_uid \<le> AID_APP_END ids) \<or>
         (user_gid \<ge> AID_CACHE_GID_START ids \<and> user_gid \<le> AID_CACHE_GID_END ids) \<or>
         (user_gid \<ge> AID_SHARED_GID_START ids \<and> user_gid \<le> AID_SHARED_GID_END ids))"

definition entry_size :: "int \<Rightarrow> int \<Rightarrow> fattr \<Rightarrow> int" where
  "entry_size include_gid exclude_gid a =
     (if include_gid \<noteq> -1 \<and> f_gid a \<noteq> include_gid then 0
      else if exclude_gid \<noteq> -1 \<and> f_gid a = exclude_gid then 0
      else f_blocks a * 512)"

text \<open>
  The loop of \<open>calculate_tree_size\<close> over one entry and everything below it; \<open>FTS_SKIP\<close> on a
  directory leaves out its contents.
\<close>

fun measure_tree :: "app_ids \<Rightarrow> int \<Rightarrow> int \<Rightarrow> bool \<Rightarrow> ftree \<Rightarrow> int" where
  "measure_tree ids include_gid exclude_gid exclude_apps (Leaf k a) =
     (if exclude_apps \<and> excluded_app ids a then 0 else entry_size include_gid exclude_gid a)"
| "measure_tree ids include_gid exclude_gid exclude_apps (Node a ts) =
     (if exclude_apps \<and> excluded_app ids a then 0
      else entry_size include_gid exclude_gid a +
           sum_list (map (measure_tree ids include_gid exclude_gid exclude_apps) ts))"

text \<open>\<open>None\<close> for the tree: \<open>fts_open\<close> failed, the size is left alone and the result is -1.\<close>

definition calculate_tree_size ::
  "app_ids \<Rightarrow> ftree option \<Rightarrow> int \<Rightarrow> int \<Rightarrow> int \<Rightarrow> bool \<Rightarrow> int \<times> int" where
  "calculate_tree_size ids t sz include_gid exclude_gid exclude_apps =
     (case t of
        None \<Rightarrow> (-1, sz)
      | Some tr \<Rightarrow> (0, sz + measure_tree ids include_gid exclude_gid exclude_apps tr))"

section \<open>Deletion\<close>

datatype del_call = OpenDir | UnlinkFile | UnlinkDir

text \<open>
  The entries of a directory of which \<open>readdir\<close> delivers the first \<open>n\<close> and then fails (\<open>Some n\<close>), or all
  (\<open>None\<close>): the loops end either way and do not look which of the two it was.
\<close>

definition delivered :: "nat option \<Rightarrow> 'a list \<Rightarrow> 'a list" where
  "delivered n xs = (case n of None \<Rightarrow> xs | Some k \<Rightarrow> take k xs)"

definition undelivered :: "nat option \<Rightarrow> 'a list \<Rightarrow> 'a list" where
  "undelivered n xs = (case n of None \<Rightarrow> [] | Some k \<Rightarrow> drop k xs)"

text \<open>
  \<open>_delete_dir_contents\<close>: what is left of one entry and whether a call failed.  The oracles say
  which calls fail and where \<open>readdir\<close> does; a directory that is not empty cannot be removed.
\<close>

fun delete_entry ::
  "(del_call \<Rightarrow> string \<Rightarrow> bool) \<Rightarrow> (string \<Rightarrow> nat option) \<Rightarrow> (string \<Rightarrow> bool \<Rightarrow> bool) \<Rightarrow> string \<Rightarrow> ftree \<Rightarrow>
   ftree list \<times> int" where
  "delete_entry fails stops exclude path (Leaf k a) =
     (if exclude (f_name a) False then ([Leaf k a], 0)
      else if fails UnlinkFile (path @ ''/'' @ f_name a) then ([Leaf k a], -1)
      else ([], 0))"
| "delete_entry fails stops exclude path (Node a ts) =
     (let sub = path @ ''/'' @ f_name a
      in if exclude (f_name a) True then ([Node a ts], 0)
         else if fails OpenDir sub then ([Node a ts], -1)
         else (let rs = delivered (stops sub) (map (delete_entry fails stops exclude sub) ts);
                   left = concat (map fst rs) @ undelivered (stops sub) ts;
                   res = (if list_all (\<lambda>r. snd r = 0) rs then 0 else -1)
               in if left \<noteq> [] \<or> fails UnlinkDir sub then ([Node a left], -1)
                  else ([], res)))"

definition delete_contents ::
  "(del_call \<Rightarrow> string \<Rightarrow> bool) \<Rightarrow> (string \<Rightarrow> nat option) \<Rightarrow> (string \<Rightarrow> bool \<Rightarrow> bool) \<Rightarrow> string \<Rightarrow> ftree list \<Rightarrow>
   ftree list \<times> int" where
  "delete_contents fails stops exclude path ts =
     (let rs = map (delete_entry fails stops exclude path) (delivered (stops path) ts)
      in (concat (map fst rs) @ undelivered (stops path) ts, if list_all (\<lambda>r. snd r = 0) rs then 0 else -1))"

text \<open>
  \<open>delete_dir_contents\<close>: the entries of the directory (\<open>Inl errno\<close> when it cannot be opened),
  whether it is removed as well, and what is left: \<open>None\<close> when the directory is gone.
\<close>

definition delete_dir_contents ::
  "(del_call \<Rightarrow> string \<Rightarrow> bool) \<Rightarrow> (string \<Rightarrow> nat option) \<Rightarrow> int \<Rightarrow> string \<Rightarrow> int + ftree list \<Rightarrow> bool \<Rightarrow>
   (string \<Rightarrow> bool \<Rightarrow> bool) \<Rightarrow> bool \<Rightarrow> int \<times> ftree list option" where
  "delete_dir_contents fails stops ENOENT path d also_delete_dir exclude ignore_if_missing =
     (case d of
        Inl errno \<Rightarrow> (if ignore_if_missing \<and> errno = ENOENT then 0 else - errno, None)
      | Inr ts \<Rightarrow>
          (let (left, res) = delete_contents fails stops exclude path ts
           in if also_delete_dir then
                (if left \<noteq> [] \<or> fails UnlinkDir path then (-1, Some left) else (res, None))
              else (res, Some left)))"

text \<open>The two calls most handlers make, and \<open>delete_dir_contents_fd\<close>.\<close>

definition delete_dir_contents_and_dir ::
  "(del_call \<Rightarrow> string \<Rightarrow> bool) \<Rightarrow> (string \<Rightarrow> nat option) \<Rightarrow> int \<Rightarrow> string \<Rightarrow> int + ftree list \<Rightarrow> bool \<Rightarrow>
   int \<times> ftree list option" where
  "delete_dir_contents_and_dir fails stops ENOENT path d ignore_if_missing =
     delete_dir_contents fails stops ENOENT path d True (\<lambda>n b. False) ignore_if_missing"

definition delete_dir_contents_fd ::
  "(del_call \<Rightarrow> string \<Rightarrow> bool) \<Rightarrow> (string \<Rightarrow> nat option) \<Rightarrow> string \<Rightarrow> int + ftree list \<Rightarrow> int \<times> ftree list option" where
  "delete_dir_contents_fd fails stops path d =
     (case d of
        Inl _ \<Rightarrow> (-1, None)
      | Inr ts \<Rightarrow> (let (left, res) = delete_contents fails stops (\<lambda>n b. False) path ts in (res, Some left)))"

section \<open>Creating and copying\<close>

text \<open>
  \<open>create_dir_if_needed\<close>: \<open>Inl errno\<close> is a failed \<open>stat\<close>, \<open>Inr (dir, mode)\<close> what it found;
  the second component says whether \<open>mkdir\<close> is called.
\<close>

definition create_dir_if_needed :: "int \<Rightarrow> int + bool \<times> int \<Rightarrow> int \<Rightarrow> int \<Rightarrow> int \<times> bool" where
  "create_dir_if_needed ENOENT st mkdir_result perms =
     (case st of
        Inl errno \<Rightarrow> if errno = ENOENT then (mkdir_result, True) else (-1, False)
      | Inr (is_directory, mode) \<Rightarrow>
          if \<not> is_directory then (-1, False)
          else if mode mod 4096 \<noteq> perms then (-1, False)
          else (0, False))"

text \<open>
  The files of a directory as \<open>copy_dir_files\<close> sees them: name, mode, owner and contents.
  Reading gives the contents up to an error; writing starts at the beginning of an existing
  file, which is not truncated, and what does not fit is lost without a trace.
\<close>

record plain_file =
  p_mode :: int
  p_uid :: int
  p_gid :: int
  p_data :: string

record src_file =
  s_regular :: bool
  s_opens :: bool
  s_mode :: int
  s_data :: string
  s_read_error :: bool

definition overwrite :: "string \<Rightarrow> string \<Rightarrow> string" where
  "overwrite old new = new @ drop (length new) old"

definition copy_one_file ::
  "(string \<Rightarrow> bool) \<Rightarrow> (string \<Rightarrow> nat) \<Rightarrow> int \<Rightarrow> int \<Rightarrow> string \<Rightarrow> src_file \<Rightarrow>
   (string \<rightharpoonup> plain_file) \<Rightarrow> int \<times> (string \<rightharpoonup> plain_file)" where
  "copy_one_file dest_opens room owner grp name s dst =
     (if \<not> dest_opens name then (0, dst)
      else
        (let d = (case dst name of
                    Some f \<Rightarrow> f
                  | None \<Rightarrow> \<lparr>p_mode = 384, p_uid = 0, p_gid = 0, p_data = []\<rparr>)
         in if \<not> s_opens s then (0, dst(name \<mapsto> d))
            else (if s_read_error s then -1 else 0,
                  dst(name \<mapsto> d\<lparr>p_mode := s_mode s, p_uid := owner, p_gid := grp,
                        p_data := overwrite (p_data d) (take (room name) (s_data s))\<rparr>))))"

primrec copy_dir_loop ::
  "(string \<Rightarrow> bool) \<Rightarrow> (string \<Rightarrow> nat) \<Rightarrow> int \<Rightarrow> int \<Rightarrow> (string \<times> src_file) list \<Rightarrow>
   (string \<rightharpoonup> plain_file) \<Rightarrow> int \<times> (string \<rightharpoonup> plain_file)" where
  "copy_dir_loop dest_opens room owner grp [] dst = (0, dst)"
| "copy_dir_loop dest_opens room owner grp (x # xs) dst =
     (if \<not> s_regular (snd x) then copy_dir_loop dest_opens room owner grp xs dst
      else
        (let (r, dst1) = copy_one_file dest_opens room owner grp (fst x) (snd x) dst;
             (r', dst2) = copy_dir_loop dest_opens room owner grp xs dst1
         in (if r \<noteq> 0 then -1 else r', dst2)))"

section \<open>Inode markers\<close>

record inode_env =
  get_inode_xattr :: "string \<Rightarrow> string \<Rightarrow> nat option"
  list_dir :: "string \<Rightarrow> (nat \<times> string) list option"
  stat_ino :: "string \<Rightarrow> nat option"

definition get_path_inode :: "inode_env \<Rightarrow> string \<Rightarrow> nat option" where
  "get_path_inode env path = stat_ino env path"

text \<open>
  The marker a \<open>write_path_inode\<close> sets (\<open>None\<close>: nothing is written), given whether \<open>setxattr\<close>
  fails with an error other than \<open>EOPNOTSUPP\<close>.
\<close>

definition write_path_inode ::
  "inode_env \<Rightarrow> bool \<Rightarrow> string \<Rightarrow> string \<Rightarrow> string \<Rightarrow> int \<times> nat option" where
  "write_path_inode env set_fails parent name inode_xattr =
     (case get_path_inode env (parent @ ''/'' @ name) of
        None \<Rightarrow> (0, None)
      | Some inode \<Rightarrow>
          if get_inode_xattr env parent inode_xattr = Some inode then (0, None)
          else if set_fails then (-1, None) else (0, Some inode))"

definition read_path_inode :: "inode_env \<Rightarrow> string \<Rightarrow> string \<Rightarrow> string \<Rightarrow> string" where
  "read_path_inode env parent name inode_xattr =
     (let fallback = parent @ ''/'' @ name;
          inode = (case get_inode_xattr env parent inode_xattr of None \<Rightarrow> 0 | Some i \<Rightarrow> i)
      in if inode \<noteq> 0 then
           (case list_dir env parent of
              None \<Rightarrow> fallback
            | Some ents \<Rightarrow>
                (case find (\<lambda>(i, n). i = inode) ents of
                   Some (i, n) \<Rightarrow> parent @ ''/'' @ n
                 | None \<Rightarrow> fallback))
         else fallback)"

text \<open>\<open>statvfs\<close> gives the free blocks and the fragment size.\<close>

definition data_disk_free :: "(int \<times> int) option \<Rightarrow> int" where
  "data_disk_free sfs = (case sfs of Some (f_bavail, f_frsize) \<Rightarrow> f_bavail * f_frsize | None \<Rightarrow> -1)"

section \<open>Properties of the deletion\<close>

lemma delivered_simps [simp]: "delivered None xs = xs" "undelivered None xs = []"
  by (simp_all add: delivered_def undelivered_def)

lemma delivered_map: "delivered n (map f xs) = map f (delivered n xs)"
  by (cases n) (simp_all add: delivered_def take_map)

lemma delivered_append [simp]: "delivered n xs @ undelivered n xs = xs"
  by (cases n) (simp_all add: delivered_def undelivered_def)

lemma delivered_subset: "x \<in> set (delivered n xs) \<Longrightarrow> x \<in> set xs"
  by (metis Un_iff delivered_append set_append)

lemma delete_entry_range: "snd (delete_entry fails stops ex p t) \<in> {0, -1}"
  by (cases t) (auto simp: Let_def)

text \<open>Without exclusions an entry is either gone, and the result 0, or left with the result -1.\<close>

lemma delete_entry_gone:
  "snd (delete_entry fails stops (\<lambda>n b. False) p t) = 0 \<longleftrightarrow> fst (delete_entry fails stops (\<lambda>n b. False) p t) = []"
proof (induction t arbitrary: p)
  case (Node a ts)
  let ?sub = "p @ ''/'' @ f_name a"
  let ?rs = "map (delete_entry fails stops (\<lambda>n b. False) ?sub) (delivered (stops ?sub) ts)"
  have "concat (map fst ?rs) = [] \<longleftrightarrow> list_all (\<lambda>r. snd r = 0) ?rs"
    using Node delivered_subset by (fastforce simp: list_all_iff)
  then show ?case by (simp add: Let_def delivered_map)
qed simp


text \<open>The result is 0 although an entry is left.\<close>

lemma readdir_error_unnoticed:
  "delete_dir_contents (\<lambda>c p. False) (\<lambda>p. Some 0) ENOENT path (Inr [t]) False (\<lambda>n b. False) ign = (0, Some [t])"
  by (simp add: delete_dir_contents_def delete_contents_def delivered_def undelivered_def)

fun subtree_names :: "ftree \<Rightarrow> string list" where
  "subtree_names (Leaf k a) = [f_name a]"
| "subtree_names (Node a ts) = f_name a # concat (map subtree_names ts)"

text \<open>Excluded entries survive with everything in them.\<close>

lemma delete_contents_excluded:
  assumes "t \<in> set ts" and "exclude (name_of t) (is_node t)"
  shows "t \<in> set (fst (delete_contents fails stops exclude path ts))"
proof -
  have "fst (delete_entry fails stops exclude path t) = [t]"
    using assms(2) by (cases t) (auto simp: name_of_def Let_def)
  moreover have "t \<in> set (delivered (stops path) ts) \<or> t \<in> set (undelivered (stops path) ts)"
    using assms(1) by (metis Un_iff delivered_append set_append)
  ultimately show ?thesis by (force simp: delete_contents_def Let_def)
qed

lemma read_path_inode_marked:
  assumes "get_inode_xattr env parent x = Some i" and "i \<noteq> 0" and "list_dir env parent = Some ents"
    and "(i, n) \<in> set ents" and "distinct (map fst ents)"
  shows "read_path_inode env parent name x = parent @ ''/'' @ n"
proof -
  have "find (\<lambda>(j, m). j = i) ents = Some (i, n)"
    using assms(4,5) by (induction ents) (auto simp: rev_image_eqI)
  with assms(1-3) show ?thesis by (simp add: read_path_inode_def)
qed

text \<open>A shorter file copied over a longer one keeps the old tail; nothing is reported.\<close>

lemma copy_keeps_stale_tail:
  "copy_dir_loop (\<lambda>n. True) (\<lambda>n. 100) 1 1
     [(''f'', \<lparr>s_regular = True, s_opens = True, s_mode = 384, s_data = ''new'', s_read_error = False\<rparr>)]
     [''f'' \<mapsto> \<lparr>p_mode = 384, p_uid = 1, p_gid = 1, p_data = ''old data''\<rparr>] =
   (0, [''f'' \<mapsto> \<lparr>p_mode = 384, p_uid = 1, p_gid = 1, p_data = ''new data''\<rparr>])"
  by (simp add: copy_one_file_def overwrite_def)

text \<open>A file that cannot be opened is left out, and the result is still 0.\<close>

lemma copy_reports_success_without_copying:
  "copy_dir_loop (\<lambda>n. False) room u g [(''f'', s\<lparr>s_regular := True\<rparr>)] Map.empty = (0, Map.empty)"
  by (simp add: copy_one_file_def)

end
