(* ===== verification/InstalldQuota.thy ===== *)
theory InstalldQuota
  imports InstalldPaths
begin

text \<open>
  Quota accounting (\<open>installd/QuotaUtils.cpp\<close>): the map from mount points to quota devices,
  read from \<open>/proc/mounts\<close>, and the space that a user or group occupies.  \<open>quotactl\<close> is a
  parameter; the map is a HOL map, and \<open>mQuotaReverseMounts[path]\<close> of a missing key is the
  empty string.
\<close>

text \<open>
  \<open>std::getline(in, s, d)\<close>: at the end of the stream the string is left as it was once the end
  was hit before, and is the rest of the text when the delimiter is missing.
\<close>

definition get_line :: "char \<Rightarrow> string \<times> bool \<Rightarrow> string \<Rightarrow> string \<times> string \<times> bool" where
  "get_line d st old =
     (let (text, eof) = st
      in if eof then (old, text, True)
         else (let w = takeWhile (\<lambda>c. c \<noteq> d) text; rest = dropWhile (\<lambda>c. c \<noteq> d) text
               in (w, tl rest, rest = [])))"

lemma get_line_shrinks:
  "get_line d (s, eof) old = (w, s', eof') \<Longrightarrow> (eof \<longrightarrow> eof') \<and> (eof' \<or> length s' < length s)"
  using length_dropWhile_le [of "\<lambda>c. c \<noteq> d" s]
  by (cases "dropWhile (\<lambda>c. c \<noteq> d) s") (auto simp: get_line_def Let_def split: if_splits)

text \<open>
  The loop over the lines; \<open>quota_ok\<close> says whether \<open>quotactl(Q_GETQUOTA)\<close> on the device succeeds.
\<close>

function quota_mounts_loop ::
  "(string \<Rightarrow> bool) \<Rightarrow> string \<times> bool \<Rightarrow> string \<Rightarrow> (string \<rightharpoonup> string) \<Rightarrow> (string \<rightharpoonup> string)" where
  "quota_mounts_loop quota_ok st target m =
     (if snd st then m
      else
        (let (source, st1) = get_line CHR '' '' st [];
             (target', st2) = get_line CHR '' '' st1 target;
             (ignored, st3) = get_line CHR 0x0A st2 []
         in quota_mounts_loop quota_ok st3 target'
              (if take 11 source = ''/dev/block/'' \<and> quota_ok source then m(target' \<mapsto> source) else m)))"
  by pat_completeness auto
termination
proof (relation "measure (\<lambda>(q, st, t, m). if snd st then 0 else Suc (length (fst st)))", goal_cases)
  case (2 q st target m r1 source st1 r2 target' st2 r3 ignored st3)
  then show ?case
    using get_line_shrinks [of "CHR '' ''" "fst st" "snd st" "[]" source "fst st1" "snd st1"]
      get_line_shrinks [of "CHR '' ''" "fst st1" "snd st1" target target' "fst st2" "snd st2"]
      get_line_shrinks [of "CHR 0x0A" "fst st2" "snd st2" "[]" ignored "fst st3" "snd st3"]
    by (cases st; cases st1; cases st2; cases st3) auto
qed simp

declare quota_mounts_loop.simps [simp del]

text \<open>\<open>None\<close>: \<open>/proc/mounts\<close> could not be opened, and the map is empty.\<close>

definition InvalidateQuotaMounts :: "(string \<Rightarrow> bool) \<Rightarrow> string option \<Rightarrow> bool \<times> (string \<rightharpoonup> string)" where
  "InvalidateQuotaMounts quota_ok mounts =
     (case mounts of
        None \<Rightarrow> (False, Map.empty)
      | Some text \<Rightarrow> (True, quota_mounts_loop quota_ok (text, False) [] Map.empty))"

definition FindQuotaDeviceForUuid :: "path_env \<Rightarrow> (string \<rightharpoonup> string) \<Rightarrow> string \<Rightarrow> string option" where
  "FindQuotaDeviceForUuid env mounts uuid =
     (case create_data_path env (if uuid = [] then None else Some uuid) of
        None \<Rightarrow> None
      | Some path \<Rightarrow> Some (case mounts path of None \<Rightarrow> [] | Some d \<Rightarrow> d))"

definition IsQuotaSupported :: "path_env \<Rightarrow> (string \<rightharpoonup> string) \<Rightarrow> string \<Rightarrow> bool option" where
  "IsQuotaSupported env mounts uuid = map_option (\<lambda>d. d \<noteq> []) (FindQuotaDeviceForUuid env mounts uuid)"

text \<open>
  The space of a user or a group: \<open>quotactl\<close> is given the kind of the quota, the device and the
  id; its \<open>None\<close> is a failure.
\<close>

datatype quota_kind = USRQUOTA | GRPQUOTA

definition GetOccupiedSpace ::
  "(quota_kind \<Rightarrow> string \<Rightarrow> int \<Rightarrow> int option) \<Rightarrow> quota_kind \<Rightarrow> path_env \<Rightarrow> (string \<rightharpoonup> string) \<Rightarrow>
   string \<Rightarrow> int \<Rightarrow> int option" where
  "GetOccupiedSpace quotactl kind env mounts uuid i =
     map_option (\<lambda>device.
       if device = [] then -1
       else (case quotactl kind device i of None \<Rightarrow> -1 | Some curspace \<Rightarrow> to_i64 curspace))
     (FindQuotaDeviceForUuid env mounts uuid)"

definition GetOccupiedSpaceForUid ::
  "(quota_kind \<Rightarrow> string \<Rightarrow> int \<Rightarrow> int option) \<Rightarrow> path_env \<Rightarrow> (string \<rightharpoonup> string) \<Rightarrow> string \<Rightarrow> int \<Rightarrow> int option" where
  "GetOccupiedSpaceForUid quotactl = GetOccupiedSpace quotactl USRQUOTA"

definition GetOccupiedSpaceForGid ::
  "(quota_kind \<Rightarrow> string \<Rightarrow> int \<Rightarrow> int option) \<Rightarrow> path_env \<Rightarrow> (string \<rightharpoonup> string) \<Rightarrow> string \<Rightarrow> int \<Rightarrow> int option" where
  "GetOccupiedSpaceForGid quotactl = GetOccupiedSpace quotactl GRPQUOTA"

section \<open>The mount table\<close>

text \<open>A line of the table: device, mount point and the rest.\<close>

definition mount_line :: "string \<times> string \<times> string \<Rightarrow> string" where
  "mount_line l = (case l of (source, target, rest) \<Rightarrow> source @ '' '' @ target @ '' '' @ rest @ [CHR 0x0A])"

definition plain_line :: "string \<times> string \<times> string \<Rightarrow> bool" where
  "plain_line l \<longleftrightarrow> (case l of (source, target, rest) \<Rightarrow>
     CHR '' '' \<notin> set source \<and> CHR '' '' \<notin> set target \<and> CHR 0x0A \<notin> set rest)"

definition quota_line :: "(string \<Rightarrow> bool) \<Rightarrow> string \<times> string \<times> string \<Rightarrow> bool" where
  "quota_line quota_ok l \<longleftrightarrow> take 11 (fst l) = ''/dev/block/'' \<and> quota_ok (fst l)"

lemma get_line_word:
  "d \<notin> set w \<Longrightarrow> get_line d (w @ d # rest, False) old = (w, rest, False)"
  by (induction w) (auto simp: get_line_def Let_def)

lemma quota_mounts_loop_line:
  assumes "plain_line (source, target, rest)"
  shows "quota_mounts_loop quota_ok (mount_line (source, target, rest) @ text, False) t m =
    quota_mounts_loop quota_ok (text, False) target
      (if quota_line quota_ok (source, target, rest) then m(target \<mapsto> source) else m)"
proof -
  have 1: "get_line CHR '' '' (source @ CHR '' '' # target @ CHR '' '' # rest @ CHR 0x0A # text, False) [] =
      (source, target @ CHR '' '' # rest @ CHR 0x0A # text, False)"
    and 2: "get_line CHR '' '' (target @ CHR '' '' # rest @ CHR 0x0A # text, False) t =
      (target, rest @ CHR 0x0A # text, False)"
    and 3: "get_line CHR 0x0A (rest @ CHR 0x0A # text, False) [] = (rest, text, False)"
    using assms by (simp_all add: plain_line_def get_line_word)
  show ?thesis
    by (subst quota_mounts_loop.simps) (simp add: mount_line_def quota_line_def 1 2 3)
qed

lemma quota_mounts_loop_end: "quota_mounts_loop quota_ok ([], False) t m = m"
  by (subst quota_mounts_loop.simps) (simp add: get_line_def Let_def quota_mounts_loop.simps)

text \<open>
  after reading a well-formed mount table the map holds, for every mount point, the device
  of the last line that names a block device with a working quota, and nothing else.
\<close>

theorem InvalidateQuotaMounts_table:
  assumes "\<forall>l \<in> set ls. plain_line l"
  shows "InvalidateQuotaMounts quota_ok (Some (concat (map mount_line ls))) =
    (True, map_of (rev (map (\<lambda>(source, target, rest). (target, source)) (filter (quota_line quota_ok) ls))))"
proof -
  have "quota_mounts_loop quota_ok (concat (map mount_line ls), False) t m =
      m ++ map_of (rev (map (\<lambda>(source, target, rest). (target, source)) (filter (quota_line quota_ok) ls)))" for t m
    using assms
  proof (induction ls arbitrary: t m)
    case Nil
    show ?case by (simp add: quota_mounts_loop_end)
  next
    case (Cons l ls)
    obtain source target rest where l: "l = (source, target, rest)" by (cases l) auto
    show ?case
      using Cons quota_mounts_loop_line [of source target rest quota_ok "concat (map mount_line ls)" t m]
      by (auto simp: l map_add_def split: option.split)
  qed
  then show ?thesis by (simp add: InvalidateQuotaMounts_def)
qed

theorem InvalidateQuotaMounts_table_witness:
  "InvalidateQuotaMounts (\<lambda>s. True) (Some (concat (map mount_line
      [(''/dev/block/dm-1'', ''/data'', ''ext4 rw''), (''proc'', ''/proc'', ''proc rw'')]))) =
    (True, map_of [(''/data'', ''/dev/block/dm-1'')])"
  using InvalidateQuotaMounts_table
    [of "[(''/dev/block/dm-1'', ''/data'', ''ext4 rw''), (''proc'', ''/proc'', ''proc rw'')]" "\<lambda>s. True"]
  by (simp add: plain_line_def quota_line_def)

end
