(* ===== verification/CacheTracker.thy ===== *)
theory CacheTracker
  imports InstalldFs InstalldQuota "HOL-Library.Multiset" "HOL-Library.Signed_Division"
begin

text \<open>
  Cache items and cache trackers (\<open>installd/CacheItem.cpp\<close>, \<open>installd/CacheTracker.cpp\<close>): the
  purgeable files and directories of one UID, collected from its cache directories and sorted,
  and the purge of one item.  The pointer to the parent item is the parent item itself, the
  name of an item its full path.
\<close>

section \<open>Items\<close>

record citem =
  ci_level :: int
  ci_directory :: bool
  ci_group :: bool
  ci_tombstone :: bool
  ci_size :: int
  ci_modified :: int
  ci_path :: string

text \<open>The constructor; without a parent item the name is the path that \<open>fts\<close> reports.\<close>

definition new_item :: "int \<Rightarrow> citem option \<Rightarrow> string \<Rightarrow> fattr \<Rightarrow> bool \<Rightarrow> citem" where
  "new_item lvl parent base a is_directory =
     \<lparr>ci_level = lvl, ci_directory = is_directory,
      ci_group = (case parent of None \<Rightarrow> False | Some p \<Rightarrow> ci_group p),
      ci_tombstone = (case parent of None \<Rightarrow> False | Some p \<Rightarrow> ci_tombstone p),
      ci_size = f_blocks a * 512, ci_modified = f_mtime a,
      ci_path = (case parent of None \<Rightarrow> base @ ''/'' @ f_name a | Some p \<Rightarrow> ci_path p @ ''/'' @ f_name a)\<rparr>"

fun subtree_attrs :: "ftree \<Rightarrow> fattr list" where
  "subtree_attrs (Leaf k a) = [a]"
| "subtree_attrs (Node a ts) = a # concat (map subtree_attrs ts)"

text \<open>
  The traversal of \<open>loadItemsFrom\<close>: the items of one entry and what is below it, the entry
  first.  A group directory swallows its subtree; otherwise the times of the children bubble up.
\<close>

definition dir_item :: "int \<Rightarrow> citem option \<Rightarrow> string \<Rightarrow> fattr \<Rightarrow> citem" where
  "dir_item lvl parent base a =
     (let it = new_item lvl parent base a True
      in it\<lparr>ci_group := ci_group it \<or> ''user.cache_group'' \<in> set (f_xattrs a),
            ci_tombstone := ci_tombstone it \<or> ''user.cache_tombstone'' \<in> set (f_xattrs a)\<rparr>)"

fun load_node :: "int \<Rightarrow> citem option \<Rightarrow> string \<Rightarrow> ftree \<Rightarrow> citem list" where
  "load_node lvl parent base (Leaf k a) = [new_item lvl parent base a False]"
| "load_node lvl parent base (Node a ts) =
     (let it = dir_item lvl parent base a
      in if ci_group it then
           (let ds = concat (map subtree_attrs ts)
            in [it\<lparr>ci_size := ci_size it + sum_list (map (\<lambda>d. f_blocks d * 512) ds),
                    ci_modified := foldl max (ci_modified it) (map f_mtime ds)\<rparr>])
         else
           (let subs = map (load_node (lvl + 1) (Some it) (base @ ''/'' @ f_name a)) ts
            in it\<lparr>ci_modified := foldl max (ci_modified it) (map (\<lambda>s. ci_modified (hd s)) subs)\<rparr>
               # concat subs))"

text \<open>\<open>None\<close>: \<open>fts_open\<close> fails.  The root itself is no item.\<close>

definition loadItemsFrom :: "string \<Rightarrow> ftree option \<Rightarrow> citem list" where
  "loadItemsFrom path t =
     (case t of
        Some (Node a ts) \<Rightarrow> concat (map (load_node 1 None path) ts)
      | _ \<Rightarrow> [])"

definition item_cmp :: "citem \<Rightarrow> citem \<Rightarrow> bool" where
  "item_cmp left right =
     (if ci_modified left \<noteq> ci_modified right then ci_modified left > ci_modified right
      else if ci_level left \<noteq> ci_level right then ci_level left < ci_level right
      else ci_directory left)"

text \<open>
  \<open>std::stable_sort\<close>, as insertion from the right.
\<close>

fun stable_insert :: "('a \<Rightarrow> 'a \<Rightarrow> bool) \<Rightarrow> 'a \<Rightarrow> 'a list \<Rightarrow> 'a list" where
  "stable_insert cmp x [] = [x]"
| "stable_insert cmp x (y # ys) = (if cmp y x then y # stable_insert cmp x ys else x # y # ys)"

definition stable_sort :: "('a \<Rightarrow> 'a \<Rightarrow> bool) \<Rightarrow> 'a list \<Rightarrow> 'a list" where
  "stable_sort cmp xs = foldr (stable_insert cmp) xs []"

section \<open>Purging\<close>

datatype purge_op = Truncate string | Unlink string | Rmdir string

text \<open>The loop of \<open>purge\<close> over one entry below the directory of the item.\<close>

fun purge_node :: "bool \<Rightarrow> string \<Rightarrow> ftree \<Rightarrow> purge_op list" where
  "purge_node tomb base (Leaf k a) =
     (if k = FTS_F \<and> tomb then [Truncate (base @ ''/'' @ f_name a)]
      else [Unlink (base @ ''/'' @ f_name a)])"
| "purge_node tomb base (Node a ts) =
     (let path = base @ ''/'' @ f_name a;
          t = (tomb \<or> ''user.cache_tombstone'' \<in> set (f_xattrs a))
      in concat (map (purge_node t path) ts) @ [Rmdir path])"

definition purge_result :: "(purge_op \<Rightarrow> bool) \<Rightarrow> purge_op list \<Rightarrow> int" where
  "purge_result fails ops = (if list_ex fails ops then -1 else 0)"

text \<open>
  \<open>purge\<close>: the calls it makes and its result, given what \<open>fts\<close> finds at a directory.
\<close>

definition purge :: "(purge_op \<Rightarrow> bool) \<Rightarrow> ftree option \<Rightarrow> citem \<Rightarrow> int \<times> purge_op list" where
  "purge fails t item =
     (let path = ci_path item
      in if ci_directory item then
           (case t of
              None \<Rightarrow> (-1, [])
            | Some (Node a ts) \<Rightarrow>
                (let ops = concat (map (purge_node (ci_tombstone item) path) ts) @ [Rmdir path]
                 in (purge_result fails ops, ops))
            | Some (Leaf k a) \<Rightarrow> (purge_result fails [Unlink path], [Unlink path]))
         else
           (let ops = [if ci_tombstone item then Truncate path else Unlink path]
            in (purge_result fails ops, ops)))"

section \<open>Trackers\<close>

record tracker =
  cacheUsed :: int
  cacheQuota :: int
  items :: "citem list"
  mUserId :: int
  mAppId :: int
  mItemsLoaded :: bool
  mDataPaths :: "string list"

definition new_tracker :: "int \<Rightarrow> int \<Rightarrow> tracker" where
  "new_tracker userId appId =
     \<lparr>cacheUsed = 0, cacheQuota = 0, items = [], mUserId = userId, mAppId = appId,
      mItemsLoaded = False, mDataPaths = []\<rparr>"

definition addDataPath :: "string \<Rightarrow> tracker \<Rightarrow> tracker" where
  "addDataPath p t = t\<lparr>mDataPaths := mDataPaths t @ [p]\<rparr>"

text \<open>
  What a tracker reads: the path layer and the quota map, \<open>quotactl\<close>, the group ids of the
  platform (-1 for none), the inode markers, and the tree at a path.
\<close>

record cache_env =
  ce_paths :: path_env
  ce_mounts :: "string \<rightharpoonup> string"
  ce_quotactl :: "quota_kind \<Rightarrow> string \<Rightarrow> int \<Rightarrow> int option"
  multiuser_get_cache_gid :: "int \<Rightarrow> int \<Rightarrow> int"
  multiuser_get_ext_cache_gid :: "int \<Rightarrow> int \<Rightarrow> int"
  ce_ids :: app_ids
  ce_inodes :: inode_env
  ce_tree :: "string \<Rightarrow> ftree option"

text \<open>The result \<open>None\<close> is the \<open>CHECK\<close> of the path layer.\<close>

definition loadQuotaStats :: "cache_env \<Rightarrow> string \<Rightarrow> tracker \<Rightarrow> (bool \<times> tracker) option" where
  "loadQuotaStats env uuid t =
     (let cacheGid = multiuser_get_cache_gid env (mUserId t) (mAppId t);
          extCacheGid = multiuser_get_ext_cache_gid env (mUserId t) (mAppId t);
          occupied = GetOccupiedSpaceForGid (ce_quotactl env) (ce_paths env) (ce_mounts env) uuid
      in case IsQuotaSupported (ce_paths env) (ce_mounts env) uuid of
           None \<Rightarrow> None
         | Some supported \<Rightarrow>
             if supported \<and> cacheGid \<noteq> -1 \<and> extCacheGid \<noteq> -1 then
               (case occupied cacheGid of
                  None \<Rightarrow> None
                | Some space1 \<Rightarrow>
                    if space1 = -1 then Some (False, t)
                    else
                      (let t1 = t\<lparr>cacheUsed := cacheUsed t + space1\<rparr>
                       in case occupied extCacheGid of
                            None \<Rightarrow> None
                          | Some space2 \<Rightarrow>
                              if space2 = -1 then Some (False, t1)
                              else Some (True, t1\<lparr>cacheUsed := cacheUsed t1 + space2\<rparr>)))
             else Some (False, t))"

definition cache_paths :: "cache_env \<Rightarrow> string \<Rightarrow> string list" where
  "cache_paths env path =
     [read_path_inode (ce_inodes env) path ''cache'' ''user.inode_cache'',
      read_path_inode (ce_inodes env) path ''code_cache'' ''user.inode_code_cache'']"

definition loadStats :: "cache_env \<Rightarrow> string \<Rightarrow> tracker \<Rightarrow> tracker option" where
  "loadStats env uuid t =
     (case loadQuotaStats env uuid (t\<lparr>cacheUsed := 0\<rparr>) of
        None \<Rightarrow> None
      | Some (True, t1) \<Rightarrow> Some t1
      | Some (False, t1) \<Rightarrow>
          Some (t1\<lparr>cacheUsed := foldl (\<lambda>sz p. snd (calculate_tree_size (ce_ids env) (ce_tree env p) sz (-1) (-1) False))
                     0 (concat (map (cache_paths env) (mDataPaths t1)))\<rparr>))"

definition loadItems :: "cache_env \<Rightarrow> tracker \<Rightarrow> tracker" where
  "loadItems env t =
     t\<lparr>items := stable_sort item_cmp
         (concat (map (\<lambda>p. loadItemsFrom p (ce_tree env p)) (concat (map (cache_paths env) (mDataPaths t)))))\<rparr>"

definition ensureItems :: "cache_env \<Rightarrow> tracker \<Rightarrow> tracker" where
  "ensureItems env t =
     (if mItemsLoaded t then t else (loadItems env t)\<lparr>mItemsLoaded := True\<rparr>)"

text \<open>
  The ratio is computed in 64 bits, the division truncates, and the result is an \<open>int\<close>.
\<close>

definition getCacheRatio :: "tracker \<Rightarrow> int" where
  "getCacheRatio t =
     (if cacheQuota t = 0 then 0 else to_i32 (to_i64 (cacheUsed t * 10000) sdiv cacheQuota t))"

section \<open>The order of the items\<close>

text \<open>
  What the tracker relies on: sorting keeps the items, and puts them in order whenever the
  comparison refines a key.
\<close>

locale stable_sorter =
  fixes sorter :: "('a \<Rightarrow> 'a \<Rightarrow> bool) \<Rightarrow> 'a list \<Rightarrow> 'a list"
  assumes mset_sorter: "mset (sorter cmp xs) = mset xs"
    and sorter_sorted: "(\<And>x y. before x y \<Longrightarrow> cmp x y) \<Longrightarrow> (\<And>x y. cmp x y \<Longrightarrow> \<not> before y x) \<Longrightarrow>
      (\<And>x y z. \<not> before y x \<Longrightarrow> \<not> before z y \<Longrightarrow> \<not> before z x) \<Longrightarrow>
      sorted_wrt (\<lambda>x y. \<not> before y x) (sorter cmp xs)"
begin

lemma set_sorter: "set (sorter cmp xs) = set xs"
  by (metis mset_sorter set_mset_mset)

lemma length_sorter: "length (sorter cmp xs) = length xs"
  by (metis mset_sorter size_mset)

end

lemma mset_stable_insert: "mset (stable_insert cmp x ys) = add_mset x (mset ys)"
  by (induction ys) auto

lemma stable_insert_sorted:
  assumes "\<And>x y. before x y \<Longrightarrow> cmp x y" and "\<And>x y. cmp x y \<Longrightarrow> \<not> before y x"
    and trans: "\<And>x y z. \<not> before y x \<Longrightarrow> \<not> before z y \<Longrightarrow> \<not> before z x"
  shows "sorted_wrt (\<lambda>x y. \<not> before y x) ys \<Longrightarrow> sorted_wrt (\<lambda>x y. \<not> before y x) (stable_insert cmp x ys)"
proof (induction ys)
  case (Cons y ys)
  have mem: "set (stable_insert cmp x ys) = insert x (set ys)"
    by (metis mset_stable_insert set_mset_add_mset_insert set_mset_mset)
  show ?case
  proof (cases "cmp y x")
    case True
    then show ?thesis using Cons assms(2) mem by auto
  next
    case False
    then have "\<not> before y x" using assms(1) by blast
    then show ?thesis using Cons.prems False trans by auto
  qed
qed simp

interpretation sort_items: stable_sorter stable_sort
proof
  fix cmp :: "'a \<Rightarrow> 'a \<Rightarrow> bool" and xs
  show "mset (stable_sort cmp xs) = mset xs"
    by (induction xs) (auto simp: stable_sort_def mset_stable_insert)
next
  fix before cmp :: "'a \<Rightarrow> 'a \<Rightarrow> bool" and xs
  assume a: "\<And>x y. before x y \<Longrightarrow> cmp x y" "\<And>x y. cmp x y \<Longrightarrow> \<not> before y x"
    "\<And>x y z. \<not> before y x \<Longrightarrow> \<not> before z y \<Longrightarrow> \<not> before z x"
  show "sorted_wrt (\<lambda>x y. \<not> before y x) (stable_sort cmp xs)"
  proof (induction xs)
    case (Cons x xs)
    from stable_insert_sorted [of before cmp, OF a Cons] show ?case
      by (simp add: stable_sort_def)
  qed (simp add: stable_sort_def)
qed

definition newer :: "citem \<Rightarrow> citem \<Rightarrow> bool" where
  "newer x y \<longleftrightarrow> ci_modified x > ci_modified y \<or> ci_modified x = ci_modified y \<and> ci_level x < ci_level y"

lemma item_cmp_sorted: "sorted_wrt (\<lambda>x y. \<not> newer y x) (stable_sort item_cmp xs)"
  by (rule sort_items.sorter_sorted) (auto simp: newer_def item_cmp_def split: if_splits)

section \<open>A directory is newer than what is below it\<close>

fun wf_tree :: "ftree \<Rightarrow> bool" where
  "wf_tree (Leaf k a) \<longleftrightarrow> CHR ''/'' \<notin> set (f_name a)"
| "wf_tree (Node a ts) \<longleftrightarrow> CHR ''/'' \<notin> set (f_name a) \<and> distinct (map name_of ts) \<and> list_all wf_tree ts"

definition item_below :: "citem \<Rightarrow> citem \<Rightarrow> bool" where
  "item_below x y \<longleftrightarrow> prefix (ci_path y @ ''/'') (ci_path x)"

definition item_base :: "citem option \<Rightarrow> string \<Rightarrow> string" where
  "item_base parent base = (case parent of None \<Rightarrow> base | Some p \<Rightarrow> ci_path p)"

lemma new_item_path: "ci_path (new_item lvl parent base a d) = item_base parent base @ ''/'' @ f_name a"
  by (simp add: new_item_def item_base_def split: option.split)

lemma wf_tree_name: "wf_tree t \<Longrightarrow> CHR ''/'' \<notin> set (name_of t)"
  by (cases t) (auto simp: name_of_def)

lemma foldl_max_ge:
  fixes a :: int
  shows "a \<le> foldl max a xs" and "x \<in> set xs \<Longrightarrow> x \<le> foldl max a xs"
  by (induction xs arbitrary: a) (auto, (meson max.cobounded1 max.cobounded2 order_trans)+)

definition starts_here :: "string \<Rightarrow> citem \<Rightarrow> bool" where
  "starts_here p x \<longleftrightarrow> (\<exists>r. ci_path x = p @ r \<and> (r = [] \<or> hd r = CHR ''/''))"

lemma load_node_Node:
  obtains it xs where "load_node lvl parent base (Node a ts) = it # xs"
    and "ci_path it = item_base parent base @ ''/'' @ f_name a" and "ci_level it = lvl"
    and "xs = [] \<or> (\<exists>it'. ci_path it' = ci_path it \<and>
        xs = concat (map (load_node (lvl + 1) (Some it') (base @ ''/'' @ f_name a)) ts) \<and>
        (\<forall>t \<in> set ts. ci_modified (hd (load_node (lvl + 1) (Some it') (base @ ''/'' @ f_name a) t)) \<le> ci_modified it))"
proof -
  define it1 where "it1 = dir_item lvl parent base a"
  have p: "ci_path it1 = item_base parent base @ ''/'' @ f_name a" "ci_level it1 = lvl"
    by (simp_all add: it1_def dir_item_def Let_def new_item_path) (simp add: new_item_def)
  show ?thesis
  proof (cases "ci_group it1")
    case True
    then show ?thesis
      by (intro that [of "it1\<lparr>ci_size := ci_size it1 + sum_list (map (\<lambda>d. f_blocks d * 512) (concat (map subtree_attrs ts))),
          ci_modified := foldl max (ci_modified it1) (map f_mtime (concat (map subtree_attrs ts)))\<rparr>" "[]"])
        (simp_all add: p Let_def flip: it1_def)
  next
    case False
    let ?subs = "map (load_node (lvl + 1) (Some it1) (base @ ''/'' @ f_name a)) ts"
    let ?it = "it1\<lparr>ci_modified := foldl max (ci_modified it1) (map (\<lambda>s. ci_modified (hd s)) ?subs)\<rparr>"
    have "ci_modified (hd (load_node (lvl + 1) (Some it1) (base @ ''/'' @ f_name a) t)) \<le> ci_modified ?it"
      if "t \<in> set ts" for t
      using foldl_max_ge(2) [of _ "map (\<lambda>s. ci_modified (hd s)) ?subs"] that by simp
    then show ?thesis
      using False by (intro that [of ?it "concat ?subs"] disjI2 exI [of _ it1])
        (simp_all add: p Let_def flip: it1_def)
  qed
qed

lemma load_node_starts:
  "x \<in> set (load_node lvl parent base t) \<Longrightarrow> starts_here (item_base parent base @ ''/'' @ name_of t) x"
proof (induction t arbitrary: lvl parent base x)
  case (Leaf k a)
  then show ?case by (auto simp: starts_here_def new_item_path name_of_def)
next
  case (Node a ts)
  obtain it xs where l: "load_node lvl parent base (Node a ts) = it # xs"
    "ci_path it = item_base parent base @ ''/'' @ f_name a"
    "xs = [] \<or> (\<exists>it'. ci_path it' = ci_path it \<and>
        xs = concat (map (load_node (lvl + 1) (Some it') (base @ ''/'' @ f_name a)) ts))"
    by (rule load_node_Node [of lvl parent base a ts]) blast
  show ?case
  proof (cases "x = it")
    case True
    then show ?thesis using l(2) by (auto simp: starts_here_def name_of_def)
  next
    case False
    with Node.prems l obtain it' t where t: "t \<in> set ts" "ci_path it' = ci_path it"
      "x \<in> set (load_node (lvl + 1) (Some it') (base @ ''/'' @ f_name a) t)" by auto
    from Node.IH [OF t(1,3)] have "starts_here (ci_path it @ ''/'' @ name_of t) x"
      by (simp add: item_base_def t(2))
    then show ?thesis using l(2) by (auto simp: starts_here_def name_of_def)
  qed
qed

lemma load_node_head:
  "load_node lvl parent base t \<noteq> [] \<and> (\<forall>x \<in> set (load_node lvl parent base t).
     ci_modified x \<le> ci_modified (hd (load_node lvl parent base t)) \<and> lvl \<le> ci_level x)"
proof (induction t arbitrary: lvl parent base)
  case (Leaf k a)
  then show ?case by (simp add: new_item_def)
next
  case (Node a ts)
  obtain it xs where l: "load_node lvl parent base (Node a ts) = it # xs" "ci_level it = lvl"
    "xs = [] \<or> (\<exists>it'. xs = concat (map (load_node (lvl + 1) (Some it') (base @ ''/'' @ f_name a)) ts) \<and>
      (\<forall>t \<in> set ts. ci_modified (hd (load_node (lvl + 1) (Some it') (base @ ''/'' @ f_name a) t)) \<le> ci_modified it))"
    by (rule load_node_Node [of lvl parent base a ts]) blast
  have "ci_modified x \<le> ci_modified it \<and> lvl \<le> ci_level x" if x: "x \<in> set xs" for x
  proof -
    from x l(3) obtain it' t where t: "t \<in> set ts"
      "x \<in> set (load_node (lvl + 1) (Some it') (base @ ''/'' @ f_name a) t)"
      "ci_modified (hd (load_node (lvl + 1) (Some it') (base @ ''/'' @ f_name a) t)) \<le> ci_modified it"
      by auto
    from Node.IH [OF t(1), of "lvl + 1" "Some it'" "base @ ''/'' @ f_name a"] t(2,3) show ?thesis by force
  qed
  with l(1,2) show ?case by auto
qed

lemma starts_here_name:
  assumes "starts_here (b @ CHR ''/'' # n) x" and "starts_here (b @ CHR ''/'' # m) y"
    and "CHR ''/'' \<notin> set n" and "CHR ''/'' \<notin> set m" and "item_below x y"
  shows "n = m"
proof -
  obtain r where r: "ci_path x = b @ CHR ''/'' # n @ r" "r = [] \<or> hd r = CHR ''/''"
    using assms(1) by (auto simp: starts_here_def)
  obtain u where u: "ci_path y = b @ CHR ''/'' # m @ u" "u = [] \<or> hd u = CHR ''/''"
    using assms(2) by (auto simp: starts_here_def)
  obtain w where "n @ r = m @ u @ CHR ''/'' # w"
    using assms(5) r(1) u(1) by (auto simp: item_below_def prefix_def)
  then have "takeWhile (\<lambda>c. c \<noteq> CHR ''/'') (n @ r) = takeWhile (\<lambda>c. c \<noteq> CHR ''/'') (m @ u @ CHR ''/'' # w)"
    by simp
  moreover have "takeWhile (\<lambda>c. c \<noteq> CHR ''/'') (n @ r) = n"
    using r(2) assms(3) by (cases r) (auto simp: takeWhile_append takeWhile_eq_all_conv)
  moreover have "takeWhile (\<lambda>c. c \<noteq> CHR ''/'') (m @ u @ CHR ''/'' # w) = m"
    using u(2) assms(4) by (cases u) (auto simp: takeWhile_append takeWhile_eq_all_conv)
  ultimately show ?thesis by simp
qed

lemma load_list_newer:
  assumes "distinct (map name_of ts)" and "list_all wf_tree ts"
    and IH: "\<And>t x y. t \<in> set ts \<Longrightarrow> x \<in> set (load_node l p b t) \<Longrightarrow> y \<in> set (load_node l p b t) \<Longrightarrow>
      item_below x y \<Longrightarrow> newer y x"
    and x: "x \<in> set (concat (map (load_node l p b) ts))" and y: "y \<in> set (concat (map (load_node l p b) ts))"
    and xy: "item_below x y"
  shows "newer y x"
proof -
  from x y obtain t u where t: "t \<in> set ts" "x \<in> set (load_node l p b t)"
    and u: "u \<in> set ts" "y \<in> set (load_node l p b u)" by auto
  have "CHR ''/'' \<notin> set (name_of t)" "CHR ''/'' \<notin> set (name_of u)"
    using assms(2) t(1) u(1) wf_tree_name by (auto simp: list_all_iff)
  then have "name_of t = name_of u"
    using starts_here_name [of "item_base p b" "name_of t" x "name_of u" y] load_node_starts [OF t(2)]
      load_node_starts [OF u(2)] xy by simp
  then have "t = u" using assms(1) t(1) u(1) by (auto simp: distinct_map inj_on_def)
  then show ?thesis using IH t u xy by blast
qed

lemma load_node_newer:
  "wf_tree t \<Longrightarrow> x \<in> set (load_node l p b t) \<Longrightarrow> y \<in> set (load_node l p b t) \<Longrightarrow> item_below x y \<Longrightarrow> newer y x"
proof (induction t arbitrary: l p b x y)
  case (Leaf k a)
  then show ?case by (auto simp: item_below_def prefix_def)
next
  case (Node a ts)
  obtain it xs where l: "load_node l p b (Node a ts) = it # xs" "ci_level it = l"
    "ci_path it = item_base p b @ ''/'' @ f_name a"
    "xs = [] \<or> (\<exists>it'. ci_path it' = ci_path it \<and>
      xs = concat (map (load_node (l + 1) (Some it') (b @ ''/'' @ f_name a)) ts) \<and>
      (\<forall>t \<in> set ts. ci_modified (hd (load_node (l + 1) (Some it') (b @ ''/'' @ f_name a) t)) \<le> ci_modified it))"
    by (rule load_node_Node [of l p b a ts]) blast
  have nx: "\<not> item_below it z" if "z \<in> set (it # xs)" for z
  proof -
    have "starts_here (ci_path it) z"
      using load_node_starts [of z l p b "Node a ts"] that l(1,3) by (simp add: name_of_def)
    then show ?thesis by (auto simp: starts_here_def item_below_def dest: prefix_length_le)
  qed
  show ?case
  proof (cases "x = it")
    case True
    then show ?thesis using nx Node.prems l(1) by auto
  next
    case False
    then have x: "x \<in> set xs" using Node.prems(2) l(1) by simp
    with l(4) obtain it' where xs: "ci_path it' = ci_path it"
      "xs = concat (map (load_node (l + 1) (Some it') (b @ ''/'' @ f_name a)) ts)"
      "\<And>t. t \<in> set ts \<Longrightarrow> ci_modified (hd (load_node (l + 1) (Some it') (b @ ''/'' @ f_name a) t)) \<le> ci_modified it"
      by auto
    show ?thesis
    proof (cases "y = it")
      case True
      from x xs(2) obtain t where t: "t \<in> set ts" "x \<in> set (load_node (l + 1) (Some it') (b @ ''/'' @ f_name a) t)"
        by auto
      then have "ci_modified x \<le> ci_modified it" "l + 1 \<le> ci_level x"
        using load_node_head [of "l + 1" "Some it'" "b @ ''/'' @ f_name a" t] xs(3) [OF t(1)] by force+
      then show ?thesis using True l(2) by (auto simp: newer_def)
    next
      case False
      then have y: "y \<in> set xs" using Node.prems(3) l(1) by simp
      show ?thesis
        by (rule load_list_newer [of ts "l + 1" "Some it'" "b @ ''/'' @ f_name a"])
          (use Node x y xs(2) in \<open>auto simp: list_all_iff\<close>)
    qed
  qed
qed

definition apart :: "string list \<Rightarrow> bool" where
  "apart ps \<longleftrightarrow> distinct ps \<and> list_all (\<lambda>p. list_all (\<lambda>q. \<not> prefix (p @ ''/'') q) ps) ps"

lemma loadItemsFrom_below_path: "x \<in> set (loadItemsFrom p tr) \<Longrightarrow> prefix (p @ ''/'') (ci_path x)"
  by (auto simp: loadItemsFrom_def item_base_def starts_here_def prefix_def
      dest!: load_node_starts split: option.splits ftree.splits)

lemma loadItemsFrom_newer:
  assumes "\<forall>t. tr = Some t \<longrightarrow> wf_tree t" and "x \<in> set (loadItemsFrom p tr)" and "y \<in> set (loadItemsFrom p tr)"
    and "item_below x y"
  shows "newer y x"
proof -
  from assms(2) obtain a ts where tr: "tr = Some (Node a ts)"
    by (auto simp: loadItemsFrom_def split: option.splits ftree.splits)
  with assms(1) have wf: "distinct (map name_of ts)" "list_all wf_tree ts" by auto
  show ?thesis
  proof (rule load_list_newer [OF wf, of 1 None p])
    show "newer v u" if "t \<in> set ts" "u \<in> set (load_node 1 None p t)" "v \<in> set (load_node 1 None p t)"
        "item_below u v" for t u v
      using load_node_newer [OF _ that(2-4)] that(1) wf(2) by (auto simp: list_all_iff)
  qed (use assms(2-4) in \<open>simp_all add: tr loadItemsFrom_def\<close>)
qed

text \<open>
  the items of a tracker are purged from the back of its list, and no item comes before an
  item below it is gone: in the sorted list everything below a directory stands behind it.
\<close>

theorem purge_children_first:
  assumes "apart (concat (map (cache_paths env) (mDataPaths t)))"
    and "\<forall>p tr. ce_tree env p = Some tr \<longrightarrow> wf_tree tr"
    and "i < j" and "j < length (items (loadItems env t))"
  shows "\<not> item_below (items (loadItems env t) ! i) (items (loadItems env t) ! j)"
proof
  let ?ps = "concat (map (cache_paths env) (mDataPaths t))"
  let ?raw = "concat (map (\<lambda>p. loadItemsFrom p (ce_tree env p)) ?ps)"
  have its: "items (loadItems env t) = stable_sort item_cmp ?raw" by (simp add: loadItems_def)
  let ?x = "items (loadItems env t) ! i" and ?y = "items (loadItems env t) ! j"
  assume b: "item_below ?x ?y"
  have mem: "z \<in> set ?raw" if "z \<in> set (items (loadItems env t))" for z
    using that unfolding its sort_items.set_sorter .
  have "?x \<in> set ?raw" "?y \<in> set ?raw"
    using mem [OF nth_mem] assms(3,4) by auto
  then obtain p q where p: "p \<in> set ?ps" "?x \<in> set (loadItemsFrom p (ce_tree env p))"
    and q: "q \<in> set ?ps" "?y \<in> set (loadItemsFrom q (ce_tree env q))" by auto
  have "prefix (p @ ''/'') (ci_path ?x)" using loadItemsFrom_below_path p(2) .
  moreover have "prefix (q @ ''/'') (ci_path ?x)"
    using loadItemsFrom_below_path [OF q(2)] b unfolding item_below_def
    by (meson prefix_order.trans prefix_append prefixI)
  ultimately have "prefix (p @ ''/'') (q @ ''/'') \<or> prefix (q @ ''/'') (p @ ''/'')"
    by (rule prefix_same_cases)
  then have "p = q \<or> prefix (p @ ''/'') q \<or> prefix (q @ ''/'') p" by (auto simp: prefix_snoc)
  moreover have "\<forall>u \<in> set ?ps. \<forall>v \<in> set ?ps. \<not> prefix (u @ ''/'') v"
    using assms(1) unfolding apart_def list_all_iff by blast
  ultimately have "p = q" using p(1) q(1) by blast
  with p(2) q(2) b assms(2) have "newer ?y ?x" by (intro loadItemsFrom_newer) auto
  moreover have "\<not> newer ?y ?x"
    using sorted_wrt_nth_less [OF item_cmp_sorted, of i j ?raw] assms(3,4) by (simp add: its)
  ultimately show False by blast
qed

definition demo_attr :: "string \<Rightarrow> int \<Rightarrow> string list \<Rightarrow> fattr" where
  "demo_attr n m xs = \<lparr>f_name = n, f_uid = 10001, f_gid = 20001, f_blocks = 8, f_mtime = m, f_ino = 0, f_xattrs = xs\<rparr>"

definition demo_cache :: ftree where
  "demo_cache = Node (demo_attr ''cache'' 1 [])
     [Node (demo_attr ''d'' 1 []) [Leaf FTS_F (demo_attr ''f'' 9 []), Leaf FTS_F (demo_attr ''g'' 2 [])],
      Leaf FTS_F (demo_attr ''h'' 5 [])]"

definition demo_cache_env :: cache_env where
  "demo_cache_env =
     \<lparr>ce_paths = plain_env, ce_mounts = Map.empty, ce_quotactl = (\<lambda>k d i. None),
      multiuser_get_cache_gid = (\<lambda>u a. a + 10000), multiuser_get_ext_cache_gid = (\<lambda>u a. a + 30000),
      ce_ids = \<lparr>multiuser_get_app_id = (\<lambda>u. u mod 100000), AID_APP_START = 10000, AID_APP_END = 19999,
        AID_CACHE_GID_START = 20000, AID_CACHE_GID_END = 29999, AID_SHARED_GID_START = 50000,
        AID_SHARED_GID_END = 59999\<rparr>,
      ce_inodes = \<lparr>get_inode_xattr = (\<lambda>p x. None), list_dir = (\<lambda>p. None), stat_ino = (\<lambda>p. None)\<rparr>,
      ce_tree = (\<lambda>p. if p = ''/d/a/cache'' then Some demo_cache else None)\<rparr>"

definition demo_tracker :: tracker where
  "demo_tracker = addDataPath ''/d/a'' (new_tracker 0 10001)"

lemma demo_items: "map ci_path (items (loadItems demo_cache_env demo_tracker)) =
    [''/d/a/cache/d'', ''/d/a/cache/d/f'', ''/d/a/cache/h'', ''/d/a/cache/d/g'']"
  by code_simp

theorem purge_children_first_witness:
  "\<not> item_below (items (loadItems demo_cache_env demo_tracker) ! 0) (items (loadItems demo_cache_env demo_tracker) ! 1)"
proof (rule purge_children_first)
  show "apart (concat (map (cache_paths demo_cache_env) (mDataPaths demo_tracker)))" by code_simp
  show "\<forall>p tr. ce_tree demo_cache_env p = Some tr \<longrightarrow> wf_tree tr"
    by (simp add: demo_cache_env_def demo_cache_def demo_attr_def name_of_def)
  have "length (items (loadItems demo_cache_env demo_tracker)) = 4"
    using arg_cong [OF demo_items, of length] by simp
  then show "(1 :: nat) < length (items (loadItems demo_cache_env demo_tracker))" by simp
qed simp

section \<open>What a purge touches\<close>

fun op_path :: "purge_op \<Rightarrow> string" where
  "op_path (Truncate p) = p"
| "op_path (Unlink p) = p"
| "op_path (Rmdir p) = p"

text \<open>The entries at and below one, each with its path and the directories above it, up to the item.\<close>

fun entries_of :: "string \<Rightarrow> fattr list \<Rightarrow> ftree \<Rightarrow> (string \<times> fattr list \<times> ftree) list" where
  "entries_of base up (Leaf k a) = [(base @ ''/'' @ f_name a, up, Leaf k a)]"
| "entries_of base up (Node a ts) =
     (base @ ''/'' @ f_name a, up, Node a ts) # concat (map (entries_of (base @ ''/'' @ f_name a) (a # up)) ts)"

text \<open>An entry is kept empty when the item or a directory above the entry has the mark.\<close>

definition tombstoned :: "citem \<Rightarrow> fattr list \<Rightarrow> bool" where
  "tombstoned item up \<longleftrightarrow> ci_tombstone item \<or> (\<exists>a \<in> set up. ''user.cache_tombstone'' \<in> set (f_xattrs a))"

fun op_for :: "bool \<Rightarrow> string \<Rightarrow> ftree \<Rightarrow> purge_op" where
  "op_for keep p (Leaf k a) = (if k = FTS_F \<and> keep then Truncate p else Unlink p)"
| "op_for keep p (Node a ts) = Rmdir p"

lemma set_purge_node:
  "set (purge_node (tombstoned item up) base t) = (\<lambda>(p, up, x). op_for (tombstoned item up) p x) ` set (entries_of base up t)"
proof (induction t arbitrary: base up)
  case (Node a ts)
  let ?path = "base @ ''/'' @ f_name a"
  have keep: "(tombstoned item up \<or> ''user.cache_tombstone'' \<in> set (f_xattrs a)) = tombstoned item (a # up)"
    by (auto simp: tombstoned_def)
  have "set (purge_node (tombstoned item up) base (Node a ts)) =
      insert (Rmdir ?path) (\<Union>t \<in> set ts. set (purge_node (tombstoned item (a # up)) ?path t))"
    by (simp add: Let_def keep)
  also have "\<dots> = insert (Rmdir ?path)
      (\<Union>t \<in> set ts. (\<lambda>(p, up, x). op_for (tombstoned item up) p x) ` set (entries_of ?path (a # up) t))"
    using Node.IH by simp
  finally show ?case by (simp add: image_UN)
qed simp

lemma entries_of_prefix: "(p, up', x) \<in> set (entries_of base up t) \<Longrightarrow> prefix (base @ ''/'') p"
proof (induction t arbitrary: base up)
  case (Node a ts)
  then show ?case by (fastforce simp: prefix_def)
qed simp

definition entries_below :: "citem \<Rightarrow> ftree list \<Rightarrow> (string \<times> fattr list \<times> ftree) set" where
  "entries_below item ts = (\<Union>c \<in> set ts. set (entries_of (ci_path item) [] c))"

lemma purge_directory:
  assumes "ci_directory item" "t = Some (Node a ts)"
  shows "set (snd (purge fails t item)) =
      insert (Rmdir (ci_path item)) ((\<lambda>(p, up, x). op_for (tombstoned item up) p x) ` entries_below item ts)"
    "last (snd (purge fails t item)) = Rmdir (ci_path item)"
proof -
  have "ci_tombstone item = tombstoned item []" by (simp add: tombstoned_def)
  then show "set (snd (purge fails t item)) =
      insert (Rmdir (ci_path item)) ((\<lambda>(p, up, x). op_for (tombstoned item up) p x) ` entries_below item ts)"
    using assms by (simp add: purge_def Let_def set_purge_node entries_below_def image_UN)
  show "last (snd (purge fails t item)) = Rmdir (ci_path item)"
    using assms by (simp add: purge_def Let_def)
qed

lemma op_for_eq:
  "op_for keep p x = Truncate q \<longleftrightarrow> q = p \<and> keep \<and> (\<exists>a. x = Leaf FTS_F a)"
  "op_for keep p x = Unlink q \<longleftrightarrow> q = p \<and> (\<exists>k a. x = Leaf k a \<and> \<not> (k = FTS_F \<and> keep))"
  "op_for keep p x = Rmdir q \<longleftrightarrow> q = p \<and> is_node x"
  by (cases x; auto)+

lemma purge_directory_calls:
  assumes "ci_directory item" "t = Some (Node a ts)"
  shows "Truncate p \<in> set (snd (purge fails t item)) \<longleftrightarrow>
      (\<exists>up b. (p, up, Leaf FTS_F b) \<in> entries_below item ts \<and> tombstoned item up)"
    "Unlink p \<in> set (snd (purge fails t item)) \<longleftrightarrow>
      (\<exists>up k b. (p, up, Leaf k b) \<in> entries_below item ts \<and> \<not> (k = FTS_F \<and> tombstoned item up))"
    "Rmdir p \<in> set (snd (purge fails t item)) \<longleftrightarrow>
      p = ci_path item \<or> (\<exists>up d us. (p, up, Node d us) \<in> entries_below item ts)"
proof -
  note all = purge_directory(1) [OF assms, of fails]
  show "Truncate p \<in> set (snd (purge fails t item)) \<longleftrightarrow>
      (\<exists>up b. (p, up, Leaf FTS_F b) \<in> entries_below item ts \<and> tombstoned item up)"
    unfolding all by (force simp: image_iff op_for_eq eq_commute [of "Truncate p"])
  show "Unlink p \<in> set (snd (purge fails t item)) \<longleftrightarrow>
      (\<exists>up k b. (p, up, Leaf k b) \<in> entries_below item ts \<and> \<not> (k = FTS_F \<and> tombstoned item up))"
    unfolding all by (force simp: image_iff op_for_eq eq_commute [of "Unlink p"])
  have "is_node x \<longleftrightarrow> (\<exists>d us. x = Node d us)" for x by (cases x) auto
  then show "Rmdir p \<in> set (snd (purge fails t item)) \<longleftrightarrow>
      p = ci_path item \<or> (\<exists>up d us. (p, up, Node d us) \<in> entries_below item ts)"
    unfolding all by (force simp: image_iff op_for_eq eq_commute [of "Rmdir p"])
qed

text \<open>
  C27: what a purge calls.  For an item that is no directory it is one call: the file is truncated when the item is
  marked, and unlinked otherwise.  For a directory it truncates exactly the regular files that are to be kept, those
  for which the item or a directory between the item and the file has the mark; it unlinks exactly the other entries that
  are no directory, removes exactly the directories, and the item itself last; so nothing outside the item is touched.
  The result is 0 exactly when the tree could be opened and no call failed, and else -1.
\<close>

theorem purge_confined:
  "(\<forall>op \<in> set (snd (purge fails t item)). op_path op = ci_path item \<or> prefix (ci_path item @ ''/'') (op_path op)) \<and>
   (\<not> ci_directory item \<longrightarrow>
     snd (purge fails t item) = [if ci_tombstone item then Truncate (ci_path item) else Unlink (ci_path item)]) \<and>
   (\<forall>a ts. ci_directory item \<longrightarrow> t = Some (Node a ts) \<longrightarrow>
     (\<forall>p. Truncate p \<in> set (snd (purge fails t item)) \<longleftrightarrow>
        (\<exists>up b. (p, up, Leaf FTS_F b) \<in> entries_below item ts \<and> tombstoned item up)) \<and>
     (\<forall>p. Unlink p \<in> set (snd (purge fails t item)) \<longleftrightarrow>
        (\<exists>up k b. (p, up, Leaf k b) \<in> entries_below item ts \<and> \<not> (k = FTS_F \<and> tombstoned item up))) \<and>
     (\<forall>p. Rmdir p \<in> set (snd (purge fails t item)) \<longleftrightarrow>
        p = ci_path item \<or> (\<exists>up d us. (p, up, Node d us) \<in> entries_below item ts)) \<and>
     last (snd (purge fails t item)) = Rmdir (ci_path item)) \<and>
   fst (purge fails t item) =
     (if ci_directory item \<and> t = None \<or> (\<exists>op \<in> set (snd (purge fails t item)). fails op) then -1 else 0)"
proof (intro conjI ballI)
  fix op assume op: "op \<in> set (snd (purge fails t item))"
  show "op_path op = ci_path item \<or> prefix (ci_path item @ ''/'') (op_path op)"
  proof (cases "\<exists>a ts. ci_directory item \<and> t = Some (Node a ts)")
    case True
    then obtain a ts where dir: "ci_directory item" "t = Some (Node a ts)" by blast
    have "op_path (op_for keep p x) = p" for keep p x by (cases x) auto
    with op purge_directory(1) [OF dir] entries_of_prefix show ?thesis
      by (fastforce simp: entries_below_def)
  next
    case False
    with op show ?thesis by (auto simp: purge_def Let_def split: option.splits ftree.splits if_splits)
  qed
next
  show "fst (purge fails t item) =
     (if ci_directory item \<and> t = None \<or> (\<exists>op \<in> set (snd (purge fails t item)). fails op) then -1 else 0)"
    by (auto simp: purge_def Let_def purge_result_def list_ex_iff split: option.splits ftree.splits)
qed (use purge_directory_calls purge_directory(2) in \<open>auto simp: purge_def Let_def\<close>)

theorem purge_confined_witness:
  "snd (purge (\<lambda>op. False) (Some (Node (demo_attr ''c'' 1 [])
     [Leaf FTS_F (demo_attr ''f'' 1 []), Leaf FTS_SL (demo_attr ''l'' 1 [])])) \<lparr>ci_level = 1, ci_directory = True, ci_group = False,
     ci_tombstone = True, ci_size = 0, ci_modified = 0, ci_path = ''/c''\<rparr>) =
     [Truncate ''/c/f'', Unlink ''/c/l'', Rmdir ''/c''] \<and>
   Truncate ''/c/f'' \<in> set (snd (purge (\<lambda>op. False) (Some (Node (demo_attr ''c'' 1 [])
     [Leaf FTS_F (demo_attr ''f'' 1 []), Leaf FTS_SL (demo_attr ''l'' 1 [])])) \<lparr>ci_level = 1, ci_directory = True, ci_group = False,
     ci_tombstone = True, ci_size = 0, ci_modified = 0, ci_path = ''/c''\<rparr>))"
  using purge_confined [of "\<lambda>op. False"
     "Some (Node (demo_attr ''c'' 1 []) [Leaf FTS_F (demo_attr ''f'' 1 []), Leaf FTS_SL (demo_attr ''l'' 1 [])])"
     "\<lparr>ci_level = 1, ci_directory = True, ci_group = False, ci_tombstone = True, ci_size = 0,
       ci_modified = 0, ci_path = ''/c''\<rparr>"]
  by (simp add: purge_def demo_attr_def entries_below_def tombstoned_def Let_def)

text \<open>The comparison of two directories is not irreflexive, so it is no strict weak order.\<close>

lemma item_cmp_not_irreflexive: "ci_directory x \<Longrightarrow> item_cmp x x"
  by (simp add: item_cmp_def)

text \<open>The conversion to \<open>int\<close> can make the ratio of the worst offender negative.\<close>

lemma getCacheRatio_overflow:
  "getCacheRatio ((new_tracker 0 10001)\<lparr>cacheUsed := 1000000000, cacheQuota := 4096\<rparr>) < 0"
  by (simp add: getCacheRatio_def to_i64_def to_i32_def signed_divide_int_def)

end
