(* ===== verification/InstalldArgs.thy ===== *)
theory InstalldArgs
  imports InstalldPaths
begin

text \<open>
  The results of installd's binder calls and the checks at the entry of every handler
  (\<open>installd/InstalldNativeService.cpp\<close>).  A status keeps the kind of the error and the service
  specific code, not the message.  \<open>AID_ROOT\<close> and the calling UID come from the platform.
\<close>

datatype status = StatusOk | ExSecurity | ExIllegalArgument | ServiceError int

definition isOk :: "status \<Rightarrow> bool" where
  "isOk s \<longleftrightarrow> s = StatusOk"

definition checkUid :: "int \<Rightarrow> int \<Rightarrow> int \<Rightarrow> status" where
  "checkUid AID_ROOT uid expectedUid =
     (if uid = expectedUid \<or> uid = AID_ROOT then StatusOk else ExSecurity)"

definition checkPermission :: "bool \<Rightarrow> status" where
  "checkPermission granted = (if granted then StatusOk else ExSecurity)"

definition checkArgumentUuid :: "cstring \<Rightarrow> status" where
  "checkArgumentUuid uuid =
     (case uuid of
        None \<Rightarrow> StatusOk
      | Some u \<Rightarrow> if is_valid_filename u then StatusOk else ExIllegalArgument)"

text \<open>\<open>strcmp\<close> against \<open>kTestUuid\<close> stops at a null byte of the argument.\<close>

definition checkArgumentUuidTestOrNull :: "cstring \<Rightarrow> status" where
  "checkArgumentUuidTestOrNull uuid =
     (case uuid of
        None \<Rightarrow> StatusOk
      | Some u \<Rightarrow>
          if takeWhile (\<lambda>c. c \<noteq> CHR 0x00) u = ''TEST'' then StatusOk else ExIllegalArgument)"

definition checkArgumentPackageName :: "string \<Rightarrow> status" where
  "checkArgumentPackageName packageName =
     (if is_valid_package_name packageName then StatusOk else ExIllegalArgument)"

definition checkArgumentPath :: "string \<Rightarrow> status" where
  "checkArgumentPath path =
     (if path = [] then ExIllegalArgument
      else if hd path \<noteq> CHR ''/'' then ExIllegalArgument
      else if find_sub ''/../'' (path @ ''/'') \<noteq> None then ExIllegalArgument
      else if list_ex (\<lambda>c. c = CHR 0x00 \<or> c = CHR 0x0A) path then ExIllegalArgument
      else StatusOk)"

definition checkArgumentPath_opt :: "cstring \<Rightarrow> status" where
  "checkArgumentPath_opt path =
     (case path of None \<Rightarrow> StatusOk | Some p \<Rightarrow> checkArgumentPath p)"

text \<open>
  The macros \<open>ENFORCE_UID\<close> and \<open>CHECK_ARGUMENT_...\<close>: return the status unless it is ok.
\<close>

definition enforce :: "status \<Rightarrow> ('s \<Rightarrow> status \<times> 's) \<Rightarrow> 's \<Rightarrow> status \<times> 's" where
  "enforce st body s = (if isOk st then body s else (st, s))"

definition ASSERT_PAGE_SIZE_4K :: "int \<Rightarrow> int \<Rightarrow> status" where
  "ASSERT_PAGE_SIZE_4K pagesize errno = (if pagesize \<noteq> 4096 then ServiceError errno else StatusOk)"

lemma enforce_ok [simp]: "enforce StatusOk body s = body s"
  by (simp add: enforce_def isOk_def)

lemma enforce_not_ok: "st \<noteq> StatusOk \<Longrightarrow> enforce st body s = (st, s)"
  by (simp add: enforce_def isOk_def)

lemma checkUid_ok_iff [simp]: "checkUid r uid ex = StatusOk \<longleftrightarrow> uid = ex \<or> uid = r"
  by (simp add: checkUid_def)

lemma checkUid_not_ok: "uid \<noteq> ex \<Longrightarrow> uid \<noteq> r \<Longrightarrow> checkUid r uid ex = ExSecurity"
  by (simp add: checkUid_def)

lemma checkArgumentUuid_ok_iff [simp]:
  "checkArgumentUuid u = StatusOk \<longleftrightarrow> (\<forall>v. u = Some v \<longrightarrow> is_valid_filename v)"
  by (simp add: checkArgumentUuid_def split: option.split)

lemma checkArgumentPackageName_ok_iff [simp]:
  "checkArgumentPackageName p = StatusOk \<longleftrightarrow> is_valid_package_name p"
  by (simp add: checkArgumentPackageName_def)

section \<open>Path components\<close>

text \<open>The components of a path: the strings between the slashes.\<close>

fun components :: "string \<Rightarrow> string list" where
  "components [] = [[]]"
| "components (c # s) =
     (if c = CHR ''/'' then [] # components s
      else (c # hd (components s)) # tl (components s))"

lemma components_not_Nil [simp]: "components s \<noteq> []"
  by (induction s) auto

lemma components_no_slash: "CHR ''/'' \<notin> set s \<Longrightarrow> components s = [s]"
  by (induction s) auto

lemma components_slash: "CHR ''/'' \<notin> set p \<Longrightarrow> components (p @ CHR ''/'' # t) = p # components t"
  by (induction p) auto

lemma dotdot_component_iff:
  "''..'' \<in> set (components s) \<longleftrightarrow> sublist ''/../'' (CHR ''/'' # s @ ''/'')"
proof (induction "length s" arbitrary: s rule: less_induct)
  case less
  show ?case
  proof (cases "CHR ''/'' \<in> set s")
    case False
    then have "sublist ''/../'' (CHR ''/'' # s @ ''/'') \<longleftrightarrow> s = ''..''"
    proof -
      have "s = ''..''" if "CHR ''/'' # s @ ''/'' = p @ ''/../'' @ q" for p q
      proof (cases p)
        case Nil
        with that have "s @ ''/'' = ''..'' @ CHR ''/'' # q" by simp
        then have "s = ''..'' \<or> (\<exists>u. s = ''..'' @ CHR ''/'' # u)"
          by (auto simp: append_eq_append_conv2 Cons_eq_append_conv append_eq_Cons_conv)
        with False show ?thesis by auto
      next
        case (Cons x p')
        with that have "s @ ''/'' = p' @ CHR ''/'' # ''../'' @ q" by auto
        then have "CHR ''/'' \<in> set s"
          by (auto simp: append_eq_append_conv2 Cons_eq_append_conv append_eq_Cons_conv)
        with False show ?thesis by simp
      qed
      moreover have "sublist ''/../'' (CHR ''/'' # ''..'' @ ''/'')" by simp
      ultimately show ?thesis unfolding sublist_def by (metis append_assoc)
    qed
    with False show ?thesis by (simp add: components_no_slash eq_commute)
  next
    case True
    then obtain p t where s: "s = p @ CHR ''/'' # t" and p: "CHR ''/'' \<notin> set p"
      using split_list_first by metis
    have IH: "''..'' \<in> set (components t) \<longleftrightarrow> sublist ''/../'' (CHR ''/'' # t @ ''/'')"
      by (rule less.hyps) (simp add: s)
    have "sublist ''/../'' (CHR ''/'' # s @ ''/'') \<longleftrightarrow>
        prefix ''/../'' (CHR ''/'' # p @ CHR ''/'' # t @ ''/'') \<or> sublist ''/../'' (CHR ''/'' # t @ ''/'')"
    proof -
      have skip: "sublist ''/../'' (q @ u) \<longleftrightarrow> sublist ''/../'' u" if "CHR ''/'' \<notin> set q" for q u
        using that by (induction q) (auto simp: sublist_Cons_right)
      show ?thesis using skip [OF p] by (simp add: s sublist_Cons_right)
    qed
    moreover have "prefix ''/../'' (CHR ''/'' # p @ CHR ''/'' # t @ ''/'') \<longleftrightarrow> p = ''..''"
    proof
      assume "prefix ''/../'' (CHR ''/'' # p @ CHR ''/'' # t @ ''/'')"
      then have "prefix ''../'' (p @ CHR ''/'' # t @ ''/'')" by simp
      then obtain w where "p @ CHR ''/'' # t @ ''/'' = ''..'' @ CHR ''/'' # w" by (auto simp: prefix_def)
      then show "p = ''..''" using p
        by (auto simp: append_eq_append_conv2 Cons_eq_append_conv append_eq_Cons_conv)
    qed simp
    ultimately show ?thesis by (auto simp: s components_slash [OF p] IH)
  qed
qed

text \<open>
  a path argument is accepted exactly when it is absolute, no component is \<open>..\<close>, and it
  has neither a null byte nor a newline.
\<close>

theorem checkArgumentPath_iff:
  "isOk (checkArgumentPath path) \<longleftrightarrow>
     (\<exists>rest. path = CHR ''/'' # rest \<and> ''..'' \<notin> set (components rest) \<and>
       CHR 0x00 \<notin> set rest \<and> CHR 0x0A \<notin> set rest)"
proof (cases path)
  case (Cons c rest)
  show ?thesis
  proof (cases "c = CHR ''/''")
    case True
    then have "find_sub ''/../'' (path @ ''/'') = None \<longleftrightarrow> ''..'' \<notin> set (components rest)"
      unfolding find_sub_None dotdot_component_iff by (simp add: Cons)
    moreover have "list_ex (\<lambda>c. c = CHR 0x00 \<or> c = CHR 0x0A) path \<longleftrightarrow> CHR 0x00 \<in> set rest \<or> CHR 0x0A \<in> set rest"
      by (auto simp: Cons True list_ex_iff)
    ultimately show ?thesis by (simp add: Cons True checkArgumentPath_def isOk_def)
  qed (simp add: Cons checkArgumentPath_def isOk_def)
qed (simp add: checkArgumentPath_def isOk_def)

end
