(* ===== verification/InstalldMounts.thy ===== *)
theory InstalldMounts
  imports InstalldQuota InstalldArgs
begin

text \<open>
  The storage mounts of installd (\<open>InstalldNativeService::invalidateMounts\<close>,
  \<open>findDataMediaPath\<close> and \<open>isQuotaSupported\<close> in \<open>installd/InstalldNativeService.cpp\<close>): the map
  from the source of a runtime mount to its mount point, read from \<open>/proc/mounts\<close>.
\<close>

definition runtime_default :: string where
  "runtime_default = ''/mnt/runtime/default/''"

text \<open>The loop over the lines; the strings of one line are still there when the next is read.\<close>

function storage_mounts_loop ::
  "string \<times> bool \<Rightarrow> string \<Rightarrow> (string \<rightharpoonup> string) \<Rightarrow> (string \<rightharpoonup> string)" where
  "storage_mounts_loop st target m =
     (if snd st then m
      else
        (let (source, st1) = get_line CHR '' '' st [];
             (target', st2) = get_line CHR '' '' st1 target;
             (ignored, st3) = get_line CHR 0x0A st2 []
         in storage_mounts_loop st3 target'
              (if take 21 target' = runtime_default then m(source \<mapsto> target') else m)))"
  by pat_completeness auto
termination
proof (relation "measure (\<lambda>(st, t, m). if snd st then 0 else Suc (length (fst st)))", goal_cases)
  case (2 st target m r1 source st1 r2 target' st2 r3 ignored st3)
  then show ?case
    using get_line_shrinks [of "CHR '' ''" "fst st" "snd st" "[]" source "fst st1" "snd st1"]
      get_line_shrinks [of "CHR '' ''" "fst st1" "snd st1" target target' "fst st2" "snd st2"]
      get_line_shrinks [of "CHR 0x0A" "fst st2" "snd st2" "[]" ignored "fst st3" "snd st3"]
    by (cases st; cases st1; cases st2; cases st3) auto
qed simp

declare storage_mounts_loop.simps [simp del]

text \<open>
  The handler: status, quota map, storage mounts.  \<open>mounts1\<close> and \<open>mounts2\<close> are what the two
  reads of \<open>/proc/mounts\<close> give.
\<close>

record mount_maps =
  mQuotaReverseMounts :: "string \<rightharpoonup> string"
  mStorageMounts :: "string \<rightharpoonup> string"

definition invalidateMounts ::
  "status \<Rightarrow> (string \<Rightarrow> bool) \<Rightarrow> string option \<Rightarrow> string option \<Rightarrow> int \<Rightarrow> mount_maps \<Rightarrow> status \<times> mount_maps" where
  "invalidateMounts uid_check quota_ok mounts1 mounts2 errno =
     enforce uid_check (\<lambda>s.
       let s1 = s\<lparr>mStorageMounts := Map.empty\<rparr>;
           (read, quota) = InvalidateQuotaMounts quota_ok mounts1;
           s2 = s1\<lparr>mQuotaReverseMounts := quota\<rparr>
       in if \<not> read then (ServiceError errno, s2)
          else (case mounts2 of
                  None \<Rightarrow> (ServiceError errno, s2)
                | Some content \<Rightarrow>
                    (StatusOk, s2\<lparr>mStorageMounts := storage_mounts_loop (content, False) [] Map.empty\<rparr>)))"

text \<open>
  \<open>mStorageMounts[path]\<close> of a missing key inserts the key with the empty string.  \<open>None\<close> is the
  \<open>CHECK\<close> of the path layer.
\<close>

definition findDataMediaPath ::
  "path_env \<Rightarrow> cstring \<Rightarrow> nat \<Rightarrow> (string \<rightharpoonup> string) \<Rightarrow> (string \<times> (string \<rightharpoonup> string)) option" where
  "findDataMediaPath env uuid userid mounts =
     (case create_data_path env uuid of
        None \<Rightarrow> None
      | Some data_path \<Rightarrow>
          (let path = data_path @ ''/media'';
               resolved = (case mounts path of None \<Rightarrow> [] | Some r \<Rightarrow> r)
           in Some ((if resolved = [] then path else resolved) @ ''/'' @ dec_nat userid,
                    mounts(path \<mapsto> resolved))))"

definition isQuotaSupported :: "path_env \<Rightarrow> (string \<rightharpoonup> string) \<Rightarrow> cstring \<Rightarrow> (status \<times> bool) option" where
  "isQuotaSupported env quota_mounts uuid =
     map_option (\<lambda>b. (StatusOk, b))
       (IsQuotaSupported env quota_mounts (case uuid of None \<Rightarrow> [] | Some u \<Rightarrow> u))"

section \<open>The storage mounts of a mount table\<close>

definition runtime_line :: "string \<times> string \<times> string \<Rightarrow> bool" where
  "runtime_line l \<longleftrightarrow> take 21 (fst (snd l)) = runtime_default"

definition line_pair :: "string \<times> string \<times> string \<Rightarrow> string \<times> string" where
  "line_pair l = (fst l, fst (snd l))"

lemma storage_mounts_loop_line:
  assumes "plain_line (source, target, rest)"
  shows "storage_mounts_loop (mount_line (source, target, rest) @ content, False) t m =
    storage_mounts_loop (content, False) target
      (if runtime_line (source, target, rest) then m(source \<mapsto> target) else m)"
proof -
  have 1: "get_line CHR '' '' (source @ CHR '' '' # target @ CHR '' '' # rest @ CHR 0x0A # content, False) [] =
      (source, target @ CHR '' '' # rest @ CHR 0x0A # content, False)"
    and 2: "get_line CHR '' '' (target @ CHR '' '' # rest @ CHR 0x0A # content, False) t =
      (target, rest @ CHR 0x0A # content, False)"
    and 3: "get_line CHR 0x0A (rest @ CHR 0x0A # content, False) [] = (rest, content, False)"
    using assms by (simp_all add: plain_line_def get_line_word)
  show ?thesis
    by (subst storage_mounts_loop.simps) (simp add: mount_line_def runtime_line_def 1 2 3)
qed

text \<open>
  After the last newline one more round runs: the source is empty, the target that of the last
  line, so a runtime mount in the last line is entered under the empty source as well.
\<close>

lemma storage_mounts_loop_end:
  "storage_mounts_loop ([], False) t m = (if take 21 t = runtime_default then m([] \<mapsto> t) else m)"
  by (subst storage_mounts_loop.simps) (simp add: get_line_def Let_def storage_mounts_loop.simps)

definition last_target :: "(string \<times> string \<times> string) list \<Rightarrow> string \<Rightarrow> string" where
  "last_target ls t = (if ls = [] then t else fst (snd (last ls)))"

definition ghost_entry :: "string \<Rightarrow> (string \<times> string) list" where
  "ghost_entry t = (if take 21 t = runtime_default then [([], t)] else [])"

lemma storage_mounts_loop_table:
  "\<forall>l \<in> set ls. plain_line l \<Longrightarrow>
     storage_mounts_loop (concat (map mount_line ls), False) t m =
       m ++ map_of (rev (map line_pair (filter runtime_line ls) @ ghost_entry (last_target ls t)))"
proof (induction ls arbitrary: t m)
  case Nil
  then show ?case by (simp add: storage_mounts_loop_end ghost_entry_def last_target_def)
next
  case (Cons l ls)
  obtain source target rest where l: "l = (source, target, rest)" by (cases l) auto
  have "last_target (l # ls) t = last_target ls target" by (simp add: last_target_def l)
  then show ?case
    using Cons storage_mounts_loop_line [of source target rest "concat (map mount_line ls)" t m]
    by (auto simp: l line_pair_def map_add_def split: option.split)
qed

text \<open>
  after a well-formed mount table was read twice, the storage mounts hold, for every
  source, the mount point of its last runtime mount - and, when the last line is a runtime
  mount, its mount point once more under the empty source.
\<close>
theorem invalidateMounts_table:
  assumes "\<forall>l \<in> set ls. plain_line l"
  shows "invalidateMounts StatusOk quota_ok (Some (concat (map mount_line ls)))
      (Some (concat (map mount_line ls))) errno s =
    (StatusOk, s\<lparr>
      mQuotaReverseMounts := snd (InvalidateQuotaMounts quota_ok (Some (concat (map mount_line ls)))),
      mStorageMounts := map_of (rev (map line_pair (filter runtime_line ls) @ ghost_entry (last_target ls [])))\<rparr>)"
  using storage_mounts_loop_table [OF assms, of "[]" Map.empty]
  by (simp add: invalidateMounts_def Let_def InvalidateQuotaMounts_def)

theorem invalidateMounts_table_witness:
  "invalidateMounts StatusOk (\<lambda>d. False)
     (Some (concat (map mount_line [(''/data/media'', ''/mnt/runtime/default/emulated'', ''sdcardfs rw'')])))
     (Some (concat (map mount_line [(''/data/media'', ''/mnt/runtime/default/emulated'', ''sdcardfs rw'')])))
     5 \<lparr>mQuotaReverseMounts = Map.empty, mStorageMounts = Map.empty\<rparr> =
   (StatusOk, \<lparr>mQuotaReverseMounts =
      snd (InvalidateQuotaMounts (\<lambda>d. False)
        (Some (concat (map mount_line [(''/data/media'', ''/mnt/runtime/default/emulated'', ''sdcardfs rw'')])))),
      mStorageMounts =
        map_of [([], ''/mnt/runtime/default/emulated''), (''/data/media'', ''/mnt/runtime/default/emulated'')]\<rparr>)"
  using invalidateMounts_table [of "[(''/data/media'', ''/mnt/runtime/default/emulated'', ''sdcardfs rw'')]"
      "\<lambda>d. False" 5 "\<lparr>mQuotaReverseMounts = Map.empty, mStorageMounts = Map.empty\<rparr>"]
  by (simp add: plain_line_def runtime_line_def runtime_default_def line_pair_def ghost_entry_def last_target_def)

end
