(* ===== verification/FreeCache.thy ===== *)
theory FreeCache
  imports CacheTracker InstalldMounts
begin

unbundle bit_operations_syntax

text \<open>
  \<open>InstalldNativeService::freeCache\<close> (\<open>installd/InstalldNativeService.cpp\<close>): a tracker per UID,
  a priority queue of trackers by the ratio of used cache to quota, and the loop that frees
  items from whichever tracker is the most over its quota.  The free space that \<open>statvfs\<close>
  reports depends on the items purged so far.
\<close>

section \<open>The priority queue\<close>

text \<open>
  What the loop relies on from \<open>std::priority_queue\<close>.
\<close>

locale prio_queue =
  fixes key :: "'a \<Rightarrow> int" and contents :: "'q \<Rightarrow> 'a multiset"
    and push :: "'a \<Rightarrow> 'q \<Rightarrow> 'q" and top_of :: "'q \<Rightarrow> 'a" and pop :: "'q \<Rightarrow> 'q"
  assumes contents_push: "contents (push x q) = add_mset x (contents q)"
    and top_in: "contents q \<noteq> {#} \<Longrightarrow> top_of q \<in># contents q"
    and top_max: "x \<in># contents q \<Longrightarrow> key x \<le> key (top_of q)"
    and contents_pop: "contents q \<noteq> {#} \<Longrightarrow> contents (pop q) = contents q - {#top_of q#}"
begin



lemma in_pop: "contents q \<noteq> {#} \<Longrightarrow> x \<in># contents (pop q) \<Longrightarrow> x \<in># contents q"
  by (simp add: contents_pop in_diffD)

lemma pop_le_top: "contents q \<noteq> {#} \<Longrightarrow> x \<in># contents (pop q) \<Longrightarrow> key x \<le> key (top_of q)"
  using in_pop top_max by blast

lemma contents_pop_push: "contents (push x q) = add_mset (top_of (push x q)) (contents (pop (push x q)))"
  using top_in [of "push x q"] by (simp add: contents_push contents_pop)

lemma contents_split: "contents q \<noteq> {#} \<Longrightarrow> contents q = add_mset (top_of q) (contents (pop q))"
  using top_in by (simp add: contents_pop)

lemma size_pop: "contents q \<noteq> {#} \<Longrightarrow> size (contents q) = size (contents (pop q)) + 1"
  using arg_cong [OF contents_split, of q size] by simp

end

text \<open>The queue as a list, the greatest key found by a scan.\<close>

fun best :: "('a \<Rightarrow> int) \<Rightarrow> 'a list \<Rightarrow> 'a" where
  "best key [] = undefined"
| "best key [x] = x"
| "best key (x # y # xs) = (let b = best key (y # xs) in if key x < key b then b else x)"

definition queue_top :: "tracker list \<Rightarrow> tracker" where
  "queue_top q = best getCacheRatio q"

definition queue_pop :: "tracker list \<Rightarrow> tracker list" where
  "queue_pop q = remove1 (queue_top q) q"

definition queue_push :: "tracker \<Rightarrow> tracker list \<Rightarrow> tracker list" where
  "queue_push t q = t # q"

lemma best_in: "xs \<noteq> [] \<Longrightarrow> best key xs \<in> set xs"
  by (induction key xs rule: best.induct) (auto simp: Let_def)

lemma best_max: "x \<in> set xs \<Longrightarrow> key x \<le> key (best key xs)"
  by (induction key xs rule: best.induct) (auto simp: Let_def split: if_splits)

interpretation tq: prio_queue getCacheRatio mset queue_push queue_top queue_pop
  by unfold_locales (auto simp: queue_push_def queue_top_def queue_pop_def best_in best_max)

section \<open>Building the trackers\<close>

text \<open>
  The directories that \<open>fts\<close> finds at level 1 of the data and media directories of all users:
  path, owner and group.  The trackers are kept in the order in which their UIDs appear.
\<close>

record uid_ids =
  multiuser_get_user_id :: "int \<Rightarrow> int"
  AID_MEDIA_RW :: int
  AID_EXT_GID_START :: int

definition tracker_uid :: "app_ids \<Rightarrow> uid_ids \<Rightarrow> int \<Rightarrow> int \<Rightarrow> int" where
  "tracker_uid ids ids2 uid gid =
     (if multiuser_get_app_id ids uid = AID_MEDIA_RW ids2
      then (multiuser_get_app_id ids gid - AID_EXT_GID_START ids2) + AID_APP_START ids
      else uid)"

definition add_tracker ::
  "app_ids \<Rightarrow> uid_ids \<Rightarrow> (int \<rightharpoonup> int) \<Rightarrow> string \<times> int \<times> int \<Rightarrow> (int \<times> tracker) list \<Rightarrow> (int \<times> tracker) list" where
  "add_tracker ids ids2 mCacheQuotas p trackers =
     (case p of (path, owner, gid) \<Rightarrow>
        let uid = tracker_uid ids ids2 owner gid
        in case map_of trackers uid of
             Some t \<Rightarrow> map (\<lambda>(u, x). (u, if u = uid then addDataPath path x else x)) trackers
           | None \<Rightarrow>
               (let t = addDataPath path (new_tracker (multiuser_get_user_id ids2 uid) (multiuser_get_app_id ids uid));
                    quota = (case mCacheQuotas uid of None \<Rightarrow> 0 | Some q \<Rightarrow> q)
                in trackers @ [(uid, t\<lparr>cacheQuota := (if quota = 0 then 67108864 else quota)\<rparr>)]))"

definition create_trackers ::
  "app_ids \<Rightarrow> uid_ids \<Rightarrow> (int \<rightharpoonup> int) \<Rightarrow> (string \<times> int \<times> int) list \<Rightarrow> (int \<times> tracker) list" where
  "create_trackers ids ids2 mCacheQuotas ps = fold (add_tracker ids ids2 mCacheQuotas) ps []"

text \<open>Loading the stats of every tracker; \<open>None\<close> when a path \<open>CHECK\<close> aborts.\<close>

fun populate :: "cache_env \<Rightarrow> string \<Rightarrow> (int \<times> tracker) list \<Rightarrow> (tracker list \<times> int) option" where
  "populate env uuid [] = Some ([], 0)"
| "populate env uuid ((uid, t) # ts) =
     (case loadStats env uuid t of
        None \<Rightarrow> None
      | Some t' \<Rightarrow>
          (case populate env uuid ts of
             None \<Rightarrow> None
           | Some (queue, cacheTotal) \<Rightarrow> Some (queue_push t' queue, cacheTotal + cacheUsed t')))"

section \<open>The loop\<close>

record bounce_cfg =
  b_env :: cache_env
  b_defy_quota :: bool
  b_noop :: bool
  b_reserved :: int
  b_total :: int
  b_target :: int
  b_disk_free :: "citem list \<Rightarrow> int"

text \<open>
  The variables of the loop, and the items taken so far with the tracker each was taken from;
  \<open>b_purged\<close> are the items whose \<open>purge\<close> was called.
\<close>

record bounce =
  b_active :: "tracker option"
  b_queue :: "tracker list"
  b_needed :: int
  b_cleared :: int
  b_taken :: "(tracker \<times> citem) list"
  b_purged :: "citem list"

datatype bounce_result = Stop bounce | Go bounce

definition take_item :: "bounce_cfg \<Rightarrow> tracker \<Rightarrow> bounce \<Rightarrow> bounce" where
  "take_item cfg t s =
     (let item = last (items t)
      in s\<lparr>b_active := Some (t\<lparr>items := butlast (items t), cacheUsed := cacheUsed t - ci_size item\<rparr>),
           b_needed := b_needed s - ci_size item,
           b_cleared := b_cleared s + ci_size item,
           b_taken := b_taken s @ [(t, item)],
           b_purged := (if b_noop cfg then b_purged s else b_purged s @ [item])\<rparr>)"

definition bounce_step :: "bounce_cfg \<Rightarrow> bounce \<Rightarrow> bounce_result" where
  "bounce_step cfg s =
     (if b_active s = None \<and> b_queue s = [] then Stop s
      else if (case b_active s of None \<Rightarrow> False | Some t \<Rightarrow> getCacheRatio t < 10000) \<and> \<not> b_defy_quota cfg
      then Stop s
      else if b_reserved cfg > 0 \<and> b_cleared s \<ge> b_total cfg - b_reserved cfg then Stop s
      else
        (let nextBetter = (case b_active s of
                             None \<Rightarrow> False
                           | Some t \<Rightarrow> b_queue s \<noteq> [] \<and> getCacheRatio t < getCacheRatio (queue_top (b_queue s)))
         in if b_active s = None \<or> nextBetter then
              (let q = (case b_active s of None \<Rightarrow> b_queue s | Some t \<Rightarrow> queue_push t (b_queue s))
               in Go (s\<lparr>b_active := Some (ensureItems (b_env cfg) (queue_top q)), b_queue := queue_pop q\<rparr>))
            else
              (case b_active s of
                 None \<Rightarrow> Stop s
               | Some t \<Rightarrow>
                   if items t = [] then Go (s\<lparr>b_active := None\<rparr>)
                   else
                     (let s1 = take_item cfg t s
                      in if b_needed s1 \<le> 0 then
                           (let needed = b_target cfg - b_disk_free cfg (b_purged s1);
                                s2 = s1\<lparr>b_needed := needed\<rparr>
                            in if needed \<le> 0 then Stop s2 else Go s2)
                         else Go s1))))"

text \<open>How many items a tracker still has or will load.\<close>

definition pending :: "cache_env \<Rightarrow> tracker \<Rightarrow> nat" where
  "pending env t = length (items (ensureItems env t))"

definition all_trackers :: "bounce \<Rightarrow> tracker multiset" where
  "all_trackers s = mset (b_queue s) + (case b_active s of None \<Rightarrow> {#} | Some t \<Rightarrow> {#t#})"

definition pending_all :: "cache_env \<Rightarrow> bounce \<Rightarrow> nat" where
  "pending_all env s = sum_mset (image_mset (pending env) (all_trackers s))"

definition better_count :: "bounce \<Rightarrow> nat" where
  "better_count s =
     (case b_active s of
        None \<Rightarrow> length (b_queue s) + 1
      | Some t \<Rightarrow> length (filter (\<lambda>u. getCacheRatio t < getCacheRatio u) (b_queue s)))"

lemma ensureItems_idem [simp]: "ensureItems env (ensureItems env t) = ensureItems env t"
  by (simp add: ensureItems_def loadItems_def)

lemma pending_ensureItems [simp]: "pending env (ensureItems env t) = pending env t"
  by (simp add: pending_def)

lemma ratio_ensureItems [simp]: "getCacheRatio (ensureItems env t) = getCacheRatio t"
  by (simp add: getCacheRatio_def ensureItems_def loadItems_def)

text \<open>
  The measure of the loop: items still to take, trackers still in play, and the trackers in
  the queue that would replace the active one.
\<close>

definition bounce_measure :: "cache_env \<Rightarrow> bounce \<Rightarrow> nat \<times> nat \<times> nat" where
  "bounce_measure env s = (pending_all env s, size (all_trackers s), better_count s)"



lemma bounce_step_switch:
  assumes "b_active s = None \<and> b_queue s \<noteq> [] \<or>
      (\<exists>t. b_active s = Some t \<and> b_queue s \<noteq> [] \<and> getCacheRatio t < getCacheRatio (queue_top (b_queue s)))"
    and q: "q = (case b_active s of None \<Rightarrow> b_queue s | Some t \<Rightarrow> queue_push t (b_queue s))"
    and s': "s' = s\<lparr>b_active := Some (ensureItems env (queue_top q)), b_queue := queue_pop q\<rparr>"
  shows "pending_all env s' = pending_all env s" "size (all_trackers s') = size (all_trackers s)"
    "better_count s' < better_count s"
    "all_trackers s' = add_mset (ensureItems env (queue_top q)) (all_trackers s - {#queue_top q#})"
    "queue_top q \<in># all_trackers s"
proof -
  have m: "mset q = all_trackers s"
    using assms(1) by (auto simp: q all_trackers_def queue_push_def split: option.splits)
  have ne: "mset q \<noteq> {#}" using assms(1) by (auto simp: q queue_push_def split: option.splits)
  note split = tq.contents_split [OF ne]
  have M: "all_trackers s = add_mset (queue_top q) (mset (queue_pop q))"
    using split by (simp only: m [symmetric])
  have al: "all_trackers s' = add_mset (ensureItems env (queue_top q)) (mset (queue_pop q))"
    by (simp add: all_trackers_def s')
  show "all_trackers s' = add_mset (ensureItems env (queue_top q)) (all_trackers s - {#queue_top q#})"
    by (simp only: M al add_mset_remove_trivial)
  show "queue_top q \<in># all_trackers s" by (simp add: M)
  have "image_mset (pending env) (all_trackers s') = image_mset (pending env) (all_trackers s)"
    by (simp only: M al image_mset_add_mset pending_ensureItems)
  then show "pending_all env s' = pending_all env s" by (simp only: pending_all_def)
  show "size (all_trackers s') = size (all_trackers s)" by (simp only: M al size_add_mset)
  have "filter (\<lambda>u. getCacheRatio (queue_top q) < getCacheRatio u) (queue_pop q) = []"
    using tq.pop_le_top [OF ne] by (auto simp: filter_empty_conv not_less)
  then have "better_count s' = 0" by (simp add: better_count_def s')
  moreover have "better_count s > 0"
    using assms(1) best_in [of "b_queue s" getCacheRatio]
    by (auto simp: better_count_def queue_top_def filter_empty_conv split: option.splits)
  ultimately show "better_count s' < better_count s" by simp
qed

lemma take_item_measure:
  assumes "b_active s = Some t" and "items t \<noteq> []" and "mItemsLoaded t"
  shows "pending_all env (take_item cfg t s) < pending_all env s"
  using assms
  by (simp add: pending_all_def all_trackers_def take_item_def Let_def pending_def ensureItems_def)

lemma drop_active_measure:
  assumes "b_active s = Some t" and "items t = []" and "mItemsLoaded t"
  shows "pending_all env (s\<lparr>b_active := None\<rparr>) = pending_all env s"
    "size (all_trackers (s\<lparr>b_active := None\<rparr>)) < size (all_trackers s)"
  using assms by (simp_all add: pending_all_def all_trackers_def pending_def ensureItems_def)

text \<open>The active tracker has its items loaded.\<close>

definition active_loaded :: "bounce \<Rightarrow> bool" where
  "active_loaded s \<longleftrightarrow> (case b_active s of None \<Rightarrow> True | Some t \<Rightarrow> mItemsLoaded t)"

lemma ensureItems_loaded [simp]: "mItemsLoaded (ensureItems env t)"
  by (simp add: ensureItems_def)

lemma bounce_step_loaded: "active_loaded s \<Longrightarrow> bounce_step cfg s = Go s' \<Longrightarrow> active_loaded s'"
  by (auto simp: bounce_step_def active_loaded_def take_item_def Let_def split: if_splits option.splits)

text \<open>The four ways on: a switch, the end of a tracker, an item taken, with or without a look at the disk.\<close>

lemma bounce_step_cases:
  assumes "bounce_step cfg s = Go s'"
  obtains (switch) q where
      "b_active s = None \<and> b_queue s \<noteq> [] \<or>
       (\<exists>t. b_active s = Some t \<and> b_queue s \<noteq> [] \<and> getCacheRatio t < getCacheRatio (queue_top (b_queue s)))"
      "q = (case b_active s of None \<Rightarrow> b_queue s | Some t \<Rightarrow> queue_push t (b_queue s))"
      "s' = s\<lparr>b_active := Some (ensureItems (b_env cfg) (queue_top q)), b_queue := queue_pop q\<rparr>"
  | (empty) t where "b_active s = Some t" "items t = []" "s' = s\<lparr>b_active := None\<rparr>"
  | (take) t n where "b_active s = Some t" "items t \<noteq> []" "s' = (take_item cfg t s)\<lparr>b_needed := n\<rparr>"
      "\<forall>u \<in> set (b_queue s). getCacheRatio u \<le> getCacheRatio t"
      "b_defy_quota cfg \<or> getCacheRatio t \<ge> 10000"
      "b_reserved cfg > 0 \<longrightarrow> b_cleared s < b_total cfg - b_reserved cfg"
proof (cases "b_active s")
  case None
  then have "b_queue s \<noteq> []" using assms by (auto simp: bounce_step_def)
  with None assms show ?thesis
    by (intro switch [OF _ refl]) (auto simp: bounce_step_def Let_def split: if_splits)
next
  case (Some t)
  show ?thesis
  proof (cases "b_queue s \<noteq> [] \<and> getCacheRatio t < getCacheRatio (queue_top (b_queue s))")
    case True
    with Some assms show ?thesis
      by (intro switch [OF _ refl]) (auto simp: bounce_step_def Let_def split: if_splits)
  next
    case False
    show ?thesis
    proof (cases "items t = []")
      case True
      with False Some assms show ?thesis
        by (intro empty [OF Some True]) (auto simp: bounce_step_def Let_def split: if_splits)
    next
      case ne: False
      have le: "\<forall>u \<in> set (b_queue s). getCacheRatio u \<le> getCacheRatio t"
        using False tq.top_max [of _ "b_queue s"] by fastforce
      have "s' = take_item cfg t s \<or>
          s' = (take_item cfg t s)\<lparr>b_needed := b_target cfg - b_disk_free cfg (b_purged (take_item cfg t s))\<rparr>"
        "b_defy_quota cfg \<or> getCacheRatio t \<ge> 10000"
        "b_reserved cfg > 0 \<longrightarrow> b_cleared s < b_total cfg - b_reserved cfg"
        using False ne Some assms by (auto simp: bounce_step_def Let_def split: if_splits)
      moreover have "take_item cfg t s = (take_item cfg t s)\<lparr>b_needed := b_needed (take_item cfg t s)\<rparr>" by simp
      ultimately show ?thesis using take [OF Some ne _ le] by metis
    qed
  qed
qed

text \<open>Every step that goes on makes the measure smaller.\<close>

lemma bounce_step_decreases:
  assumes "bounce_step cfg s = Go s'" and "active_loaded s"
  shows "(bounce_measure (b_env cfg) s', bounce_measure (b_env cfg) s) \<in> less_than <*lex*> less_than <*lex*> less_than"
  using assms(1)
proof (cases rule: bounce_step_cases)
  case (switch q)
  note b = bounce_step_switch [OF switch]
  show ?thesis by (simp add: bounce_measure_def b(1,2,3))
next
  case (empty t)
  with assms(2) have "mItemsLoaded t" by (simp add: active_loaded_def)
  note d = drop_active_measure [OF empty(1,2) this]
  show ?thesis
    by (simp add: bounce_measure_def empty(3) d(1,2))
next
  case (take t n)
  with assms(2) have "mItemsLoaded t" by (simp add: active_loaded_def)
  note d = take_item_measure [OF take(1,2) this, of "b_env cfg" cfg]
  have "pending_all (b_env cfg) s' = pending_all (b_env cfg) (take_item cfg t s)"
    by (simp add: take(3) pending_all_def all_trackers_def)
  with d show ?thesis by (simp add: bounce_measure_def)
qed

text \<open>
  The loop itself.  A state whose active tracker is not loaded does not arise; the guard makes
  the function total.
\<close>

function bounce_loop :: "bounce_cfg \<Rightarrow> bounce \<Rightarrow> bounce" where
  "bounce_loop cfg s =
     (case bounce_step cfg s of
        Stop s' \<Rightarrow> s'
      | Go s' \<Rightarrow> if active_loaded s then bounce_loop cfg s' else s')"
  by pat_completeness auto
termination
  by (relation "inv_image (less_than <*lex*> less_than <*lex*> less_than) (\<lambda>(cfg, s). bounce_measure (b_env cfg) s)")
    (auto dest: bounce_step_decreases)

declare bounce_loop.simps [simp del]

section \<open>What the loop does\<close>

text \<open>
  A state reached from \<open>s\<close> by steps that go on.
\<close>

inductive bounce_reach :: "bounce_cfg \<Rightarrow> bounce \<Rightarrow> bounce \<Rightarrow> bool" for cfg s where
  reach_start: "bounce_reach cfg s s"
| reach_step: "bounce_reach cfg s u \<Longrightarrow> bounce_step cfg u = Go v \<Longrightarrow> bounce_reach cfg s v"

lemma bounce_reach_loaded: "bounce_reach cfg s u \<Longrightarrow> active_loaded s \<Longrightarrow> active_loaded u"
  by (induction rule: bounce_reach.induct) (auto dest: bounce_step_loaded)

lemma bounce_reach_front:
  "bounce_reach cfg v w \<Longrightarrow> bounce_step cfg s = Go v \<Longrightarrow> bounce_reach cfg s w"
  by (induction rule: bounce_reach.induct) (auto intro: bounce_reach.intros)

text \<open>The loop ends in the last state of a run whose next step stops.\<close>

lemma bounce_loop_stops:
  "active_loaded s \<Longrightarrow> \<exists>u. bounce_reach cfg s u \<and> bounce_step cfg u = Stop (bounce_loop cfg s)"
proof (induction cfg s rule: bounce_loop.induct)
  case (1 cfg s)
  show ?case
  proof (cases "bounce_step cfg s")
    case (Stop s')
    then show ?thesis by (subst bounce_loop.simps) (auto intro: reach_start)
  next
    case (Go s')
    with 1 have "\<exists>u. bounce_reach cfg s' u \<and> bounce_step cfg u = Stop (bounce_loop cfg s')"
      using bounce_step_loaded by simp
    moreover have "bounce_loop cfg s = bounce_loop cfg s'"
      using Go 1(2) by (subst bounce_loop.simps) simp
    ultimately show ?thesis using Go bounce_reach_front by metis
  qed
qed

text \<open>The four reasons to stop.\<close>

lemma bounce_stop_cases:
  assumes "bounce_step cfg s = Stop f"
  obtains (exhausted) "f = s" "b_active s = None" "b_queue s = []"
  | (under_quota) t where "f = s" "b_active s = Some t" "getCacheRatio t < 10000" "\<not> b_defy_quota cfg"
  | (reserved) "f = s" "b_reserved cfg > 0" "b_cleared s \<ge> b_total cfg - b_reserved cfg"
  | (enough) t n where "b_active s = Some t" "items t \<noteq> []" "f = (take_item cfg t s)\<lparr>b_needed := n\<rparr>"
      "n = b_target cfg - b_disk_free cfg (b_purged (take_item cfg t s))" "n \<le> 0"
      "\<forall>u \<in> set (b_queue s). getCacheRatio u \<le> getCacheRatio t"
      "b_defy_quota cfg \<or> getCacheRatio t \<ge> 10000"
      "b_reserved cfg > 0 \<longrightarrow> b_cleared s < b_total cfg - b_reserved cfg"
proof (cases "b_active s")
  case None
  then show ?thesis using assms exhausted reserved
    by (auto simp: bounce_step_def Let_def split: if_splits)
next
  case (Some t)
  consider "getCacheRatio t < 10000 \<and> \<not> b_defy_quota cfg"
    | "b_reserved cfg > 0 \<and> b_cleared s \<ge> b_total cfg - b_reserved cfg"
        "\<not> (getCacheRatio t < 10000 \<and> \<not> b_defy_quota cfg)"
    | "\<not> (getCacheRatio t < 10000 \<and> \<not> b_defy_quota cfg)"
        "\<not> (b_reserved cfg > 0 \<and> b_cleared s \<ge> b_total cfg - b_reserved cfg)" by blast
  then show ?thesis
  proof cases
    case 1
    then show ?thesis using assms Some under_quota by (auto simp: bounce_step_def split: if_splits)
  next
    case 2
    then show ?thesis using assms Some reserved by (auto simp: bounce_step_def split: if_splits)
  next
    case 3
    then have le: "b_queue s = [] \<or> \<not> getCacheRatio t < getCacheRatio (queue_top (b_queue s))" and ne: "items t \<noteq> []"
      and f: "f = (take_item cfg t s)\<lparr>b_needed := b_target cfg - b_disk_free cfg (b_purged (take_item cfg t s))\<rparr>"
        "b_target cfg - b_disk_free cfg (b_purged (take_item cfg t s)) \<le> 0"
      using assms Some by (auto simp: bounce_step_def Let_def split: if_splits)
    have "\<forall>u \<in> set (b_queue s). getCacheRatio u \<le> getCacheRatio t"
      using le tq.top_max [of _ "b_queue s"] by fastforce
    with 3 show ?thesis using enough [OF Some ne f(1)] f by force
  qed
qed

text \<open>
  The accounts of a state: what is cleared is what was taken, everything taken was purged
  unless nothing is to be purged, and every item came from a tracker over its quota, while the
  cache outside the reserve was not used up.
\<close>

definition total_size :: "(tracker \<times> citem) list \<Rightarrow> int" where
  "total_size xs = sum_list (map (\<lambda>(t, it). ci_size it) xs)"

lemma total_size_append [simp]: "total_size (xs @ ys) = total_size xs + total_size ys"
  by (simp add: total_size_def)

lemma total_size_simps [simp]: "total_size [] = 0" "total_size ((t, it) # xs) = ci_size it + total_size xs"
  by (simp_all add: total_size_def)

definition accounts :: "bounce_cfg \<Rightarrow> bounce \<Rightarrow> bool" where
  "accounts cfg s \<longleftrightarrow>
     b_cleared s = total_size (b_taken s) \<and>
     b_purged s = (if b_noop cfg then [] else map snd (b_taken s)) \<and>
     (\<forall>(t, it) \<in> set (b_taken s). items t \<noteq> [] \<and> it = last (items t) \<and>
        (b_defy_quota cfg \<or> getCacheRatio t \<ge> 10000)) \<and>
     (b_reserved cfg > 0 \<longrightarrow>
        (\<forall>k < length (b_taken s). total_size (take k (b_taken s)) < b_total cfg - b_reserved cfg))"

lemma take_item_accounts:
  assumes "accounts cfg s" and "items t \<noteq> []" and "b_defy_quota cfg \<or> getCacheRatio t \<ge> 10000"
    and "b_reserved cfg > 0 \<longrightarrow> b_cleared s < b_total cfg - b_reserved cfg"
  shows "accounts cfg ((take_item cfg t s)\<lparr>b_needed := n\<rparr>)"
  using assms by (auto simp: accounts_def take_item_def Let_def less_Suc_eq)

lemma bounce_reach_accounts: "bounce_reach cfg s u \<Longrightarrow> accounts cfg s \<Longrightarrow> accounts cfg u"
proof (induction rule: bounce_reach.induct)
  case (reach_step u v)
  from reach_step(2) show ?case
  proof (cases rule: bounce_step_cases)
    case (take t n)
    with reach_step take_item_accounts show ?thesis by simp
  qed (use reach_step in \<open>auto simp: accounts_def\<close>)
qed simp

definition bounce_start :: "tracker list \<Rightarrow> int \<Rightarrow> bounce" where
  "bounce_start queue needed =
     \<lparr>b_active = None, b_queue = queue, b_needed = needed, b_cleared = 0, b_taken = [], b_purged = []\<rparr>"

lemma bounce_start_ok [simp]: "accounts cfg (bounce_start q n)" "active_loaded (bounce_start q n)"
  by (simp_all add: accounts_def bounce_start_def active_loaded_def)

lemma bounce_loop_accounts: "accounts cfg (bounce_loop cfg (bounce_start q n))"
proof -
  obtain u where u: "bounce_reach cfg (bounce_start q n) u" "bounce_step cfg u = Stop (bounce_loop cfg (bounce_start q n))"
    using bounce_loop_stops [of "bounce_start q n" cfg] by auto
  have a: "accounts cfg u" using bounce_reach_accounts u(1) by simp
  from u(2) show ?thesis
  proof (cases rule: bounce_stop_cases)
    case (enough t n)
    with a take_item_accounts show ?thesis by metis
  qed (use a in simp_all)
qed

text \<open>Items are neither lost nor made up: those taken and those still to take stay the same.\<close>

definition items_of :: "cache_env \<Rightarrow> tracker \<Rightarrow> citem multiset" where
  "items_of env t = mset (items (ensureItems env t))"

definition stock :: "cache_env \<Rightarrow> bounce \<Rightarrow> citem multiset" where
  "stock env s = sum_mset (image_mset (items_of env) (all_trackers s)) + mset (map snd (b_taken s))"

lemma items_of_ensureItems [simp]: "items_of env (ensureItems env t) = items_of env t"
  by (simp add: items_of_def)

lemma items_of_loaded: "mItemsLoaded t \<Longrightarrow> items_of env t = mset (items t)"
  by (simp add: items_of_def ensureItems_def)

lemma mset_butlast_last: "xs \<noteq> [] \<Longrightarrow> mset xs = add_mset (last xs) (mset (butlast xs))"
  by (induction xs rule: rev_induct) auto

lemma take_item_stock:
  assumes "b_active s = Some t" and "items t \<noteq> []" and "mItemsLoaded t"
  shows "stock env ((take_item cfg t s)\<lparr>b_needed := n\<rparr>) = stock env s"
proof -
  have "mset (items t) = add_mset (last (items t)) (mset (butlast (items t)))"
    using assms(2) by (rule mset_butlast_last)
  then show ?thesis
    using assms by (simp add: stock_def all_trackers_def take_item_def Let_def items_of_loaded)
qed

lemma bounce_step_stock:
  assumes "bounce_step cfg s = Go s'" and "active_loaded s"
  shows "stock (b_env cfg) s' = stock (b_env cfg) s"
  using assms(1)
proof (cases rule: bounce_step_cases)
  case (switch q)
  note b = bounce_step_switch [OF switch]
  obtain M where M: "all_trackers s = add_mset (queue_top q) M" using multi_member_split [OF b(5)] by auto
  have "image_mset (items_of (b_env cfg)) (all_trackers s') = image_mset (items_of (b_env cfg)) (all_trackers s)"
    by (simp only: b(4) M image_mset_add_mset items_of_ensureItems add_mset_remove_trivial)
  then show ?thesis by (simp add: stock_def switch(3))
next
  case (empty t)
  with assms(2) have "items_of (b_env cfg) t = {#}" by (simp add: active_loaded_def items_of_loaded)
  with empty show ?thesis by (simp add: stock_def all_trackers_def)
next
  case (take t n)
  with assms(2) take_item_stock show ?thesis by (simp add: active_loaded_def)
qed

lemma bounce_reach_stock:
  "bounce_reach cfg s u \<Longrightarrow> active_loaded s \<Longrightarrow> stock (b_env cfg) u = stock (b_env cfg) s"
  by (induction rule: bounce_reach.induct) (auto dest: bounce_reach_loaded bounce_step_stock)

lemma stock_start: "stock env (bounce_start q n) = sum_mset (image_mset (items_of env) (mset q))"
  by (simp add: stock_def bounce_start_def all_trackers_def)

section \<open>Properties of the loop\<close>

text \<open>
  C28: the loop takes every item from the end of its tracker's list, only from trackers over
  their quota unless told to defy it, and only while what was cleared has not reached the
  reserve; it counts exactly the sizes of what it took, and purges exactly that, or nothing
  when asked to be a no-op.
\<close>
theorem bounce_loop_takes:
  "let f = bounce_loop cfg (bounce_start q needed) in
     b_cleared f = total_size (b_taken f) \<and>
     b_purged f = (if b_noop cfg then [] else map snd (b_taken f)) \<and>
     (\<forall>(t, it) \<in> set (b_taken f). items t \<noteq> [] \<and> it = last (items t) \<and>
        (b_defy_quota cfg \<or> getCacheRatio t \<ge> 10000)) \<and>
     (b_reserved cfg > 0 \<longrightarrow>
        (\<forall>k < length (b_taken f). total_size (take k (b_taken f)) < b_total cfg - b_reserved cfg))"
  using bounce_loop_accounts [of cfg q needed] by (simp add: Let_def accounts_def)

text \<open>
  the loop is fair: whenever it takes an item, no tracker in the queue has a greater
  ratio of cache to quota than the one it takes from.
\<close>
theorem bounce_step_fair:
  assumes "bounce_reach cfg (bounce_start q needed) u"
    and "bounce_step cfg u = Go v \<or> bounce_step cfg u = Stop v" and "b_taken v \<noteq> b_taken u"
  shows "\<exists>t. b_active u = Some t \<and> b_taken v = b_taken u @ [(t, last (items t))] \<and>
    (\<forall>w \<in> set (b_queue u). getCacheRatio w \<le> getCacheRatio t)"
proof -
  have taken: "b_taken ((take_item cfg t u)\<lparr>b_needed := n\<rparr>) = b_taken u @ [(t, last (items t))]" for t n
    by (simp add: take_item_def Let_def)
  from assms(2) show ?thesis
  proof
    assume "bounce_step cfg u = Go v"
    then show ?thesis by (cases rule: bounce_step_cases) (use assms(3) taken in auto)
  next
    assume "bounce_step cfg u = Stop v"
    then show ?thesis
    proof (cases rule: bounce_stop_cases)
      case (enough t n)
      then show ?thesis using taken by blast
    qed (use assms(3) in simp_all)
  qed
qed

text \<open>
  C18: the loop ends, and when it does, either the disk has the free space asked for, or every
  item of every tracker was taken, or the reserve is reached, or the tracker it works on is
  within its quota and the quota is not to be defied.
\<close>
theorem bounce_loop_outcome:
  "let f = bounce_loop cfg (bounce_start q needed) in
     b_disk_free cfg (b_purged f) \<ge> b_target cfg \<and> b_taken f \<noteq> [] \<or>
     mset (map snd (b_taken f)) = sum_mset (image_mset (items_of (b_env cfg)) (mset q)) \<or>
     b_reserved cfg > 0 \<and> b_cleared f \<ge> b_total cfg - b_reserved cfg \<or>
     \<not> b_defy_quota cfg \<and> (\<exists>t. b_active f = Some t \<and> getCacheRatio t < 10000)"
proof -
  let ?s = "bounce_start q needed"
  obtain u where u: "bounce_reach cfg ?s u" "bounce_step cfg u = Stop (bounce_loop cfg ?s)"
    using bounce_loop_stops [of ?s cfg] by auto
  have st: "stock (b_env cfg) u = sum_mset (image_mset (items_of (b_env cfg)) (mset q))"
    using bounce_reach_stock [OF u(1)] by (simp add: stock_start)
  from u(2) show ?thesis
  proof (cases rule: bounce_stop_cases)
    case exhausted
    with st show ?thesis by (simp add: Let_def stock_def all_trackers_def)
  next
    case (enough t n)
    then have "b_purged (bounce_loop cfg ?s) = b_purged (take_item cfg t u)"
      "b_taken (bounce_loop cfg ?s) \<noteq> []" by (simp_all add: take_item_def Let_def)
    with enough(4,5) show ?thesis by (simp add: Let_def)
  qed (simp_all add: Let_def)
qed

section \<open>The handler\<close>

definition FLAG_FREE_CACHE_V2 :: int where "FLAG_FREE_CACHE_V2 = 256"
definition FLAG_FREE_CACHE_V2_DEFY_QUOTA :: int where "FLAG_FREE_CACHE_V2_DEFY_QUOTA = 512"
definition FLAG_FREE_CACHE_NOOP :: int where "FLAG_FREE_CACHE_NOOP = 1024"

text \<open>
  What the handler finds: the directory of the users, the directories \<open>fts\<close> visits at level 1
  below the given roots (\<open>None\<close>: \<open>fts_open\<close> fails), and the result of \<open>statvfs\<close> after some items
  were purged.
\<close>

record free_env =
  fe_cache :: cache_env
  fe_uids :: uid_ids
  fe_quotas :: "int \<rightharpoonup> int"
  fe_user_dirs :: "(string \<times> bool) list option"
  fe_level1 :: "string list \<Rightarrow> (string \<times> int \<times> int) list option"
  fe_statvfs :: "citem list \<Rightarrow> (int \<times> int) option"
  fe_errno :: int

text \<open>
  The directories of all users in turn: \<open>None\<close> is an abort, \<open>Inl\<close> the early return.
\<close>

fun list_user_dirs ::
  "free_env \<Rightarrow> cstring \<Rightarrow> int list \<Rightarrow> (string \<rightharpoonup> string) \<Rightarrow>
   ((status + (string \<times> int \<times> int) list) \<times> (string \<rightharpoonup> string)) option" where
  "list_user_dirs env uuid [] mounts = Some (Inr [], mounts)"
| "list_user_dirs env uuid (u # us) mounts =
     (let paths = ce_paths (fe_cache env) in
      case (create_data_user_ce_path paths uuid (nat u), create_data_user_de_path paths uuid (nat u),
            findDataMediaPath paths uuid (nat u) mounts) of
        (Some ce_path, Some de_path, Some (media, mounts1)) \<Rightarrow>
          (case fe_level1 env [ce_path, de_path, media @ ''/Android/data/''] of
             None \<Rightarrow> Some (Inl (ServiceError (fe_errno env)), mounts1)
           | Some ds \<Rightarrow>
               (case list_user_dirs env uuid us mounts1 of
                  Some (Inr rest, mounts2) \<Rightarrow> Some (Inr (ds @ rest), mounts2)
                | r \<Rightarrow> r))
      | _ \<Rightarrow> None)"

record free_result =
  fr_status :: status
  fr_purged :: "citem list"
  fr_mounts :: "string \<rightharpoonup> string"

definition free_cfg :: "free_env \<Rightarrow> int \<Rightarrow> int \<Rightarrow> int \<Rightarrow> int \<Rightarrow> bounce_cfg" where
  "free_cfg env flags reserved cacheTotal target =
     \<lparr>b_env = fe_cache env, b_defy_quota = (flags AND FLAG_FREE_CACHE_V2_DEFY_QUOTA \<noteq> 0),
      b_noop = (flags AND FLAG_FREE_CACHE_NOOP \<noteq> 0), b_reserved = reserved, b_total = cacheTotal,
      b_target = target, b_disk_free = (\<lambda>purged. data_disk_free (fe_statvfs env purged))\<rparr>"

text \<open>Steps 1 to 3 and the last look at the disk.\<close>

definition freeCache_v2 ::
  "free_env \<Rightarrow> cstring \<Rightarrow> int \<Rightarrow> int \<Rightarrow> int \<Rightarrow> int \<Rightarrow> (string \<rightharpoonup> string) \<Rightarrow> free_result option" where
  "freeCache_v2 env uuid target reserved flags needed mounts =
     (case list_user_dirs env uuid (get_known_users (fe_user_dirs env)) mounts of
        None \<Rightarrow> None
      | Some (Inl st, mounts') \<Rightarrow> Some \<lparr>fr_status = st, fr_purged = [], fr_mounts = mounts'\<rparr>
      | Some (Inr ds, mounts') \<Rightarrow>
          (let trackers = create_trackers (ce_ids (fe_cache env)) (fe_uids env) (fe_quotas env) ds
           in case populate (fe_cache env) (case uuid of None \<Rightarrow> [] | Some u \<Rightarrow> u) trackers of
                None \<Rightarrow> None
              | Some (queue, cacheTotal) \<Rightarrow>
                  (let f = bounce_loop (free_cfg env flags reserved cacheTotal target) (bounce_start queue needed);
                       free = data_disk_free (fe_statvfs env (b_purged f))
                   in Some \<lparr>fr_status = (if free \<ge> target then StatusOk else ServiceError (fe_errno env)),
                            fr_purged = b_purged f, fr_mounts = mounts'\<rparr>)))"

definition freeCache ::
  "free_env \<Rightarrow> status \<Rightarrow> cstring \<Rightarrow> int \<Rightarrow> int \<Rightarrow> int \<Rightarrow> (string \<rightharpoonup> string) \<Rightarrow> free_result option" where
  "freeCache env uid_check uuid target reserved flags mounts =
     (let stop = (\<lambda>st. Some \<lparr>fr_status = st, fr_purged = [], fr_mounts = mounts\<rparr>)
      in if \<not> isOk uid_check then stop uid_check
         else if \<not> isOk (checkArgumentUuid uuid) then stop (checkArgumentUuid uuid)
         else
           (case create_data_path (ce_paths (fe_cache env)) uuid of
              None \<Rightarrow> None
            | Some data_path \<Rightarrow>
                (let free = data_disk_free (fe_statvfs env [])
                 in if free < 0 then stop (ServiceError (fe_errno env))
                    else if free \<ge> target then stop StatusOk
                    else if flags AND FLAG_FREE_CACHE_V2 = 0 then stop (ServiceError (fe_errno env))
                    else freeCache_v2 env uuid target reserved flags (target - free) mounts)))"

text \<open>
  C3: the handler reports success only when the disk has the free space that was asked for;
  it purges something only for a permitted caller with a valid volume, with the V2 flag and
  without the no-op flag, and only when space was missing.
\<close>
theorem freeCache_outcome:
  assumes "freeCache env uid_check uuid target reserved flags mounts = Some r"
  shows "(fr_status r = StatusOk \<longrightarrow> data_disk_free (fe_statvfs env (fr_purged r)) \<ge> target) \<and>
    (fr_purged r \<noteq> [] \<longrightarrow> uid_check = StatusOk \<and> checkArgumentUuid uuid = StatusOk \<and>
       flags AND FLAG_FREE_CACHE_V2 \<noteq> 0 \<and> flags AND FLAG_FREE_CACHE_NOOP = 0 \<and>
       data_disk_free (fe_statvfs env []) < target)"
proof -
  have v2: "(fr_status r = StatusOk \<longrightarrow> data_disk_free (fe_statvfs env (fr_purged r)) \<ge> target) \<and>
      (fr_purged r \<noteq> [] \<longrightarrow> flags AND FLAG_FREE_CACHE_NOOP = 0)"
    if v: "freeCache_v2 env uuid target reserved flags needed mounts = Some r"
      and fail: "data_disk_free (fe_statvfs env []) < target" for needed
  proof -
    have purged: "b_purged (bounce_loop cfg (bounce_start q needed)) \<noteq> [] \<Longrightarrow> \<not> b_noop cfg" for cfg q
      using bounce_loop_accounts [of cfg q needed] by (auto simp: accounts_def)
    have noop: "b_noop (free_cfg env flags reserved n target) \<longleftrightarrow> flags AND FLAG_FREE_CACHE_NOOP \<noteq> 0" for n
      by (simp add: free_cfg_def)
    show ?thesis
    proof (cases "list_user_dirs env uuid (get_known_users (fe_user_dirs env)) mounts")
      case None
      with v show ?thesis by (simp add: freeCache_v2_def)
    next
      case (Some x)
      have early: "list_user_dirs env uuid us m = Some (Inl st, m') \<Longrightarrow> st \<noteq> StatusOk" for us m st m'
        by (induction us arbitrary: m)
          (auto simp: Let_def split: option.splits sum.splits prod.splits)
      obtain y m' where x: "x = (y, m')" by force
      show ?thesis
      proof (cases y)
        case (Inl st)
        with Some x v early show ?thesis by (auto simp: freeCache_v2_def)
      next
        case (Inr ds)
        with Some x v show ?thesis
          by (auto simp: freeCache_v2_def Let_def noop split: prod.splits option.splits if_splits
              dest!: purged)
      qed
    qed
  qed
  show ?thesis
    using assms v2 [of "target - data_disk_free (fe_statvfs env [])"]
    by (auto simp: freeCache_def Let_def isOk_def split: option.splits if_splits)
qed

text \<open>A run that frees one file: 10 bytes are free, 100 are asked for, the first item taken is enough.\<close>

definition demo_free_env :: free_env where
  "demo_free_env =
     \<lparr>fe_cache = demo_cache_env,
      fe_uids = \<lparr>multiuser_get_user_id = (\<lambda>u. u div 100000), AID_MEDIA_RW = 1023, AID_EXT_GID_START = 30000\<rparr>,
      fe_quotas = (\<lambda>u. if u = 10001 then Some 1 else None), fe_user_dirs = None,
      fe_level1 = (\<lambda>roots. Some [(''/d/a'', 10001, 10001)]),
      fe_statvfs = (\<lambda>purged. if purged = [] then Some (10, 1) else Some (500, 1)), fe_errno = 28\<rparr>"

lemma demo_free:
  "map_option (\<lambda>r. (fr_status r, map ci_path (fr_purged r))) (freeCache demo_free_env StatusOk None 100 0 256 Map.empty) =
    Some (StatusOk, [''/d/a/cache/d/g''])"
  by code_simp

theorem freeCache_outcome_witness:
  "\<exists>r. freeCache demo_free_env StatusOk None 100 0 256 Map.empty = Some r \<and> fr_purged r \<noteq> [] \<and>
    data_disk_free (fe_statvfs demo_free_env (fr_purged r)) \<ge> 100"
proof -
  obtain r where r: "freeCache demo_free_env StatusOk None 100 0 256 Map.empty = Some r"
    "fr_status r = StatusOk" "map ci_path (fr_purged r) = [''/d/a/cache/d/g'']"
    using demo_free by (auto simp: map_option_eq_Some)
  from freeCache_outcome [OF r(1)] r show ?thesis by auto
qed

section \<open>Stopping too early\<close>

text \<open>
  Two trackers over their quota.  Taking the only item of the first brings it below its quota;
  the test for the quota comes before the look at the queue, so the loop ends although the
  second tracker is over its quota and space is still missing.
\<close>

definition demo_over :: "int \<Rightarrow> int \<Rightarrow> string \<Rightarrow> tracker" where
  "demo_over used sz name =
     (new_tracker 0 10001)\<lparr>cacheUsed := used, cacheQuota := 100, mItemsLoaded := True,
       items := [\<lparr>ci_level = 1, ci_directory = False, ci_group = False, ci_tombstone = False,
                  ci_size = sz, ci_modified = 0, ci_path = name\<rparr>]\<rparr>"

definition demo_queue :: "tracker list" where
  "demo_queue = [demo_over 150 100 ''/a/f'', demo_over 120 30 ''/b/f'']"

definition demo_bounce_cfg :: bounce_cfg where
  "demo_bounce_cfg = \<lparr>b_env = demo_cache_env, b_defy_quota = False, b_noop = False, b_reserved = 0,
     b_total = 270, b_target = 1000, b_disk_free = (\<lambda>purged. 0)\<rparr>"

lemma bounce_stops_early:
  "let f = bounce_loop demo_bounce_cfg (bounce_start demo_queue 1000)
   in map (ci_path \<circ> snd) (b_taken f) = [''/a/f''] \<and> map getCacheRatio (b_queue f) = [12000] \<and> b_needed f = 900"
  by code_simp

definition demo_next :: "bounce \<Rightarrow> bounce" where
  "demo_next s = (case bounce_step demo_bounce_cfg s of Go u \<Rightarrow> u | Stop u \<Rightarrow> u)"

theorem bounce_step_fair_witness:
  "\<exists>t. b_active (demo_next (bounce_start demo_queue 1000)) = Some t \<and>
     (\<forall>w \<in> set (b_queue (demo_next (bounce_start demo_queue 1000))). getCacheRatio w \<le> getCacheRatio t)"
proof -
  let ?u = "demo_next (bounce_start demo_queue 1000)"
  have 1: "bounce_step demo_bounce_cfg (bounce_start demo_queue 1000) = Go ?u" by code_simp
  have 2: "bounce_step demo_bounce_cfg ?u = Go (demo_next ?u)" by code_simp
  have 3: "b_taken (demo_next ?u) \<noteq> b_taken ?u" by code_simp
  from bounce_step_fair [OF reach_step [OF reach_start 1] disjI1 [OF 2] 3] show ?thesis by blast
qed

theorem bounce_loop_takes_witness:
  "\<exists>t it. b_taken (bounce_loop demo_bounce_cfg (bounce_start demo_queue 1000)) = [(t, it)] \<and>
     it = last (items t) \<and> getCacheRatio t \<ge> 10000"
proof -
  let ?f = "bounce_loop demo_bounce_cfg (bounce_start demo_queue 1000)"
  have "length (b_taken ?f) = 1" by code_simp
  then obtain t it where f: "b_taken ?f = [(t, it)]" by (cases "b_taken ?f") auto
  have "\<not> b_defy_quota demo_bounce_cfg" by (simp add: demo_bounce_cfg_def)
  with f bounce_loop_takes [of demo_bounce_cfg demo_queue 1000] show ?thesis by (auto simp: Let_def)
qed

end
