(* ===== verification/OsProg.thy ===== *)
theory OsProg
  imports Prelude
begin

text \<open>
  Programs that call the operating system.  A program is a tree of calls; the reply to a call
  is given by an oracle that may depend on everything that happened before, so a statement for
  every oracle covers every failure at every point.  \<open>yields\<close> relates the result of a program
  to the calls it makes, for every oracle at once.
\<close>

datatype ('c, 'r, 'a) prog =
    Ret 'a
  | Abort
  | Call 'c "'r \<Rightarrow> ('c, 'r, 'a) prog"

type_synonym ('c, 'r) history = "('c \<times> 'r) list"

type_synonym ('c, 'r) os_oracle = "('c, 'r) history \<Rightarrow> 'c \<Rightarrow> 'r"

primrec run ::
  "('c, 'r, 'a) prog \<Rightarrow> ('c, 'r) os_oracle \<Rightarrow> ('c, 'r) history \<Rightarrow> 'a option \<times> ('c, 'r) history" where
  "run (Ret a) os h = (Some a, h)"
| "run Abort os h = (None, h)"
| "run (Call c k) os h = run (k (os h c)) os (h @ [(c, os h c)])"

primrec bindp :: "('c, 'r, 'a) prog \<Rightarrow> ('a \<Rightarrow> ('c, 'r, 'b) prog) \<Rightarrow> ('c, 'r, 'b) prog" where
  "bindp (Ret a) f = f a"
| "bindp Abort f = Abort"
| "bindp (Call c k) f = Call c (\<lambda>r. bindp (k r) f)"

text \<open>Calls whose results are ignored, and the value of a partial function.\<close>

fun do_calls :: "'c list \<Rightarrow> ('c, 'r, 'a) prog \<Rightarrow> ('c, 'r, 'a) prog" where
  "do_calls [] p = p"
| "do_calls (c # cs) p = Call c (\<lambda>r. do_calls cs p)"

definition with_some :: "'b option \<Rightarrow> ('b \<Rightarrow> ('c, 'r, 'a) prog) \<Rightarrow> ('c, 'r, 'a) prog" where
  "with_some x f = (case x of None \<Rightarrow> Abort | Some y \<Rightarrow> f y)"

lemma with_some_simps [simp]: "with_some None f = Abort" "with_some (Some y) f = f y"
  by (simp_all add: with_some_def)

lemma run_bindp:
  "run (bindp p f) os h =
     (case run p os h of (None, h') \<Rightarrow> (None, h') | (Some a, h') \<Rightarrow> run (f a) os h')"
  by (induction p arbitrary: h) auto

section \<open>What a program adds to the history\<close>

text \<open>The program returns, and \<open>R\<close> relates its result to the calls it made and their replies.\<close>

primrec yields ::
  "('c, 'r, 'a) prog \<Rightarrow> ('a \<Rightarrow> ('c, 'r) history \<Rightarrow> bool) \<Rightarrow> bool" where
  "yields (Ret a) R = R a []"
| "yields Abort R = False"
| "yields (Call c k) R = (\<forall>r. yields (k r) (\<lambda>a t. R a ((c, r) # t)))"

lemma yields_run: "yields p R \<Longrightarrow> \<exists>a t. run p os h = (Some a, h @ t) \<and> R a t"
proof (induction p arbitrary: h R)
  case (Call c k)
  then have "yields (k (os h c)) (\<lambda>a t. R a ((c, os h c) # t))" by simp
  from Call.IH [OF rangeI this, of "h @ [(c, os h c)]"] show ?case by auto
qed auto

text \<open>The converse: \<open>yields\<close> asks for nothing that no oracle can bring about.\<close>

lemma run_yields:
  fixes p :: "('c, 'r, 'a) prog"
  assumes "\<And>os. \<exists>a t. run p os h = (Some a, h @ t) \<and> R a t"
  shows "yields p R"
  using assms
proof (induction p arbitrary: h R)
  case (Call c k)
  have "yields (k r) (\<lambda>a t. R a ((c, r) # t))" for r
  proof (rule Call.IH [OF rangeI])
    fix os :: "('c, 'r) os_oracle"
    let ?os = "\<lambda>h' c'. if h' = h then r else os h' c'"
    have same: "run q ?os g = run q os g" if "length g > length h" for q :: "('c, 'r, 'a) prog" and g
      using that
    proof (induction q arbitrary: g)
      case (Call c k)
      have "g \<noteq> h" using Call.prems by blast
      with Call show ?case by simp
    qed simp_all
    have "length (h @ [(c, r)]) > length h" by simp
    from Call.prems [of ?os] same [OF this, of "k r"]
    obtain a t where "run (k r) os (h @ [(c, r)]) = (Some a, h @ t)" "R a t" by auto
    moreover have "\<exists>u. snd (run q os g) = g @ u" for q :: "('c, 'r, 'a) prog" and g
    proof (induction q arbitrary: g)
      case (Call d f)
      obtain u where "snd (run (f (os g d)) os (g @ [(d, os g d)])) = (g @ [(d, os g d)]) @ u"
        using Call.IH [OF rangeI] by blast
      then show ?case by simp
    qed auto
    then have "\<exists>u. snd (run (k r) os (h @ [(c, r)])) = (h @ [(c, r)]) @ u" by blast
    ultimately show "\<exists>a t. run (k r) os (h @ [(c, r)]) = (Some a, (h @ [(c, r)]) @ t) \<and> R a ((c, r) # t)"
      by auto
  qed
  then show ?case by simp
qed fastforce+

theorem yields_iff_run: "yields p R \<longleftrightarrow> (\<forall>os. \<exists>a t. run p os [] = (Some a, t) \<and> R a t)"
  using yields_run [of p R _ "[]"] run_yields [of p "[]" R] by (metis append_Nil)

lemma yields_mono: "yields p R \<Longrightarrow> (\<And>a t. R a t \<Longrightarrow> S a t) \<Longrightarrow> yields p S"
proof (induction p arbitrary: R S)
  case (Call c k)
  have "yields (k r) (\<lambda>a t. S a ((c, r) # t))" for r
    by (rule Call.IH [OF rangeI, of r "\<lambda>a t. R a ((c, r) # t)"]) (use Call.prems in auto)
  then show ?case by simp
qed auto

lemma yields_bindp [simp]:
  "yields (bindp p f) R \<longleftrightarrow> yields p (\<lambda>a t. yields (f a) (\<lambda>b u. R b (t @ u)))"
  by (induction p arbitrary: R) auto

lemma yields_bindpI:
  "yields p R \<Longrightarrow> (\<And>a t. R a t \<Longrightarrow> yields (f a) (\<lambda>b u. S b (t @ u))) \<Longrightarrow> yields (bindp p f) S"
  unfolding yields_bindp by (erule yields_mono) auto

lemma yields_conj: "yields p (\<lambda>a t. R a t \<and> S a t) \<longleftrightarrow> yields p R \<and> yields p S"
  by (induction p arbitrary: R S) auto

lemma yields_do_calls [simp]:
  "yields (do_calls cs p) R \<longleftrightarrow>
     (\<forall>rs. length rs = length cs \<longrightarrow> yields p (\<lambda>a t. R a (zip cs rs @ t)))"
proof (induction cs arbitrary: R)
  case (Cons c cs)
  show ?case
  proof
    assume l: "yields (do_calls (c # cs) p) R"
    show "\<forall>rs. length rs = length (c # cs) \<longrightarrow> yields p (\<lambda>a t. R a (zip (c # cs) rs @ t))"
    proof (intro allI impI)
      fix rs :: "'b list" assume "length rs = length (c # cs)"
      then obtain r rs' where "rs = r # rs'" "length rs' = length cs" by (cases rs) auto
      with l Cons show "yields p (\<lambda>a t. R a (zip (c # cs) rs @ t))" by simp
    qed
  next
    assume r: "\<forall>rs. length rs = length (c # cs) \<longrightarrow> yields p (\<lambda>a t. R a (zip (c # cs) rs @ t))"
    have "yields p (\<lambda>a t. R a ((c, x) # zip cs rs @ t))" if "length rs = length cs" for x rs
      using r [rule_format, of "x # rs"] that by simp
    with Cons show "yields (do_calls (c # cs) p) R" by simp
  qed
qed simp

section \<open>Programs that make no calls of a kind\<close>

text \<open>The program returns, and every call it makes satisfies \<open>P\<close>.\<close>

primrec only_calls :: "('c \<Rightarrow> bool) \<Rightarrow> ('c, 'r, 'a) prog \<Rightarrow> bool" where
  "only_calls P (Ret a) = True"
| "only_calls P Abort = False"
| "only_calls P (Call c k) = (P c \<and> (\<forall>r. only_calls P (k r)))"

lemma only_calls_bindp: "only_calls P p \<Longrightarrow> (\<And>a. only_calls P (f a)) \<Longrightarrow> only_calls P (bindp p f)"
  by (induction p) auto

lemma only_calls_do_calls [simp]:
  "only_calls P (do_calls cs p) \<longleftrightarrow> list_all P cs \<and> only_calls P p"
  by (induction cs) auto

lemma only_calls_yields: "only_calls P p \<Longrightarrow> yields p (\<lambda>a t. list_all (\<lambda>(c, r). P c) t)"
proof (induction p)
  case (Call c k)
  then have "yields (k r) (\<lambda>a t. list_all (\<lambda>(c, r). P c) t)" for r by simp
  with Call.prems show ?case by simp
qed auto

text \<open>Every call of a program that may abort satisfies \<open>P\<close>.\<close>

primrec calls_within :: "('c \<Rightarrow> bool) \<Rightarrow> ('c, 'r, 'a) prog \<Rightarrow> bool" where
  "calls_within P (Ret a) = True"
| "calls_within P Abort = True"
| "calls_within P (Call c k) = (P c \<and> (\<forall>r. calls_within P (k r)))"

lemma calls_within_bindp [simp]: "calls_within P p \<Longrightarrow> (\<And>a. calls_within P (f a)) \<Longrightarrow> calls_within P (bindp p f)"
  by (induction p) auto

lemma calls_within_history: "calls_within P p \<Longrightarrow> run p os h = (res, h') \<Longrightarrow> \<exists>t. h' = h @ t \<and> list_all (\<lambda>(c, r). P c) t"
proof (induction p arbitrary: h)
  case (Call c k)
  from Call.prems have "run (k (os h c)) os (h @ [(c, os h c)]) = (res, h')" "calls_within P (k (os h c))" by simp_all
  from Call.IH [OF rangeI this(2,1)] Call.prems(1) show ?case by fastforce
qed auto

lemma calls_within_run: "calls_within P p \<Longrightarrow> run p os [] = (res, u @ (c, r) # v) \<Longrightarrow> P c"
  by (drule calls_within_history) auto

text \<open>The calls made from the empty history.\<close>

definition calls_of :: "('c, 'r, 'a) prog \<Rightarrow> ('c, 'r) os_oracle \<Rightarrow> 'c list" where
  "calls_of p os = map fst (snd (run p os []))"

end
