(* ===== verification/InstalldApp.thy ===== *)
theory InstalldApp
  imports OsProg InstalldFs InstalldMounts
begin

unbundle bit_operations_syntax

text \<open>
  The data directories of an app: the handlers of \<open>installd/InstalldNativeService.cpp\<close> that
  create, migrate, clear and destroy them, as programs over the calls they make.  A reply to a
  call is anything; the errno that an error status carries is asked for by a call of its own.
  \<open>Abort\<close> is a failed \<open>CHECK\<close>.
\<close>

section \<open>Calls\<close>

datatype call =
    GetErrno
  | Access string
  | Stat string
  | LStat string
  | LGetFileCon string
  | LSetFileCon string string
  | RestoreconPkgdir string string int bool
  | Restorecon string bool
  | PrepareDirStrict string int int int
  | PrepareDir string int int int
  | CreateDirIfNeeded string int
  | FtsOpen "string list"
  | Chmod string int
  | Chown string int int
  | LChown string int int
  | GetXattr string string
  | SetXattr string string
  | RemoveXattr string string
  | WritePathInode string string string
  | GetPathInode string
  | DeleteContents string bool bool
  | CopyRecursive string string
  | Rename string string
  | Unlink string
  | Symlink string string
  | Link string string
  | EnsureConfigUserDirs int
  | ClearReferenceProfile string string
  | ClearCurrentProfiles string string

record reply =
  rc :: int
  r_str :: string
  r_uid :: int
  r_gid :: int
  r_mode :: int
  r_ino :: int
  r_trees :: "(string \<times> ftree) list option"

type_synonym 'a handler = "(call, reply, 'a) prog"

definition ENOENT :: int where "ENOENT = 2"

text \<open>\<open>error()\<close> and \<open>error(msg)\<close>: the status of the current errno.\<close>

definition error_now :: "status handler" where
  "error_now = Call GetErrno (\<lambda>e. Ret (ServiceError (rc e)))"

text \<open>The checks at the entry, in order; \<open>f\<close> makes the result of a failed check.\<close>

fun guard :: "status list \<Rightarrow> (status \<Rightarrow> 'a) \<Rightarrow> 'a handler \<Rightarrow> 'a handler" where
  "guard [] f p = p"
| "guard (st # sts) f p = (if isOk st then guard sts f p else Ret (f st))"

text \<open>A chain of \<open>||\<close> over calls that return 0 on success.\<close>

fun any_fails :: "int handler list \<Rightarrow> bool handler" where
  "any_fails [] = Ret False"
| "any_fails (p # ps) = bindp p (\<lambda>r. if r \<noteq> 0 then Ret True else any_fails ps)"

definition rc_of :: "call \<Rightarrow> int handler" where
  "rc_of c = Call c (\<lambda>r. Ret (rc r))"

text \<open>\<open>if (call != 0) res = error(...)\<close>.\<close>

definition try_call :: "call \<Rightarrow> status \<Rightarrow> status handler" where
  "try_call c res = Call c (\<lambda>r. if rc r \<noteq> 0 then error_now else Ret res)"

section \<open>The platform\<close>

record svc_env =
  se_paths :: path_env
  se_globals :: globals
  se_inodes :: inode_env
  se_users :: "cstring \<Rightarrow> (string \<times> bool) list option"
  se_calling_uid :: int
  AID_ROOT :: int
  AID_SYSTEM :: int
  AID_INSTALL :: int
  se_get_uid :: "int \<Rightarrow> int \<Rightarrow> int"
  se_cache_gid :: "int \<Rightarrow> int \<Rightarrow> int"
  se_shared_gid :: "int \<Rightarrow> int \<Rightarrow> int"
  se_user_of :: "int \<Rightarrow> int"
  se_app_of :: "int \<Rightarrow> int"
  se_usejitprofiles :: bool

definition uid_check :: "svc_env \<Rightarrow> status" where
  "uid_check env = checkUid (AID_ROOT env) (se_calling_uid env) (AID_SYSTEM env)"

text \<open>An \<open>int32_t\<close> user passed where a \<open>userid_t\<close> is expected.\<close>

definition user_nat :: "int \<Rightarrow> nat" where
  "user_nat userId = nat (to_u32 userId)"

definition FLAG_STORAGE_DE :: int where "FLAG_STORAGE_DE = 1"
definition FLAG_STORAGE_CE :: int where "FLAG_STORAGE_CE = 2"
definition FLAG_STORAGE_EXTERNAL :: int where "FLAG_STORAGE_EXTERNAL = 4"
definition FLAG_CLEAR_CACHE_ONLY :: int where "FLAG_CLEAR_CACHE_ONLY = 16"
definition FLAG_CLEAR_CODE_CACHE_ONLY :: int where "FLAG_CLEAR_CODE_CACHE_ONLY = 32"
definition FLAG_USE_QUOTA :: int where "FLAG_USE_QUOTA = 4096"
definition FLAG_FORCE :: int where "FLAG_FORCE = 8192"

definition has_flag :: "int \<Rightarrow> int \<Rightarrow> bool" where
  "has_flag flags f \<longleftrightarrow> flags AND f \<noteq> 0"

abbreviation ce_package :: "svc_env \<Rightarrow> cstring \<Rightarrow> int \<Rightarrow> string \<Rightarrow> string option" where
  "ce_package env uuid user p \<equiv> create_data_user_ce_package_path (se_paths env) uuid (user_nat user) p"

abbreviation de_package :: "svc_env \<Rightarrow> cstring \<Rightarrow> int \<Rightarrow> string \<Rightarrow> string option" where
  "de_package env uuid user p \<equiv> create_data_user_de_package_path (se_paths env) uuid (user_nat user) p"

text \<open>The overload with an inode: \<open>int64_t\<close> passed as \<open>ino_t\<close>.\<close>

definition ce_package_inode :: "svc_env \<Rightarrow> cstring \<Rightarrow> int \<Rightarrow> string \<Rightarrow> int \<Rightarrow> string option" where
  "ce_package_inode env uuid user p ino =
     create_data_user_ce_package_path_inode (se_paths env) uuid (user_nat user) p (nat (ino mod 2 ^ 64))"

section \<open>Creating\<close>

definition restorecon_app_data_lazy :: "string \<Rightarrow> string \<Rightarrow> int \<Rightarrow> int handler" where
  "restorecon_app_data_lazy path seInfo uid =
     Call (LGetFileCon path) (\<lambda>before.
       if rc before < 0 then Ret (-1)
       else Call (RestoreconPkgdir path seInfo uid False) (\<lambda>r.
         if rc r < 0 then Ret (-1)
         else Call (LGetFileCon path) (\<lambda>after.
           if rc after < 0 then Ret (-1)
           else if r_str before \<noteq> r_str after then
             Call (RestoreconPkgdir path seInfo uid True) (\<lambda>r. Ret (if rc r < 0 then -1 else 0))
           else Ret 0)))"

definition prepare_app_dir :: "string \<Rightarrow> int \<Rightarrow> int \<Rightarrow> int handler" where
  "prepare_app_dir path target_mode uid =
     Call (PrepareDirStrict path target_mode uid uid) (\<lambda>r. Ret (if rc r \<noteq> 0 then -1 else 0))"

text \<open>The fix-up of a cache directory: contents first, the directory last.\<close>

fun cache_fix_calls :: "int \<Rightarrow> int \<Rightarrow> string \<Rightarrow> ftree \<Rightarrow> call list" where
  "cache_fix_calls target_mode gid path (Leaf k a) =
     (case k of
        FTS_F \<Rightarrow> [Chown path (-1) gid]
      | FTS_SL \<Rightarrow> [LChown path (-1) gid]
      | FTS_SLNONE \<Rightarrow> [LChown path (-1) gid]
      | FTS_DEFAULT \<Rightarrow> [])"
| "cache_fix_calls target_mode gid path (Node a ts) =
     concat (map (\<lambda>t. cache_fix_calls target_mode gid (path @ ''/'' @ name_of t) t) ts)
       @ [Chmod path target_mode, Chown path (-1) gid]"

definition prepare_app_cache_dir :: "string \<Rightarrow> string \<Rightarrow> int \<Rightarrow> int \<Rightarrow> int \<Rightarrow> int handler" where
  "prepare_app_cache_dir parent name target_mode uid gid =
     (let path = parent @ ''/'' @ name in
      Call (Stat path) (\<lambda>st.
        if rc st \<noteq> 0 then
          Call GetErrno (\<lambda>e.
            if rc e = ENOENT then
              Call (PrepareDirStrict path target_mode uid gid) (\<lambda>r. Ret (if rc r \<noteq> 0 then -1 else 0))
            else Ret (-1))
        else if r_uid st \<noteq> uid then Ret (-1)
        else if r_gid st = gid \<and> r_mode st AND 1535 = target_mode then Ret 0
        else Call (FtsOpen [path]) (\<lambda>f.
          case r_trees f of
            None \<Rightarrow> Ret (-1)
          | Some ts \<Rightarrow> do_calls (concat (map (\<lambda>(p, t). cache_fix_calls target_mode gid p t) ts)) (Ret 0))))"

definition prepare_app_profile_dir :: "svc_env \<Rightarrow> string \<Rightarrow> int \<Rightarrow> int \<Rightarrow> bool handler" where
  "prepare_app_profile_dir env packageName appId userId =
     (if \<not> se_usejitprofiles env then Ret True
      else
        (let uid = se_get_uid env userId appId;
             shared_app_gid = se_shared_gid env userId appId
         in if shared_app_gid = -1 then Ret True
            else with_some (create_primary_current_profile_package_dir_path (se_globals env) (user_nat userId) packageName)
              (\<lambda>profile_dir. Call (PrepareDirStrict profile_dir 448 uid uid) (\<lambda>r.
                if rc r \<noteq> 0 then Ret False
                else with_some (create_primary_reference_profile_package_dir_path (se_globals env) packageName)
                  (\<lambda>ref_profile_path.
                    Call (PrepareDir ref_profile_path 504 (AID_SYSTEM env) shared_app_gid) (\<lambda>r. Ret (rc r = 0)))))))"

text \<open>What both storages of \<open>createAppData\<close> do first.\<close>

definition prepare_storage :: "string \<Rightarrow> string \<Rightarrow> int \<Rightarrow> int \<Rightarrow> int \<Rightarrow> status handler" where
  "prepare_storage path seInfo targetMode uid cacheGid =
     Call (Access path) (\<lambda>existing.
       bindp (any_fails [prepare_app_dir path targetMode uid,
           prepare_app_cache_dir path ''cache'' 1529 uid cacheGid,
           prepare_app_cache_dir path ''code_cache'' 1529 uid cacheGid])
         (\<lambda>failed. if failed then error_now
           else bindp (any_fails [restorecon_app_data_lazy path seInfo uid,
                restorecon_app_data_lazy (path @ ''/'' @ ''cache'') seInfo uid,
                restorecon_app_data_lazy (path @ ''/'' @ ''code_cache'') seInfo uid])
              (\<lambda>failed. if failed then error_now else Ret StatusOk)))"

text \<open>
  The CE part ends with the inode markers and, when the caller wants it, the inode itself.  The
  second component of a result is \<open>*_aidl_return\<close>, \<open>None\<close> when nothing was stored.
\<close>

definition createAppData_ce ::
  "svc_env \<Rightarrow> cstring \<Rightarrow> string \<Rightarrow> int \<Rightarrow> string \<Rightarrow> int \<Rightarrow> int \<Rightarrow> int \<Rightarrow> bool \<Rightarrow> (status \<times> int) handler" where
  "createAppData_ce env uuid packageName userId seInfo targetMode uid cacheGid want_inode =
     with_some (ce_package env uuid userId packageName) (\<lambda>path.
       bindp (prepare_storage path seInfo targetMode uid cacheGid) (\<lambda>st.
         if st \<noteq> StatusOk then Ret (st, -1)
         else bindp (any_fails [rc_of (WritePathInode path ''cache'' ''user.inode_cache''),
                rc_of (WritePathInode path ''code_cache'' ''user.inode_code_cache'')])
           (\<lambda>failed. if failed then bindp error_now (\<lambda>st. Ret (st, -1))
             else if want_inode then
               Call (GetPathInode path) (\<lambda>r.
                 if rc r \<noteq> 0 then bindp error_now (\<lambda>st. Ret (st, -1)) else Ret (StatusOk, r_ino r))
             else Ret (StatusOk, -1))))"

definition createAppData_de ::
  "svc_env \<Rightarrow> cstring \<Rightarrow> string \<Rightarrow> int \<Rightarrow> int \<Rightarrow> string \<Rightarrow> int \<Rightarrow> int \<Rightarrow> int \<Rightarrow> status handler" where
  "createAppData_de env uuid packageName userId appId seInfo targetMode uid cacheGid =
     with_some (de_package env uuid userId packageName) (\<lambda>path.
       bindp (prepare_storage path seInfo targetMode uid cacheGid) (\<lambda>st.
         if st \<noteq> StatusOk then Ret st
         else bindp (prepare_app_profile_dir env packageName appId userId)
           (\<lambda>ok. if \<not> ok then error_now else Ret StatusOk)))"

definition createAppData ::
  "svc_env \<Rightarrow> cstring \<Rightarrow> string \<Rightarrow> int \<Rightarrow> int \<Rightarrow> int \<Rightarrow> string \<Rightarrow> int \<Rightarrow> bool \<Rightarrow> (status \<times> int option) handler" where
  "createAppData env uuid packageName userId flags appId seInfo targetSdkVersion want_inode =
     guard [uid_check env, checkArgumentUuid uuid, checkArgumentPackageName packageName] (\<lambda>st. (st, None))
       (let uid = se_get_uid env userId appId;
            cacheGid = (if se_cache_gid env userId appId = -1 then uid else se_cache_gid env userId appId);
            targetMode = (if targetSdkVersion \<ge> 24 then 448 else 489);
            stored = (\<lambda>i. if want_inode then Some i else None)
        in bindp (if has_flag flags FLAG_STORAGE_CE
                  then createAppData_ce env uuid packageName userId seInfo targetMode uid cacheGid want_inode
                  else Ret (StatusOk, -1))
             (\<lambda>(st, i).
               if st \<noteq> StatusOk then Ret (st, stored i)
               else if has_flag flags FLAG_STORAGE_DE then
                 bindp (createAppData_de env uuid packageName userId appId seInfo targetMode uid cacheGid)
                   (\<lambda>st. Ret (st, stored i))
               else Ret (StatusOk, stored i)))"

section \<open>Migrating\<close>

definition migrateAppData ::
  "svc_env \<Rightarrow> cstring \<Rightarrow> string \<Rightarrow> int \<Rightarrow> int \<Rightarrow> status handler" where
  "migrateAppData env uuid packageName userId flags =
     guard [uid_check env, checkArgumentUuid uuid, checkArgumentPackageName packageName] id
       (with_some (ce_package env uuid userId packageName) (\<lambda>ce_path.
        with_some (de_package env uuid userId packageName) (\<lambda>de_path.
          let target = (if has_flag flags FLAG_STORAGE_DE then de_path else ce_path);
              source = (if has_flag flags FLAG_STORAGE_DE then ce_path else de_path);
              move = Call (GetXattr target ''user.default'') (\<lambda>r.
                if rc r \<noteq> -1 then Ret StatusOk
                else Call (DeleteContents target True False) (\<lambda>d.
                  if rc d \<noteq> 0 then error_now
                  else Call (Rename source target) (\<lambda>m. if rc m \<noteq> 0 then error_now else Ret StatusOk)));
              mark = Call (SetXattr ce_path ''user.default'') (\<lambda>s. if rc s \<noteq> 0 then error_now else move)
          in Call (GetXattr ce_path ''user.default'') (\<lambda>c.
               if rc c \<noteq> -1 then move
               else Call (GetXattr de_path ''user.default'') (\<lambda>d. if rc d = -1 then mark else move)))))"

section \<open>Clearing\<close>

definition clearAppProfiles :: "svc_env \<Rightarrow> string \<Rightarrow> string \<Rightarrow> status handler" where
  "clearAppProfiles env packageName profileName =
     guard [uid_check env, checkArgumentPackageName packageName] id
       (Call (ClearReferenceProfile packageName profileName) (\<lambda>r1.
          bindp (if rc r1 = 0 then error_now else Ret StatusOk) (\<lambda>res.
            Call (ClearCurrentProfiles packageName profileName) (\<lambda>r2.
              if rc r2 = 0 then error_now else Ret res))))"

definition clear_ce :: "svc_env \<Rightarrow> cstring \<Rightarrow> string \<Rightarrow> int \<Rightarrow> int \<Rightarrow> int \<Rightarrow> status \<Rightarrow> status handler" where
  "clear_ce env uuid packageName userId flags ceDataInode res =
     with_some (ce_package_inode env uuid userId packageName ceDataInode) (\<lambda>package.
       let path = (if has_flag flags FLAG_CLEAR_CACHE_ONLY
                   then read_path_inode (se_inodes env) package ''cache'' ''user.inode_cache''
                   else if has_flag flags FLAG_CLEAR_CODE_CACHE_ONLY
                   then read_path_inode (se_inodes env) package ''code_cache'' ''user.inode_code_cache''
                   else package)
       in Call (Access path) (\<lambda>a.
            if rc a = 0 then
              Call (DeleteContents path False False) (\<lambda>d.
                if rc d \<noteq> 0 then error_now
                else if has_flag flags (FLAG_CLEAR_CACHE_ONLY OR FLAG_CLEAR_CODE_CACHE_ONLY) then Ret res
                else do_calls [RemoveXattr path ''user.inode_cache'', RemoveXattr path ''user.inode_code_cache''] (Ret res))
            else Ret res))"

definition clear_de :: "svc_env \<Rightarrow> cstring \<Rightarrow> string \<Rightarrow> int \<Rightarrow> int \<Rightarrow> status \<Rightarrow> status handler" where
  "clear_de env uuid packageName userId flags res =
     (let suffix = (if has_flag flags FLAG_CLEAR_CACHE_ONLY then ''/cache''
                    else if has_flag flags FLAG_CLEAR_CODE_CACHE_ONLY then ''/code_cache'' else [])
      in with_some (de_package env uuid userId packageName) (\<lambda>p.
           let path = p @ suffix in
           Call (Access path) (\<lambda>a.
             if rc a = 0 then try_call (DeleteContents path False False) res else Ret res)))"

text \<open>
  The loops over the storage mounts: source and target of each, in the order of the unordered
  map.  \<open>None\<close> is a mount that is skipped.
\<close>

definition external_path :: "int \<Rightarrow> string \<times> string \<Rightarrow> string option" where
  "external_path userId n =
     (if take 14 (fst n) \<noteq> ''/mnt/media_rw/'' then Some (snd n @ ''/'' @ dec_int userId)
      else if userId \<noteq> 0 then None
      else Some (snd n))"

fun try_calls :: "call list \<Rightarrow> status \<Rightarrow> status handler" where
  "try_calls [] res = Ret res"
| "try_calls (c # cs) res = bindp (try_call c res) (try_calls cs)"

definition external_clear_calls :: "int \<Rightarrow> string \<Rightarrow> string \<Rightarrow> call list" where
  "external_clear_calls flags pkgname extPath =
     (if has_flag flags FLAG_CLEAR_CACHE_ONLY
      then [DeleteContents (extPath @ ''/Android/data/'' @ pkgname @ ''/cache'') False True]
      else if has_flag flags FLAG_CLEAR_CODE_CACHE_ONLY then []
      else [DeleteContents (extPath @ ''/Android/data/'' @ pkgname) False True,
            DeleteContents (extPath @ ''/Android/media/'' @ pkgname) False True,
            DeleteContents (extPath @ ''/Android/obb/'' @ pkgname) False True])"

fun clear_external ::
  "int \<Rightarrow> int \<Rightarrow> string \<Rightarrow> (string \<times> string) list \<Rightarrow> status \<Rightarrow> status handler" where
  "clear_external userId flags pkgname [] res = Ret res"
| "clear_external userId flags pkgname (n # ns) res =
     (case external_path userId n of
        None \<Rightarrow> clear_external userId flags pkgname ns res
      | Some extPath \<Rightarrow>
          bindp (try_calls (external_clear_calls flags pkgname extPath) res)
            (clear_external userId flags pkgname ns))"

definition clearAppData ::
  "svc_env \<Rightarrow> (string \<times> string) list \<Rightarrow> cstring \<Rightarrow> string \<Rightarrow> int \<Rightarrow> int \<Rightarrow> int \<Rightarrow> status handler" where
  "clearAppData env mounts uuid packageName userId flags ceDataInode =
     guard [uid_check env, checkArgumentUuid uuid, checkArgumentPackageName packageName] id
       (bindp (if has_flag flags FLAG_STORAGE_CE
               then clear_ce env uuid packageName userId flags ceDataInode StatusOk else Ret StatusOk) (\<lambda>res.
        bindp (if has_flag flags FLAG_STORAGE_DE
               then clear_de env uuid packageName userId flags res else Ret res) (\<lambda>res.
        if has_flag flags FLAG_STORAGE_EXTERNAL
        then clear_external userId flags packageName mounts res else Ret res)))"

section \<open>Destroying\<close>

definition destroy_app_reference_profile :: "svc_env \<Rightarrow> string \<Rightarrow> int handler" where
  "destroy_app_reference_profile env pkgname =
     with_some (create_primary_reference_profile_package_dir_path (se_globals env) pkgname)
       (\<lambda>p. rc_of (DeleteContents p True True))"

definition destroy_app_current_profiles :: "svc_env \<Rightarrow> string \<Rightarrow> nat \<Rightarrow> int handler" where
  "destroy_app_current_profiles env pkgname userid =
     with_some (create_primary_current_profile_package_dir_path (se_globals env) userid pkgname)
       (\<lambda>p. rc_of (DeleteContents p True True))"

fun destroy_current_loop :: "svc_env \<Rightarrow> string \<Rightarrow> int list \<Rightarrow> status \<Rightarrow> status handler" where
  "destroy_current_loop env packageName [] res = Ret res"
| "destroy_current_loop env packageName (u # us) res =
     bindp (destroy_app_current_profiles env packageName (nat u)) (\<lambda>r.
       bindp (if r \<noteq> 0 then error_now else Ret res) (destroy_current_loop env packageName us))"

definition destroyAppProfiles :: "svc_env \<Rightarrow> string \<Rightarrow> status handler" where
  "destroyAppProfiles env packageName =
     guard [uid_check env, checkArgumentPackageName packageName] id
       (bindp (destroy_current_loop env packageName (get_known_users (se_users env None)) StatusOk) (\<lambda>res.
        bindp (destroy_app_reference_profile env packageName) (\<lambda>r.
          if r \<noteq> 0 then error_now else Ret res)))"

fun destroy_external :: "int \<Rightarrow> string \<Rightarrow> (string \<times> string) list \<Rightarrow> status \<Rightarrow> status handler" where
  "destroy_external userId pkgname [] res = Ret res"
| "destroy_external userId pkgname (n # ns) res =
     (case external_path userId n of
        None \<Rightarrow> destroy_external userId pkgname ns res
      | Some extPath \<Rightarrow>
          bindp (try_calls [DeleteContents (extPath @ ''/Android/data/'' @ pkgname) True True,
                   DeleteContents (extPath @ ''/Android/media/'' @ pkgname) True True,
                   DeleteContents (extPath @ ''/Android/obb/'' @ pkgname) True True] res)
            (destroy_external userId pkgname ns))"

definition destroyAppData ::
  "svc_env \<Rightarrow> (string \<times> string) list \<Rightarrow> cstring \<Rightarrow> string \<Rightarrow> int \<Rightarrow> int \<Rightarrow> int \<Rightarrow> status handler" where
  "destroyAppData env mounts uuid packageName userId flags ceDataInode =
     guard [uid_check env, checkArgumentUuid uuid, checkArgumentPackageName packageName] id
       (bindp (if has_flag flags FLAG_STORAGE_CE
               then with_some (ce_package_inode env uuid userId packageName ceDataInode)
                      (\<lambda>path. try_call (DeleteContents path True False) StatusOk)
               else Ret StatusOk) (\<lambda>res.
        bindp (if has_flag flags FLAG_STORAGE_DE
               then with_some (de_package env uuid userId packageName) (\<lambda>path.
                      bindp (try_call (DeleteContents path True False) res) (\<lambda>res.
                      bindp (destroy_app_current_profiles env packageName (user_nat userId)) (\<lambda>r.
                      bindp (destroy_app_reference_profile env packageName) (\<lambda>r. Ret res))))
               else Ret res) (\<lambda>res.
        if has_flag flags FLAG_STORAGE_EXTERNAL
        then destroy_external userId packageName mounts res else Ret res)))"

section \<open>Users\<close>

definition createUserData :: "svc_env \<Rightarrow> cstring \<Rightarrow> int \<Rightarrow> int \<Rightarrow> status handler" where
  "createUserData env uuid userId flags =
     guard [uid_check env, checkArgumentUuid uuid] id
       (if has_flag flags FLAG_STORAGE_DE \<and> uuid = None
        then Call (EnsureConfigUserDirs userId) (\<lambda>r. if rc r \<noteq> 0 then error_now else Ret StatusOk)
        else Ret StatusOk)"

text \<open>\<open>findDataMediaPath\<close> may add a key to the mounts, which are therefore a result.\<close>

definition destroyUserData ::
  "svc_env \<Rightarrow> (string \<rightharpoonup> string) \<Rightarrow> cstring \<Rightarrow> int \<Rightarrow> int \<Rightarrow> (status \<times> (string \<rightharpoonup> string)) handler" where
  "destroyUserData env mounts uuid userId flags =
     guard [uid_check env, checkArgumentUuid uuid] (\<lambda>st. (st, mounts))
       (bindp (if has_flag flags FLAG_STORAGE_DE
               then with_some (create_data_user_de_path (se_paths env) uuid (user_nat userId)) (\<lambda>path.
                      bindp (try_call (DeleteContents path True True) StatusOk) (\<lambda>res.
                      if uuid = None then
                        with_some (create_data_misc_legacy_path (se_paths env) (user_nat userId)) (\<lambda>path.
                          try_calls [DeleteContents path True True,
                            DeleteContents (create_primary_cur_profile_dir_path (se_globals env) (user_nat userId))
                              True True] res)
                      else Ret res))
               else Ret StatusOk) (\<lambda>res.
        if has_flag flags FLAG_STORAGE_CE
        then with_some (create_data_user_ce_path (se_paths env) uuid (user_nat userId)) (\<lambda>path.
               bindp (try_call (DeleteContents path True True) res) (\<lambda>res.
               with_some (findDataMediaPath (se_paths env) uuid (user_nat userId) mounts) (\<lambda>(media, mounts').
               bindp (try_call (DeleteContents media True True) res) (\<lambda>res. Ret (res, mounts')))))
        else Ret (res, mounts)))"

end
