(* ===== verification/InstalldAppCorrect.thy ===== *)
theory InstalldAppCorrect
  imports InstalldApp
begin

text \<open>
  What the handlers of \<open>InstalldApp\<close> do, for every behaviour of the operating system: the
  directories they delete, and what their status says of it.
\<close>

section \<open>Deletions in a history\<close>

fun is_delete :: "call \<Rightarrow> bool" where
  "is_delete (DeleteContents p d i) = True"
| "is_delete _ = False"

fun del_path :: "call \<Rightarrow> string" where
  "del_path (DeleteContents p d i) = p"
| "del_path _ = []"

definition deletes :: "(call, reply) history \<Rightarrow> call list" where
  "deletes h = filter is_delete (map fst h)"

definition deletes_ok :: "(call, reply) history \<Rightarrow> bool" where
  "deletes_ok h \<longleftrightarrow> list_all (\<lambda>(c, r). is_delete c \<longrightarrow> rc r = 0) h"

lemma deletes_simps [simp]:
  "deletes [] = []" "deletes (h @ g) = deletes h @ deletes g"
  "deletes ((c, r) # h) = (if is_delete c then c # deletes h else deletes h)"
  by (simp_all add: deletes_def)

lemma deletes_ok_simps [simp]:
  "deletes_ok []" "deletes_ok (h @ g) \<longleftrightarrow> deletes_ok h \<and> deletes_ok g"
  "deletes_ok ((c, r) # h) \<longleftrightarrow> (is_delete c \<longrightarrow> rc r = 0) \<and> deletes_ok h"
  by (simp_all add: deletes_ok_def)

text \<open>The calls of a history but those that only ask for the errno.\<close>

definition asked :: "(call, reply) history \<Rightarrow> (call, reply) history" where
  "asked h = filter (\<lambda>(c, r). c \<noteq> GetErrno) h"

lemma asked_simps [simp]:
  "asked [] = []" "asked (h @ g) = asked h @ asked g"
  "asked ((c, r) # h) = (if c = GetErrno then asked h else (c, r) # asked h)"
  by (simp_all add: asked_def)

lemma deletes_asked [simp]: "deletes (asked h) = deletes h"
proof (induction h)
  case (Cons x h)
  then show ?case by (cases x; cases "fst x") auto
qed simp

text \<open>
  A program that takes the status so far: \<open>goes\<close> says that it returns, which calls it makes, and that it leaves an ok
  status exactly when it found one and no deletion failed.
\<close>

definition goes :: "(status \<Rightarrow> status handler) \<Rightarrow> ((call, reply) history \<Rightarrow> bool) \<Rightarrow> bool" where
  "goes f D \<longleftrightarrow> (\<forall>res. yields (f res)
     (\<lambda>st t. D (asked t) \<and> (st = StatusOk \<longleftrightarrow> res = StatusOk \<and> deletes_ok t)))"

text \<open>Only the deletions.\<close>

definition emits :: "'a handler \<Rightarrow> (call list \<Rightarrow> bool) \<Rightarrow> bool" where
  "emits p D \<longleftrightarrow> yields p (\<lambda>a t. D (deletes t))"

lemma goes_Ret: "D [] \<Longrightarrow> goes Ret D"
  by (simp add: goes_def)

lemma goes_try_call: "(\<And>r. D [(DeleteContents p d i, r)]) \<Longrightarrow> goes (try_call (DeleteContents p d i)) D"
  by (auto simp: goes_def try_call_def error_now_def)

lemma goes_mono: "goes f A \<Longrightarrow> (\<And>t. A t \<Longrightarrow> D t) \<Longrightarrow> goes f D"
  unfolding goes_def by (blast intro: yields_mono)

lemma goes_bind:
  assumes f: "goes f A" and g: "goes g B" and D: "\<And>a b. A a \<Longrightarrow> B b \<Longrightarrow> D (a @ b)"
  shows "goes (\<lambda>res. bindp (f res) g) D"
  unfolding goes_def yields_bindp
proof
  fix res
  show "yields (f res) (\<lambda>a t. yields (g a) (\<lambda>b u. D (asked (t @ u)) \<and>
      (b = StatusOk \<longleftrightarrow> res = StatusOk \<and> deletes_ok (t @ u))))"
  proof (rule yields_mono [OF f [unfolded goes_def, rule_format, of res]])
    fix a t assume 1: "A (asked t) \<and> (a = StatusOk \<longleftrightarrow> res = StatusOk \<and> deletes_ok t)"
    show "yields (g a) (\<lambda>b u. D (asked (t @ u)) \<and> (b = StatusOk \<longleftrightarrow> res = StatusOk \<and> deletes_ok (t @ u)))"
      by (rule yields_mono [OF g [unfolded goes_def, rule_format, of a]]) (use 1 D in auto)
  qed
qed

lemma goes_try_calls:
  "list_all is_delete cs \<Longrightarrow> goes (try_calls cs) (\<lambda>t. map fst t = cs)"
proof (induction cs)
  case Nil
  then show ?case by (simp add: goes_def)
next
  case (Cons c cs)
  obtain p d i where c: "c = DeleteContents p d i" using Cons.prems by (cases c) auto
  have "goes (try_call c) (\<lambda>t. map fst t = [c])" unfolding c by (rule goes_try_call) simp
  moreover have "goes (try_calls cs) (\<lambda>t. map fst t = cs)" using Cons by simp
  ultimately have "goes (\<lambda>res. bindp (try_call c res) (try_calls cs)) (\<lambda>t. map fst t = c # cs)"
    by (rule goes_bind) auto
  then show ?case by simp
qed

lemma goes_if: "(b \<Longrightarrow> goes f D) \<Longrightarrow> (\<not> b \<Longrightarrow> goes g D) \<Longrightarrow> goes (\<lambda>res. if b then f res else g res) D"
  by (auto simp: goes_def)

section \<open>Clearing\<close>

text \<open>What clearing is about: the cache flag is looked at first.\<close>

datatype clear_scope = Everything | OnlyCache | OnlyCodeCache

definition scope_of :: "int \<Rightarrow> clear_scope" where
  "scope_of flags =
     (if has_flag flags FLAG_CLEAR_CACHE_ONLY then OnlyCache
      else if has_flag flags FLAG_CLEAR_CODE_CACHE_ONLY then OnlyCodeCache else Everything)"

text \<open>
  The directory to clear in each storage of a package.  In the CE storage a cache is found by the inode in the mark of the
  package's directory, since its name may be encrypted; on shared storage there is no code cache.
\<close>

definition ce_target :: "inode_env \<Rightarrow> string \<Rightarrow> clear_scope \<Rightarrow> string" where
  "ce_target env root sc =
     (case sc of Everything \<Rightarrow> root
      | OnlyCache \<Rightarrow> read_path_inode env root ''cache'' ''user.inode_cache''
      | OnlyCodeCache \<Rightarrow> read_path_inode env root ''code_cache'' ''user.inode_code_cache'')"

definition de_target :: "string \<Rightarrow> clear_scope \<Rightarrow> string" where
  "de_target root sc = root @ (case sc of Everything \<Rightarrow> [] | OnlyCache \<Rightarrow> ''/cache'' | OnlyCodeCache \<Rightarrow> ''/code_cache'')"

definition external_roots :: "int \<Rightarrow> string \<Rightarrow> string \<times> string \<Rightarrow> string list" where
  "external_roots userId pkgname n =
     (case external_path userId n of
        None \<Rightarrow> []
      | Some e \<Rightarrow> [e @ ''/Android/data/'' @ pkgname, e @ ''/Android/media/'' @ pkgname,
                   e @ ''/Android/obb/'' @ pkgname])"

definition external_cleared :: "clear_scope \<Rightarrow> int \<Rightarrow> string \<Rightarrow> string \<times> string \<Rightarrow> string list" where
  "external_cleared sc userId pkgname n =
     (case sc of Everything \<Rightarrow> external_roots userId pkgname n
      | OnlyCache \<Rightarrow> map (\<lambda>r. r @ ''/cache'') (take 1 (external_roots userId pkgname n))
      | OnlyCodeCache \<Rightarrow> [])"

text \<open>
  A directory is looked for; its contents are deleted when it is there, and in the end the marks of the caches are
  removed when they were to go and the deletion succeeded.
\<close>

definition dir_cleared :: "string \<Rightarrow> bool \<Rightarrow> (call, reply) history \<Rightarrow> bool" where
  "dir_cleared q marks t \<longleftrightarrow>
     (\<exists>a. t = [(Access q, a)] \<and> rc a \<noteq> 0) \<or>
     (\<exists>a d x. t = (Access q, a) # (DeleteContents q False False, d) # x \<and> rc a = 0 \<and>
        map fst x = (if marks \<and> rc d = 0 then [RemoveXattr q ''user.inode_cache'', RemoveXattr q ''user.inode_code_cache''] else []))"

text \<open>Everything \<open>clearAppData\<close> asks the system for.\<close>

definition cleared_storage ::
  "svc_env \<Rightarrow> (string \<times> string) list \<Rightarrow> cstring \<Rightarrow> string \<Rightarrow> int \<Rightarrow> int \<Rightarrow> int \<Rightarrow> (call, reply) history \<Rightarrow> bool" where
  "cleared_storage env mounts uuid p userId flags ino t \<longleftrightarrow>
     (\<exists>ce de ex. t = ce @ de @ ex \<and>
        (if has_flag flags FLAG_STORAGE_CE
         then dir_cleared (ce_target (se_inodes env) (the (ce_package_inode env uuid userId p ino)) (scope_of flags))
           (scope_of flags = Everything) ce
         else ce = []) \<and>
        (if has_flag flags FLAG_STORAGE_DE
         then dir_cleared (de_target (the (de_package env uuid userId p)) (scope_of flags)) False de
         else de = []) \<and>
        map fst ex = (if has_flag flags FLAG_STORAGE_EXTERNAL
          then map (\<lambda>q. DeleteContents q False True) (concat (map (external_cleared (scope_of flags) userId p) mounts))
          else []))"

text \<open>The directories whose contents may go.\<close>

definition clear_paths ::
  "svc_env \<Rightarrow> (string \<times> string) list \<Rightarrow> cstring \<Rightarrow> string \<Rightarrow> int \<Rightarrow> clear_scope \<Rightarrow> int \<Rightarrow> string list" where
  "clear_paths env mounts uuid p userId sc ino =
     ce_target (se_inodes env) (the (ce_package_inode env uuid userId p ino)) sc #
     de_target (the (de_package env uuid userId p)) sc # concat (map (external_cleared sc userId p) mounts)"

lemma dir_cleared_deletes: "dir_cleared q marks t \<Longrightarrow> c \<in> set (deletes t) \<Longrightarrow> del_path c = q"
proof -
  have quiet: "\<forall>c \<in> set cs. \<not> is_delete c \<Longrightarrow> map fst x = cs \<Longrightarrow> deletes x = []" for cs x
    by (auto simp: deletes_def filter_empty_conv)
  assume "dir_cleared q marks t" "c \<in> set (deletes t)"
  then show ?thesis
    unfolding dir_cleared_def by (elim disjE exE conjE) (auto dest!: quiet [rotated] split: if_splits)
qed

lemma cleared_storage_deletes:
  assumes "cleared_storage env mounts uuid p userId flags ino t" "c \<in> set (deletes t)"
  shows "del_path c \<in> set (clear_paths env mounts uuid p userId (scope_of flags) ino)"
proof -
  from assms(1) obtain ce de ex where t: "t = ce @ de @ ex"
    and ce: "if has_flag flags FLAG_STORAGE_CE
         then dir_cleared (ce_target (se_inodes env) (the (ce_package_inode env uuid userId p ino)) (scope_of flags))
           (scope_of flags = Everything) ce else ce = []"
    and de: "if has_flag flags FLAG_STORAGE_DE
         then dir_cleared (de_target (the (de_package env uuid userId p)) (scope_of flags)) False de else de = []"
    and ex: "map fst ex = (if has_flag flags FLAG_STORAGE_EXTERNAL
          then map (\<lambda>q. DeleteContents q False True) (concat (map (external_cleared (scope_of flags) userId p) mounts)) else [])"
    unfolding cleared_storage_def by blast
  from ex have "\<forall>c \<in> set (deletes ex). del_path c \<in> set (concat (map (external_cleared (scope_of flags) userId p) mounts))"
    by (auto simp: deletes_def)
  with assms(2) ce de show ?thesis
    by (auto simp: t clear_paths_def dest: dir_cleared_deletes split: if_splits)
qed

lemma flag_or: "has_flag f (a OR b) \<longleftrightarrow> has_flag f a \<or> has_flag f b"
proof -
  have "f AND (a OR b) = (f AND a) OR (f AND b)" by (simp add: bit_eq_iff bit_simps) blast
  then show ?thesis by (auto simp: has_flag_def or_eq_0_iff)
qed

lemma package_paths_exist:
  assumes "usable_volume (se_paths env) uuid" and "is_valid_package_name p"
  shows "\<exists>c. ce_package env uuid userId p = Some c" "\<exists>d. de_package env uuid userId p = Some d"
    "\<exists>c. ce_package_inode env uuid userId p ino = Some c"
proof -
  obtain d where "create_data_path (se_paths env) uuid = Some d"
    using assms(1) by (auto simp: create_data_path_usable)
  then show "\<exists>c. ce_package env uuid userId p = Some c" "\<exists>d. de_package env uuid userId p = Some d"
    "\<exists>c. ce_package_inode env uuid userId p ino = Some c"
    using assms(2) by (simp_all add: create_data_user_ce_package_path_def create_data_user_ce_path_def
        ce_package_inode_def create_data_user_ce_package_path_inode_def create_data_user_de_package_path_def
        create_data_user_de_path_def check_package_name_bind Let_def)
qed

lemma usable_volume_valid: "usable_volume env uuid \<Longrightarrow> checkArgumentUuid uuid = StatusOk"
  by (auto simp: usable_volume_def split: option.splits)

lemma goes_clear_ce:
  assumes "ce_package_inode env uuid userId p ino = Some root"
  shows "goes (clear_ce env uuid p userId flags ino)
    (dir_cleared (ce_target (se_inodes env) root (scope_of flags)) (scope_of flags = Everything))"
  by (auto simp: goes_def clear_ce_def assms Let_def error_now_def dir_cleared_def ce_target_def scope_of_def flag_or)

lemma goes_clear_de:
  assumes "de_package env uuid userId p = Some root"
  shows "goes (clear_de env uuid p userId flags) (dir_cleared (de_target root (scope_of flags)) False)"
  by (auto simp: goes_def clear_de_def assms Let_def try_call_def error_now_def dir_cleared_def de_target_def scope_of_def)

lemma external_clear_calls_eq:
  "external_path userId n = Some e \<Longrightarrow>
   external_clear_calls flags p e = map (\<lambda>q. DeleteContents q False True) (external_cleared (scope_of flags) userId p n)"
  by (simp add: external_clear_calls_def external_cleared_def external_roots_def scope_of_def)

lemma goes_clear_external:
  "goes (clear_external userId flags p ns)
    (\<lambda>t. map fst t = map (\<lambda>q. DeleteContents q False True) (concat (map (external_cleared (scope_of flags) userId p) ns)))"
proof (induction ns)
  case Nil
  show ?case by (simp add: goes_def)
next
  case (Cons n ns)
  show ?case
  proof (cases "external_path userId n")
    case None
    then have "clear_external userId flags p (n # ns) = clear_external userId flags p ns" by (simp add: fun_eq_iff)
    moreover have "external_cleared (scope_of flags) userId p n = []"
      using None by (simp add: external_cleared_def external_roots_def split: clear_scope.split)
    ultimately show ?thesis using Cons by simp
  next
    case (Some e)
    have 1: "goes (try_calls (external_clear_calls flags p e)) (\<lambda>t. map fst t = external_clear_calls flags p e)"
      by (rule goes_try_calls) (simp add: external_clear_calls_def)
    have "goes (\<lambda>res. bindp (try_calls (external_clear_calls flags p e) res) (clear_external userId flags p ns))
        (\<lambda>t. map fst t = map (\<lambda>q. DeleteContents q False True) (concat (map (external_cleared (scope_of flags) userId p) (n # ns))))"
      by (rule goes_bind [OF 1 Cons]) (simp add: external_clear_calls_eq [OF Some])
    moreover have "clear_external userId flags p (n # ns) =
        (\<lambda>res. bindp (try_calls (external_clear_calls flags p e) res) (clear_external userId flags p ns))"
      by (simp add: Some fun_eq_iff)
    ultimately show ?thesis by simp
  qed
qed

lemma clearAppData_yields:
  assumes "uid_check env = StatusOk" and "usable_volume (se_paths env) uuid" and "is_valid_package_name p"
  shows "yields (clearAppData env mounts uuid p userId flags ino)
    (\<lambda>st t. cleared_storage env mounts uuid p userId flags ino (asked t) \<and> (st = StatusOk \<longleftrightarrow> deletes_ok t))"
proof -
  obtain c d where c: "ce_package_inode env uuid userId p ino = Some c" and d: "de_package env uuid userId p = Some d"
    using package_paths_exist [OF assms(2,3)] by metis
  let ?C = "\<lambda>res. if has_flag flags FLAG_STORAGE_CE then clear_ce env uuid p userId flags ino res else Ret res"
  let ?D = "\<lambda>res. if has_flag flags FLAG_STORAGE_DE then clear_de env uuid p userId flags res else Ret res"
  let ?E = "\<lambda>res. if has_flag flags FLAG_STORAGE_EXTERNAL then clear_external userId flags p mounts res else Ret res"
  let ?c = "\<lambda>t. if has_flag flags FLAG_STORAGE_CE
    then dir_cleared (ce_target (se_inodes env) c (scope_of flags)) (scope_of flags = Everything) t else t = []"
  let ?d = "\<lambda>t. if has_flag flags FLAG_STORAGE_DE then dir_cleared (de_target d (scope_of flags)) False t else t = []"
  let ?e = "\<lambda>t. map fst t = (if has_flag flags FLAG_STORAGE_EXTERNAL
    then map (\<lambda>q. DeleteContents q False True) (concat (map (external_cleared (scope_of flags) userId p) mounts)) else [])"
  have 1: "goes ?C ?c" using goes_clear_ce [OF c] by (intro goes_if) (simp_all add: goes_Ret)
  have 2: "goes ?D ?d" using goes_clear_de [OF d] by (intro goes_if) (simp_all add: goes_Ret)
  have 3: "goes ?E ?e" using goes_clear_external by (intro goes_if) (simp_all add: goes_Ret)
  have 4: "goes (\<lambda>res. bindp (?D res) ?E) (\<lambda>t. \<exists>de ex. t = de @ ex \<and> ?d de \<and> ?e ex)"
    by (rule goes_bind [OF 2 3]) blast
  have 5: "goes (\<lambda>res. bindp (?C res) (\<lambda>res. bindp (?D res) ?E)) (cleared_storage env mounts uuid p userId flags ino)"
  proof (rule goes_bind [OF 1 4])
    fix a b assume "?c a" "\<exists>de ex. b = de @ ex \<and> ?d de \<and> ?e ex"
    then show "cleared_storage env mounts uuid p userId flags ino (a @ b)"
      unfolding cleared_storage_def c d option.sel by blast
  qed
  have "clearAppData env mounts uuid p userId flags ino = bindp (?C StatusOk) (\<lambda>res. bindp (?D res) ?E)"
    using assms usable_volume_valid by (simp add: clearAppData_def isOk_def)
  then show ?thesis using 5 [unfolded goes_def, rule_format, of StatusOk] by (simp only: simp_thms)
qed

text \<open>
  C6: what \<open>clearAppData\<close> does for a permitted caller and valid arguments, whatever the file system does.  It returns, and asks for
  exactly this, in this order: with the CE flag, whether the directory to clear is there, and if so to delete its contents; the same with the DE
  flag; and with the external flag, to delete the contents of the package's directories on every mount.  The directories are those of the
  package, with the cache flag the cache in each of them (on shared storage that of the data directory), else with the code cache flag the
  code cache (on shared storage nothing).  Only when the whole CE directory was cleared without a failure are the marks of the caches removed.  The
  status is ok exactly when no deletion failed.
\<close>

theorem clearAppData_outcome:
  assumes "uid_check env = StatusOk" and "usable_volume (se_paths env) uuid" and "is_valid_package_name p"
  shows "\<exists>st h. run (clearAppData env mounts uuid p userId flags ino) os [] = (Some st, h) \<and>
    cleared_storage env mounts uuid p userId flags ino (asked h) \<and> (st = StatusOk \<longleftrightarrow> deletes_ok h)"
  using yields_run [OF clearAppData_yields [OF assms], of mounts userId flags ino os "[]"] by auto

section \<open>Destroying\<close>

text \<open>A demonstration platform: caller and system have UID 1000, nothing is looked up.\<close>

definition demo_svc :: svc_env where
  "demo_svc = \<lparr>se_paths = plain_env, se_globals = std_globals,
     se_inodes = \<lparr>get_inode_xattr = (\<lambda>p x. None), list_dir = (\<lambda>p. None), stat_ino = (\<lambda>p. None)\<rparr>,
     se_users = (\<lambda>u. None), se_calling_uid = 1000, AID_ROOT = 0, AID_SYSTEM = 1000, AID_INSTALL = 1012,
     se_get_uid = (\<lambda>u a. u * 100000 + a), se_cache_gid = (\<lambda>u a. u * 100000 + a + 10000),
     se_shared_gid = (\<lambda>u a. a + 40000), se_user_of = (\<lambda>u. u div 100000), se_app_of = (\<lambda>u. u mod 100000),
     se_usejitprofiles = True\<rparr>"

text \<open>An operating system on which every call fails with \<open>EIO\<close>, and one on which all succeed.\<close>

definition failing_os :: "(call, reply) os_oracle" where
  "failing_os h c = \<lparr>rc = (if c = GetErrno then 5 else if is_delete c then -5 else 0), r_str = [], r_uid = 0,
     r_gid = 0, r_mode = 0, r_ino = 0, r_trees = None\<rparr>"

lemma demo_svc_ok: "uid_check demo_svc = StatusOk" "usable_volume (se_paths demo_svc) None"
  "is_valid_package_name ''com.example''"
  by (simp_all add: uid_check_def demo_svc_def checkUid_def usable_volume_def
      is_valid_package_name_def is_alpha_def is_digit_chr_def)

theorem clearAppData_outcome_witness:
  "\<exists>st h. run (clearAppData demo_svc [] None ''com.example'' 0 3 0) failing_os [] = (Some st, h) \<and> st \<noteq> StatusOk"
proof -
  have "\<not> deletes_ok (snd (run (clearAppData demo_svc [] None ''com.example'' 0 3 0) failing_os []))"
    by code_simp
  with clearAppData_outcome [OF demo_svc_ok, of "[]" 0 3 0 failing_os] show ?thesis by auto
qed

definition external_targets :: "int \<Rightarrow> string \<Rightarrow> string \<times> string \<Rightarrow> call list" where
  "external_targets userId pkgname n =
     map (\<lambda>p. DeleteContents p True True) (external_roots userId pkgname n)"

text \<open>Everything \<open>destroyAppData\<close> is meant to remove, in order.\<close>

definition destroy_targets ::
  "svc_env \<Rightarrow> (string \<times> string) list \<Rightarrow> cstring \<Rightarrow> string \<Rightarrow> int \<Rightarrow> int \<Rightarrow> int \<Rightarrow> call list" where
  "destroy_targets env mounts uuid p userId flags ino =
     (if has_flag flags FLAG_STORAGE_CE
      then [DeleteContents (the (ce_package_inode env uuid userId p ino)) True False] else []) @
     (if has_flag flags FLAG_STORAGE_DE
      then [DeleteContents (the (de_package env uuid userId p)) True False,
            DeleteContents (create_primary_cur_profile_dir_path (se_globals env) (user_nat userId) @ ''/'' @ p) True True,
            DeleteContents (android_profiles_dir (se_globals env) @ ''/ref/'' @ p) True True] else []) @
     (if has_flag flags FLAG_STORAGE_EXTERNAL then concat (map (external_targets userId p) mounts) else [])"

lemma emits_Ret: "emits (Ret x) (\<lambda>ds. ds = [])"
  by (simp add: emits_def)

lemma emits_bind:
  assumes p: "emits p (\<lambda>ds. ds = A)" and f: "\<And>x. emits (f x) (\<lambda>ds. ds = B)"
  shows "emits (bindp p f) (\<lambda>ds. ds = A @ B)"
  unfolding emits_def yields_bindp
proof (rule yields_mono [OF p [unfolded emits_def]])
  fix a t assume "deletes t = A"
  then show "yields (f a) (\<lambda>b u. deletes (t @ u) = A @ B)"
    by (intro yields_mono [OF f [unfolded emits_def]]) simp
qed

lemma emits_goes: "goes f (\<lambda>t. deletes t = A) \<Longrightarrow> emits (f res) (\<lambda>ds. ds = A)"
  unfolding goes_def emits_def deletes_asked by (blast intro: yields_mono)

lemma emits_try: "emits (try_call (DeleteContents p d i) res) (\<lambda>ds. ds = [DeleteContents p d i])"
  by (rule emits_goes [OF goes_try_call]) simp

lemma emits_rc_of: "emits (rc_of (DeleteContents p d i)) (\<lambda>ds. ds = [DeleteContents p d i])"
  by (simp add: emits_def rc_of_def)

lemma emits_destroy_external:
  "emits (destroy_external userId p ns res) (\<lambda>ds. ds = concat (map (external_targets userId p) ns))"
proof (induction ns arbitrary: res)
  case Nil
  show ?case by (simp add: emits_Ret)
next
  case (Cons n ns)
  show ?case
  proof (cases "external_path userId n")
    case None
    with Cons show ?thesis by (simp add: external_targets_def external_roots_def)
  next
    case (Some e)
    have 1: "emits (try_calls (external_targets userId p n) res) (\<lambda>ds. ds = external_targets userId p n)"
      by (rule emits_goes [OF goes_mono [OF goes_try_calls]]) (auto simp: external_targets_def list_all_iff deletes_def)
    have "destroy_external userId p (n # ns) res =
        bindp (try_calls (external_targets userId p n) res) (destroy_external userId p ns)"
      by (simp add: Some external_targets_def external_roots_def)
    then show ?thesis using emits_bind [OF 1 Cons] by (simp only: list.map concat.simps)
  qed
qed

text \<open>
  for a permitted caller and valid arguments \<open>destroyAppData\<close> tries to delete exactly the
  directories of the package, each once and in a fixed order, whichever of the deletions fail.
\<close>
theorem destroyAppData_deletes:
  assumes "uid_check env = StatusOk" and "usable_volume (se_paths env) uuid" and "is_valid_package_name p"
  shows "\<exists>st h. run (destroyAppData env mounts uuid p userId flags ino) os [] = (Some st, h) \<and>
    deletes h = destroy_targets env mounts uuid p userId flags ino"
proof -
  obtain c d where c: "ce_package_inode env uuid userId p ino = Some c" and d: "de_package env uuid userId p = Some d"
    using package_paths_exist [OF assms(2,3)] by metis
  have cur: "emits (destroy_app_current_profiles env p (user_nat userId))
      (\<lambda>ds. ds = [DeleteContents (create_primary_cur_profile_dir_path (se_globals env) (user_nat userId) @ ''/'' @ p) True True])"
    and ref: "emits (destroy_app_reference_profile env p)
      (\<lambda>ds. ds = [DeleteContents (android_profiles_dir (se_globals env) @ ''/ref/'' @ p) True True])"
    using assms(3) by (simp_all add: destroy_app_current_profiles_def destroy_app_reference_profile_def emits_rc_of
        create_primary_current_profile_package_dir_path_def create_primary_reference_profile_package_dir_path_def
        check_package_name_bind)
  let ?D = "\<lambda>res. if has_flag flags FLAG_STORAGE_DE
    then bindp (try_call (DeleteContents d True False) res) (\<lambda>res.
      bindp (destroy_app_current_profiles env p (user_nat userId)) (\<lambda>r.
      bindp (destroy_app_reference_profile env p) (\<lambda>r. Ret res))) else Ret res"
  let ?E = "\<lambda>res. if has_flag flags FLAG_STORAGE_EXTERNAL then destroy_external userId p mounts res else Ret res"
  let ?C = "if has_flag flags FLAG_STORAGE_CE then try_call (DeleteContents c True False) StatusOk else Ret StatusOk"
  have 1: "emits ?C (\<lambda>ds. ds = (if has_flag flags FLAG_STORAGE_CE then [DeleteContents c True False] else []))"
    by (simp add: emits_try emits_Ret)
  have profiles: "emits (bindp (destroy_app_current_profiles env p (user_nat userId)) (\<lambda>r.
      bindp (destroy_app_reference_profile env p) (\<lambda>r. Ret (res :: status))))
    (\<lambda>ds. ds = [DeleteContents (create_primary_cur_profile_dir_path (se_globals env) (user_nat userId) @ ''/'' @ p) True True,
      DeleteContents (android_profiles_dir (se_globals env) @ ''/ref/'' @ p) True True])" for res
    using emits_bind [OF cur emits_bind [OF ref emits_Ret [of res]]] by simp
  have 2: "emits (?D res) (\<lambda>ds. ds = (if has_flag flags FLAG_STORAGE_DE then
      [DeleteContents d True False,
       DeleteContents (create_primary_cur_profile_dir_path (se_globals env) (user_nat userId) @ ''/'' @ p) True True,
       DeleteContents (android_profiles_dir (se_globals env) @ ''/ref/'' @ p) True True] else []))" for res
    using emits_bind [OF emits_try [of d True False res] profiles] by (simp add: emits_Ret)
  have 3: "emits (?E res) (\<lambda>ds. ds = (if has_flag flags FLAG_STORAGE_EXTERNAL
      then concat (map (external_targets userId p) mounts) else []))" for res
    by (simp add: emits_destroy_external emits_Ret)
  have "destroyAppData env mounts uuid p userId flags ino = bindp ?C (\<lambda>res. bindp (?D res) ?E)"
    using assms usable_volume_valid by (simp add: destroyAppData_def isOk_def c d)
  then have "emits (destroyAppData env mounts uuid p userId flags ino)
      (\<lambda>ds. ds = destroy_targets env mounts uuid p userId flags ino)"
    using emits_bind [OF 1 emits_bind [OF 2 3]] by (simp only: destroy_targets_def c d option.sel)
  from yields_run [OF this [unfolded emits_def], of os "[]"] show ?thesis by simp
qed

theorem destroyAppData_deletes_witness:
  "\<exists>st h. run (destroyAppData demo_svc [] None ''com.example'' 0 2 0) failing_os [] = (Some st, h) \<and>
    deletes h = [DeleteContents ''/data/user/0/com.example'' True False]"
proof -
  have "destroy_targets demo_svc [] None ''com.example'' 0 2 0 = [DeleteContents ''/data/user/0/com.example'' True False]"
    by code_simp
  with destroyAppData_deletes [OF demo_svc_ok, of "[]" 0 2 0 failing_os] show ?thesis by simp
qed

end
