(* ===== verification/InstalldSnapshot.thy ===== *)
theory InstalldSnapshot
  imports InstalldAppCorrect
begin

text \<open>
  The handlers of \<open>installd/InstalldNativeService.cpp\<close> that copy the data of an app: snapshots
  and their restoration, and the move of a complete app to another volume.
\<close>

section \<open>Labels\<close>

definition restorecon_storage :: "string option \<Rightarrow> string \<Rightarrow> int \<Rightarrow> status \<Rightarrow> status handler" where
  "restorecon_storage path seInfo uid res =
     with_some path (\<lambda>path. Call (RestoreconPkgdir path seInfo uid True) (\<lambda>r.
       if rc r < 0 then error_now else Ret res))"

definition restoreconAppData ::
  "svc_env \<Rightarrow> cstring \<Rightarrow> string \<Rightarrow> int \<Rightarrow> int \<Rightarrow> int \<Rightarrow> string \<Rightarrow> status handler" where
  "restoreconAppData env uuid packageName userId flags appId seInfo =
     guard [uid_check env, checkArgumentUuid uuid, checkArgumentPackageName packageName] id
       (let uid = se_get_uid env userId appId in
        bindp (if has_flag flags FLAG_STORAGE_CE
               then restorecon_storage (ce_package env uuid userId packageName) seInfo uid StatusOk
               else Ret StatusOk) (\<lambda>res.
        if has_flag flags FLAG_STORAGE_DE
        then restorecon_storage (de_package env uuid userId packageName) seInfo uid res
        else Ret res))"

section \<open>Snapshots\<close>

abbreviation ce_rollback :: "svc_env \<Rightarrow> cstring \<Rightarrow> int \<Rightarrow> int \<Rightarrow> string \<Rightarrow> string option" where
  "ce_rollback env uuid user i p \<equiv>
     create_data_misc_ce_rollback_package_path (se_paths env) uuid (user_nat user) i p"

abbreviation de_rollback :: "svc_env \<Rightarrow> cstring \<Rightarrow> int \<Rightarrow> int \<Rightarrow> string \<Rightarrow> string option" where
  "de_rollback env uuid user i p \<equiv>
     create_data_misc_de_rollback_package_path (se_paths env) uuid (user_nat user) i p"

text \<open>
  One storage: the folder, the old snapshot, the copy.  When the copy fails the scope guard
  deletes the snapshot on the way out.
\<close>

definition scope_delete :: "string \<Rightarrow> status \<Rightarrow> status handler" where
  "scope_delete rollback st = Call (DeleteContents rollback True False) (\<lambda>r. Ret st)"

definition snapshot_storage :: "string \<Rightarrow> string \<Rightarrow> string \<Rightarrow> status handler" where
  "snapshot_storage from to rollback =
     Call (CreateDirIfNeeded to 448) (\<lambda>r.
       if rc r \<noteq> 0 then Ret (ServiceError (rc r))
       else Call (DeleteContents rollback False True) (\<lambda>r.
         if rc r \<noteq> 0 then Ret (ServiceError (rc r))
         else Call (CopyRecursive from to) (\<lambda>r.
           if rc r \<noteq> 0 then scope_delete rollback (ServiceError (rc r))
           else Ret StatusOk)))"

definition snapshot_de :: "svc_env \<Rightarrow> cstring \<Rightarrow> string \<Rightarrow> int \<Rightarrow> int \<Rightarrow> status handler" where
  "snapshot_de env volumeUuid packageName user snapshotId =
     with_some (de_package env volumeUuid user packageName) (\<lambda>from.
     with_some (create_data_misc_de_rollback_path (se_paths env) volumeUuid (user_nat user) snapshotId) (\<lambda>to.
     with_some (de_rollback env volumeUuid user snapshotId packageName) (\<lambda>rollback.
       snapshot_storage from to rollback)))"

definition snapshot_ce :: "svc_env \<Rightarrow> cstring \<Rightarrow> string \<Rightarrow> int \<Rightarrow> int \<Rightarrow> bool \<Rightarrow> (status \<times> int) handler" where
  "snapshot_ce env volumeUuid packageName user snapshotId want_inode =
     with_some (ce_package env volumeUuid user packageName) (\<lambda>from.
     with_some (create_data_misc_ce_rollback_path (se_paths env) volumeUuid (user_nat user) snapshotId) (\<lambda>to.
     with_some (ce_rollback env volumeUuid user snapshotId packageName) (\<lambda>rollback.
       bindp (snapshot_storage from to rollback) (\<lambda>st.
         if st \<noteq> StatusOk then Ret (st, 0)
         else if want_inode then
           Call (GetPathInode rollback) (\<lambda>r.
             if rc r \<noteq> 0 then bindp (scope_delete rollback (ServiceError (rc r))) (\<lambda>st. Ret (st, 0))
             else Ret (StatusOk, r_ino r))
         else Ret (StatusOk, 0)))))"

definition snapshot_both ::
  "svc_env \<Rightarrow> cstring \<Rightarrow> string \<Rightarrow> int \<Rightarrow> int \<Rightarrow> int \<Rightarrow> bool \<Rightarrow> (status \<times> int) handler" where
  "snapshot_both env volumeUuid packageName user snapshotId storageFlags want_inode =
     bindp (if has_flag storageFlags FLAG_STORAGE_DE
            then snapshot_de env volumeUuid packageName user snapshotId else Ret StatusOk) (\<lambda>st.
       if st \<noteq> StatusOk then Ret (st, 0)
       else if has_flag storageFlags FLAG_STORAGE_CE
       then snapshot_ce env volumeUuid packageName user snapshotId want_inode
       else Ret (StatusOk, 0))"

text \<open>The caches are cleared first; a failure there is only logged.\<close>

definition snapshot_existing ::
  "svc_env \<Rightarrow> (string \<times> string) list \<Rightarrow> cstring \<Rightarrow> string \<Rightarrow> int \<Rightarrow> int \<Rightarrow> int \<Rightarrow> bool \<Rightarrow> (status \<times> int) handler" where
  "snapshot_existing env mounts volumeUuid packageName user snapshotId storageFlags want_inode =
     bindp (clearAppData env mounts volumeUuid packageName user (storageFlags OR FLAG_CLEAR_CACHE_ONLY) 0) (\<lambda>_.
     bindp (clearAppData env mounts volumeUuid packageName user (storageFlags OR FLAG_CLEAR_CODE_CACHE_ONLY) 0) (\<lambda>_.
     snapshot_both env volumeUuid packageName user snapshotId storageFlags want_inode))"

definition snapshotAppData ::
  "svc_env \<Rightarrow> (string \<times> string) list \<Rightarrow> cstring \<Rightarrow> string \<Rightarrow> int \<Rightarrow> int \<Rightarrow> int \<Rightarrow> bool \<Rightarrow> (status \<times> int option) handler" where
  "snapshotAppData env mounts volumeUuid packageName user snapshotId storageFlags want_inode =
     guard [uid_check env, checkArgumentUuidTestOrNull volumeUuid, checkArgumentPackageName packageName] (\<lambda>st. (st, None))
       (with_some (ce_package env volumeUuid user packageName) (\<lambda>from_ce.
          Call (Access from_ce) (\<lambda>a.
            bindp (if rc a \<noteq> 0 then Ret (StatusOk, 0)
                   else snapshot_existing env mounts volumeUuid packageName user snapshotId storageFlags want_inode)
              (\<lambda>(st, i). Ret (st, if want_inode then Some i else None)))))"

text \<open>The flag and the look whether a snapshot exists, with the short cut of \<open>&&\<close>.\<close>

definition needs_rollback :: "bool \<Rightarrow> string \<Rightarrow> bool handler" where
  "needs_rollback flag from = (if flag then Call (Access from) (\<lambda>a. Ret (rc a = 0)) else Ret False)"

definition restore_copies ::
  "svc_env \<Rightarrow> cstring \<Rightarrow> string \<Rightarrow> int \<Rightarrow> string \<Rightarrow> string \<Rightarrow> bool \<Rightarrow> bool \<Rightarrow> status handler" where
  "restore_copies env volumeUuid packageName user from_ce from_de needs_ce needs_de =
     bindp (if needs_ce then
              with_some (create_data_user_ce_path (se_paths env) volumeUuid (user_nat user)) (\<lambda>to_ce.
                Call (CopyRecursive from_ce to_ce) (\<lambda>r. Ret (if rc r \<noteq> 0 then ServiceError (rc r) else StatusOk)))
            else Ret StatusOk) (\<lambda>st.
       if st \<noteq> StatusOk then Ret st
       else if needs_de then
         with_some (create_data_user_de_path (se_paths env) volumeUuid (user_nat user)) (\<lambda>to_de.
           Call (CopyRecursive from_de to_de) (\<lambda>r.
             if rc r = 0 then Ret StatusOk
             else if needs_ce then
               with_some (ce_package env volumeUuid user packageName) (\<lambda>ce_data.
                 Call (DeleteContents ce_data True False) (\<lambda>d. Ret (ServiceError (rc r))))
             else Ret (ServiceError (rc r))))
       else Ret StatusOk)"

definition restore_existing ::
  "svc_env \<Rightarrow> (string \<times> string) list \<Rightarrow> cstring \<Rightarrow> string \<Rightarrow> int \<Rightarrow> string \<Rightarrow> int \<Rightarrow> int \<Rightarrow>
   string \<Rightarrow> string \<Rightarrow> bool \<Rightarrow> bool \<Rightarrow> status handler" where
  "restore_existing env mounts volumeUuid packageName appId seInfo user storageFlags from_ce from_de needs_ce needs_de =
     bindp (clearAppData env mounts volumeUuid packageName user storageFlags 0) (\<lambda>res.
       if res \<noteq> StatusOk then Ret res
       else bindp (restore_copies env volumeUuid packageName user from_ce from_de needs_ce needs_de) (\<lambda>st.
         if st \<noteq> StatusOk then Ret st
         else restoreconAppData env volumeUuid packageName user storageFlags appId seInfo))"

definition restoreAppDataSnapshot ::
  "svc_env \<Rightarrow> (string \<times> string) list \<Rightarrow> cstring \<Rightarrow> string \<Rightarrow> int \<Rightarrow> string \<Rightarrow> int \<Rightarrow> int \<Rightarrow> int \<Rightarrow> status handler" where
  "restoreAppDataSnapshot env mounts volumeUuid packageName appId seInfo user snapshotId storageFlags =
     guard [uid_check env, checkArgumentUuidTestOrNull volumeUuid, checkArgumentPackageName packageName] id
       (with_some (ce_rollback env volumeUuid user snapshotId packageName) (\<lambda>from_ce.
        with_some (de_rollback env volumeUuid user snapshotId packageName) (\<lambda>from_de.
          bindp (needs_rollback (has_flag storageFlags FLAG_STORAGE_CE) from_ce) (\<lambda>needs_ce.
          bindp (needs_rollback (has_flag storageFlags FLAG_STORAGE_DE) from_de) (\<lambda>needs_de.
            if \<not> needs_ce \<and> \<not> needs_de then Ret StatusOk
            else restore_existing env mounts volumeUuid packageName appId seInfo user storageFlags
                   from_ce from_de needs_ce needs_de)))))"

definition destroyAppDataSnapshot ::
  "svc_env \<Rightarrow> cstring \<Rightarrow> string \<Rightarrow> int \<Rightarrow> int \<Rightarrow> int \<Rightarrow> int \<Rightarrow> status handler" where
  "destroyAppDataSnapshot env volumeUuid packageName user ceSnapshotInode snapshotId storageFlags =
     guard [uid_check env, checkArgumentUuidTestOrNull volumeUuid, checkArgumentPackageName packageName] id
       (bindp (if has_flag storageFlags FLAG_STORAGE_DE
               then with_some (de_rollback env volumeUuid user snapshotId packageName)
                      (\<lambda>p. rc_of (DeleteContents p True True))
               else Ret 0) (\<lambda>res.
          if res \<noteq> 0 then Ret (ServiceError res)
          else bindp (if has_flag storageFlags FLAG_STORAGE_CE
                 then with_some (create_data_misc_ce_rollback_package_path_inode (se_paths env) volumeUuid
                        (user_nat user) snapshotId packageName (nat (ceSnapshotInode mod 2 ^ 64)))
                        (\<lambda>p. rc_of (DeleteContents p True True))
                 else Ret 0) (\<lambda>res.
            if res \<noteq> 0 then Ret (ServiceError res) else Ret StatusOk)))"

section \<open>Moving\<close>

definition copy_to :: "string option \<Rightarrow> string option \<Rightarrow> status handler" where
  "copy_to from to =
     with_some from (\<lambda>from. with_some to (\<lambda>to. Call (CopyRecursive from to) (\<lambda>r.
       Ret (if rc r \<noteq> 0 then ServiceError (rc r) else StatusOk))))"

text \<open>The data of one user; a user without a source is passed over.\<close>

definition move_user ::
  "svc_env \<Rightarrow> cstring \<Rightarrow> cstring \<Rightarrow> string \<Rightarrow> int \<Rightarrow> string \<Rightarrow> int \<Rightarrow> int \<Rightarrow> status handler" where
  "move_user env from_uuid to_uuid packageName appId seInfo targetSdkVersion user =
     with_some (ce_package env from_uuid user packageName) (\<lambda>from_ce.
       Call (Access from_ce) (\<lambda>a.
         if rc a \<noteq> 0 then Ret StatusOk
         else bindp (createAppData env to_uuid packageName user (FLAG_STORAGE_CE OR FLAG_STORAGE_DE)
                       appId seInfo targetSdkVersion False) (\<lambda>(st, i).
           if \<not> isOk st then error_now
           else bindp (copy_to (de_package env from_uuid user packageName)
                         (create_data_user_de_path (se_paths env) to_uuid (user_nat user))) (\<lambda>st.
             if st \<noteq> StatusOk then Ret st
             else bindp (copy_to (ce_package env from_uuid user packageName)
                           (create_data_user_ce_path (se_paths env) to_uuid (user_nat user))) (\<lambda>st.
               if st \<noteq> StatusOk then Ret st
               else bindp (restoreconAppData env to_uuid packageName user
                             (FLAG_STORAGE_CE OR FLAG_STORAGE_DE) appId seInfo) (\<lambda>st.
                 if \<not> isOk st then error_now else Ret StatusOk))))))"

fun move_users :: "(int \<Rightarrow> status handler) \<Rightarrow> int list \<Rightarrow> status handler" where
  "move_users m [] = Ret StatusOk"
| "move_users m (u # us) = bindp (m u) (\<lambda>st. if st \<noteq> StatusOk then Ret st else move_users m us)"

text \<open>The label \<open>fail\<close>: everything that may have been copied is deleted.\<close>

fun move_rollback :: "svc_env \<Rightarrow> cstring \<Rightarrow> string \<Rightarrow> int list \<Rightarrow> status \<Rightarrow> status handler" where
  "move_rollback env to_uuid packageName [] res = Ret res"
| "move_rollback env to_uuid packageName (u # us) res =
     with_some (de_package env to_uuid u packageName) (\<lambda>de.
       Call (DeleteContents de True False) (\<lambda>_.
         with_some (ce_package env to_uuid u packageName) (\<lambda>ce.
           Call (DeleteContents ce True False) (\<lambda>_. move_rollback env to_uuid packageName us res))))"

definition move_app :: "svc_env \<Rightarrow> cstring \<Rightarrow> cstring \<Rightarrow> string \<Rightarrow> status handler" where
  "move_app env from_uuid to_uuid data_app_name =
     with_some (create_data_app_package_path (se_paths env) from_uuid data_app_name) (\<lambda>from.
     with_some (create_data_app_package_path (se_paths env) to_uuid data_app_name) (\<lambda>to.
     with_some (create_data_app_path (se_paths env) to_uuid) (\<lambda>to_parent.
       Call (CopyRecursive from to_parent) (\<lambda>r.
         if rc r \<noteq> 0 then Ret (ServiceError (rc r))
         else Call (Restorecon to True) (\<lambda>r. if rc r \<noteq> 0 then error_now else Ret StatusOk)))))"

definition moveCompleteApp ::
  "svc_env \<Rightarrow> cstring \<Rightarrow> cstring \<Rightarrow> string \<Rightarrow> string \<Rightarrow> int \<Rightarrow> string \<Rightarrow> int \<Rightarrow> status handler" where
  "moveCompleteApp env from_uuid to_uuid packageName data_app_name appId seInfo targetSdkVersion =
     guard [uid_check env, checkArgumentUuid from_uuid, checkArgumentUuid to_uuid,
            checkArgumentPackageName packageName] id
       (let users = get_known_users (se_users env from_uuid) in
        bindp (move_app env from_uuid to_uuid data_app_name) (\<lambda>st.
        bindp (if st \<noteq> StatusOk then Ret st
               else move_users (move_user env from_uuid to_uuid packageName appId seInfo targetSdkVersion) users) (\<lambda>st.
          if st = StatusOk then Ret StatusOk
          else with_some (create_data_app_package_path (se_paths env) to_uuid data_app_name) (\<lambda>to.
            Call (DeleteContents to True False) (\<lambda>_. move_rollback env to_uuid packageName users st)))))"

section \<open>Programs that delete nothing\<close>

abbreviation quiet :: "'a handler \<Rightarrow> bool" where
  "quiet p \<equiv> only_calls (\<lambda>c. \<not> is_delete c) p"

lemma quiet_yields: "quiet p \<Longrightarrow> yields p (\<lambda>a t. deletes t = [])"
  by (drule only_calls_yields, erule yields_mono) (auto simp: deletes_def filter_empty_conv list_all_iff)

lemma quiet_error_now [simp]: "quiet error_now"
  by (simp add: error_now_def)

lemma quiet_any_fails: "list_all quiet ps \<Longrightarrow> quiet (any_fails ps)"
  by (induction ps) (auto intro!: only_calls_bindp)

lemma quiet_restorecon_lazy [simp]: "quiet (restorecon_app_data_lazy path seInfo uid)"
  by (simp add: restorecon_app_data_lazy_def)

lemma cache_fix_quiet: "list_all (\<lambda>c. \<not> is_delete c) (cache_fix_calls mode gid path t)"
  by (induction t arbitrary: path) (auto simp: list_all_iff split: leaf_kind.splits)

lemma quiet_prepare_app_cache_dir [simp]: "quiet (prepare_app_cache_dir parent name mode uid gid)"
  using cache_fix_quiet by (auto simp: prepare_app_cache_dir_def Let_def list_all_iff split: option.split)

lemma quiet_prepare_storage [simp]: "quiet (prepare_storage path seInfo mode uid gid)"
  by (auto simp: prepare_storage_def prepare_app_dir_def intro!: only_calls_bindp quiet_any_fails)

lemma quiet_createAppData:
  assumes "uid_check env = StatusOk" and "usable_volume (se_paths env) uuid" and "is_valid_package_name p"
  shows "quiet (createAppData env uuid p userId flags appId seInfo sdk want)"
proof -
  obtain c d where c: "ce_package env uuid userId p = Some c" and d: "de_package env uuid userId p = Some d"
    using package_paths_exist [OF assms(2,3)] by metis
  have "quiet (createAppData_ce env uuid p userId seInfo mode uid gid want)" for mode uid gid
    by (auto simp: createAppData_ce_def c rc_of_def intro!: only_calls_bindp quiet_any_fails)
  moreover have "quiet (prepare_app_profile_dir env p appId userId)"
    using assms(3) by (simp add: prepare_app_profile_dir_def Let_def check_package_name_bind
        create_primary_current_profile_package_dir_path_def create_primary_reference_profile_package_dir_path_def)
  then have "quiet (createAppData_de env uuid p userId appId seInfo mode uid gid)" for mode uid gid
    by (auto simp: createAppData_de_def d intro!: only_calls_bindp)
  ultimately show ?thesis
    using assms usable_volume_valid by (auto simp: createAppData_def isOk_def Let_def intro!: only_calls_bindp)
qed

lemma quiet_restoreconAppData:
  assumes "uid_check env = StatusOk" and "usable_volume (se_paths env) uuid" and "is_valid_package_name p"
  shows "quiet (restoreconAppData env uuid p userId flags appId seInfo)"
proof -
  obtain c d where "ce_package env uuid userId p = Some c" and "de_package env uuid userId p = Some d"
    using package_paths_exist [OF assms(2,3)] by metis
  then show ?thesis
    using assms usable_volume_valid
    by (auto simp: restoreconAppData_def restorecon_storage_def isOk_def Let_def intro!: only_calls_bindp)
qed

section \<open>The move of an app\<close>

definition move_targets :: "svc_env \<Rightarrow> cstring \<Rightarrow> string \<Rightarrow> string \<Rightarrow> int list \<Rightarrow> call list" where
  "move_targets env to_uuid p data_app_name users =
     DeleteContents (the (create_data_app_package_path (se_paths env) to_uuid data_app_name)) True False #
     concat (map (\<lambda>u. [DeleteContents (the (de_package env to_uuid u p)) True False,
                       DeleteContents (the (ce_package env to_uuid u p)) True False]) users)"

lemma move_rollback_deletes:
  assumes "usable_volume (se_paths env) to_uuid" and "is_valid_package_name p"
  shows "yields (move_rollback env to_uuid p users res) (\<lambda>st t. st = res \<and> deletes t =
    concat (map (\<lambda>u. [DeleteContents (the (de_package env to_uuid u p)) True False,
      DeleteContents (the (ce_package env to_uuid u p)) True False]) users))"
proof (induction users)
  case (Cons u us)
  obtain c d where "ce_package env to_uuid u p = Some c" and "de_package env to_uuid u p = Some d"
    using package_paths_exist [OF assms] by metis
  then show ?case by (simp add: yields_mono [OF Cons])
qed simp

lemma usable_paths_exist:
  assumes "usable_volume env v"
  shows "\<exists>a. create_data_app_path env v = Some a" "\<exists>b. create_data_user_ce_path env v u = Some b"
    "\<exists>d. create_data_user_de_path env v u = Some d"
  using assms by (auto simp: create_data_path_usable create_data_app_path_def create_data_user_ce_path_def
      create_data_user_de_path_def Let_def)

lemma app_package_path_exists:
  assumes "usable_volume env v" and "is_valid_package_name n"
  shows "\<exists>a. create_data_app_package_path env v n = Some a"
  using usable_paths_exist(1) [OF assms(1)] assms(2)
  by (auto simp: create_data_app_package_path_def check_package_name_bind)

lemma quiet_move_user:
  assumes "uid_check env = StatusOk" and "usable_volume (se_paths env) from" and "usable_volume (se_paths env) to_uuid"
    and "is_valid_package_name p"
  shows "quiet (move_user env from to_uuid p appId seInfo sdk user)"
proof -
  obtain c d where "ce_package env from user p = Some c" and "de_package env from user p = Some d"
    using package_paths_exist [OF assms(2,4)] by metis
  moreover obtain c' d' where "create_data_user_ce_path (se_paths env) to_uuid (user_nat user) = Some c'"
    and "create_data_user_de_path (se_paths env) to_uuid (user_nat user) = Some d'"
    using usable_paths_exist [OF assms(3)] by metis
  ultimately show ?thesis
    using quiet_createAppData [OF assms(1,3,4)] quiet_restoreconAppData [OF assms(1,3,4)]
    by (auto simp: move_user_def copy_to_def intro!: only_calls_bindp)
qed

lemma quiet_move_users: "(\<And>u. quiet (m u)) \<Longrightarrow> quiet (move_users m us)"
  by (induction us) (auto intro!: only_calls_bindp)

text \<open>
  C7: \<open>moveCompleteApp\<close> returns, whatever the file system does.  When it succeeds nothing was
  deleted; when it fails at any point exactly the places it copies to are deleted - the app and
  the data of every user on the target volume - and nothing else.
\<close>
theorem moveCompleteApp_rolls_back:
  assumes "uid_check env = StatusOk" and "usable_volume (se_paths env) from" and "usable_volume (se_paths env) to_uuid"
    and "is_valid_package_name p" and "is_valid_package_name data_app_name"
  shows "\<exists>st h. run (moveCompleteApp env from to_uuid p data_app_name appId seInfo sdk) os [] = (Some st, h) \<and>
    deletes h = (if st = StatusOk then []
      else move_targets env to_uuid p data_app_name (get_known_users (se_users env from)))"
proof -
  let ?users = "get_known_users (se_users env from)"
  obtain a b c where p: "create_data_app_package_path (se_paths env) from data_app_name = Some a"
    "create_data_app_package_path (se_paths env) to_uuid data_app_name = Some b"
    "create_data_app_path (se_paths env) to_uuid = Some c"
    using app_package_path_exists [OF assms(2,5)] app_package_path_exists [OF assms(3,5)]
      usable_paths_exist(1) [OF assms(3)] by metis
  let ?copy = "bindp (move_app env from to_uuid data_app_name) (\<lambda>st. if st \<noteq> StatusOk then Ret st
    else move_users (move_user env from to_uuid p appId seInfo sdk) ?users)"
  have "quiet ?copy"
    by (auto simp: move_app_def p intro!: only_calls_bindp quiet_move_users quiet_move_user assms)
  then have quiet: "yields ?copy (\<lambda>st t. deletes t = [])" by (rule quiet_yields)
  let ?fin = "\<lambda>st. if st = StatusOk then Ret StatusOk
    else Call (DeleteContents b True False) (\<lambda>_. move_rollback env to_uuid p ?users st)"
  have tail: "yields (?fin st) (\<lambda>st' u. deletes (t @ u) = (if st' = StatusOk then []
      else move_targets env to_uuid p data_app_name ?users))" if "deletes t = []" for st t
    using that by (auto simp: move_targets_def p intro!: yields_mono [OF move_rollback_deletes [OF assms(3,4)]])
  have "moveCompleteApp env from to_uuid p data_app_name appId seInfo sdk =
      bindp (move_app env from to_uuid data_app_name) (\<lambda>st. bindp (if st \<noteq> StatusOk then Ret st
        else move_users (move_user env from to_uuid p appId seInfo sdk) ?users) ?fin)"
    using assms usable_volume_valid by (simp add: moveCompleteApp_def isOk_def Let_def p cong: if_cong)
  moreover have "yields (bindp ?copy ?fin) (\<lambda>st h. deletes h = (if st = StatusOk then []
      else move_targets env to_uuid p data_app_name ?users))"
    unfolding yields_bindp [of ?copy ?fin] by (rule yields_mono [OF quiet]) (rule tail)
  ultimately have "yields (moveCompleteApp env from to_uuid p data_app_name appId seInfo sdk)
      (\<lambda>st h. deletes h = (if st = StatusOk then [] else move_targets env to_uuid p data_app_name ?users))"
    by simp
  from yields_run [OF this, of os "[]"] show ?thesis by simp
qed

theorem moveCompleteApp_rolls_back_witness:
  "\<exists>st h. run (moveCompleteApp demo_svc None (Some ''v'') ''com.example'' ''com.example-1'' 10001 [] 28)
      (\<lambda>h c. \<lparr>rc = (case c of CopyRecursive a b \<Rightarrow> 5 | _ \<Rightarrow> 0), r_str = [], r_uid = 0, r_gid = 0, r_mode = 0,
         r_ino = 0, r_trees = None\<rparr>) [] = (Some st, h) \<and> st = ServiceError 5 \<and>
    deletes h = [DeleteContents ''/mnt/expand/v/app/com.example-1'' True False,
      DeleteContents ''/mnt/expand/v/user_de/0/com.example'' True False,
      DeleteContents ''/mnt/expand/v/user/0/com.example'' True False]"
proof -
  let ?os = "\<lambda>h c. \<lparr>rc = (case c of CopyRecursive a b \<Rightarrow> 5 | _ \<Rightarrow> 0), r_str = [], r_uid = 0, r_gid = 0,
    r_mode = 0, r_ino = 0, r_trees = None\<rparr>"
  have v: "usable_volume (se_paths demo_svc) (Some ''v'')"
    by (simp add: usable_volume_def is_valid_filename_def find_char_def)
  have n: "is_valid_package_name ''com.example-1''"
    by (simp add: is_valid_package_name_def is_alpha_def is_digit_chr_def)
  have st: "fst (run (moveCompleteApp demo_svc None (Some ''v'') ''com.example'' ''com.example-1'' 10001 [] 28) ?os []) =
      Some (ServiceError 5)" by code_simp
  have "move_targets demo_svc (Some ''v'') ''com.example'' ''com.example-1'' (get_known_users (se_users demo_svc None)) =
      [DeleteContents ''/mnt/expand/v/app/com.example-1'' True False,
       DeleteContents ''/mnt/expand/v/user_de/0/com.example'' True False,
       DeleteContents ''/mnt/expand/v/user/0/com.example'' True False]" by code_simp
  with moveCompleteApp_rolls_back [OF demo_svc_ok(1,2) v demo_svc_ok(3) n, of 10001 "[]" 28 ?os] st
  show ?thesis by auto
qed

end
