(* ===== verification/InstalldRollback.thy ===== *)
theory InstalldRollback
  imports InstalldSnapshot
begin

text \<open>
  What a snapshot of the data of an app touches, and the order of a restoration: the correctness
  of \<open>snapshotAppData\<close> and \<open>restoreAppDataSnapshot\<close>.
\<close>

section \<open>Copies in a history\<close>

fun is_copy :: "call \<Rightarrow> bool" where
  "is_copy (CopyRecursive a b) = True"
| "is_copy _ = False"

definition copied :: "string \<Rightarrow> string \<Rightarrow> (call, reply) history \<Rightarrow> bool" where
  "copied from to h \<longleftrightarrow> (\<exists>r. (CopyRecursive from to, r) \<in> set h \<and> rc r = 0)"

text \<open>What the first look at a path said.\<close>

definition found :: "string \<Rightarrow> (call, reply) history \<Rightarrow> bool" where
  "found path h \<longleftrightarrow> (case map_of h (Access path) of None \<Rightarrow> False | Some r \<Rightarrow> rc r = 0)"

text \<open>Every copy comes after deletions that all succeeded.\<close>

fun guarded_copies :: "bool \<Rightarrow> (call, reply) history \<Rightarrow> bool" where
  "guarded_copies ok [] = True"
| "guarded_copies ok ((c, r) # t) =
     (if is_copy c then ok \<and> guarded_copies ok t
      else guarded_copies (ok \<and> (is_delete c \<longrightarrow> rc r = 0)) t)"

lemma guarded_append: "guarded_copies ok (t @ u) \<longleftrightarrow> guarded_copies ok t \<and> guarded_copies (ok \<and> deletes_ok t) u"
proof (induction t arbitrary: ok)
  case (Cons x t)
  obtain c r where "x = (c, r)" by force
  moreover have "is_copy c \<Longrightarrow> \<not> is_delete c" by (cases c) auto
  ultimately show ?case using Cons by (auto simp: conj_ac)
qed simp

lemma guarded_no_copy: "list_all (\<lambda>(c, r). \<not> is_copy c) t \<Longrightarrow> guarded_copies ok t"
  by (induction t arbitrary: ok) auto

lemma deletes_ok_quiet: "deletes t = [] \<Longrightarrow> deletes_ok t"
  by (auto simp: deletes_def deletes_ok_def filter_empty_conv list_all_iff)

lemma guarded_meaning:
  "guarded_copies True h \<Longrightarrow> h = t @ (CopyRecursive f g, r) # u \<Longrightarrow> deletes_ok t"
  by (simp add: guarded_append)

section \<open>Clearing copies nothing\<close>

lemma no_copy_try_call [simp]: "only_calls (\<lambda>c. \<not> is_copy c) (try_call c res) \<longleftrightarrow> \<not> is_copy c"
  by (auto simp: try_call_def error_now_def)

lemma no_copy_try_calls:
  "list_all (\<lambda>c. \<not> is_copy c) cs \<Longrightarrow> only_calls (\<lambda>c. \<not> is_copy c) (try_calls cs res)"
  by (induction cs arbitrary: res) (auto intro!: only_calls_bindp)

lemma no_copy_clear_external: "only_calls (\<lambda>c. \<not> is_copy c) (clear_external userId flags p ns res)"
proof (induction ns arbitrary: res)
  case (Cons n ns)
  then show ?case
    by (auto split: option.split simp: external_clear_calls_def intro!: only_calls_bindp no_copy_try_calls)
qed simp

lemma no_copy_clearAppData:
  assumes "uid_check env = StatusOk" and "usable_volume (se_paths env) uuid" and "is_valid_package_name p"
  shows "only_calls (\<lambda>c. \<not> is_copy c) (clearAppData env mounts uuid p userId flags ino)"
proof -
  obtain c d where "ce_package_inode env uuid userId p ino = Some c" and "de_package env uuid userId p = Some d"
    using package_paths_exist [OF assms(2,3)] by metis
  then show ?thesis
    using assms usable_volume_valid
    by (auto simp: clearAppData_def isOk_def clear_ce_def clear_de_def Let_def error_now_def try_call_def
        intro!: only_calls_bindp no_copy_clear_external)
qed

text \<open>What clearing yields: no copies, and only deletions it may make.\<close>

lemma clearAppData_quiet:
  assumes "uid_check env = StatusOk" and "usable_volume (se_paths env) uuid" and "is_valid_package_name p"
  shows "yields (clearAppData env mounts uuid p userId flags ino) (\<lambda>st t.
    (\<forall>c \<in> set (deletes t). del_path c \<in> set (clear_paths env mounts uuid p userId (scope_of flags) ino)) \<and>
    (st = StatusOk \<longleftrightarrow> deletes_ok t) \<and> list_all (\<lambda>(c, r). \<not> is_copy c) t)"
proof -
  have "yields (clearAppData env mounts uuid p userId flags ino) (\<lambda>st t.
      (cleared_storage env mounts uuid p userId flags ino (asked t) \<and> (st = StatusOk \<longleftrightarrow> deletes_ok t)) \<and>
      list_all (\<lambda>(c, r). \<not> is_copy c) t)"
    using clearAppData_yields [OF assms] only_calls_yields [OF no_copy_clearAppData [OF assms]] by (simp add: yields_conj)
  then show ?thesis
  proof (rule yields_mono)
    fix st t assume t: "(cleared_storage env mounts uuid p userId flags ino (asked t) \<and> (st = StatusOk \<longleftrightarrow> deletes_ok t)) \<and>
      list_all (\<lambda>(c, r). \<not> is_copy c) t"
    then have "\<forall>c \<in> set (deletes t). del_path c \<in> set (clear_paths env mounts uuid p userId (scope_of flags) ino)"
      using cleared_storage_deletes [of env mounts uuid p userId flags ino "asked t"] by auto
    with t show "(\<forall>c \<in> set (deletes t). del_path c \<in> set (clear_paths env mounts uuid p userId (scope_of flags) ino)) \<and>
        (st = StatusOk \<longleftrightarrow> deletes_ok t) \<and> list_all (\<lambda>(c, r). \<not> is_copy c) t" by blast
  qed
qed

section \<open>Snapshots\<close>

lemma has_flag_or: "f AND f = f \<Longrightarrow> f \<noteq> 0 \<Longrightarrow> has_flag (flags OR f) f"
proof -
  assume f: "f \<noteq> 0"
  have "(flags OR f) AND f = f" by (simp add: bit_eq_iff bit_simps) blast
  with f show ?thesis by (simp add: has_flag_def)
qed

lemma cache_flags: "has_flag (flags OR FLAG_CLEAR_CACHE_ONLY) FLAG_CLEAR_CACHE_ONLY"
  "has_flag (flags OR FLAG_CLEAR_CODE_CACHE_ONLY) FLAG_CLEAR_CODE_CACHE_ONLY"
  by (auto intro!: has_flag_or simp: FLAG_CLEAR_CACHE_ONLY_def FLAG_CLEAR_CODE_CACHE_ONLY_def)

lemma cache_scopes:
  "scope_of (flags OR FLAG_CLEAR_CACHE_ONLY) = OnlyCache"
  "scope_of (flags OR FLAG_CLEAR_CODE_CACHE_ONLY) \<in> {OnlyCache, OnlyCodeCache}"
  using cache_flags by (auto simp: scope_of_def)

text \<open>
  What one storage of a snapshot does: the folder, the old snapshot, the copy; when the copy fails, what it left is deleted.
\<close>

definition storage_saved :: "string \<Rightarrow> string \<Rightarrow> string \<Rightarrow> bool \<Rightarrow> (call, reply) history \<Rightarrow> bool" where
  "storage_saved from to roll ok t \<longleftrightarrow>
     (\<exists>a b c. ok \<and> t = [(CreateDirIfNeeded to 448, a), (DeleteContents roll False True, b), (CopyRecursive from to, c)] \<and>
        rc a = 0 \<and> rc b = 0 \<and> rc c = 0) \<or>
     (\<exists>a. \<not> ok \<and> t = [(CreateDirIfNeeded to 448, a)] \<and> rc a \<noteq> 0) \<or>
     (\<exists>a b. \<not> ok \<and> t = [(CreateDirIfNeeded to 448, a), (DeleteContents roll False True, b)] \<and> rc a = 0 \<and> rc b \<noteq> 0) \<or>
     (\<exists>a b c d. \<not> ok \<and> t = [(CreateDirIfNeeded to 448, a), (DeleteContents roll False True, b), (CopyRecursive from to, c),
        (DeleteContents roll True False, d)] \<and> rc a = 0 \<and> rc b = 0 \<and> rc c \<noteq> 0)"

text \<open>The inode of a CE snapshot, when it is asked for; the snapshot is deleted when it cannot be had.\<close>

definition inode_read :: "bool \<Rightarrow> string \<Rightarrow> bool \<Rightarrow> (call, reply) history \<Rightarrow> bool" where
  "inode_read want roll ok t \<longleftrightarrow>
     (\<not> want \<and> ok \<and> t = []) \<or>
     (\<exists>g. want \<and> ok \<and> t = [(GetPathInode roll, g)] \<and> rc g = 0) \<or>
     (\<exists>g d. want \<and> \<not> ok \<and> t = [(GetPathInode roll, g), (DeleteContents roll True False, d)] \<and> rc g \<noteq> 0)"

lemma snapshot_storage_yields:
  "yields (snapshot_storage from to rollback) (\<lambda>st t. storage_saved from to rollback (st = StatusOk) (asked t))"
  by (auto simp: snapshot_storage_def scope_delete_def storage_saved_def)

lemma rollback_paths_exist:
  assumes "usable_volume (se_paths env) uuid" and "is_valid_package_name p"
  shows "\<exists>a. create_data_misc_ce_rollback_path (se_paths env) uuid u i = Some a"
    "\<exists>a. create_data_misc_de_rollback_path (se_paths env) uuid u i = Some a"
    "\<exists>a. ce_rollback env uuid user i p = Some a" "\<exists>a. de_rollback env uuid user i p = Some a"
  using assms by (auto simp: create_data_path_usable create_data_misc_ce_rollback_path_def
      create_data_misc_de_rollback_path_def create_data_misc_ce_rollback_base_path_def
      create_data_misc_de_rollback_base_path_def create_data_misc_ce_rollback_package_path_def
      create_data_misc_de_rollback_package_path_def)

text \<open>
  What may be deleted during a snapshot: the contents of the caches of the package in its CE, DE and shared
  storage, those of its code caches in the first two, and the snapshots that are replaced.
\<close>

definition snapshot_may_delete ::
  "svc_env \<Rightarrow> (string \<times> string) list \<Rightarrow> cstring \<Rightarrow> string \<Rightarrow> int \<Rightarrow> int \<Rightarrow> string \<Rightarrow> bool" where
  "snapshot_may_delete env mounts uuid p user snapshotId path \<longleftrightarrow>
     path \<in> set (clear_paths env mounts uuid p user OnlyCache 0 @ clear_paths env mounts uuid p user OnlyCodeCache 0) \<or>
     path = the (de_rollback env uuid user snapshotId p) \<or> path = the (ce_rollback env uuid user snapshotId p)"

text \<open>The two storages in turn, as far as the flags ask for them; the second only after the first.\<close>

definition storages_saved ::
  "svc_env \<Rightarrow> cstring \<Rightarrow> string \<Rightarrow> int \<Rightarrow> int \<Rightarrow> int \<Rightarrow> bool \<Rightarrow> bool \<Rightarrow> (call, reply) history \<Rightarrow> bool" where
  "storages_saved env uuid p user snapshotId flags want ok t \<longleftrightarrow>
     (\<exists>de ce i okd okc. t = de @ ce @ i \<and>
        (if has_flag flags FLAG_STORAGE_DE
         then storage_saved (the (de_package env uuid user p))
           (the (create_data_misc_de_rollback_path (se_paths env) uuid (user_nat user) snapshotId))
           (the (de_rollback env uuid user snapshotId p)) okd de
         else okd \<and> de = []) \<and>
        (if okd \<and> has_flag flags FLAG_STORAGE_CE
         then storage_saved (the (ce_package env uuid user p))
             (the (create_data_misc_ce_rollback_path (se_paths env) uuid (user_nat user) snapshotId))
             (the (ce_rollback env uuid user snapshotId p)) okc ce \<and>
           (if okc then inode_read want (the (ce_rollback env uuid user snapshotId p)) ok i else \<not> ok \<and> i = [])
         else ok = okd \<and> ce = [] \<and> i = []))"

definition snapshot_history ::
  "svc_env \<Rightarrow> (string \<times> string) list \<Rightarrow> cstring \<Rightarrow> string \<Rightarrow> int \<Rightarrow> int \<Rightarrow> int \<Rightarrow> bool \<Rightarrow> bool \<Rightarrow> (call, reply) history \<Rightarrow> bool" where
  "snapshot_history env mounts uuid p user snapshotId flags want ok t \<longleftrightarrow>
     (\<exists>a. t = [(Access (the (ce_package env uuid user p)), a)] \<and> rc a \<noteq> 0 \<and> ok) \<or>
     (\<exists>a c d s. t = (Access (the (ce_package env uuid user p)), a) # c @ d @ s \<and> rc a = 0 \<and>
        cleared_storage env mounts uuid p user (flags OR FLAG_CLEAR_CACHE_ONLY) 0 c \<and>
        cleared_storage env mounts uuid p user (flags OR FLAG_CLEAR_CODE_CACHE_ONLY) 0 d \<and>
        storages_saved env uuid p user snapshotId flags want ok s)"

lemma testOrNull_ok: "uuid = None \<or> uuid = Some ''TEST'' \<Longrightarrow> checkArgumentUuidTestOrNull uuid = StatusOk"
  by (auto simp: checkArgumentUuidTestOrNull_def)

lemma snapshot_de_yields:
  assumes "usable_volume (se_paths env) uuid" and "is_valid_package_name p"
  shows "yields (snapshot_de env uuid p user i) (\<lambda>st t. storage_saved (the (de_package env uuid user p))
    (the (create_data_misc_de_rollback_path (se_paths env) uuid (user_nat user) i)) (the (de_rollback env uuid user i p))
    (st = StatusOk) (asked t))"
proof -
  obtain de r where "de_package env uuid user p = Some de" "de_rollback env uuid user i p = Some r"
    using package_paths_exist [OF assms] rollback_paths_exist [OF assms] by metis
  moreover obtain t where "create_data_misc_de_rollback_path (se_paths env) uuid (user_nat user) i = Some t"
    using rollback_paths_exist [OF assms] by metis
  ultimately show ?thesis using snapshot_storage_yields [of de t r] by (simp add: snapshot_de_def)
qed

lemma snapshot_ce_yields:
  assumes "usable_volume (se_paths env) uuid" and "is_valid_package_name p"
  shows "yields (snapshot_ce env uuid p user i want) (\<lambda>x t. \<exists>ce n okc. asked t = ce @ n \<and>
    storage_saved (the (ce_package env uuid user p)) (the (create_data_misc_ce_rollback_path (se_paths env) uuid (user_nat user) i))
      (the (ce_rollback env uuid user i p)) okc ce \<and>
    (if okc then inode_read want (the (ce_rollback env uuid user i p)) (fst x = StatusOk) n else fst x \<noteq> StatusOk \<and> n = []))"
proof -
  obtain ce r where c: "ce_package env uuid user p = Some ce" "ce_rollback env uuid user i p = Some r"
    using package_paths_exist [OF assms] rollback_paths_exist [OF assms] by metis
  moreover obtain t where t: "create_data_misc_ce_rollback_path (se_paths env) uuid (user_nat user) i = Some t"
    using rollback_paths_exist [OF assms] by metis
  let ?P = "\<lambda>x u. \<exists>d n okc. asked u = d @ n \<and> storage_saved ce t r okc d \<and>
    (if okc then inode_read want r (fst x = StatusOk) n else fst x \<noteq> StatusOk \<and> n = [])"
  have tail: "yields (if st \<noteq> StatusOk then Ret (st, 0) else if want then Call (GetPathInode r) (\<lambda>g.
        if rc g \<noteq> 0 then bindp (scope_delete r (ServiceError (rc g))) (\<lambda>st. Ret (st, 0)) else Ret (StatusOk, r_ino g))
      else Ret (StatusOk, 0)) (\<lambda>x v. ?P x (u @ v))" if u: "storage_saved ce t r (st = StatusOk) (asked u)" for st u
  proof -
    have P: "?P x (u @ v)"
      if "if st = StatusOk then inode_read want r (fst x = StatusOk) (asked v) else fst x \<noteq> StatusOk \<and> asked v = []" for x v
      using u that by (intro exI [of _ "asked u"] exI [of _ "asked v"] exI [of _ "st = StatusOk"]) (simp split: if_splits)
    have "yields (if st \<noteq> StatusOk then Ret (st, 0) else if want then Call (GetPathInode r) (\<lambda>g.
        if rc g \<noteq> 0 then bindp (scope_delete r (ServiceError (rc g))) (\<lambda>st. Ret (st, 0)) else Ret (StatusOk, r_ino g))
      else Ret (StatusOk, 0)) (\<lambda>x v. if st = StatusOk then inode_read want r (fst x = StatusOk) (asked v)
        else fst x \<noteq> StatusOk \<and> asked v = [])"
      by (auto simp: inode_read_def scope_delete_def)
    then show ?thesis by (rule yields_mono) (rule P)
  qed
  have "yields (snapshot_ce env uuid p user i want) ?P"
    unfolding snapshot_ce_def c t with_some_simps yields_bindp [of "snapshot_storage ce t r"]
    by (rule yields_mono [OF snapshot_storage_yields tail])
  then show ?thesis by (simp only: c t option.sel)
qed

lemma snapshot_both_yields:
  assumes "usable_volume (se_paths env) uuid" and "is_valid_package_name p"
  shows "yields (snapshot_both env uuid p user i flags want)
    (\<lambda>x t. storages_saved env uuid p user i flags want (fst x = StatusOk) (asked t))"
proof -
  let ?de = "\<lambda>ok t. if has_flag flags FLAG_STORAGE_DE
         then storage_saved (the (de_package env uuid user p))
           (the (create_data_misc_de_rollback_path (se_paths env) uuid (user_nat user) i))
           (the (de_rollback env uuid user i p)) ok t
         else ok \<and> t = []"
  let ?rest = "\<lambda>st. if st \<noteq> StatusOk then Ret (st, 0)
      else if has_flag flags FLAG_STORAGE_CE then snapshot_ce env uuid p user i want else Ret (StatusOk, 0)"
  have rest: "yields (?rest st) (\<lambda>x u. storages_saved env uuid p user i flags want (fst x = StatusOk) (asked (t @ u)))"
    if t: "?de (st = StatusOk) (asked t)" for st t
  proof (cases "st = StatusOk \<and> has_flag flags FLAG_STORAGE_CE")
    case False
    have "storages_saved env uuid p user i flags want (st = StatusOk) (asked t)"
      unfolding storages_saved_def
      by (rule exI [of _ "asked t"], rule exI [of _ "[]"], rule exI [of _ "[]"], rule exI [of _ "st = StatusOk"], rule exI)
        (use t False in auto)
    with False show ?thesis by auto
  next
    case True
    have "yields (snapshot_ce env uuid p user i want)
        (\<lambda>x u. storages_saved env uuid p user i flags want (fst x = StatusOk) (asked (t @ u)))"
    proof (rule yields_mono [OF snapshot_ce_yields [OF assms]], elim exE conjE)
      fix x u ce n okc
      assume u: "asked u = ce @ n" "storage_saved (the (ce_package env uuid user p))
          (the (create_data_misc_ce_rollback_path (se_paths env) uuid (user_nat user) i)) (the (ce_rollback env uuid user i p)) okc ce"
        "if okc then inode_read want (the (ce_rollback env uuid user i p)) (fst x = StatusOk) n else fst x \<noteq> StatusOk \<and> n = []"
      show "storages_saved env uuid p user i flags want (fst x = StatusOk) (asked (t @ u))"
        unfolding storages_saved_def asked_simps u(1)
        by (rule exI [of _ "asked t"], rule exI [of _ ce], rule exI [of _ n], rule exI [of _ True], rule exI [of _ okc])
          (use t u(2,3) True in \<open>auto split: if_splits\<close>)
    qed
    with True show ?thesis by simp
  qed
  have "yields (if has_flag flags FLAG_STORAGE_DE then snapshot_de env uuid p user i else Ret StatusOk)
      (\<lambda>st t. ?de (st = StatusOk) (asked t))"
    using snapshot_de_yields [OF assms] by simp
  then show ?thesis unfolding snapshot_both_def yields_bindp by (rule yields_mono) (rule rest)
qed

lemma snapshotAppData_yields:
  assumes "uid_check env = StatusOk" and "uuid = None \<or> uuid = Some ''TEST''"
    and "usable_volume (se_paths env) uuid" and "is_valid_package_name p"
  shows "yields (snapshotAppData env mounts uuid p user i flags want) (\<lambda>(st, ino) t.
    snapshot_history env mounts uuid p user i flags want (st = StatusOk) (asked t))"
proof -
  obtain ce where ce: "ce_package env uuid user p = Some ce" using package_paths_exist [OF assms(3,4)] by metis
  let ?P = "\<lambda>x t. snapshot_history env mounts uuid p user i flags want (fst x = StatusOk) (asked t)"
  have history: "?P x ((Access ce, a) # t @ u @ w)"
    if "rc a = 0" "cleared_storage env mounts uuid p user (flags OR FLAG_CLEAR_CACHE_ONLY) 0 (asked t)"
      "cleared_storage env mounts uuid p user (flags OR FLAG_CLEAR_CODE_CACHE_ONLY) 0 (asked u)"
      "storages_saved env uuid p user i flags want (fst x = StatusOk) (asked w)" for x a t u w
    unfolding snapshot_history_def ce option.sel
    by (rule disjI2, rule exI [of _ a], rule exI [of _ "asked t"], rule exI [of _ "asked u"], rule exI [of _ "asked w"])
      (use that in simp)
  have body: "yields (snapshot_existing env mounts uuid p user i flags want) (\<lambda>x t. ?P x ((Access ce, a) # t))"
    if "rc a = 0" for a
    unfolding snapshot_existing_def yields_bindp
  proof (rule yields_mono [OF clearAppData_yields [OF assms(1,3,4)]], rule yields_mono [OF clearAppData_yields [OF assms(1,3,4)]],
      rule yields_mono [OF snapshot_both_yields [OF assms(3,4)]])
  qed (rule history [OF that]; blast)
  have none: "?P (StatusOk, j) [(Access ce, a)]" if "rc a \<noteq> 0" for a j
    using that by (simp add: snapshot_history_def ce)
  have "checkArgumentUuidTestOrNull uuid = StatusOk" using testOrNull_ok assms(2) by blast
  then have "snapshotAppData env mounts uuid p user i flags want = Call (Access ce) (\<lambda>a.
      bindp (if rc a \<noteq> 0 then Ret (StatusOk, 0) else snapshot_existing env mounts uuid p user i flags want)
        (\<lambda>(st, i). Ret (st, if want then Some i else None)))"
    using assms by (simp add: snapshotAppData_def isOk_def ce)
  then show ?thesis
    using none by (auto split: prod.split intro!: yields_mono [OF body])
qed

lemma saved_deletes:
  "storage_saved from to roll ok t \<Longrightarrow> c \<in> set (deletes t) \<Longrightarrow> del_path c = roll"
  "inode_read want roll ok t \<Longrightarrow> c \<in> set (deletes t) \<Longrightarrow> del_path c = roll"
  by (auto simp: storage_saved_def inode_read_def)

lemma snapshot_deletes:
  assumes "snapshot_history env mounts uuid p user i flags want ok t" "c \<in> set (deletes t)"
  shows "snapshot_may_delete env mounts uuid p user i (del_path c)"
proof -
  have saved: "c \<in> set (deletes s) \<Longrightarrow> snapshot_may_delete env mounts uuid p user i (del_path c)"
    if "storages_saved env uuid p user i flags want ok s" for s
    using that unfolding storages_saved_def snapshot_may_delete_def
    by (auto dest: saved_deletes split: if_splits)
  have cleared: "c \<in> set (deletes s) \<Longrightarrow> snapshot_may_delete env mounts uuid p user i (del_path c)"
    if "cleared_storage env mounts uuid p user f 0 s" "scope_of f \<in> {OnlyCache, OnlyCodeCache}" for s f
    using cleared_storage_deletes [OF that(1)] that(2) by (auto simp: snapshot_may_delete_def)
  note cleared = cleared [of "flags OR FLAG_CLEAR_CACHE_ONLY"] cleared [of "flags OR FLAG_CLEAR_CODE_CACHE_ONLY"]
  from assms show ?thesis
    unfolding snapshot_history_def
    by (elim disjE exE conjE) (use saved cleared cache_scopes in auto)
qed

text \<open>
  C8: what a snapshot asks the system for, for a permitted caller and valid arguments and whatever fails.  It looks for the CE directory of the app;
  when that is not there it returns ok and does nothing more, also when only DE data was asked for.  Otherwise it clears the caches and then the
  code caches, whose failures it ignores, and saves the DE and the CE storage, each if asked for, the second only when the first was saved:
  the folder is made, the old snapshot deleted, and only after that the data copied, and for CE the inode is read if it is wanted.  The status
  is ok exactly when all of this succeeded, and a snapshot whose copy failed or whose inode could not be read is asked to be deleted again.  So nothing of the app
  is deleted but the contents of its caches and code caches.
\<close>

theorem snapshotAppData_safe:
  assumes "uid_check env = StatusOk" and "uuid = None \<or> uuid = Some ''TEST''"
    and "usable_volume (se_paths env) uuid" and "is_valid_package_name p"
  shows "\<exists>st i h. run (snapshotAppData env mounts uuid p user snapshotId flags want) os_replies [] = (Some (st, i), h) \<and>
    snapshot_history env mounts uuid p user snapshotId flags want (st = StatusOk) (asked h) \<and>
    (\<forall>c \<in> set (deletes h). snapshot_may_delete env mounts uuid p user snapshotId (del_path c))"
proof -
  from yields_run [OF snapshotAppData_yields [OF assms], of mounts user snapshotId flags want os_replies "[]"]
  obtain st i h where h: "run (snapshotAppData env mounts uuid p user snapshotId flags want) os_replies [] = (Some (st, i), h)"
    "snapshot_history env mounts uuid p user snapshotId flags want (st = StatusOk) (asked h)" by auto
  with snapshot_deletes [OF h(2)] show ?thesis by auto
qed

lemma copied_Nil [simp]: "\<not> copied f g []"
  by (simp add: copied_def)

lemma copied_append [simp]: "copied f g (t @ u) \<longleftrightarrow> copied f g t \<or> copied f g u"
  by (auto simp: copied_def)

text \<open>A system on which every call succeeds.\<close>

definition quiet_os :: "(call, reply) os_oracle" where
  "quiet_os h c = \<lparr>rc = 0, r_str = [], r_uid = 0, r_gid = 0, r_mode = 0, r_ino = 7, r_trees = None\<rparr>"

theorem snapshotAppData_safe_witness:
  "\<exists>st i h. run (snapshotAppData demo_svc [] None ''com.example'' 0 5 3 True) quiet_os [] = (Some (st, i), h) \<and>
    snapshot_history demo_svc [] None ''com.example'' 0 5 3 True True (asked h)"
proof -
  let ?run = "run (snapshotAppData demo_svc [] None ''com.example'' 0 5 3 True) quiet_os []"
  have 1: "map_option fst (fst ?run) = Some StatusOk" by code_simp
  from snapshotAppData_safe [OF demo_svc_ok(1) disjI1 [OF refl] demo_svc_ok(2,3), of "[]" 0 5 3 True quiet_os] 1
  show ?thesis by auto
qed

section \<open>Restoring\<close>

text \<open>What a restoration promises of its history.\<close>

definition restore_done ::
  "svc_env \<Rightarrow> cstring \<Rightarrow> string \<Rightarrow> int \<Rightarrow> int \<Rightarrow> int \<Rightarrow> (call, reply) history \<Rightarrow> bool" where
  "restore_done env uuid p user snapshotId flags h \<longleftrightarrow>
     (has_flag flags FLAG_STORAGE_CE \<and> found (the (ce_rollback env uuid user snapshotId p)) h \<longrightarrow>
        copied (the (ce_rollback env uuid user snapshotId p))
          (the (create_data_user_ce_path (se_paths env) uuid (user_nat user))) h) \<and>
     (has_flag flags FLAG_STORAGE_DE \<and> found (the (de_rollback env uuid user snapshotId p)) h \<longrightarrow>
        copied (the (de_rollback env uuid user snapshotId p))
          (the (create_data_user_de_path (se_paths env) uuid (user_nat user))) h)"


text \<open>
  A history is good for a restoration: no copy before the app's data was cleared without a
  failure; success means that every snapshot found was copied; and a DE copy that fails after
  the CE copy takes the CE data with it, so the two are never out of step.
\<close>

definition restore_ok ::
  "string \<Rightarrow> string \<Rightarrow> string \<Rightarrow> string \<Rightarrow> string \<Rightarrow> bool \<Rightarrow> bool \<Rightarrow> status \<Rightarrow> (call, reply) history \<Rightarrow> bool" where
  "restore_ok fce tce fde tde ce_data nce nde st h \<longleftrightarrow>
     guarded_copies True h \<and>
     (st = StatusOk \<longrightarrow> (nce \<longrightarrow> copied fce tce h) \<and> (nde \<longrightarrow> copied fde tde h)) \<and>
     (nde \<and> copied fce tce h \<and> \<not> copied fde tde h \<longrightarrow>
        deletes h \<noteq> [] \<and> last (deletes h) = DeleteContents ce_data True False)"

lemma restore_copies_yields:
  assumes "create_data_user_ce_path (se_paths env) uuid (user_nat user) = Some tce"
    and "create_data_user_de_path (se_paths env) uuid (user_nat user) = Some tde"
    and "ce_package env uuid user p = Some ce_data" and "nce \<or> nde"
    and "fce \<noteq> fde"
  shows "yields (restore_copies env uuid p user fce fde nce nde) (restore_ok fce tce fde tde ce_data nce nde)"
  using assms by (auto simp: restore_copies_def restore_ok_def copied_def)

lemma rollback_paths_differ:
  assumes "ce_rollback env uuid user i p = Some a" and "de_rollback env uuid user i p = Some b"
  shows "a \<noteq> b"
  using assms by (auto simp: create_data_misc_ce_rollback_package_path_def create_data_misc_ce_rollback_path_def
      create_data_misc_ce_rollback_base_path_def create_data_misc_de_rollback_package_path_def
      create_data_misc_de_rollback_path_def create_data_misc_de_rollback_base_path_def
      split: option.splits bind_splits)

lemma restore_ok_cleared:
  assumes "restore_ok fce tce fde tde ce_data nce nde st u" and "deletes_ok t"
    and "list_all (\<lambda>(c, r). \<not> is_copy c) t"
  shows "restore_ok fce tce fde tde ce_data nce nde st (t @ u)"
proof -
  have "\<not> copied f g t" for f g using assms(3) by (auto simp: copied_def list_all_iff)
  with assms show ?thesis by (auto simp: restore_ok_def guarded_append guarded_no_copy)
qed

lemma restore_ok_labelled:
  assumes "restore_ok fce tce fde tde ce_data nce nde StatusOk t" and "deletes u = []"
    and "list_all (\<lambda>(c, r). \<not> is_copy c) u"
  shows "restore_ok fce tce fde tde ce_data nce nde st (t @ u)"
proof -
  have "\<not> copied f g u" for f g using assms(3) by (auto simp: copied_def list_all_iff)
  with assms show ?thesis by (auto simp: restore_ok_def guarded_append guarded_no_copy)
qed

lemma restoreconAppData_yields:
  assumes "uid_check env = StatusOk" and "usable_volume (se_paths env) uuid" and "is_valid_package_name p"
  shows "yields (restoreconAppData env uuid p user flags appId seInfo)
    (\<lambda>st t. deletes t = [] \<and> list_all (\<lambda>(c, r). \<not> is_copy c) t)"
proof -
  obtain c d where "ce_package env uuid user p = Some c" and "de_package env uuid user p = Some d"
    using package_paths_exist [OF assms(2,3)] by metis
  then have "only_calls (\<lambda>c. \<not> is_delete c \<and> \<not> is_copy c) (restoreconAppData env uuid p user flags appId seInfo)"
    using assms usable_volume_valid
    by (auto simp: restoreconAppData_def restorecon_storage_def isOk_def Let_def error_now_def intro!: only_calls_bindp)
  then show ?thesis
    by (rule yields_mono [OF only_calls_yields]) (auto simp: deletes_def filter_empty_conv list_all_iff)
qed

lemma restore_existing_yields:
  assumes u: "uid_check env = StatusOk" and v: "usable_volume (se_paths env) uuid" and p: "is_valid_package_name p"
    and paths: "create_data_user_ce_path (se_paths env) uuid (user_nat user) = Some tce"
      "create_data_user_de_path (se_paths env) uuid (user_nat user) = Some tde"
      "ce_package env uuid user p = Some ce_data" "nce \<or> nde" "fce \<noteq> fde"
  shows "yields (restore_existing env mounts uuid p appId seInfo user flags fce fde nce nde)
    (restore_ok fce tce fde tde ce_data nce nde)"
proof -
  let ?ok = "restore_ok fce tce fde tde ce_data nce nde"
  have labels: "yields (if st \<noteq> StatusOk then Ret st else restoreconAppData env uuid p user flags appId seInfo)
      (\<lambda>s u. ?ok s (t @ u))" if "?ok st t" for st t
    using that restore_ok_labelled by (auto intro!: yields_mono [OF restoreconAppData_yields [OF u v p]])
  have copies: "yields (restore_copies env uuid p user fce fde nce nde)
      (\<lambda>st t. yields (if st \<noteq> StatusOk then Ret st else restoreconAppData env uuid p user flags appId seInfo)
        (\<lambda>s u. ?ok s (t @ u)))"
    by (rule yields_mono [OF restore_copies_yields [OF paths]]) (rule labels)
  have "yields (if res \<noteq> StatusOk then Ret res else bindp (restore_copies env uuid p user fce fde nce nde)
      (\<lambda>st. if st \<noteq> StatusOk then Ret st else restoreconAppData env uuid p user flags appId seInfo)) (\<lambda>s w. ?ok s (t @ w))"
    if "res = StatusOk \<longleftrightarrow> deletes_ok t" "list_all (\<lambda>(c, r). \<not> is_copy c) t" for res t
  proof (cases "res = StatusOk")
    case True
    have "yields (bindp (restore_copies env uuid p user fce fde nce nde)
        (\<lambda>st. if st \<noteq> StatusOk then Ret st else restoreconAppData env uuid p user flags appId seInfo)) ?ok"
      unfolding yields_bindp by (rule copies)
    with True that show ?thesis by (auto intro: yields_mono restore_ok_cleared simp del: yields_bindp)
  next
    case False
    moreover have "\<not> copied f g t" for f g using that(2) by (auto simp: copied_def list_all_iff)
    ultimately show ?thesis using that(2) by (simp add: restore_ok_def guarded_no_copy)
  qed
  then show ?thesis
    unfolding restore_existing_def yields_bindp [of "clearAppData _ _ _ _ _ _ _"]
    by (intro yields_mono [OF clearAppData_quiet [OF u v p]]) blast
qed

text \<open>A look at a path changes nothing of this.\<close>

lemma restore_ok_access [simp]:
  "restore_ok fce tce fde tde ce_data nce nde st ((Access x, r) # h) = restore_ok fce tce fde tde ce_data nce nde st h"
  by (simp add: restore_ok_def copied_def)

text \<open>
  a restoration returns, whatever the file system does: it copies nothing before the data
  of the app was cleared without a failure, success means that every snapshot that was found
  was copied back, and when the DE copy fails after the CE copy the CE data is deleted again.
\<close>
theorem restoreAppDataSnapshot_ok:
  assumes "uid_check env = StatusOk" and "uuid = None \<or> uuid = Some ''TEST''"
    and "usable_volume (se_paths env) uuid" and "is_valid_package_name p"
  shows "\<exists>st h. run (restoreAppDataSnapshot env mounts uuid p appId seInfo user i flags) os_replies [] = (Some st, h) \<and>
    restore_ok (the (ce_rollback env uuid user i p)) (the (create_data_user_ce_path (se_paths env) uuid (user_nat user)))
      (the (de_rollback env uuid user i p)) (the (create_data_user_de_path (se_paths env) uuid (user_nat user)))
      (the (ce_package env uuid user p))
      (has_flag flags FLAG_STORAGE_CE \<and> found (the (ce_rollback env uuid user i p)) h)
      (has_flag flags FLAG_STORAGE_DE \<and> found (the (de_rollback env uuid user i p)) h) st h"
proof -
  obtain fce fde where f: "ce_rollback env uuid user i p = Some fce" "de_rollback env uuid user i p = Some fde"
    using rollback_paths_exist [OF assms(3,4)] by metis
  obtain tce tde where t: "create_data_user_ce_path (se_paths env) uuid (user_nat user) = Some tce"
    "create_data_user_de_path (se_paths env) uuid (user_nat user) = Some tde"
    using usable_paths_exist [OF assms(3)] by metis
  obtain ce where ce: "ce_package env uuid user p = Some ce" using package_paths_exist [OF assms(3,4)] by metis
  have ne: "fce \<noteq> fde" using rollback_paths_differ [OF f] .
  have none: "restore_ok fce tce fde tde ce False False StatusOk []" by (simp add: restore_ok_def)
  note existing = restore_existing_yields [OF assms(1,3,4) t ce _ ne, of _ _ mounts appId seInfo flags]
  have "checkArgumentUuidTestOrNull uuid = StatusOk" using testOrNull_ok assms(2) by blast
  then have body: "restoreAppDataSnapshot env mounts uuid p appId seInfo user i flags =
      bindp (needs_rollback (has_flag flags FLAG_STORAGE_CE) fce) (\<lambda>nce.
      bindp (needs_rollback (has_flag flags FLAG_STORAGE_DE) fde) (\<lambda>nde.
        if \<not> nce \<and> \<not> nde then Ret StatusOk
        else restore_existing env mounts uuid p appId seInfo user flags fce fde nce nde))"
    using assms by (simp add: restoreAppDataSnapshot_def isOk_def f)
  have "yields (restoreAppDataSnapshot env mounts uuid p appId seInfo user i flags)
      (\<lambda>st h. restore_ok fce tce fde tde ce (has_flag flags FLAG_STORAGE_CE \<and> found fce h)
        (has_flag flags FLAG_STORAGE_DE \<and> found fde h) st h)"
    unfolding body using ne none
    by (cases "has_flag flags FLAG_STORAGE_CE"; cases "has_flag flags FLAG_STORAGE_DE")
      (auto simp: needs_rollback_def found_def intro!: yields_mono [OF existing])
  from yields_run [OF this, of os_replies "[]"] show ?thesis by (simp add: f t ce)
qed

theorem restoreAppDataSnapshot_ok_witness:
  "\<exists>st h. run (restoreAppDataSnapshot demo_svc [] None ''com.example'' 10001 [] 0 5 3) quiet_os [] = (Some st, h) \<and>
    copied ''/data/misc_ce/0/rollback/5/com.example'' ''/data/user/0'' h"
proof -
  let ?run = "run (restoreAppDataSnapshot demo_svc [] None ''com.example'' 10001 [] 0 5 3) quiet_os []"
  have st: "fst ?run = Some StatusOk" by code_simp
  have flag: "has_flag 3 FLAG_STORAGE_CE" by code_simp
  have fnd: "found (the (ce_rollback demo_svc None 0 5 ''com.example'')) (snd ?run)" by code_simp
  have paths: "the (ce_rollback demo_svc None 0 5 ''com.example'') = ''/data/misc_ce/0/rollback/5/com.example''"
    "the (create_data_user_ce_path (se_paths demo_svc) None (user_nat 0)) = ''/data/user/0''" by code_simp+
  from restoreAppDataSnapshot_ok [OF demo_svc_ok(1) disjI1 [OF refl] demo_svc_ok(2,3), of "[]" 10001 "[]" 0 5 3 quiet_os]
  show ?thesis using st flag fnd by (auto simp: restore_ok_def paths)
qed

end
