(* ===== verification/MatchExtension.thy ===== *)
theory MatchExtension
  imports Prelude
begin

text \<open>
  The classification of files by their extension (\<open>installd/MatchExtensionGen.h\<close>): a decision
  tree of nested \<open>switch\<close> statements, generated by \<open>installd/matchgen.py\<close> from a table.  The
  tree is data here, one definition per branch of the outermost \<open>switch\<close>; it is proved to be
  the table of the script, with letters of either case.
\<close>

datatype media = Media_audio | Media_video | Media_image

text \<open>A \<open>switch\<close> on the current character, each case with its labels, or a \<open>return\<close>.\<close>

datatype ext_switch = Return media | Switch "(string \<times> ext_switch) list"

definition cur :: "string \<Rightarrow> char" where
  "cur s = (case s of [] \<Rightarrow> CHR 0x00 | c # _ \<Rightarrow> c)"

text \<open>Without a matching case control leaves every \<open>switch\<close> and the result is 0, here \<open>None\<close>.\<close>

fun run_switch :: "ext_switch \<Rightarrow> string \<Rightarrow> media option"
  and run_cases :: "(string \<times> ext_switch) list \<Rightarrow> string \<Rightarrow> media option" where
  "run_switch (Return m) s = Some m"
| "run_switch (Switch cs) s = run_cases cs s"
| "run_cases [] s = None"
| "run_cases ((labels, t) # cs) s =
     (if cur s \<in> set labels then run_switch t (tl s) else run_cases cs s)"

section \<open>The tree\<close>

definition case_3 :: "string \<times> ext_switch" where
  "case_3 =
    (''3'', Switch [
      (''gG'', Switch [
        (''2'', Switch [
          ([CHR 0x00], Return Media_video)]),
        (''pP'', Switch [
          ([CHR 0x00], Return Media_video),
          (''pP'', Switch [
            ([CHR 0x00], Return Media_video),
            (''2'', Switch [
              ([CHR 0x00], Return Media_video)])])])])])"

definition case_a :: "string \<times> ext_switch" where
  "case_a =
    (''aA'', Switch [
      (''aA'', Switch [
        (''cC'', Switch [
          ([CHR 0x00], Return Media_audio)])]),
      (''iI'', Switch [
        (''fF'', Switch [
          ([CHR 0x00], Return Media_audio),
          (''cC'', Switch [
            ([CHR 0x00], Return Media_audio)]),
          (''fF'', Switch [
            ([CHR 0x00], Return Media_audio)])])]),
      (''mM'', Switch [
        (''rR'', Switch [
          ([CHR 0x00], Return Media_audio)])]),
      (''rR'', Switch [
        (''tT'', Switch [
          ([CHR 0x00], Return Media_image)]),
        (''wW'', Switch [
          ([CHR 0x00], Return Media_image)])]),
      (''sS'', Switch [
        (''fF'', Switch [
          ([CHR 0x00], Return Media_video)]),
        (''xX'', Switch [
          ([CHR 0x00], Return Media_video)])]),
      (''vV'', Switch [
        (''iI'', Switch [
          ([CHR 0x00], Return Media_video)])]),
      (''wW'', Switch [
        (''bB'', Switch [
          ([CHR 0x00], Return Media_audio)])])])"

definition case_b :: "string \<times> ext_switch" where
  "case_b =
    (''bB'', Switch [
      (''mM'', Switch [
        (''pP'', Switch [
          ([CHR 0x00], Return Media_image)])])])"

definition case_c :: "string \<times> ext_switch" where
  "case_c =
    (''cC'', Switch [
      (''rR'', Switch [
        (''2'', Switch [
          ([CHR 0x00], Return Media_image)])])])"

definition case_d :: "string \<times> ext_switch" where
  "case_d =
    (''dD'', Switch [
      (''iI'', Switch [
        (''fF'', Switch [
          ([CHR 0x00], Return Media_video)])]),
      (''lL'', Switch [
        ([CHR 0x00], Return Media_video)]),
      (''nN'', Switch [
        (''gG'', Switch [
          ([CHR 0x00], Return Media_image)])]),
      (''vV'', Switch [
        ([CHR 0x00], Return Media_video)])])"

definition case_f :: "string \<times> ext_switch" where
  "case_f =
    (''fF'', Switch [
      (''lL'', Switch [
        (''aA'', Switch [
          (''cC'', Switch [
            ([CHR 0x00], Return Media_audio)])]),
        (''iI'', Switch [
          ([CHR 0x00], Return Media_video)])])])"

definition case_g :: "string \<times> ext_switch" where
  "case_g =
    (''gG'', Switch [
      (''iI'', Switch [
        (''fF'', Switch [
          ([CHR 0x00], Return Media_image)])]),
      (''sS'', Switch [
        (''mM'', Switch [
          ([CHR 0x00], Return Media_audio)])])])"

definition case_j :: "string \<times> ext_switch" where
  "case_j =
    (''jJ'', Switch [
      (''nN'', Switch [
        (''gG'', Switch [
          ([CHR 0x00], Return Media_image)])]),
      (''pP'', Switch [
        (''eE'', Switch [
          ([CHR 0x00], Return Media_image),
          (''gG'', Switch [
            ([CHR 0x00], Return Media_image)])]),
        (''gG'', Switch [
          ([CHR 0x00], Return Media_image)])])])"

definition case_l :: "string \<times> ext_switch" where
  "case_l =
    (''lL'', Switch [
      (''sS'', Switch [
        (''fF'', Switch [
          ([CHR 0x00], Return Media_video)]),
        (''xX'', Switch [
          ([CHR 0x00], Return Media_video)])])])"

definition case_m :: "string \<times> ext_switch" where
  "case_m =
    (''mM'', Switch [
      (''3'', Switch [
        (''uU'', Switch [
          ([CHR 0x00], Return Media_audio)])]),
      (''4'', Switch [
        (''aA'', Switch [
          ([CHR 0x00], Return Media_audio)]),
        (''vV'', Switch [
          ([CHR 0x00], Return Media_video)])]),
      (''kK'', Switch [
        (''aA'', Switch [
          ([CHR 0x00], Return Media_audio)]),
        (''vV'', Switch [
          ([CHR 0x00], Return Media_video)])]),
      (''nN'', Switch [
        (''gG'', Switch [
          ([CHR 0x00], Return Media_video)])]),
      (''oO'', Switch [
        (''vV'', Switch [
          ([CHR 0x00], Return Media_video),
          (''iI'', Switch [
            (''eE'', Switch [
              ([CHR 0x00], Return Media_video)])])])]),
      (''pP'', Switch [
        (''2'', Switch [
          ([CHR 0x00], Return Media_audio)]),
        (''3'', Switch [
          ([CHR 0x00], Return Media_audio)]),
        (''4'', Switch [
          ([CHR 0x00], Return Media_video)]),
        (''eE'', Switch [
          ([CHR 0x00], Return Media_video),
          (''gG'', Switch [
            ([CHR 0x00], Return Media_video),
            (''aA'', Switch [
              ([CHR 0x00], Return Media_audio)])])]),
        (''gG'', Switch [
          ([CHR 0x00], Return Media_video),
          (''aA'', Switch [
            ([CHR 0x00], Return Media_audio)])])]),
      (''xX'', Switch [
        (''uU'', Switch [
          ([CHR 0x00], Return Media_video)])])])"

definition case_n :: "string \<times> ext_switch" where
  "case_n =
    (''nN'', Switch [
      (''eE'', Switch [
        (''fF'', Switch [
          ([CHR 0x00], Return Media_image)])]),
      (''rR'', Switch [
        (''wW'', Switch [
          ([CHR 0x00], Return Media_image)])])])"

definition case_o :: "string \<times> ext_switch" where
  "case_o =
    (''oO'', Switch [
      (''gG'', Switch [
        (''aA'', Switch [
          ([CHR 0x00], Return Media_audio)]),
        (''gG'', Switch [
          ([CHR 0x00], Return Media_audio)])]),
      (''rR'', Switch [
        (''fF'', Switch [
          ([CHR 0x00], Return Media_image)])])])"

definition case_p :: "string \<times> ext_switch" where
  "case_p =
    (''pP'', Switch [
      (''bB'', Switch [
        (''mM'', Switch [
          ([CHR 0x00], Return Media_image)])]),
      (''cC'', Switch [
        (''xX'', Switch [
          ([CHR 0x00], Return Media_image)])]),
      (''eE'', Switch [
        (''fF'', Switch [
          ([CHR 0x00], Return Media_image)])]),
      (''gG'', Switch [
        (''mM'', Switch [
          ([CHR 0x00], Return Media_image)])]),
      (''lL'', Switch [
        (''sS'', Switch [
          ([CHR 0x00], Return Media_audio)])]),
      (''nN'', Switch [
        (''gG'', Switch [
          ([CHR 0x00], Return Media_image)]),
        (''mM'', Switch [
          ([CHR 0x00], Return Media_image)])]),
      (''pP'', Switch [
        (''mM'', Switch [
          ([CHR 0x00], Return Media_image)])]),
      (''sS'', Switch [
        (''dD'', Switch [
          ([CHR 0x00], Return Media_image)])])])"

definition case_q :: "string \<times> ext_switch" where
  "case_q =
    (''qQ'', Switch [
      (''tT'', Switch [
        ([CHR 0x00], Return Media_video)])])"

definition case_r :: "string \<times> ext_switch" where
  "case_r =
    (''rR'', Switch [
      (''aA'', Switch [
        ([CHR 0x00], Return Media_audio),
        (''mM'', Switch [
          ([CHR 0x00], Return Media_audio)]),
        (''sS'', Switch [
          ([CHR 0x00], Return Media_image)])]),
      (''gG'', Switch [
        (''bB'', Switch [
          ([CHR 0x00], Return Media_image)])]),
      (''mM'', Switch [
        ([CHR 0x00], Return Media_audio)]),
      (''wW'', Switch [
        (''2'', Switch [
          ([CHR 0x00], Return Media_image)])])])"

definition case_s :: "string \<times> ext_switch" where
  "case_s =
    (''sS'', Switch [
      (''dD'', Switch [
        (''2'', Switch [
          ([CHR 0x00], Return Media_audio)])]),
      (''nN'', Switch [
        (''dD'', Switch [
          ([CHR 0x00], Return Media_audio)])]),
      (''rR'', Switch [
        (''wW'', Switch [
          ([CHR 0x00], Return Media_image)])]),
      (''vV'', Switch [
        (''gG'', Switch [
          ([CHR 0x00], Return Media_image),
          (''zZ'', Switch [
            ([CHR 0x00], Return Media_image)])])])])"

definition case_t :: "string \<times> ext_switch" where
  "case_t =
    (''tT'', Switch [
      (''iI'', Switch [
        (''fF'', Switch [
          ([CHR 0x00], Return Media_image),
          (''fF'', Switch [
            ([CHR 0x00], Return Media_image)])])]),
      (''sS'', Switch [
        ([CHR 0x00], Return Media_video)])])"

definition case_v :: "string \<times> ext_switch" where
  "case_v =
    (''vV'', Switch [
      (''oO'', Switch [
        (''bB'', Switch [
          ([CHR 0x00], Return Media_video)])])])"

definition case_w :: "string \<times> ext_switch" where
  "case_w =
    (''wW'', Switch [
      (''aA'', Switch [
        (''vV'', Switch [
          ([CHR 0x00], Return Media_audio)]),
        (''xX'', Switch [
          ([CHR 0x00], Return Media_audio)])]),
      (''bB'', Switch [
        (''mM'', Switch [
          (''pP'', Switch [
            ([CHR 0x00], Return Media_image)])])]),
      (''eE'', Switch [
        (''bB'', Switch [
          (''mM'', Switch [
            ([CHR 0x00], Return Media_video)]),
          (''pP'', Switch [
            ([CHR 0x00], Return Media_image)])])]),
      (''mM'', Switch [
        ([CHR 0x00], Return Media_video),
        (''aA'', Switch [
          ([CHR 0x00], Return Media_audio)]),
        (''vV'', Switch [
          ([CHR 0x00], Return Media_video)]),
        (''xX'', Switch [
          ([CHR 0x00], Return Media_video)])]),
      (''rR'', Switch [
        (''fF'', Switch [
          ([CHR 0x00], Return Media_video)])]),
      (''vV'', Switch [
        (''xX'', Switch [
          ([CHR 0x00], Return Media_video)])])])"

definition case_x :: "string \<times> ext_switch" where
  "case_x =
    (''xX'', Switch [
      (''bB'', Switch [
        (''mM'', Switch [
          ([CHR 0x00], Return Media_image)])]),
      (''pP'', Switch [
        (''mM'', Switch [
          ([CHR 0x00], Return Media_image)])]),
      (''wW'', Switch [
        (''dD'', Switch [
          ([CHR 0x00], Return Media_image)])])])"

definition extension_tree :: ext_switch where
  "extension_tree = Switch
    [case_3, case_a, case_b, case_c, case_d, case_f, case_g, case_j, case_l, case_m, case_n, case_o, case_p, case_q, case_r, case_s, case_t, case_v, case_w, case_x]"

definition MatchExtension :: "string \<Rightarrow> media option" where
  "MatchExtension ext = run_switch extension_tree ext"

section \<open>The table\<close>

definition audio_types :: "string list" where
  "audio_types =
     [''aac'', ''aac'', ''amr'', ''awb'', ''snd'', ''flac'', ''flac'', ''mp3'', ''mpga'',
      ''mpega'', ''mp2'', ''m4a'', ''aif'', ''aiff'', ''aifc'', ''gsm'', ''mka'', ''m3u'',
      ''wma'', ''wax'', ''ra'', ''rm'', ''ram'', ''ra'', ''pls'', ''sd2'', ''wav'', ''ogg'',
      ''oga'']"

definition video_types :: "string list" where
  "video_types =
     [''3gpp'', ''3gp'', ''3gpp2'', ''3g2'', ''avi'', ''dl'', ''dif'', ''dv'', ''fli'',
      ''m4v'', ''ts'', ''mpeg'', ''mpg'', ''mpe'', ''mp4'', ''vob'', ''qt'', ''mov'', ''mxu'',
      ''webm'', ''lsf'', ''lsx'', ''mkv'', ''mng'', ''asf'', ''asx'', ''wm'', ''wmv'', ''wmx'',
      ''wvx'', ''movie'', ''wrf'']"

definition image_types :: "string list" where
  "image_types =
     [''bmp'', ''gif'', ''jpg'', ''jpeg'', ''jpe'', ''pcx'', ''png'', ''svg'', ''svgz'',
      ''tiff'', ''tif'', ''wbmp'', ''webp'', ''dng'', ''cr2'', ''ras'', ''art'', ''jng'',
      ''nef'', ''nrw'', ''orf'', ''rw2'', ''pef'', ''psd'', ''pnm'', ''pbm'', ''pgm'', ''ppm'',
      ''srw'', ''arw'', ''rgb'', ''xbm'', ''xpm'', ''xwd'']"

definition type_table :: "(string \<times> media) list" where
  "type_table = map (\<lambda>e. (e, Media_audio)) audio_types @ map (\<lambda>e. (e, Media_video)) video_types @
     map (\<lambda>e. (e, Media_image)) image_types"

section \<open>What a tree accepts\<close>

definition lower :: "char \<Rightarrow> char" where
  "lower c = (let n = of_char c :: nat in if 65 \<le> n \<and> n \<le> 90 then char_of (n + 32) else c)"

text \<open>A case has one label that is no letter, or a small letter and its capital.\<close>

definition label_ok :: "string \<Rightarrow> bool" where
  "label_ok ls \<longleftrightarrow>
     (case ls of
        [c] \<Rightarrow> (let n = of_char c :: nat in n \<noteq> 0 \<and> \<not> (65 \<le> n \<and> n \<le> 90) \<and> \<not> (97 \<le> n \<and> n \<le> 122))
      | [c, d] \<Rightarrow> (let n = of_char c :: nat in 97 \<le> n \<and> n \<le> 122 \<and> (of_char d :: nat) = n - 32)
      | _ \<Rightarrow> False)"

lemma label_ok_lower: "label_ok ls \<Longrightarrow> c \<in> set ls \<longleftrightarrow> lower c = hd ls"
proof -
  assume ok: "label_ok ls"
  have eq: "x = y \<longleftrightarrow> (of_char x :: nat) = of_char y" for x y :: char by simp
  have range: "(of_char x :: nat) < 256" for x :: char
    by (metis of_char_mod_256 mod_less_divisor zero_less_numeral)
  have low: "(of_char (lower x) :: nat) =
      (if 65 \<le> (of_char x :: nat) \<and> (of_char x :: nat) \<le> 90 then of_char x + 32 else of_char x)" for x
    by (simp add: lower_def Let_def)
  from ok obtain a as where ls: "ls = a # as" "as = [] \<or> (\<exists>d. as = [d])"
    by (auto simp: label_ok_def split: list.splits)
  then consider "ls = [a]" | d where "ls = [a, d]" by auto
  then show ?thesis
  proof cases
    case 1
    with ok show ?thesis unfolding eq [of "lower c"] low by (auto simp: label_ok_def Let_def eq simp del: of_char_eq_iff split: if_splits)
  next
    case 2
    with ok show ?thesis unfolding eq [of "lower c"] low by (auto simp: label_ok_def Let_def eq simp del: of_char_eq_iff split: if_splits)
  qed
qed

text \<open>The words a tree accepts, in small letters, and the trees that are well formed.\<close>

fun words :: "ext_switch \<Rightarrow> (string \<times> media) list" where
  "words (Return m) = [([], m)]"
| "words (Switch cs) = concat (map (\<lambda>(ls, t).
     if ls = [CHR 0x00] then words t else map (\<lambda>(w, m). (hd ls # w, m)) (words t)) cs)"

fun wf_switch :: "ext_switch \<Rightarrow> bool" where
  "wf_switch (Return m) = False"
| "wf_switch (Switch cs) =
     (distinct (map (\<lambda>(ls, t). hd ls) cs) \<and>
      list_all (\<lambda>(ls, t). if ls = [CHR 0x00] then (case t of Return m \<Rightarrow> True | Switch _ \<Rightarrow> False)
        else label_ok ls \<and> wf_switch t) cs)"

lemma map_of_prefix: "map_of (map (\<lambda>(w, m). (c # w, m)) ws) (d # v) = (if c = d then map_of ws v else None)"
  by (induction ws) auto

lemma map_of_prefix_Nil: "map_of (map (\<lambda>(w, m). (c # w, m)) ws) [] = None"
  by (induction ws) auto

text \<open>The words of the cases of a \<open>switch\<close>.\<close>

definition case_words :: "(string \<times> ext_switch) list \<Rightarrow> (string \<times> media) list" where
  "case_words cs = concat (map (\<lambda>(ls, t).
     if ls = [CHR 0x00] then words t else map (\<lambda>(w, m). (hd ls # w, m)) (words t)) cs)"

lemma case_words_simps [simp]:
  "case_words [] = []"
  "case_words ((ls, t) # cs) = (if ls = [CHR 0x00] then words t else map (\<lambda>(w, m). (hd ls # w, m)) (words t)) @ case_words cs"
  by (simp_all add: case_words_def)

definition wf_cases :: "(string \<times> ext_switch) list \<Rightarrow> bool" where
  "wf_cases cs \<longleftrightarrow> distinct (map (\<lambda>(ls, t). hd ls) cs) \<and>
     list_all (\<lambda>(ls, t). if ls = [CHR 0x00] then (case t of Return m \<Rightarrow> True | Switch _ \<Rightarrow> False)
       else label_ok ls \<and> wf_switch t) cs"

lemma case_words_other:
  "wf_cases cs \<Longrightarrow> x \<notin> hd ` fst ` set cs \<Longrightarrow> map_of (case_words cs) (x # v) = None"
proof (induction cs)
  case (Cons c cs)
  obtain ls t where c: "c = (ls, t)" by force
  have "wf_cases cs" using Cons.prems(1) by (simp add: wf_cases_def)
  with Cons c show ?case
    by (auto simp: wf_cases_def map_of_prefix map_add_def split: option.splits ext_switch.splits if_splits)
qed simp

lemma lower_NUL: "lower c = CHR 0x00 \<longleftrightarrow> c = CHR 0x00"
proof -
  have eq: "x = y \<longleftrightarrow> (of_char x :: nat) = of_char y" for x y :: char by simp
  show ?thesis unfolding eq [of "lower c"] eq [of c] by (simp add: lower_def Let_def del: of_char_eq_iff)
qed

lemma run_words:
  "wf_switch t \<Longrightarrow> CHR 0x00 \<notin> set s \<Longrightarrow> run_switch t s = map_of (words t) (map lower s)"
  "wf_cases cs \<Longrightarrow> CHR 0x00 \<notin> set s \<Longrightarrow> run_cases cs s = map_of (case_words cs) (map lower s)"
proof (induction t s and cs s rule: run_switch_run_cases.induct)
  case (4 labels t cs s)
  have wf: "wf_cases cs" using 4(3) by (simp add: wf_cases_def)
  show ?case
  proof (cases "labels = [CHR 0x00]")
    case True
    with 4(3) obtain m where t: "t = Return m" by (auto simp: wf_cases_def split: ext_switch.splits)
    show ?thesis
    proof (cases s)
      case Nil
      with True t show ?thesis by (simp add: cur_def)
    next
      case (Cons c s')
      with 4(4) have "c \<noteq> CHR 0x00" by auto
      with True t Cons 4(2) [OF _ wf 4(4)] show ?thesis by (simp add: cur_def)
    qed
  next
    case False
    with 4(3) have ok: "label_ok labels" and wt: "wf_switch t" and new: "hd labels \<notin> hd ` fst ` set cs"
      by (auto simp: wf_cases_def image_iff)
    show ?thesis
    proof (cases s)
      case Nil
      have "lower (CHR 0x00) = CHR 0x00" by (simp add: lower_NUL)
      moreover have "hd labels \<noteq> CHR 0x00" using ok by (auto simp: label_ok_def split: list.splits)
      ultimately have "CHR 0x00 \<notin> set labels" using label_ok_lower [OF ok] by metis
      with Nil False 4(2) [OF _ wf 4(4)] show ?thesis by (simp add: cur_def map_of_prefix_Nil map_add_def)
    next
      case (Cons c s')
      have c: "cur s = c" "CHR 0x00 \<notin> set s'" using Cons 4(4) by (auto simp: cur_def)
      show ?thesis
      proof (cases "c \<in> set labels")
        case True
        then have h: "lower c = hd labels" using label_ok_lower [OF ok] by blast
        have "map_of (case_words cs) (hd labels # map lower s') = None" by (rule case_words_other [OF wf new])
        with True False h c Cons 4(1) wt show ?thesis
          by (simp add: map_of_prefix map_add_def split: option.split)
      next
        case out: False
        then have "lower c \<noteq> hd labels" using label_ok_lower [OF ok] by blast
        with out False c Cons 4(2) wf 4(4) show ?thesis by (simp add: map_of_prefix map_add_def)
      qed
    qed
  qed
qed (auto simp: wf_cases_def case_words_def)

section \<open>The tree is the table\<close>

lemma tree_wf: "wf_switch extension_tree"
  by code_simp

lemma tree_words_distinct: "distinct (map fst (words extension_tree))"
  by code_simp

lemma tree_words_in_table: "list_all (\<lambda>w. List.member type_table w) (words extension_tree)"
  by code_simp

lemma table_in_tree_words: "list_all (\<lambda>w. List.member (words extension_tree) w) type_table"
  by code_simp

lemma map_of_same_set:
  assumes "distinct (map fst xs)" and "set xs = set ys"
  shows "map_of xs k = map_of ys k"
proof (cases "map_of ys k")
  case None
  then have "k \<notin> fst ` set xs" using assms(2) by (simp add: map_of_eq_None_iff)
  then have "map_of xs k = None" by (simp add: map_of_eq_None_iff)
  with None show ?thesis by simp
next
  case (Some v)
  then have "(k, v) \<in> set xs" using assms(2) map_of_SomeD by force
  with Some assms(1) show ?thesis by simp
qed

text \<open>
  C38: the generated decision tree is the table of the script: a file extension is classified
  exactly as the table says, capital and small letters alike, and everything else is unknown.
\<close>
theorem MatchExtension_table:
  assumes "CHR 0x00 \<notin> set ext"
  shows "MatchExtension ext = map_of type_table (map lower ext)"
proof -
  have "set (words extension_tree) = set type_table"
    using tree_words_in_table table_in_tree_words by (auto simp: list_all_iff)
  then have "map_of (words extension_tree) = map_of type_table"
    using map_of_same_set [OF tree_words_distinct] by blast
  with run_words(1) [OF tree_wf assms] show ?thesis by (simp add: MatchExtension_def)
qed

theorem MatchExtension_table_witness: "MatchExtension ''JPeg'' = Some Media_image"
proof -
  have "map_of type_table (map lower ''JPeg'') = Some Media_image" by code_simp
  with MatchExtension_table [of "''JPeg''"] show ?thesis by simp
qed

end
