(* ===== verification/InstalldSizes.thy ===== *)
theory InstalldSizes
  imports InstalldApp MatchExtension
begin

text \<open>
  The measurements of installd (\<open>getAppSize\<close>, \<open>getUserSize\<close>, \<open>getExternalSize\<close> and
  \<open>setAppQuota\<close> in \<open>installd/InstalldNativeService.cpp\<close>).  The file system is read only: what
  \<open>fts\<close> or \<open>readdir\<close> finds at a path is a tree, \<open>None\<close> when it cannot be opened.  Sizes are
  unbounded integers; every \<open>fstatat\<close> on an entry that was just read succeeds.
\<close>

section \<open>Statistics\<close>

record stats =
  codeSize :: int
  dataSize :: int
  cacheSize :: int

definition zero_stats :: stats where
  "zero_stats = \<lparr>codeSize = 0, dataSize = 0, cacheSize = 0\<rparr>"

definition add_code :: "int \<Rightarrow> stats \<Rightarrow> stats" where
  "add_code n s = s\<lparr>codeSize := codeSize s + n\<rparr>"

definition add_data :: "int \<Rightarrow> stats \<Rightarrow> stats" where
  "add_data n s = s\<lparr>dataSize := dataSize s + n\<rparr>"

definition add_cache :: "int \<Rightarrow> stats \<Rightarrow> stats" where
  "add_cache n s = s\<lparr>cacheSize := cacheSize s + n\<rparr>"

text \<open>The platform as a measurement sees it.\<close>

record size_env =
  sz_svc :: svc_env
  sz_ids :: app_ids
  sz_tree :: "string \<Rightarrow> ftree option"
  sz_quotactl :: "quota_kind \<Rightarrow> string \<Rightarrow> int \<Rightarrow> int option"
  sz_mounts :: "string \<rightharpoonup> string"
  sz_ext_gid :: "int \<Rightarrow> int \<Rightarrow> int"
  sz_ext_cache_gid :: "int \<Rightarrow> int \<Rightarrow> int"
  sz_AID_MEDIA_RW :: int
  sz_AID_MEDIA_OBB :: int
  sz_AID_MEDIA_AUDIO :: int
  sz_AID_MEDIA_VIDEO :: int
  sz_AID_MEDIA_IMAGE :: int

text \<open>The space of a UID or GID on a volume; \<open>None\<close> is -1, a volume without quotas or an error.\<close>

definition space_of :: "size_env \<Rightarrow> quota_kind \<Rightarrow> string \<Rightarrow> int \<Rightarrow> int option" where
  "space_of env kind uuid i =
     (case GetOccupiedSpace (sz_quotactl env) kind (se_paths (sz_svc env)) (sz_mounts env) uuid i of
        None \<Rightarrow> None
      | Some n \<Rightarrow> if n = -1 then None else Some n)"

text \<open>\<open>if ((space = GetOccupiedSpace...) != -1) ...\<close>\<close>

definition add_space :: "(int \<Rightarrow> stats \<Rightarrow> stats) \<Rightarrow> int option \<Rightarrow> stats \<Rightarrow> stats" where
  "add_space add space s = (case space of None \<Rightarrow> s | Some n \<Rightarrow> add n s)"

definition collectQuotaStats_int :: "size_env \<Rightarrow> string \<Rightarrow> int \<Rightarrow> int \<Rightarrow> stats \<Rightarrow> stats" where
  "collectQuotaStats_int env uuid userId appId s =
     (let svc = sz_svc env;
          s1 = add_space add_data (space_of env USRQUOTA uuid (se_get_uid svc userId appId)) s;
          cacheGid = se_cache_gid svc userId appId;
          s2 = (if cacheGid = -1 then s1 else add_space add_cache (space_of env GRPQUOTA uuid cacheGid) s1);
          sharedGid = se_shared_gid svc 0 appId
      in if sharedGid = -1 then s2 else add_space add_code (space_of env GRPQUOTA uuid sharedGid) s2)"

definition collectQuotaStats_ext :: "size_env \<Rightarrow> string \<Rightarrow> int \<Rightarrow> int \<Rightarrow> stats \<Rightarrow> stats" where
  "collectQuotaStats_ext env uuid userId appId s =
     (let extGid = sz_ext_gid env userId appId;
          s1 = (if extGid = -1 then s else add_space add_data (space_of env GRPQUOTA uuid extGid) s);
          extCacheGid = sz_ext_cache_gid env userId appId
      in if extCacheGid = -1 then s1
         else add_space (\<lambda>n s. add_cache n (add_data n s)) (space_of env GRPQUOTA uuid extCacheGid) s1)"

definition measure_path :: "size_env \<Rightarrow> string \<Rightarrow> int \<Rightarrow> int \<Rightarrow> bool \<Rightarrow> int" where
  "measure_path env path include_gid exclude_gid exclude_apps =
     snd (calculate_tree_size (sz_ids env) (sz_tree env path) 0 include_gid exclude_gid exclude_apps)"

section \<open>Walking a directory\<close>

text \<open>
  One entry of \<open>collectManualStats\<close>: a directory is measured with everything in it, the legacy
  symlink \<open>lib\<close> is not counted.
\<close>

definition manual_entry :: "app_ids \<Rightarrow> ftree \<Rightarrow> stats \<Rightarrow> stats" where
  "manual_entry ids t s =
     (case t of
        Node a ts \<Rightarrow>
          (let sz = measure_tree ids (-1) (-1) False t;
               s1 = (if f_name a = ''cache'' \<or> f_name a = ''code_cache'' then add_cache sz s else s)
           in add_data sz s1)
      | Leaf k a \<Rightarrow>
          if (k = FTS_SL \<or> k = FTS_SLNONE) \<and> f_name a = ''lib'' then s
          else add_data (f_blocks a * 512) s)"

text \<open>The directory itself is counted through its entry \<open>.\<close>; \<open>..\<close> is not.\<close>

definition collectManualStats :: "app_ids \<Rightarrow> ftree option \<Rightarrow> stats \<Rightarrow> stats" where
  "collectManualStats ids d s =
     (case d of
        Some (Node a ts) \<Rightarrow> fold (manual_entry ids) ts (add_data (f_blocks a * 512) s)
      | _ \<Rightarrow> s)"

definition collectManualStatsForUser :: "app_ids \<Rightarrow> bool \<Rightarrow> ftree option \<Rightarrow> stats \<Rightarrow> stats" where
  "collectManualStatsForUser ids exclude_apps d s =
     (case d of
        Some (Node a ts) \<Rightarrow>
          fold (\<lambda>t s. case t of
              Leaf k b \<Rightarrow> s
            | Node b us \<Rightarrow>
                (let user_uid = multiuser_get_app_id ids (f_uid b)
                 in if exclude_apps \<and> user_uid \<ge> AID_APP_START ids \<and> user_uid \<le> AID_APP_END ids then s
                    else collectManualStats ids (Some t) s)) ts s
      | _ \<Rightarrow> s)"

text \<open>
  The walk of \<open>collectManualExternalStatsForUser\<close>: \<open>parents\<close> are the names of the directories above
  the entry, the nearest first; \<open>n\<close> is \<open>fts_number\<close> of the parent.
\<close>

definition is_ext_cache :: "nat \<Rightarrow> string list \<Rightarrow> string \<Rightarrow> bool" where
  "is_ext_cache lvl parents name \<longleftrightarrow>
     lvl = 4 \<and> name = ''cache'' \<and> parents ! 1 = ''data'' \<and> parents ! 2 = ''Android''"

fun ext_node :: "nat \<Rightarrow> string list \<Rightarrow> bool \<Rightarrow> ftree \<Rightarrow> stats \<Rightarrow> stats" where
  "ext_node lvl parents n (Leaf k a) s =
     add_data (f_blocks a * 512) (if n then add_cache (f_blocks a * 512) s else s)"
| "ext_node lvl parents n (Node a ts) s =
     (let n' = (n \<or> is_ext_cache lvl parents (f_name a));
          s1 = add_data (f_blocks a * 512) (if n' then add_cache (f_blocks a * 512) s else s)
      in fold (ext_node (Suc lvl) (f_name a # parents) n') ts s1)"

definition collectManualExternalStatsForUser :: "ftree option \<Rightarrow> stats \<Rightarrow> stats" where
  "collectManualExternalStatsForUser d s = (case d of None \<Rightarrow> s | Some t \<Rightarrow> ext_node 0 [] False t s)"

section \<open>getAppSize\<close>

definition size_flags :: "size_env \<Rightarrow> string \<Rightarrow> int \<Rightarrow> int option" where
  "size_flags env uuid flags =
     (case IsQuotaSupported (se_paths (sz_svc env)) (sz_mounts env) uuid of
        None \<Rightarrow> None
      | Some supported \<Rightarrow> Some (if supported then flags else flags AND NOT FLAG_USE_QUOTA))"

definition uuid_string :: "cstring \<Rightarrow> string" where
  "uuid_string uuid = (case uuid of None \<Rightarrow> [] | Some u \<Rightarrow> u)"

text \<open>The data of one package, measured by hand; \<open>None\<close> is the \<open>CHECK\<close> of a path builder.\<close>

definition manual_package ::
  "size_env \<Rightarrow> cstring \<Rightarrow> int \<Rightarrow> string \<Rightarrow> int \<Rightarrow> stats \<times> stats \<Rightarrow> (stats \<times> stats) option" where
  "manual_package env uuid userId pkgname ino se =
     (let svc = sz_svc env; user = user_nat userId
      in do {
        cePath \<leftarrow> ce_package_inode svc uuid userId pkgname ino;
        dePath \<leftarrow> de_package svc uuid userId pkgname;
        let s2 = collectManualStats (sz_ids env) (sz_tree env dePath)
                   (collectManualStats (sz_ids env) (sz_tree env cePath) (fst se));
        cur \<leftarrow> create_primary_current_profile_package_dir_path (se_globals svc) user pkgname;
        ref \<leftarrow> create_primary_reference_profile_package_dir_path (se_globals svc) pkgname;
        let s3 = (if uuid = None
                  then add_code (measure_path env ref (-1) (-1) False)
                         (add_data (measure_path env cur (-1) (-1) False) s2)
                  else s2);
        extPath \<leftarrow> create_data_media_package_path (se_paths svc) uuid user ''data'' pkgname;
        let e1 = collectManualStats (sz_ids env) (sz_tree env extPath) (snd se);
        mediaPath \<leftarrow> create_data_media_package_path (se_paths svc) uuid user ''media'' pkgname;
        Some (s3, add_data (measure_path env mediaPath (-1) (-1) False) e1) })"

fun manual_packages ::
  "size_env \<Rightarrow> cstring \<Rightarrow> int \<Rightarrow> (string \<times> int) list \<Rightarrow> stats \<times> stats \<Rightarrow> (stats \<times> stats) option" where
  "manual_packages env uuid userId [] se = Some se"
| "manual_packages env uuid userId ((pkgname, ino) # ps) se =
     (case manual_package env uuid userId pkgname ino se of
        None \<Rightarrow> None
      | Some se' \<Rightarrow> manual_packages env uuid userId ps se')"

definition obb_sizes :: "size_env \<Rightarrow> cstring \<Rightarrow> int \<Rightarrow> string list \<Rightarrow> stats \<Rightarrow> stats option" where
  "obb_sizes env uuid userId packageNames e =
     fold (\<lambda>p e. case e of
          None \<Rightarrow> None
        | Some e' \<Rightarrow>
            (case create_data_media_package_path (se_paths (sz_svc env)) uuid (user_nat userId) ''obb'' p of
               None \<Rightarrow> None
             | Some path \<Rightarrow> Some (add_code (measure_path env path (-1) (-1) False) e')))
       packageNames (Some e)"

text \<open>
  The measurement after the checks.  \<open>packageNames\<close> come with their \<open>ceDataInodes\<close>: an entry
  beyond the end of that vector is undefined in the code.
\<close>

definition app_stats ::
  "size_env \<Rightarrow> cstring \<Rightarrow> (string \<times> int) list \<Rightarrow> int \<Rightarrow> int \<Rightarrow> int \<Rightarrow> string list \<Rightarrow> (stats \<times> stats) option" where
  "app_stats env uuid packages userId flags appId codePaths =
     (let svc = sz_svc env; str = uuid_string uuid
      in case (size_flags env str flags, obb_sizes env uuid userId (map fst packages) zero_stats) of
           (Some fl, Some e) \<Rightarrow>
             if has_flag fl FLAG_USE_QUOTA \<and> appId \<ge> AID_APP_START (sz_ids env) then
               (let s = fold (\<lambda>c s. add_code (measure_path env c (-1) (se_shared_gid svc 0 appId) False) s) codePaths zero_stats
                in Some (collectQuotaStats_int env str userId appId s, collectQuotaStats_ext env str userId appId e))
             else
               (let s = fold (\<lambda>c s. add_code (measure_path env c (-1) (-1) False) s) codePaths zero_stats
                in case manual_packages env uuid userId packages (s, e) of
                     None \<Rightarrow> None
                   | Some (s1, e1) \<Rightarrow>
                       if uuid = None \<and> se_shared_gid svc 0 appId \<noteq> -1 then
                         Some (add_code (measure_path env create_data_dalvik_cache_path
                                 (se_shared_gid svc 0 appId) (-1) False) s1, e1)
                       else Some (s1, e1))
         | _ \<Rightarrow> None)"

definition stats_list :: "stats \<times> stats \<Rightarrow> int list" where
  "stats_list se = (case se of (s, e) \<Rightarrow>
     [codeSize s, dataSize s, cacheSize s, codeSize e, dataSize e, cacheSize e])"

fun first_error :: "status list \<Rightarrow> status" where
  "first_error [] = StatusOk"
| "first_error (st # sts) = (if isOk st then first_error sts else st)"

definition getAppSize ::
  "size_env \<Rightarrow> cstring \<Rightarrow> (string \<times> int) list \<Rightarrow> int \<Rightarrow> int \<Rightarrow> int \<Rightarrow> string list \<Rightarrow> (status \<times> int list) option" where
  "getAppSize env uuid packages userId flags appId codePaths =
     (let st = first_error ([uid_check (sz_svc env), checkArgumentUuid uuid] @
            map (\<lambda>(p, i). checkArgumentPackageName p) packages @ map checkArgumentPath codePaths)
      in if st \<noteq> StatusOk then Some (st, [])
         else map_option (\<lambda>se. (StatusOk, stats_list se)) (app_stats env uuid packages userId flags appId codePaths))"

section \<open>getUserSize\<close>

definition user_stats_quota ::
  "size_env \<Rightarrow> cstring \<Rightarrow> int \<Rightarrow> int list \<Rightarrow> (stats \<times> stats) option" where
  "user_stats_quota env uuid userId appIds =
     (let svc = sz_svc env; str = uuid_string uuid; user = user_nat userId; ids = sz_ids env;
          cur = create_primary_cur_profile_dir_path (se_globals svc) user;
          ref = create_primary_ref_profile_dir_path (se_globals svc);
          e1 = add_space add_code (space_of env GRPQUOTA str (sz_AID_MEDIA_OBB env)) zero_stats
      in do {
        app \<leftarrow> create_data_app_path (se_paths svc) uuid;
        cePath \<leftarrow> create_data_user_ce_path (se_paths svc) uuid user;
        dePath \<leftarrow> create_data_user_de_path (se_paths svc) uuid user;
        let s1 = add_code (measure_path env app (-1) (-1) True) zero_stats;
        let s2 = collectManualStatsForUser ids True (sz_tree env dePath)
                   (collectManualStatsForUser ids True (sz_tree env cePath) s1);
        let s3 = (if uuid = None
                  then add_code (measure_path env ref (-1) (-1) True)
                         (add_data (measure_path env cur (-1) (-1) True) s2)
                  else s2);
        let e2 = add_space add_data (space_of env USRQUOTA str (se_get_uid svc userId (sz_AID_MEDIA_RW env))) e1;
        let s4 = (if uuid = None
                  then add_data (measure_path env cur (-1) (-1) True)
                         (add_code (measure_path env create_data_dalvik_cache_path (-1) (-1) True) s3)
                  else s3);
        let apps = filter (\<lambda>a. a \<ge> AID_APP_START ids) appIds;
        Some (fold (\<lambda>a s. collectQuotaStats_int env str userId a s) apps s4,
              (fold (\<lambda>a e. collectQuotaStats_ext env str userId a e) apps e2)\<lparr>dataSize := dataSize e2\<rparr>) })"

definition user_stats_manual :: "size_env \<Rightarrow> cstring \<Rightarrow> int \<Rightarrow> (stats \<times> stats) option" where
  "user_stats_manual env uuid userId =
     (let svc = sz_svc env; user = user_nat userId; ids = sz_ids env;
          cur = create_primary_cur_profile_dir_path (se_globals svc) user;
          ref = create_primary_ref_profile_dir_path (se_globals svc)
      in do {
        data \<leftarrow> create_data_path (se_paths svc) uuid;
        let e1 = add_code (measure_path env (data @ ''/media/obb'') (-1) (-1) False) zero_stats;
        app \<leftarrow> create_data_app_path (se_paths svc) uuid;
        let s1 = add_code (measure_path env app (-1) (-1) False) zero_stats;
        cePath \<leftarrow> create_data_user_ce_path (se_paths svc) uuid user;
        dePath \<leftarrow> create_data_user_de_path (se_paths svc) uuid user;
        let s2 = collectManualStatsForUser ids False (sz_tree env dePath)
                   (collectManualStatsForUser ids False (sz_tree env cePath) s1);
        let s3 = (if uuid = None
                  then add_code (measure_path env ref (-1) (-1) False)
                         (add_data (measure_path env cur (-1) (-1) False) s2)
                  else s2);
        media \<leftarrow> create_data_media_path (se_paths svc) uuid user;
        let e2 = collectManualExternalStatsForUser (sz_tree env media) e1;
        let s4 = (if uuid = None
                  then add_data (measure_path env cur (-1) (-1) False)
                         (add_code (measure_path env create_data_dalvik_cache_path (-1) (-1) False) s3)
                  else s3);
        Some (s4, e2) })"

definition getUserSize ::
  "size_env \<Rightarrow> cstring \<Rightarrow> int \<Rightarrow> int \<Rightarrow> int list \<Rightarrow> (status \<times> int list) option" where
  "getUserSize env uuid userId flags appIds =
     (let st = first_error [uid_check (sz_svc env), checkArgumentUuid uuid]
      in if st \<noteq> StatusOk then Some (st, [])
         else do {
           fl \<leftarrow> size_flags env (uuid_string uuid) flags;
           se \<leftarrow> (if has_flag fl FLAG_USE_QUOTA then user_stats_quota env uuid userId appIds
                  else user_stats_manual env uuid userId);
           Some (StatusOk, stats_list se) })"

section \<open>getExternalSize\<close>

record ext_sizes =
  totalSize :: int
  audioSize :: int
  videoSize :: int
  imageSize :: int
  appSize :: int
  obbSize :: int

definition zero_ext :: ext_sizes where
  "zero_ext = \<lparr>totalSize = 0, audioSize = 0, videoSize = 0, imageSize = 0, appSize = 0, obbSize = 0\<rparr>"

text \<open>The extension of a name: what follows the last dot.\<close>

definition extension_of :: "string \<Rightarrow> string option" where
  "extension_of name = (case rfind_char CHR ''.'' name of None \<Rightarrow> None | Some i \<Rightarrow> Some (drop (i + 1) name))"

definition categorize :: "string \<Rightarrow> int \<Rightarrow> ext_sizes \<Rightarrow> ext_sizes" where
  "categorize name sz x =
     (case extension_of name of
        None \<Rightarrow> x
      | Some ext \<Rightarrow>
          (case MatchExtension ext of
             Some Media_audio \<Rightarrow> x\<lparr>audioSize := audioSize x + sz\<rparr>
           | Some Media_video \<Rightarrow> x\<lparr>videoSize := videoSize x + sz\<rparr>
           | Some Media_image \<Rightarrow> x\<lparr>imageSize := imageSize x + sz\<rparr>
           | None \<Rightarrow> x))"

definition count_entry :: "bool \<Rightarrow> int \<Rightarrow> ext_sizes \<Rightarrow> ext_sizes" where
  "count_entry app sz x =
     (let x1 = (if app then x\<lparr>appSize := appSize x + sz\<rparr> else x) in x1\<lparr>totalSize := totalSize x1 + sz\<rparr>)"

text \<open>\<open>n\<close> says whether \<open>fts_number\<close> of the parent is 1.\<close>

fun external_node :: "nat \<Rightarrow> bool \<Rightarrow> ftree \<Rightarrow> ext_sizes \<Rightarrow> ext_sizes" where
  "external_node lvl n (Leaf k a) x =
     count_entry n (f_blocks a * 512)
       (if k = FTS_F \<and> \<not> n then categorize (f_name a) (f_blocks a * 512) x else x)"
| "external_node lvl n (Node a ts) x =
     fold (external_node (Suc lvl) (n \<or> lvl = 1 \<and> f_name a = ''Android'')) ts
       (count_entry n (f_blocks a * 512) x)"

definition external_quota :: "size_env \<Rightarrow> string \<Rightarrow> int \<Rightarrow> int list \<Rightarrow> ext_sizes" where
  "external_quota env uuid userId appIds =
     (let svc = sz_svc env;
          space = (\<lambda>kind i. case space_of env kind uuid i of None \<Rightarrow> 0 | Some n \<Rightarrow> n);
          apps = filter (\<lambda>a. a \<ge> AID_APP_START (sz_ids env)) appIds
      in \<lparr>totalSize = space USRQUOTA (se_get_uid svc userId (sz_AID_MEDIA_RW env)),
          audioSize = space GRPQUOTA (se_get_uid svc userId (sz_AID_MEDIA_AUDIO env)),
          videoSize = space GRPQUOTA (se_get_uid svc userId (sz_AID_MEDIA_VIDEO env)),
          imageSize = space GRPQUOTA (se_get_uid svc userId (sz_AID_MEDIA_IMAGE env)),
          appSize = dataSize (fold (\<lambda>a e. collectQuotaStats_ext env uuid userId a e) apps zero_stats),
          obbSize = space GRPQUOTA (sz_AID_MEDIA_OBB env)\<rparr>)"

definition ext_list :: "ext_sizes \<Rightarrow> int list" where
  "ext_list x = [totalSize x, audioSize x, videoSize x, imageSize x, appSize x, obbSize x]"

definition getExternalSize ::
  "size_env \<Rightarrow> int \<Rightarrow> cstring \<Rightarrow> int \<Rightarrow> int \<Rightarrow> int list \<Rightarrow> (status \<times> int list) option" where
  "getExternalSize env errno uuid userId flags appIds =
     (let st = first_error [uid_check (sz_svc env), checkArgumentUuid uuid]; str = uuid_string uuid
      in if st \<noteq> StatusOk then Some (st, [])
         else do {
           fl \<leftarrow> size_flags env str flags;
           if has_flag fl FLAG_USE_QUOTA then Some (StatusOk, ext_list (external_quota env str userId appIds))
           else do {
             path \<leftarrow> create_data_media_path (se_paths (sz_svc env)) uuid (user_nat userId);
             (case sz_tree env path of
                None \<Rightarrow> Some (ServiceError errno, [])
              | Some t \<Rightarrow>
                  (let x = external_node 0 False t zero_ext;
                       obb = measure_path env (path @ ''/Android/obb'') (-1) (-1) False
                   in Some (StatusOk, ext_list (x\<lparr>obbSize := obbSize x + obb\<rparr>)))) } })"

text \<open>The quota of an app; the key is the UID.\<close>

definition setAppQuota ::
  "svc_env \<Rightarrow> cstring \<Rightarrow> int \<Rightarrow> int \<Rightarrow> int \<Rightarrow> (int \<rightharpoonup> int) \<Rightarrow> status \<times> (int \<rightharpoonup> int)" where
  "setAppQuota env uuid userId appId cacheQuota quotas =
     (let st = first_error [uid_check env, checkArgumentUuid uuid]
      in if st \<noteq> StatusOk then (st, quotas)
         else (StatusOk, quotas(to_u32 (se_get_uid env userId appId) \<mapsto> cacheQuota)))"

section \<open>Categories do not overlap\<close>

fun no_negative :: "ftree \<Rightarrow> bool" where
  "no_negative (Leaf k a) \<longleftrightarrow> f_blocks a \<ge> 0"
| "no_negative (Node a ts) \<longleftrightarrow> f_blocks a \<ge> 0 \<and> list_all no_negative ts"

definition categories :: "ext_sizes \<Rightarrow> int" where
  "categories x = audioSize x + videoSize x + imageSize x + appSize x"

lemma external_node_sizes:
  "no_negative t \<Longrightarrow> categories x \<le> totalSize x \<Longrightarrow>
     categories (external_node lvl n t x) \<le> totalSize (external_node lvl n t x) \<and>
     (0 \<le> totalSize x \<longrightarrow> 0 \<le> totalSize (external_node lvl n t x))"
proof (induction t arbitrary: lvl n x)
  case (Leaf k a)
  then show ?case
    by (auto simp: categories_def count_entry_def categorize_def Let_def split: option.split media.split)
next
  case (Node a ts)
  let ?y = "count_entry n (f_blocks a * 512) x"
  have "categories ?y \<le> totalSize ?y \<and> (0 \<le> totalSize x \<longrightarrow> 0 \<le> totalSize ?y)"
    using Node.prems by (auto simp: categories_def count_entry_def Let_def)
  moreover have "categories y \<le> totalSize y \<Longrightarrow> list_all no_negative us \<Longrightarrow> set us \<subseteq> set ts \<Longrightarrow>
      categories (fold (external_node l m) us y) \<le> totalSize (fold (external_node l m) us y) \<and>
      (0 \<le> totalSize y \<longrightarrow> 0 \<le> totalSize (fold (external_node l m) us y))" for us y l m
    by (induction us arbitrary: y) (use Node.IH in auto)
  ultimately show ?case using Node.prems(1) by simp
qed

text \<open>
  in a measurement by hand the media categories and the data of apps never count a byte
  twice: together they are at most the total that is reported.
\<close>
theorem getExternalSize_no_double:
  assumes "getExternalSize env errno uuid userId flags appIds = Some (StatusOk, [sz, audio, video, pics, apps, obb])"
    and "size_flags env (uuid_string uuid) flags = Some fl" and "\<not> has_flag fl FLAG_USE_QUOTA"
    and "\<forall>p t. sz_tree env p = Some t \<longrightarrow> no_negative t"
  shows "audio + video + pics + apps \<le> sz"
proof -
  obtain path where path: "create_data_media_path (se_paths (sz_svc env)) uuid (user_nat userId) = Some path"
    using assms(1-3) by (cases "create_data_media_path (se_paths (sz_svc env)) uuid (user_nat userId)")
      (auto simp: getExternalSize_def Let_def split: if_splits)
  obtain t where t: "sz_tree env path = Some t"
    using assms(1-3) path by (cases "sz_tree env path") (auto simp: getExternalSize_def Let_def split: if_splits)
  have "categories zero_ext \<le> totalSize zero_ext" by (simp add: categories_def zero_ext_def)
  with external_node_sizes assms(4) t
  have "categories (external_node 0 False t zero_ext) \<le> totalSize (external_node 0 False t zero_ext)" by blast
  with assms(1-3) path t show ?thesis
    by (simp add: getExternalSize_def Let_def ext_list_def categories_def split: if_splits)
qed

definition demo_file :: "string \<Rightarrow> int \<Rightarrow> fattr" where
  "demo_file n b = \<lparr>f_name = n, f_uid = 1023, f_gid = 1023, f_blocks = b, f_mtime = 0, f_ino = 0, f_xattrs = []\<rparr>"

text \<open>A media directory with a picture, an app's directory and an unknown file.\<close>

definition demo_media :: ftree where
  "demo_media = Node (demo_file ''0'' 8)
     [Leaf FTS_F (demo_file ''a.JPG'' 16), Node (demo_file ''Android'' 8) [Leaf FTS_F (demo_file ''b.mp3'' 24)],
      Leaf FTS_F (demo_file ''notes'' 8)]"

definition demo_size_env :: size_env where
  "demo_size_env = \<lparr>sz_svc = \<lparr>se_paths = plain_env, se_globals = std_globals,
       se_inodes = \<lparr>get_inode_xattr = (\<lambda>p x. None), list_dir = (\<lambda>p. None), stat_ino = (\<lambda>p. None)\<rparr>,
       se_users = (\<lambda>u. None), se_calling_uid = 1000, AID_ROOT = 0, AID_SYSTEM = 1000, AID_INSTALL = 1012,
       se_get_uid = (\<lambda>u a. u * 100000 + a), se_cache_gid = (\<lambda>u a. a + 10000), se_shared_gid = (\<lambda>u a. a + 40000),
       se_user_of = (\<lambda>u. u div 100000), se_app_of = (\<lambda>u. u mod 100000), se_usejitprofiles = True\<rparr>,
     sz_ids = \<lparr>multiuser_get_app_id = (\<lambda>u. u mod 100000), AID_APP_START = 10000, AID_APP_END = 19999,
       AID_CACHE_GID_START = 20000, AID_CACHE_GID_END = 29999, AID_SHARED_GID_START = 50000, AID_SHARED_GID_END = 59999\<rparr>,
     sz_tree = (\<lambda>p. if p = ''/data/media/0'' then Some demo_media else None),
     sz_quotactl = (\<lambda>k d i. None), sz_mounts = Map.empty, sz_ext_gid = (\<lambda>u a. a + 20000),
     sz_ext_cache_gid = (\<lambda>u a. a + 30000), sz_AID_MEDIA_RW = 1023, sz_AID_MEDIA_OBB = 1059,
     sz_AID_MEDIA_AUDIO = 1055, sz_AID_MEDIA_VIDEO = 1056, sz_AID_MEDIA_IMAGE = 1057\<rparr>"

lemma demo_external_size:
  "getExternalSize demo_size_env 5 None 0 0 [] = Some (StatusOk, [64 * 512, 0, 0, 16 * 512, 24 * 512, 0])"
  by code_simp

theorem getExternalSize_no_double_witness: "0 + 0 + 16 * 512 + 24 * 512 \<le> (64 * 512 :: int)"
proof (rule getExternalSize_no_double [OF demo_external_size])
  show "size_flags demo_size_env (uuid_string None) 0 = Some 0" by code_simp
  show "\<not> has_flag 0 FLAG_USE_QUOTA" by (simp add: has_flag_def)
  show "\<forall>p t. sz_tree demo_size_env p = Some t \<longrightarrow> no_negative t"
    by (auto simp: demo_size_env_def demo_media_def demo_file_def split: if_splits)
qed

text \<open>
  The current profiles of a user are measured twice, once with the profiles and once with the
  dalvik cache: the size of the user's data counts them double.
\<close>

lemma user_profiles_counted_twice:
  assumes "user_stats_manual env None userId = Some (s, e)"
    and "\<forall>p. p \<noteq> create_primary_cur_profile_dir_path (se_globals (sz_svc env)) (user_nat userId) \<longrightarrow> sz_tree env p = None"
    and "create_data_user_ce_path (se_paths (sz_svc env)) None (user_nat userId) \<noteq>
      Some (create_primary_cur_profile_dir_path (se_globals (sz_svc env)) (user_nat userId))"
    and "create_data_user_de_path (se_paths (sz_svc env)) None (user_nat userId) \<noteq>
      Some (create_primary_cur_profile_dir_path (se_globals (sz_svc env)) (user_nat userId))"
  shows "dataSize s = 2 * measure_path env
    (create_primary_cur_profile_dir_path (se_globals (sz_svc env)) (user_nat userId)) (-1) (-1) False"
  using assms by (auto simp: user_stats_manual_def Let_def collectManualStatsForUser_def add_data_def add_code_def
      zero_stats_def split: bind_splits)

end
