(* ===== verification/BinderIo.thy ===== *)
theory BinderIo
  imports Bytes
begin

unbundle bit_operations_syntax

text \<open>
  The buffers of \<open>servicemanager/binder.c\<close>: a \<open>binder_io\<close> is written or read from its start.  A
  pointer into the data is an offset from \<open>data0\<close>, so \<open>io_buf\<close> holds all bytes of the buffer;
  a pointer into the array of object offsets is an index.  Pointers and \<open>size_t\<close> have 64 bits,
  and no size computed here reaches \<open>2 ^ 64\<close>.  The bytes of a buffer that were never
  written are arbitrary.
\<close>

section \<open>The kernel's data\<close>

text \<open>Constants of \<open>linux/android/binder.h\<close>.\<close>

record abi =
  BINDER_TYPE_BINDER :: "32 word"
  BINDER_TYPE_HANDLE :: "32 word"
  FLAT_BINDER_FLAG_ACCEPTS_FDS :: "32 word"
  TF_ONE_WAY :: "32 word"
  TF_STATUS_CODE :: "32 word"

definition le32 :: "32 word \<Rightarrow> string" where
  "le32 n = le_bytes 4 (unat n)"

definition get32 :: "string \<Rightarrow> 32 word" where
  "get32 s = word_of_nat (le_val s)"

definition u16_bytes :: "16 word list \<Rightarrow> string" where
  "u16_bytes us = concat (map (\<lambda>u. le_bytes 2 (unat u)) us)"

fun u16_units :: "string \<Rightarrow> 16 word list" where
  "u16_units (x # y # s) = word_of_nat (le_val [x, y]) # u16_units s"
| "u16_units s = []"

lemma length_le32 [simp]: "length (le32 n) = 4"
  by (simp add: le32_def)

lemma get32_le32 [simp]: "get32 (le32 n) = n"
proof -
  have "unat n < 256 ^ 4" using unsigned_less [of n, where ?'a = nat] by simp
  then show ?thesis by (simp add: get32_def le32_def le_val_bytes_id)
qed

lemma length_u16_bytes [simp]: "length (u16_bytes us) = 2 * length us"
  by (induction us) (simp_all add: u16_bytes_def)

lemma u16_units_bytes [simp]: "u16_units (u16_bytes us) = us"
proof (induction us)
  case (Cons u us)
  have "unat u < 256 ^ 2" using unsigned_less [of u, where ?'a = nat] by simp
  then have "le_val (le_bytes 2 (unat u)) = unat u" by (rule le_val_bytes_id)
  then have "word_of_nat (le_val [char_of (unat u mod 256), char_of (unat u div 256 mod 256)]) = u"
    by (simp add: numeral_2_eq_2)
  with Cons show ?case by (simp add: u16_bytes_def numeral_2_eq_2)
qed (simp add: u16_bytes_def)

lemma u16_bytes_append: "u16_bytes (us @ vs) = u16_bytes us @ u16_bytes vs"
  by (simp add: u16_bytes_def)

section \<open>Buffers\<close>

definition BIO_F_SHARED :: "32 word" where "BIO_F_SHARED = 1"
definition BIO_F_OVERFLOW :: "32 word" where "BIO_F_OVERFLOW = 2"
definition BIO_F_IOERROR :: "32 word" where "BIO_F_IOERROR = 4"

definition MAX_BIO_SIZE :: nat where "MAX_BIO_SIZE = 2 ^ 30"

record binder_io =
  io_buf :: string
  io_pos :: nat
  data_avail :: nat
  io_offs :: "nat list"
  offs_pos :: nat
  offs_avail :: nat
  io_flags :: "32 word"

definition overflow :: "binder_io \<Rightarrow> binder_io" where
  "overflow bio = bio\<lparr>io_flags := io_flags bio OR BIO_F_OVERFLOW\<rparr>"

text \<open>
  \<open>bio_init\<close> over \<open>data\<close>, the memory of the caller: the offsets take its first part.  When they do
  not fit nothing but the flag is usable.
\<close>

definition bio_init :: "string \<Rightarrow> nat \<Rightarrow> binder_io" where
  "bio_init data maxoffs =
     (let n = maxoffs * 8
      in if n > length data then
           \<lparr>io_buf = [], io_pos = 0, data_avail = 0, io_offs = [], offs_pos = 0, offs_avail = 0,
            io_flags = BIO_F_OVERFLOW\<rparr>
         else
           \<lparr>io_buf = drop n data, io_pos = 0, data_avail = length data - n, io_offs = replicate maxoffs 0,
            offs_pos = 0, offs_avail = maxoffs, io_flags = 0\<rparr>)"

text \<open>\<open>bio_init_from_txn\<close>: what the kernel delivered.\<close>

definition bio_init_from_txn :: "string \<Rightarrow> nat list \<Rightarrow> binder_io" where
  "bio_init_from_txn data offs =
     \<lparr>io_buf = data, io_pos = 0, data_avail = length data, io_offs = offs, offs_pos = 0,
      offs_avail = length offs, io_flags = BIO_F_SHARED\<rparr>"

definition align4 :: "nat \<Rightarrow> nat" where
  "align4 n = (n + 3) div 4 * 4"

definition bio_alloc :: "binder_io \<Rightarrow> nat \<Rightarrow> nat option \<times> binder_io" where
  "bio_alloc bio size' =
     (let sz = align4 size'
      in if sz > data_avail bio then (None, overflow bio)
         else (Some (io_pos bio), bio\<lparr>io_pos := io_pos bio + sz, data_avail := data_avail bio - sz\<rparr>))"

definition bio_get :: "binder_io \<Rightarrow> nat \<Rightarrow> nat option \<times> binder_io" where
  "bio_get bio size' =
     (let sz = align4 size'
      in if data_avail bio < sz then (None, overflow (bio\<lparr>data_avail := 0\<rparr>))
         else (Some (io_pos bio), bio\<lparr>io_pos := io_pos bio + sz, data_avail := data_avail bio - sz\<rparr>))"

definition store :: "nat \<Rightarrow> string \<Rightarrow> binder_io \<Rightarrow> binder_io" where
  "store p s bio = bio\<lparr>io_buf := write_at p s (io_buf bio)\<rparr>"

section \<open>Writing\<close>

definition sizeof_flat_binder_object :: nat where "sizeof_flat_binder_object = 24"

definition bio_alloc_obj :: "binder_io \<Rightarrow> nat option \<times> binder_io" where
  "bio_alloc_obj bio =
     (case bio_alloc bio sizeof_flat_binder_object of
        (Some obj, bio') \<Rightarrow>
          if offs_avail bio' > 0 then
            (Some obj, bio'\<lparr>offs_avail := offs_avail bio' - 1, io_offs := (io_offs bio')[offs_pos bio' := obj],
                            offs_pos := offs_pos bio' + 1\<rparr>)
          else (None, overflow bio')
      | (None, bio') \<Rightarrow> (None, overflow bio'))"

definition bio_put_uint32 :: "32 word \<Rightarrow> binder_io \<Rightarrow> binder_io" where
  "bio_put_uint32 n bio =
     (case bio_alloc bio 4 of (Some p, bio') \<Rightarrow> store p (le32 n) bio' | (None, bio') \<Rightarrow> bio')"

text \<open>
  A \<open>flat_binder_object\<close>: type, flags, a union of a pointer and a handle, cookie.  Writing the
  handle leaves the upper half of the union as it was.
\<close>

definition bio_put_obj :: "abi \<Rightarrow> nat \<Rightarrow> binder_io \<Rightarrow> binder_io" where
  "bio_put_obj abi ptr bio =
     (case bio_alloc_obj bio of
        (Some p, bio') \<Rightarrow>
          store p (le32 (BINDER_TYPE_BINDER abi) @ le32 (0x7f OR FLAT_BINDER_FLAG_ACCEPTS_FDS abi) @
            le_bytes 8 ptr @ le_bytes 8 0) bio'
      | (None, bio') \<Rightarrow> bio')"

definition bio_put_ref :: "abi \<Rightarrow> 32 word \<Rightarrow> binder_io \<Rightarrow> binder_io" where
  "bio_put_ref abi handle bio =
     (case (if handle \<noteq> 0 then bio_alloc_obj bio else bio_alloc bio sizeof_flat_binder_object) of
        (Some p, bio') \<Rightarrow>
          store (p + 16) (le_bytes 8 0)
            (store p (le32 (BINDER_TYPE_HANDLE abi) @ le32 (0x7f OR FLAT_BINDER_FLAG_ACCEPTS_FDS abi) @ le32 handle) bio')
      | (None, bio') \<Rightarrow> bio')"

text \<open>A string of 16-bit units ends before its first null.\<close>

definition cstr16 :: "16 word list \<Rightarrow> 16 word list" where
  "cstr16 s = takeWhile (\<lambda>c. c \<noteq> 0) s"

definition put_units :: "16 word list \<Rightarrow> binder_io \<Rightarrow> binder_io" where
  "put_units us bio =
     (if length us \<ge> MAX_BIO_SIZE div 2 then bio_put_uint32 0xffffffff bio
      else
        (case bio_alloc (bio_put_uint32 (word_of_nat (length us)) bio) ((length us + 1) * 2) of
           (Some p, bio') \<Rightarrow> store p (u16_bytes (us @ [0])) bio'
         | (None, bio') \<Rightarrow> bio'))"

definition bio_put_string16 :: "16 word list option \<Rightarrow> binder_io \<Rightarrow> binder_io" where
  "bio_put_string16 str bio =
     (case str of None \<Rightarrow> bio_put_uint32 0xffffffff bio | Some s \<Rightarrow> put_units (cstr16 s) bio)"

definition bio_put_string16_x :: "cstring \<Rightarrow> binder_io \<Rightarrow> binder_io" where
  "bio_put_string16_x str bio =
     (case str of
        None \<Rightarrow> bio_put_uint32 0xffffffff bio
      | Some s \<Rightarrow> put_units (map of_char (takeWhile (\<lambda>c. c \<noteq> CHR 0x00) s)) bio)"

lemma put_string16_units: "0 \<notin> set us \<Longrightarrow> bio_put_string16 (Some us) = put_units us"
proof -
  assume "0 \<notin> set us"
  then have "cstr16 us = us" unfolding cstr16_def by (intro takeWhile_eq_all_conv [THEN iffD2]) metis
  then show ?thesis by (simp add: bio_put_string16_def fun_eq_iff)
qed

section \<open>Reading\<close>

definition bio_get_uint32 :: "binder_io \<Rightarrow> 32 word \<times> binder_io" where
  "bio_get_uint32 bio =
     (case bio_get bio 4 of
        (Some p, bio') \<Rightarrow> (get32 (bytes_at p 4 (io_buf bio')), bio')
      | (None, bio') \<Rightarrow> (0, bio'))"

text \<open>
  The length comes first.  A result is a pointer to that many units and one more, which no
  caller looks at.
\<close>

definition bio_get_string16 :: "binder_io \<Rightarrow> 16 word list option \<times> binder_io" where
  "bio_get_string16 bio =
     (let (len, bio1) = bio_get_uint32 bio
      in case bio_get bio1 ((unat len + 1) * 2) of
           (Some p, bio2) \<Rightarrow> (Some (u16_units (bytes_at p (2 * unat len) (io_buf bio2))), bio2)
         | (None, bio2) \<Rightarrow> (None, bio2))"

definition bio_get_obj :: "binder_io \<Rightarrow> nat option \<times> binder_io" where
  "bio_get_obj bio =
     (if list_ex (\<lambda>n. io_offs bio ! (offs_pos bio + n) = io_pos bio) [0..<offs_avail bio]
      then bio_get bio sizeof_flat_binder_object
      else (None, overflow (bio\<lparr>data_avail := 0\<rparr>)))"

definition bio_get_ref :: "abi \<Rightarrow> binder_io \<Rightarrow> 32 word \<times> binder_io" where
  "bio_get_ref abi bio =
     (case bio_get_obj bio of
        (None, bio') \<Rightarrow> (0, bio')
      | (Some p, bio') \<Rightarrow>
          (if get32 (bytes_at p 4 (io_buf bio')) = BINDER_TYPE_HANDLE abi
           then get32 (bytes_at (p + 8) 4 (io_buf bio')) else 0, bio'))"

section \<open>What was written is read back\<close>

datatype item = U32 "32 word" | Str16 "16 word list" | Handle "32 word"

fun put_item :: "abi \<Rightarrow> item \<Rightarrow> binder_io \<Rightarrow> binder_io" where
  "put_item abi (U32 n) = bio_put_uint32 n"
| "put_item abi (Str16 us) = bio_put_string16 (Some us)"
| "put_item abi (Handle h) = bio_put_ref abi h"

text \<open>A string has no null and is not too long; a handle is not null.\<close>

fun item_ok :: "item \<Rightarrow> bool" where
  "item_ok (U32 n) \<longleftrightarrow> True"
| "item_ok (Str16 us) \<longleftrightarrow> 0 \<notin> set us \<and> length us < MAX_BIO_SIZE div 2"
| "item_ok (Handle h) \<longleftrightarrow> h \<noteq> 0"

text \<open>Reading an item of the same kind.\<close>

fun get_item :: "abi \<Rightarrow> item \<Rightarrow> binder_io \<Rightarrow> item option \<times> binder_io" where
  "get_item abi (U32 _) bio = (let (n, bio') = bio_get_uint32 bio in (Some (U32 n), bio'))"
| "get_item abi (Str16 _) bio = (let (us, bio') = bio_get_string16 bio in (map_option Str16 us, bio'))"
| "get_item abi (Handle _) bio = (let (h, bio') = bio_get_ref abi bio in (Some (Handle h), bio'))"

fun get_items :: "abi \<Rightarrow> item list \<Rightarrow> binder_io \<Rightarrow> item option list \<times> binder_io" where
  "get_items abi [] bio = ([], bio)"
| "get_items abi (i # is) bio =
     (let (j, bio1) = get_item abi i bio; (js, bio2) = get_items abi is bio1 in (j # js, bio2))"

definition no_overflow :: "binder_io \<Rightarrow> bool" where
  "no_overflow bio \<longleftrightarrow> io_flags bio AND BIO_F_OVERFLOW = 0"

text \<open>The bytes of an item in a buffer, and of items that follow each other from \<open>p\<close> to \<open>q\<close>.\<close>

fun item_size :: "item \<Rightarrow> nat" where
  "item_size (U32 n) = 4"
| "item_size (Str16 us) = 4 + align4 ((length us + 1) * 2)"
| "item_size (Handle h) = 24"

fun item_at :: "abi \<Rightarrow> item \<Rightarrow> string \<Rightarrow> nat list \<Rightarrow> nat \<Rightarrow> bool" where
  "item_at abi (U32 n) b os p \<longleftrightarrow> bytes_at p 4 b = le32 n"
| "item_at abi (Str16 us) b os p \<longleftrightarrow>
     length us < MAX_BIO_SIZE div 2 \<and> bytes_at p 4 b = le32 (word_of_nat (length us)) \<and>
     bytes_at (p + 4) (2 * length us) b = u16_bytes us"
| "item_at abi (Handle h) b os p \<longleftrightarrow>
     p \<in> set os \<and> bytes_at p 4 b = le32 (BINDER_TYPE_HANDLE abi) \<and> bytes_at (p + 8) 4 b = le32 h"

fun laid :: "abi \<Rightarrow> item list \<Rightarrow> string \<Rightarrow> nat list \<Rightarrow> nat \<Rightarrow> nat \<Rightarrow> bool" where
  "laid abi [] b os p q \<longleftrightarrow> p = q \<and> q \<le> length b"
| "laid abi (i # is) b os p q \<longleftrightarrow> item_at abi i b os p \<and> laid abi is b os (p + item_size i) q"

definition reader :: "string \<Rightarrow> nat list \<Rightarrow> nat \<Rightarrow> 32 word \<Rightarrow> binder_io" where
  "reader b os p fl =
     \<lparr>io_buf = b, io_pos = p, data_avail = length b - p, io_offs = os, offs_pos = 0,
      offs_avail = length os, io_flags = fl\<rparr>"

lemma reader_sel [simp]:
  "io_buf (reader b os p fl) = b" "io_pos (reader b os p fl) = p" "data_avail (reader b os p fl) = length b - p"
  "io_offs (reader b os p fl) = os" "offs_pos (reader b os p fl) = 0" "offs_avail (reader b os p fl) = length os"
  by (simp_all add: reader_def)

lemma align4_ge: "n \<le> align4 n"
  unfolding align4_def by presburger

lemma align4_id [simp]: "align4 4 = 4" "align4 sizeof_flat_binder_object = 24"
  by (simp_all add: align4_def sizeof_flat_binder_object_def)

lemma laid_le: "laid abi is b os p q \<Longrightarrow> p \<le> q \<and> q \<le> length b"
  by (induction "is" arbitrary: p) fastforce+

lemma reader_get:
  "p + align4 n \<le> length b \<Longrightarrow> bio_get (reader b os p fl) n = (Some p, reader b os (p + align4 n) fl)"
  by (simp add: bio_get_def reader_def Let_def)

lemma get_u32:
  "item_at abi (U32 n) b os p \<Longrightarrow> p + 4 \<le> length b \<Longrightarrow>
     bio_get_uint32 (reader b os p fl) = (n, reader b os (p + 4) fl)"
  by (simp add: bio_get_uint32_def reader_get)

lemma unat_length:
  assumes "length us < MAX_BIO_SIZE div 2"
  shows "unat (word_of_nat (length us) :: 32 word) = length us"
  using assms by (simp add: MAX_BIO_SIZE_def unat_of_nat)

lemma get_str16:
  assumes at: "item_at abi (Str16 us) b os p" and room: "p + item_size (Str16 us) \<le> length b"
  shows "bio_get_string16 (reader b os p fl) = (Some us, reader b os (p + item_size (Str16 us)) fl)"
proof -
  have "bio_get_uint32 (reader b os p fl) = (word_of_nat (length us), reader b os (p + 4) fl)"
    using at room by (intro get_u32) simp_all
  then show ?thesis
    using reader_get [of "p + 4" "(length us + 1) * 2" b os fl] at room
    by (simp add: bio_get_string16_def unat_length add.assoc)
qed

lemma get_ref:
  assumes at: "item_at abi (Handle h) b os p" and room: "p + 24 \<le> length b"
  shows "bio_get_ref abi (reader b os p fl) = (h, reader b os (p + 24) fl)"
proof -
  from at obtain n where "n < length os" "os ! n = p" by (auto simp: in_set_conv_nth)
  then have "bio_get_obj (reader b os p fl) = bio_get (reader b os p fl) sizeof_flat_binder_object"
    by (auto simp: bio_get_obj_def list_ex_iff)
  with at room show ?thesis by (simp add: bio_get_ref_def reader_get)
qed

lemma get_item_at:
  "item_at abi i b os p \<Longrightarrow> p + item_size i \<le> length b \<Longrightarrow>
     get_item abi i (reader b os p fl) = (Some i, reader b os (p + item_size i) fl)"
  by (cases i) (simp_all add: get_u32 get_str16 get_ref del: item_at.simps item_size.simps(2))

lemma get_items_laid:
  "laid abi is b os p q \<Longrightarrow> get_items abi is (reader b os p fl) = (map Some is, reader b os q fl)"
proof (induction "is" arbitrary: p)
  case (Cons i "is")
  then have "p + item_size i \<le> length b" using laid_le [of abi "is" b os "p + item_size i" q] by simp
  with Cons show ?case by (simp add: get_item_at)
qed simp


section \<open>Writers\<close>

definition wf_io :: "binder_io \<Rightarrow> bool" where
  "wf_io bio \<longleftrightarrow> io_pos bio + data_avail bio = length (io_buf bio) \<and> offs_pos bio + offs_avail bio = length (io_offs bio)"

text \<open>The data and the offsets that a transaction sends.\<close>

definition sent_data :: "binder_io \<Rightarrow> string" where
  "sent_data bio = take (io_pos bio) (io_buf bio)"

definition sent_offs :: "binder_io \<Rightarrow> nat list" where
  "sent_offs bio = take (offs_pos bio) (io_offs bio)"

lemma wf_bio_init: "wf_io (bio_init data n)"
  by (simp add: wf_io_def bio_init_def Let_def)

lemma overflow_set: "\<not> no_overflow (overflow bio)"
proof -
  have "(io_flags bio OR 2) AND 2 = (2 :: 32 word)"
    by (rule bit_word_eqI) (auto simp: bit_simps)
  then show ?thesis by (simp add: no_overflow_def overflow_def BIO_F_OVERFLOW_def)
qed

lemma overflow_sel [simp]:
  "io_buf (overflow bio) = io_buf bio" "io_pos (overflow bio) = io_pos bio"
  "data_avail (overflow bio) = data_avail bio" "io_offs (overflow bio) = io_offs bio"
  "offs_pos (overflow bio) = offs_pos bio" "offs_avail (overflow bio) = offs_avail bio"
  by (simp_all add: overflow_def)



lemma store_sel [simp]:
  "io_buf (store p s bio) = write_at p s (io_buf bio)" "io_pos (store p s bio) = io_pos bio"
  "data_avail (store p s bio) = data_avail bio" "io_offs (store p s bio) = io_offs bio"
  "offs_pos (store p s bio) = offs_pos bio" "offs_avail (store p s bio) = offs_avail bio"
  "no_overflow (store p s bio) \<longleftrightarrow> no_overflow bio"
  by (simp_all add: store_def no_overflow_def)

lemma no_overflow_upd [simp]:
  "no_overflow (bio\<lparr>io_pos := p\<rparr>) \<longleftrightarrow> no_overflow bio" "no_overflow (bio\<lparr>data_avail := n\<rparr>) \<longleftrightarrow> no_overflow bio"
  "no_overflow (bio\<lparr>io_offs := os\<rparr>) \<longleftrightarrow> no_overflow bio" "no_overflow (bio\<lparr>offs_pos := p\<rparr>) \<longleftrightarrow> no_overflow bio"
  "no_overflow (bio\<lparr>offs_avail := n\<rparr>) \<longleftrightarrow> no_overflow bio"
  by (simp_all add: no_overflow_def)

text \<open>
  What writing an item does: the buffer keeps its length and everything before the item, the item
  lies at the old position, and the offsets only grow.
\<close>

definition puts_item :: "abi \<Rightarrow> item \<Rightarrow> binder_io \<Rightarrow> binder_io \<Rightarrow> bool" where
  "puts_item abi i bio bio' \<longleftrightarrow>
     wf_io bio' \<and> no_overflow bio \<and> length (io_buf bio') = length (io_buf bio) \<and>
     io_pos bio' = io_pos bio + item_size i \<and>
     take (io_pos bio) (io_buf bio') = take (io_pos bio) (io_buf bio) \<and>
     set (sent_offs bio) \<subseteq> set (sent_offs bio') \<and>
     item_at abi i (io_buf bio') (sent_offs bio') (io_pos bio)"

lemma bio_alloc_Some:
  "bio_alloc bio n = (Some p, bio') \<Longrightarrow>
     p = io_pos bio \<and> align4 n \<le> data_avail bio \<and>
     bio' = bio\<lparr>io_pos := io_pos bio + align4 n, data_avail := data_avail bio - align4 n\<rparr>"
  by (auto simp: bio_alloc_def Let_def split: if_splits)

lemma bio_alloc_None: "bio_alloc bio n = (None, bio') \<Longrightarrow> \<not> no_overflow bio'"
  by (auto simp: bio_alloc_def Let_def overflow_set split: if_splits)

lemma puts_u32:
  assumes "wf_io bio" "no_overflow (bio_put_uint32 n bio)"
  shows "puts_item abi (U32 n) bio (bio_put_uint32 n bio)"
proof (cases "bio_alloc bio 4")
  case (Pair p bio')
  show ?thesis
  proof (cases p)
    case None
    then show ?thesis using assms Pair bio_alloc_None [of bio 4 bio'] by (simp add: bio_put_uint32_def)
  next
    case (Some p)
    note * = bio_alloc_Some [OF Pair [unfolded Some]]
    then have room: "io_pos bio + 4 \<le> length (io_buf bio)" using assms by (simp add: wf_io_def)
    show ?thesis using assms * room
      by (simp add: puts_item_def bio_put_uint32_def Pair Some wf_io_def take_write_at bytes_at_written
          sent_offs_def) (simp add: bytes_at_def)
  qed
qed


lemma u16_at_start:
  assumes "p + 2 * (length us + 1) \<le> length b"
  shows "bytes_at p (2 * length us) (write_at p (u16_bytes (us @ [0])) b) = u16_bytes us"
  using assms by (simp add: bytes_at_written) (simp add: bytes_at_def u16_bytes_append)

lemma puts_str16:
  assumes "wf_io bio" "no_overflow (put_units us bio)" "length us < MAX_BIO_SIZE div 2"
  shows "puts_item abi (Str16 us) bio (put_units us bio)"
proof -
  let ?n = "(length us + 1) * 2" and ?b1 = "bio_put_uint32 (word_of_nat (length us)) bio"
  obtain q bio' where alloc: "bio_alloc ?b1 ?n = (q, bio')" by fastforce
  with assms bio_alloc_None [of ?b1 ?n bio'] obtain p where q: "q = Some p"
    by (cases q) (auto simp: put_units_def)
  note * = bio_alloc_Some [OF alloc [unfolded q]]
  from assms alloc q * have "no_overflow ?b1" by (simp add: put_units_def)
  then have 1: "puts_item abi (U32 (word_of_nat (length us))) bio ?b1" by (rule puts_u32 [OF assms(1)])
  have room: "io_pos bio + 4 + ?n \<le> length (io_buf bio)" "?n \<le> align4 ?n"
    using 1 * align4_ge [of ?n] by (simp_all add: puts_item_def wf_io_def)
  show ?thesis using assms * room 1 alloc q u16_at_start [of "io_pos bio + 4" us "io_buf ?b1"]
    by (simp add: puts_item_def put_units_def wf_io_def sent_offs_def take_write_at bytes_at_before)
      (simp add: write_at_def)
qed


lemma bio_alloc_obj_cases:
  assumes "wf_io bio" "bio_alloc_obj bio = (q, bio')"
  shows "q = None \<and> \<not> no_overflow bio' \<or>
     q = Some (io_pos bio) \<and> io_pos bio' = io_pos bio + 24 \<and> wf_io bio' \<and> io_buf bio' = io_buf bio \<and>
     sent_offs bio' = sent_offs bio @ [io_pos bio] \<and> io_pos bio + 24 \<le> length (io_buf bio) \<and>
     (no_overflow bio' \<longleftrightarrow> no_overflow bio)"
proof (cases "bio_alloc bio sizeof_flat_binder_object")
  case (Pair r bio1)
  show ?thesis
  proof (cases r)
    case None
    then show ?thesis using assms Pair by (auto simp: bio_alloc_obj_def overflow_set)
  next
    case (Some p)
    note * = bio_alloc_Some [OF Pair [unfolded Some]]
    show ?thesis
    proof (cases "offs_avail bio1 > 0")
      case True
      then have "offs_pos bio < length (io_offs bio)" using assms * by (simp add: wf_io_def)
      then have "take (offs_pos bio + 1) ((io_offs bio)[offs_pos bio := p]) = sent_offs bio @ [p]"
        by (simp add: sent_offs_def take_Suc_conv_app_nth)
      then show ?thesis using assms Pair Some True *
        by (auto simp: bio_alloc_obj_def wf_io_def sent_offs_def)
    next
      case False
      then show ?thesis using assms Pair Some by (auto simp: bio_alloc_obj_def overflow_set)
    qed
  qed
qed

lemma puts_handle:
  assumes "wf_io bio" "no_overflow (bio_put_ref abi h bio)" "h \<noteq> 0"
  shows "puts_item abi (Handle h) bio (bio_put_ref abi h bio)"
proof -
  obtain q bio1 where alloc: "bio_alloc_obj bio = (q, bio1)" by fastforce
  let ?s = "le32 (BINDER_TYPE_HANDLE abi) @ le32 (0x7f OR FLAT_BINDER_FLAG_ACCEPTS_FDS abi) @ le32 h"
  from assms alloc bio_alloc_obj_cases [OF assms(1) alloc]
  have *: "q = Some (io_pos bio)" "io_pos bio1 = io_pos bio + 24" "wf_io bio1" "io_buf bio1 = io_buf bio"
    "sent_offs bio1 = sent_offs bio @ [io_pos bio]" and room: "io_pos bio + 24 \<le> length (io_buf bio)"
    and ok: "no_overflow bio"
    by (auto simp: bio_put_ref_def)
  let ?b = "write_at (io_pos bio) ?s (io_buf bio)"
  have "bytes_at (io_pos bio) 4 ?b = le32 (BINDER_TYPE_HANDLE abi)" "bytes_at (io_pos bio + 8) 4 ?b = le32 h"
    using room by (simp_all add: bytes_at_written) (simp_all add: bytes_at_def)
  then show ?thesis using assms alloc * room ok
    by (auto simp: puts_item_def bio_put_ref_def wf_io_def sent_offs_def bytes_at_before take_write_at)
      (simp add: write_at_def)
qed

lemma bio_alloc_no_overflow: "bio_alloc bio n = (q, bio') \<Longrightarrow> no_overflow bio' \<Longrightarrow> no_overflow bio"
  by (auto simp: bio_alloc_def Let_def overflow_set split: if_splits)

lemma bio_alloc_obj_no_overflow: "bio_alloc_obj bio = (q, bio') \<Longrightarrow> no_overflow bio' \<Longrightarrow> no_overflow bio"
  by (auto simp: bio_alloc_obj_def overflow_set dest!: bio_alloc_no_overflow split: prod.splits option.splits if_splits)

lemma put_u32_no_overflow: "no_overflow (bio_put_uint32 n bio) \<Longrightarrow> no_overflow bio"
  by (auto simp: bio_put_uint32_def dest!: bio_alloc_no_overflow split: prod.splits option.splits)

lemma put_item_no_overflow: "no_overflow (put_item abi i bio) \<Longrightarrow> no_overflow bio"
  by (cases i)
    (auto simp: bio_put_string16_def put_units_def bio_put_ref_def
      dest!: put_u32_no_overflow bio_alloc_no_overflow bio_alloc_obj_no_overflow
      split: prod.splits option.splits if_splits)

lemma puts_item_put:
  assumes "wf_io bio" "no_overflow (put_item abi i bio)" "item_ok i"
  shows "puts_item abi i bio (put_item abi i bio)"
  using assms by (cases i) (auto simp: put_string16_units intro: puts_u32 puts_str16 puts_handle)

lemma item_at_stable:
  assumes "item_at abi i b os p" "p + item_size i \<le> q" "take q b' = take q b" "set os \<subseteq> set os'"
  shows "item_at abi i b' os' p"
proof -
  have same: "bytes_at x n b' = bytes_at x n b" if "x + n \<le> q" for x n
  proof -
    have "bytes_at x n c = bytes_at x n (take q c)" for c
      using that by (simp add: bytes_at_def take_drop min_def)
    then show ?thesis using assms(3) by metis
  qed
  show ?thesis
  proof (cases i)
    case (Str16 us)
    have "(length us + 1) * 2 \<le> align4 ((length us + 1) * 2)" by (rule align4_ge)
    then have "p + 4 + 2 * length us \<le> q" using assms(2) Str16 by simp
    then show ?thesis using assms Str16 by (simp add: same)
  qed (use assms in \<open>auto simp: same\<close>)
qed

lemma laid_append:
  "laid abi is b os p q \<Longrightarrow> take q b' = take q b \<Longrightarrow> q \<le> length b' \<Longrightarrow> set os \<subseteq> set os' \<Longrightarrow>
     item_at abi i b' os' q \<Longrightarrow> q + item_size i \<le> length b' \<Longrightarrow>
     laid abi (is @ [i]) b' os' p (q + item_size i)"
proof (induction "is" arbitrary: p)
  case (Cons j "is")
  then have "p + item_size j \<le> q" using laid_le [of abi "is" b os "p + item_size j" q] by simp
  with Cons show ?case by (auto intro: item_at_stable)
qed simp

text \<open>Writing items one after the other, as the code does.\<close>

fun put_items :: "abi \<Rightarrow> item list \<Rightarrow> binder_io \<Rightarrow> binder_io" where
  "put_items abi [] bio = bio"
| "put_items abi (i # is) bio = put_items abi is (put_item abi i bio)"

lemma put_items_append: "put_items abi (is @ js) bio = put_items abi js (put_items abi is bio)"
  by (induction "is" arbitrary: bio) simp_all

lemma put_items_laid:
  "wf_io bio \<Longrightarrow> io_pos bio = 0 \<Longrightarrow> list_all item_ok is \<Longrightarrow> no_overflow (put_items abi is bio) \<Longrightarrow>
     (let bio' = put_items abi is bio
      in wf_io bio' \<and> laid abi is (io_buf bio') (sent_offs bio') 0 (io_pos bio'))"
proof (induction "is" rule: rev_induct)
  case (snoc i "is")
  let ?b = "put_items abi is bio" and ?b' = "put_item abi i (put_items abi is bio)"
  have no: "no_overflow ?b'" using snoc.prems by (simp add: put_items_append)
  have wf: "wf_io ?b \<Longrightarrow> puts_item abi i ?b ?b'"
    using snoc.prems by (intro puts_item_put no) simp_all
  have "no_overflow ?b \<Longrightarrow> wf_io ?b \<and> laid abi is (io_buf ?b) (sent_offs ?b) 0 (io_pos ?b)"
    using snoc by (simp add: Let_def)
  moreover have "no_overflow ?b" using no by (rule put_item_no_overflow)
  ultimately show ?case using wf
    by (auto simp: Let_def put_items_append puts_item_def wf_io_def intro!: laid_append)
qed (auto simp: Let_def wf_io_def)


text \<open>Room enough for an item: nothing overflows.\<close>

fun item_objs :: "item \<Rightarrow> nat" where
  "item_objs (Handle h) = 1"
| "item_objs _ = 0"

lemma bio_alloc_room:
  "align4 n \<le> data_avail bio \<Longrightarrow> bio_alloc bio n =
     (Some (io_pos bio), bio\<lparr>io_pos := io_pos bio + align4 n, data_avail := data_avail bio - align4 n\<rparr>)"
  by (simp add: bio_alloc_def Let_def)

lemma put_u32_room:
  "4 \<le> data_avail bio \<Longrightarrow> bio_put_uint32 n bio =
     store (io_pos bio) (le32 n) (bio\<lparr>io_pos := io_pos bio + 4, data_avail := data_avail bio - 4\<rparr>)"
  by (simp add: bio_put_uint32_def bio_alloc_room)

lemma put_item_room:
  assumes "item_ok i" "item_size i \<le> data_avail bio" "item_objs i \<le> offs_avail bio"
  shows "data_avail (put_item abi i bio) = data_avail bio - item_size i \<and>
    offs_avail (put_item abi i bio) = offs_avail bio - item_objs i \<and>
    (no_overflow (put_item abi i bio) \<longleftrightarrow> no_overflow bio)"
  using assms by (cases i)
    (auto simp: put_string16_units put_units_def bio_put_ref_def bio_alloc_obj_def put_u32_room bio_alloc_room)

lemma put_items_room:
  "list_all item_ok is \<Longrightarrow> sum_list (map item_size is) \<le> data_avail bio \<Longrightarrow>
     sum_list (map item_objs is) \<le> offs_avail bio \<Longrightarrow>
     no_overflow (put_items abi is bio) \<longleftrightarrow> no_overflow bio"
proof (induction "is" arbitrary: bio)
  case (Cons i "is")
  then show ?case using put_item_room [of i bio abi] by simp
qed simp

lemma laid_stable:
  "laid abi is b os p q \<Longrightarrow> take q b' = take q b \<Longrightarrow> q \<le> length b' \<Longrightarrow> set os \<subseteq> set os' \<Longrightarrow>
     laid abi is b' os' p q"
proof (induction "is" arbitrary: p)
  case (Cons j "is")
  then have "p + item_size j \<le> q" using laid_le [of abi "is" b os "p + item_size j" q] by simp
  with Cons show ?case by (auto intro: item_at_stable)
qed simp

lemma bio_init_from_txn_reader: "bio_init_from_txn data offs = reader data offs 0 BIO_F_SHARED"
  by (simp add: bio_init_from_txn_def reader_def)

text \<open>A message with given items still to be read.\<close>

definition holds :: "abi \<Rightarrow> item list \<Rightarrow> binder_io \<Rightarrow> bool" where
  "holds abi is msg \<longleftrightarrow> (\<exists>b os p q fl. msg = reader b os p fl \<and> laid abi is b os p q)"

lemma holds_get:
  assumes "holds abi (i # is) msg"
  obtains msg' where "get_item abi i msg = (Some i, msg')" "holds abi is msg'"
proof -
  from assms obtain b os p q fl where m: "msg = reader b os p fl" and laid: "laid abi (i # is) b os p q"
    by (auto simp: holds_def)
  have "p + item_size i \<le> length b" using laid laid_le [of abi "is" b os "p + item_size i" q] by simp
  then have "get_item abi i msg = (Some i, reader b os (p + item_size i) fl)" using laid m get_item_at by simp
  moreover have "holds abi is (reader b os (p + item_size i) fl)" using laid by (auto simp: holds_def)
  ultimately show ?thesis by (rule that)
qed

lemma holds_u32:
  assumes "holds abi (U32 n # is) msg"
  obtains msg' where "bio_get_uint32 msg = (n, msg')" "holds abi is msg'"
proof -
  from assms obtain m where "get_item abi (U32 n) msg = (Some (U32 n), m)" "holds abi is m" by (rule holds_get)
  then show ?thesis by (cases "bio_get_uint32 msg") (auto intro: that)
qed

lemma holds_str16:
  assumes "holds abi (Str16 us # is) msg"
  obtains msg' where "bio_get_string16 msg = (Some us, msg')" "holds abi is msg'"
proof -
  from assms obtain m where "get_item abi (Str16 us) msg = (Some (Str16 us), m)" "holds abi is m" by (rule holds_get)
  then show ?thesis by (cases "bio_get_string16 msg") (auto intro: that)
qed

lemma holds_ref:
  assumes "holds abi (Handle h # is) msg"
  obtains msg' where "bio_get_ref abi msg = (h, msg')" "holds abi is msg'"
proof -
  from assms obtain m where "get_item abi (Handle h) msg = (Some (Handle h), m)" "holds abi is m" by (rule holds_get)
  then show ?thesis by (cases "bio_get_ref abi msg") (auto intro: that)
qed

lemma written_laid:
  assumes "list_all item_ok is" "no_overflow (put_items abi is (bio_init data n))"
  shows "let bio = put_items abi is (bio_init data n)
         in wf_io bio \<and> laid abi is (sent_data bio) (sent_offs bio) 0 (io_pos bio)"
proof -
  let ?bio = "put_items abi is (bio_init data n)"
  have "io_pos (bio_init data n) = 0" by (simp add: bio_init_def Let_def)
  from put_items_laid [OF wf_bio_init this assms]
  have wf: "wf_io ?bio" and laid: "laid abi is (io_buf ?bio) (sent_offs ?bio) 0 (io_pos ?bio)"
    by (simp_all add: Let_def)
  from laid have "laid abi is (sent_data ?bio) (sent_offs ?bio) 0 (io_pos ?bio)"
    by (rule laid_stable) (use wf in \<open>simp_all add: sent_data_def wf_io_def\<close>)
  with wf show ?thesis by (simp add: Let_def)
qed

lemma holds_written:
  assumes "list_all item_ok is" "no_overflow (put_items abi is (bio_init data n))"
  shows "holds abi is (bio_init_from_txn (sent_data (put_items abi is (bio_init data n)))
           (sent_offs (put_items abi is (bio_init data n))))"
  using written_laid [OF assms] by (auto simp: holds_def bio_init_from_txn_reader Let_def)

text \<open>
  C16: messages survive the trip through the kernel.  Whatever 32-bit numbers, strings without a null unit and shorter than
  \<open>2 ^ 29\<close> units, and handles other than 0 are written with \<open>bio_put_uint32\<close>, \<open>bio_put_string16\<close> and
  \<open>bio_put_ref\<close> into a buffer of any size with any contents, if the buffer did not overflow, then
  reading the same kinds of items from the data and offsets that were sent gives exactly what was
  written and consumes everything.  (A handle 0 is written without an offset and cannot be read back: see
  \<open>null_handle_unreadable\<close>.)
\<close>

theorem items_roundtrip:
  assumes "\<forall>h. Handle h \<in> set is \<longrightarrow> h \<noteq> 0" "\<forall>us. Str16 us \<in> set is \<longrightarrow> 0 \<notin> set us \<and> length us < 2 ^ 29"
    and "no_overflow (put_items abi is (bio_init data n))"
  shows "let bio = put_items abi is (bio_init data n);
             msg = bio_init_from_txn (sent_data bio) (sent_offs bio)
         in fst (get_items abi is msg) = map Some is \<and> data_avail (snd (get_items abi is msg)) = 0"
proof -
  let ?bio = "put_items abi is (bio_init data n)"
  have "item_ok i" if "i \<in> set is" for i
  proof (cases i)
    case (Str16 us)
    then show ?thesis using that assms(2) by (simp add: MAX_BIO_SIZE_def)
  next
    case (Handle h)
    then show ?thesis using that assms(1) by simp
  qed simp
  then have "list_all item_ok is" by (simp add: list_all_iff)
  from written_laid [OF this assms(3)] have "wf_io ?bio" "laid abi is (sent_data ?bio) (sent_offs ?bio) 0 (io_pos ?bio)"
    by (simp_all add: Let_def)
  then show ?thesis
    by (simp add: Let_def get_items_laid bio_init_from_txn_reader) (simp add: sent_data_def wf_io_def)
qed

text \<open>A null handle has no offset: reading it fails and what follows it in the message is lost.\<close>

lemma null_handle_unreadable:
  "p \<notin> set os \<Longrightarrow> bio_get_ref abi (reader b os p fl) = (0, overflow ((reader b os p fl)\<lparr>data_avail := 0\<rparr>))"
  by (auto simp: bio_get_ref_def bio_get_obj_def list_ex_iff)

definition demo_abi :: abi where
  "demo_abi = \<lparr>BINDER_TYPE_BINDER = 0x73622a85, BINDER_TYPE_HANDLE = 0x73682a85,
     FLAT_BINDER_FLAG_ACCEPTS_FDS = 0x100, TF_ONE_WAY = 1, TF_STATUS_CODE = 8\<rparr>"

theorem items_roundtrip_witness:
  "let bio = put_items demo_abi [U32 5, Str16 [97, 98, 99], Handle 7] (bio_init (replicate 256 CHR ''x'') 4)
   in fst (get_items demo_abi [U32 5, Str16 [97, 98, 99], Handle 7]
        (bio_init_from_txn (sent_data bio) (sent_offs bio))) = [Some (U32 5), Some (Str16 [97, 98, 99]), Some (Handle 7)]"
proof -
  let ?is = "[U32 5, Str16 [97, 98, 99], Handle 7]"
  have "no_overflow (put_items demo_abi ?is (bio_init (replicate 256 CHR ''x'') 4))"
    by (subst put_items_room)
      (simp_all add: MAX_BIO_SIZE_def align4_def bio_init_def no_overflow_def)
  then show ?thesis
    using items_roundtrip [of ?is demo_abi "replicate 256 CHR ''x''" 4] by (simp add: Let_def)
qed

end
