(* ===== verification/Binder.thy ===== *)
theory Binder
  imports BinderIo
begin

unbundle bit_operations_syntax

text \<open>
  The binder protocol of \<open>servicemanager/binder.c\<close>: what is written to the driver, and the parsing
  of what is read from it.  The numbers of the commands and the memory that the driver maps are
  parameters, and so is what the stack holds where the read buffer is put (\<open>be_readbuf\<close>); pointers
  have 64 bits.  The result of \<open>binder_write\<close> is ignored everywhere,
  so a write is a command in a list.  A client's state has the type \<open>'s\<close>.
\<close>

section \<open>Commands to the driver\<close>

datatype bc =
    BC_FREE_BUFFER nat
  | BC_REPLY "32 word" string "nat list"
  | BC_ACQUIRE "32 word"
  | BC_RELEASE "32 word"
  | BC_REQUEST_DEATH_NOTIFICATION "32 word" nat
  | BC_TRANSACTION "32 word" "32 word" string "nat list"
  | BC_ENTER_LOOPER

record binder_env =
  be_abi :: abi
  BR_NOOP :: "32 word"
  BR_TRANSACTION_COMPLETE :: "32 word"
  BR_INCREFS :: "32 word"
  BR_ACQUIRE :: "32 word"
  BR_RELEASE :: "32 word"
  BR_DECREFS :: "32 word"
  BR_TRANSACTION_SEC_CTX :: "32 word"
  BR_TRANSACTION :: "32 word"
  BR_REPLY :: "32 word"
  BR_DEAD_BINDER :: "32 word"
  BR_FAILED_REPLY :: "32 word"
  BR_DEAD_REPLY :: "32 word"
  be_mem :: "nat \<Rightarrow> nat \<Rightarrow> string"
  be_rdata :: "string \<Rightarrow> string"
  be_readbuf :: string

text \<open>\<open>binder_transaction_data\<close>, 64 bytes, and the security context that may follow it.\<close>

record txn =
  t_target :: nat
  t_code :: "32 word"
  t_flags :: "32 word"
  t_sender_pid :: "32 word"
  t_sender_euid :: "32 word"
  t_data_size :: nat
  t_offsets_size :: nat
  t_buffer :: nat
  t_offsets :: nat
  t_secctx :: nat

definition sizeof_txn :: nat where "sizeof_txn = 64"
definition sizeof_txn_secctx :: nat where "sizeof_txn_secctx = 72"
definition sizeof_ptr_cookie :: nat where "sizeof_ptr_cookie = 16"

definition field :: "nat \<Rightarrow> nat \<Rightarrow> string \<Rightarrow> nat" where
  "field p n s = le_val (bytes_at p n s)"

definition txn_of :: "string \<Rightarrow> nat \<Rightarrow> txn" where
  "txn_of s ctx =
     \<lparr>t_target = field 0 8 s, t_code = get32 (bytes_at 16 4 s), t_flags = get32 (bytes_at 20 4 s),
      t_sender_pid = get32 (bytes_at 24 4 s), t_sender_euid = get32 (bytes_at 28 4 s),
      t_data_size = field 32 8 s, t_offsets_size = field 40 8 s, t_buffer = field 48 8 s,
      t_offsets = field 56 8 s, t_secctx = ctx\<rparr>"

text \<open>The message of a transaction: the memory its pointers lead to.\<close>

definition msg_of :: "binder_env \<Rightarrow> txn \<Rightarrow> binder_io" where
  "msg_of env t =
     bio_init_from_txn (be_mem env (t_buffer t) (t_data_size t))
       (map (\<lambda>n. le_val (be_mem env (t_offsets t + 8 * n) 8)) [0..<t_offsets_size t div 8])"

definition one_way :: "binder_env \<Rightarrow> txn \<Rightarrow> bool" where
  "one_way env t \<longleftrightarrow> t_flags t AND TF_ONE_WAY (be_abi env) \<noteq> 0"

definition binder_send_reply :: "binder_env \<Rightarrow> binder_io \<Rightarrow> nat \<Rightarrow> int \<Rightarrow> bc list" where
  "binder_send_reply env reply buffer_to_free status =
     [BC_FREE_BUFFER buffer_to_free,
      if status \<noteq> 0 then BC_REPLY (TF_STATUS_CODE (be_abi env)) (le32 (word_of_int status)) []
      else BC_REPLY 0 (sent_data reply) (sent_offs reply)]"

section \<open>Handlers\<close>

text \<open>
  A \<open>binder_handler\<close> returns its status, the reply it filled in, its new state and the commands
  it wrote.  A death notification carries a cookie that the code takes for the address of a
  \<open>binder_death\<close> and whose function it calls: \<open>None\<close> where nothing of the kind is at the address,
  so that the behaviour is undefined.
\<close>

type_synonym 's handler = "txn \<Rightarrow> binder_io \<Rightarrow> binder_io \<Rightarrow> 's \<Rightarrow> int \<times> binder_io \<times> 's \<times> bc list"
type_synonym 's death_fun = "nat \<Rightarrow> 's \<Rightarrow> ('s \<times> bc list) option"

text \<open>One transaction: the handler, if there is one, and the answer.\<close>

definition serve :: "binder_env \<Rightarrow> 's handler option \<Rightarrow> txn \<Rightarrow> 's \<Rightarrow> 's \<times> bc list" where
  "serve env func t st =
     (case func of
        None \<Rightarrow> (st, [])
      | Some f \<Rightarrow>
          (let reply = bio_init (be_rdata env (be_mem env (t_buffer t) (t_data_size t))) 4;
               (res, reply', st', ws) = f t (msg_of env t) reply st
           in (st', ws @ (if one_way env t then [BC_FREE_BUFFER (t_buffer t)]
                          else binder_send_reply env reply' (t_buffer t) res))))"

section \<open>Parsing\<close>

text \<open>
  The loop over what is left of the read buffer: \<open>s\<close> is what the driver delivered and \<open>rest\<close> the bytes
  of the buffer behind it, which are read where a record is cut short.  Once the pointer is past the
  end, the unsigned distance to the end is large, and no record is too small.  \<open>bio\<close> says whether the
  caller still waits for a reply.  The result holds the status and the reply, or \<open>None\<close> where the
  behaviour is undefined (a read behind the buffer, a cookie that is not the address of a
  \<open>binder_death\<close>), and in either case the state and the commands written so far.
\<close>

type_synonym 's parsed = "(int \<times> binder_io option) option \<times> 's \<times> bc list"

definition with_writes :: "bc list \<Rightarrow> 's parsed \<Rightarrow> 's parsed" where
  "with_writes ws p = (case p of (out, st, us) \<Rightarrow> (out, st, ws @ us))"

definition with_reply :: "binder_io \<Rightarrow> bool \<Rightarrow> 's parsed \<Rightarrow> 's parsed" where
  "with_reply io bio p =
     (if bio then (case p of (out, st, us) \<Rightarrow> (map_option (\<lambda>(r, _). (r, Some io)) out, st, us)) else p)"

function binder_parse ::
  "binder_env \<Rightarrow> 's handler option \<Rightarrow> 's death_fun \<Rightarrow> bool \<Rightarrow> int \<Rightarrow> string \<Rightarrow> string \<Rightarrow> 's \<Rightarrow> 's parsed" where
  "binder_parse env func die bio r rest s st =
     (if s = [] then (Some (r, None), st, [])
      else if length (s @ rest) < 4 then (None, st, [])
      else
        (let cmd = get32 (take 4 (s @ rest)); s1 = drop 4 s; m = drop 4 (s @ rest);
             small = (\<lambda>n. 4 \<le> length s \<and> length s1 < n)
         in if cmd = BR_NOOP env \<or> cmd = BR_TRANSACTION_COMPLETE env
            then binder_parse env func die bio r rest s1 st
            else if cmd = BR_INCREFS env \<or> cmd = BR_ACQUIRE env \<or> cmd = BR_RELEASE env \<or> cmd = BR_DECREFS env
            then binder_parse env func die bio r rest (drop sizeof_ptr_cookie s1) st
            else if cmd = BR_TRANSACTION_SEC_CTX env then
              (if small sizeof_txn_secctx then (Some (-1, None), st, [])
               else if length m < sizeof_txn_secctx then (None, st, [])
               else (let (st', ws) = serve env func (txn_of m (field 64 8 m)) st
                     in with_writes ws (binder_parse env func die bio r rest (drop sizeof_txn_secctx s1) st')))
            else if cmd = BR_TRANSACTION env then
              (if small sizeof_txn then (Some (-1, None), st, [])
               else if length m < sizeof_txn then (None, st, [])
               else (let (st', ws) = serve env func (txn_of m 0) st
                     in with_writes ws (binder_parse env func die bio r rest (drop sizeof_txn s1) st')))
            else if cmd = BR_REPLY env then
              (if small sizeof_txn then (Some (-1, None), st, [])
               else if length m < sizeof_txn then (None, st, [])
               else with_reply (msg_of env (txn_of m 0)) bio
                      (binder_parse env func die False 0 rest (drop sizeof_txn s1) st))
            else if cmd = BR_DEAD_BINDER env then
              (if length m < 8 then (None, st, [])
               else (case die (field 0 8 m) st of
                       None \<Rightarrow> (None, st, [])
                     | Some (st', ws) \<Rightarrow> with_writes ws (binder_parse env func die bio r rest (drop 8 s1) st')))
            else if cmd = BR_FAILED_REPLY env \<or> cmd = BR_DEAD_REPLY env
            then binder_parse env func die bio (-1) rest s1 st
            else (Some (-1, None), st, [])))"
  by pat_completeness auto
termination
  by (relation "measure (\<lambda>(env, func, die, bio, r, rest, s, st). length s)")
    (auto simp: sizeof_txn_def sizeof_txn_secctx_def sizeof_ptr_cookie_def)

declare binder_parse.simps [simp del]

section \<open>The loops\<close>

text \<open>
  The \<open>ioctl\<close> calls that read: each either fails or fills the start of the read buffer, whose other
  bytes stay.  The list is what the driver delivers up to some moment.
\<close>

datatype loop_end = Waiting | IoctlFailed | UnexpectedReply | IoError | Undefined

fun loop_reads ::
  "binder_env \<Rightarrow> 's handler \<Rightarrow> 's death_fun \<Rightarrow> string \<Rightarrow> string option list \<Rightarrow> 's \<Rightarrow> loop_end \<times> 's \<times> bc list" where
  "loop_reads env func die buf [] st = (Waiting, st, [])"
| "loop_reads env func die buf (None # rs) st = (IoctlFailed, st, [])"
| "loop_reads env func die buf (Some s # rs) st =
     (case binder_parse env (Some func) die False 1 (drop (length s) buf) s st of
        (None, st', ws) \<Rightarrow> (Undefined, st', ws)
      | (Some (res, _), st', ws) \<Rightarrow>
          if res = 0 then (UnexpectedReply, st', ws)
          else if res < 0 then (IoError, st', ws)
          else (let (e, st'', us) = loop_reads env func die (s @ drop (length s) buf) rs st' in (e, st'', ws @ us)))"

definition binder_loop ::
  "binder_env \<Rightarrow> 's handler \<Rightarrow> 's death_fun \<Rightarrow> string option list \<Rightarrow> 's \<Rightarrow> loop_end \<times> 's \<times> bc list" where
  "binder_loop env func die reads st =
     (let (e, st', ws) = loop_reads env func die (be_readbuf env) reads st in (e, st', BC_ENTER_LOOPER # ws))"

text \<open>
  A call: the transaction is written by the first \<open>ioctl\<close>, then the replies are awaited.  The
  result is the status (0 or -1) and the reply; \<open>None\<close> when the driver delivered no more, or where the
  behaviour is undefined.
\<close>

definition io_error :: binder_io where
  "io_error = \<lparr>io_buf = [], io_pos = 0, data_avail = 0, io_offs = [], offs_pos = 0, offs_avail = 0,
     io_flags = BIO_F_IOERROR\<rparr>"

fun await_reply ::
  "binder_env \<Rightarrow> 's death_fun \<Rightarrow> string \<Rightarrow> string option list \<Rightarrow> 's \<Rightarrow> (int \<times> binder_io) option \<times> 's \<times> bc list" where
  "await_reply env die buf [] st = (None, st, [])"
| "await_reply env die buf (None # rs) st = (Some (-1, io_error), st, [])"
| "await_reply env die buf (Some s # rs) st =
     (case binder_parse env None die True 1 (drop (length s) buf) s st of
        (None, st', ws) \<Rightarrow> (None, st', ws)
      | (Some (res, b), st', ws) \<Rightarrow>
          if res = 0 then (Some (0, case b of None \<Rightarrow> io_error | Some io \<Rightarrow> io), st', ws)
          else if res < 0 then (Some (-1, io_error), st', ws)
          else (let (x, st'', us) = await_reply env die (s @ drop (length s) buf) rs st' in (x, st'', ws @ us)))"

definition binder_call ::
  "binder_env \<Rightarrow> 's death_fun \<Rightarrow> binder_io \<Rightarrow> 32 word \<Rightarrow> 32 word \<Rightarrow> string option list \<Rightarrow> 's \<Rightarrow>
   (int \<times> binder_io) option \<times> 's \<times> bc list" where
  "binder_call env die msg target code reads st =
     (if \<not> no_overflow msg then (Some (-1, io_error), st, [])
      else (let (x, st', ws) = await_reply env die (be_readbuf env) reads st
            in (x, st', BC_TRANSACTION target code (sent_data msg) (sent_offs msg) # ws)))"

text \<open>\<open>binder_done\<close>: only a reply in shared memory is handed back; a reply lies at its address.\<close>

definition binder_done :: "nat \<Rightarrow> binder_io \<Rightarrow> bc list" where
  "binder_done data0 reply = (if io_flags reply AND BIO_F_SHARED \<noteq> 0 then [BC_FREE_BUFFER data0] else [])"


section \<open>Complete records\<close>

text \<open>
  What the driver puts into a read buffer, and the meaning of a list of such records.  A record of
  a reference count carries a pointer and a cookie that are not looked at.
\<close>

datatype br =
    Noop | Complete
  | Increfs string | Acquire string | Release string | Decrefs string
  | TransactionSec string | Transaction string | Reply string
  | DeadBinder nat | FailedReply | DeadReply

fun br_ok :: "br \<Rightarrow> bool" where
  "br_ok (Increfs s) \<longleftrightarrow> length s = sizeof_ptr_cookie"
| "br_ok (Acquire s) \<longleftrightarrow> length s = sizeof_ptr_cookie"
| "br_ok (Release s) \<longleftrightarrow> length s = sizeof_ptr_cookie"
| "br_ok (Decrefs s) \<longleftrightarrow> length s = sizeof_ptr_cookie"
| "br_ok (TransactionSec s) \<longleftrightarrow> length s = sizeof_txn_secctx"
| "br_ok (Transaction s) \<longleftrightarrow> length s = sizeof_txn"
| "br_ok (Reply s) \<longleftrightarrow> length s = sizeof_txn"
| "br_ok (DeadBinder n) \<longleftrightarrow> n < 2 ^ 64"
| "br_ok _ \<longleftrightarrow> True"

fun encode :: "binder_env \<Rightarrow> br \<Rightarrow> string" where
  "encode env Noop = le32 (BR_NOOP env)"
| "encode env Complete = le32 (BR_TRANSACTION_COMPLETE env)"
| "encode env (Increfs s) = le32 (BR_INCREFS env) @ s"
| "encode env (Acquire s) = le32 (BR_ACQUIRE env) @ s"
| "encode env (Release s) = le32 (BR_RELEASE env) @ s"
| "encode env (Decrefs s) = le32 (BR_DECREFS env) @ s"
| "encode env (TransactionSec s) = le32 (BR_TRANSACTION_SEC_CTX env) @ s"
| "encode env (Transaction s) = le32 (BR_TRANSACTION env) @ s"
| "encode env (Reply s) = le32 (BR_REPLY env) @ s"
| "encode env (DeadBinder n) = le32 (BR_DEAD_BINDER env) @ le_bytes 8 n"
| "encode env FailedReply = le32 (BR_FAILED_REPLY env)"
| "encode env DeadReply = le32 (BR_DEAD_REPLY env)"

definition codes :: "binder_env \<Rightarrow> 32 word list" where
  "codes env = [BR_NOOP env, BR_TRANSACTION_COMPLETE env, BR_INCREFS env, BR_ACQUIRE env, BR_RELEASE env,
     BR_DECREFS env, BR_TRANSACTION_SEC_CTX env, BR_TRANSACTION env, BR_REPLY env, BR_DEAD_BINDER env,
     BR_FAILED_REPLY env, BR_DEAD_REPLY env]"

text \<open>The transaction in a record.\<close>

fun br_txn :: "br \<Rightarrow> txn option" where
  "br_txn (TransactionSec s) = Some (txn_of s (field 64 8 s))"
| "br_txn (Transaction s) = Some (txn_of s 0)"
| "br_txn _ = None"

fun br_effect :: "binder_env \<Rightarrow> 's handler option \<Rightarrow> 's death_fun \<Rightarrow> br \<Rightarrow> 's \<Rightarrow> ('s \<times> bc list) option" where
  "br_effect env func die (DeadBinder n) st = die n st"
| "br_effect env func die b st = Some (case br_txn b of None \<Rightarrow> (st, []) | Some t \<Rightarrow> serve env func t st)"

fun br_status :: "br \<Rightarrow> int \<Rightarrow> int" where
  "br_status (Reply s) r = 0"
| "br_status FailedReply r = -1"
| "br_status DeadReply r = -1"
| "br_status b r = r"

fun br_reply :: "binder_env \<Rightarrow> br list \<Rightarrow> binder_io option" where
  "br_reply env [] = None"
| "br_reply env (Reply s # bs) = Some (msg_of env (txn_of s 0))"
| "br_reply env (b # bs) = br_reply env bs"

text \<open>The records that are left where the behaviour is undefined (none, if it nowhere is), the state and the commands.\<close>

fun run_brs :: "binder_env \<Rightarrow> 's handler option \<Rightarrow> 's death_fun \<Rightarrow> br list \<Rightarrow> 's \<Rightarrow> br list \<times> 's \<times> bc list" where
  "run_brs env func die [] st = ([], st, [])"
| "run_brs env func die (b # bs) st =
     (case br_effect env func die b st of
        None \<Rightarrow> (b # bs, st, [])
      | Some (st1, ws) \<Rightarrow> (let (left, st2, us) = run_brs env func die bs st1 in (left, st2, ws @ us)))"

lemma txn_of_append: "length s \<ge> sizeof_txn \<Longrightarrow> txn_of (s @ t) c = txn_of s c"
  by (simp add: txn_of_def field_def bytes_at_def sizeof_txn_def)

lemma field_append: "p + n \<le> length s \<Longrightarrow> field p n (s @ t) = field p n s"
  by (simp add: field_def bytes_at_def)

lemma field_le_bytes: "n < 18446744073709551616 \<Longrightarrow> field 0 8 (le_bytes 8 n) = n"
  by (simp add: field_def bytes_at_def le_val_bytes_id)

lemma le32_not_Nil [simp]: "le32 n \<noteq> []"
  using length_le32 [of n] by fastforce

lemma encode_not_Nil [simp]: "encode env b \<noteq> []"
  by (cases b) simp_all

lemma parse_code:
  "binder_parse env func die bio r rest (le32 c @ s) st =
     (if c = BR_NOOP env \<or> c = BR_TRANSACTION_COMPLETE env then binder_parse env func die bio r rest s st
      else if c = BR_INCREFS env \<or> c = BR_ACQUIRE env \<or> c = BR_RELEASE env \<or> c = BR_DECREFS env
      then binder_parse env func die bio r rest (drop sizeof_ptr_cookie s) st
      else if c = BR_TRANSACTION_SEC_CTX env then
        (if length s < sizeof_txn_secctx then (Some (-1, None), st, [])
         else (let (st', ws) = serve env func (txn_of (s @ rest) (field 64 8 (s @ rest))) st
               in with_writes ws (binder_parse env func die bio r rest (drop sizeof_txn_secctx s) st')))
      else if c = BR_TRANSACTION env then
        (if length s < sizeof_txn then (Some (-1, None), st, [])
         else (let (st', ws) = serve env func (txn_of (s @ rest) 0) st
               in with_writes ws (binder_parse env func die bio r rest (drop sizeof_txn s) st')))
      else if c = BR_REPLY env then
        (if length s < sizeof_txn then (Some (-1, None), st, [])
         else with_reply (msg_of env (txn_of (s @ rest) 0)) bio
                (binder_parse env func die False 0 rest (drop sizeof_txn s) st))
      else if c = BR_DEAD_BINDER env then
        (if length (s @ rest) < 8 then (None, st, [])
         else (case die (field 0 8 (s @ rest)) st of
                 None \<Rightarrow> (None, st, [])
               | Some (st', ws) \<Rightarrow> with_writes ws (binder_parse env func die bio r rest (drop 8 s) st')))
      else if c = BR_FAILED_REPLY env \<or> c = BR_DEAD_REPLY env
      then binder_parse env func die bio (-1) rest s st
      else (Some (-1, None), st, []))"
proof -
  have shape: "le32 c @ s \<noteq> []" "\<not> length ((le32 c @ s) @ rest) < 4" "take 4 ((le32 c @ s) @ rest) = le32 c"
    "drop 4 (le32 c @ s) = s" "drop 4 ((le32 c @ s) @ rest) = s @ rest" "(4 \<le> length (le32 c @ s)) = True"
    by simp_all
  have rooms: "(if length s < n then p else if length (s @ rest) < n then q else z) = (if length s < n then p else z)"
    for n and p q z :: "'a parsed" by simp
  show ?thesis
    by (subst binder_parse.simps) (simp only: shape if_False Let_def get32_le32 simp_thms rooms cong: if_cong)
qed


text \<open>
  One record: the code is recognised, its data consumed.  The records that the loop merely skips
  are the ones whose effect is nothing.
\<close>

definition then_parse :: "binder_env \<Rightarrow> br \<Rightarrow> bool \<Rightarrow> bc list \<Rightarrow> 's parsed \<Rightarrow> 's parsed" where
  "then_parse env b bio ws p =
     with_writes ws (case b of Reply s \<Rightarrow> with_reply (msg_of env (txn_of s 0)) bio p | _ \<Rightarrow> p)"

lemma with_writes_Nil [simp]: "with_writes [] p = p"
  by (cases p) (simp add: with_writes_def)

lemma parse_record:
  assumes "distinct (codes env)" "br_ok b"
  shows "binder_parse env func die bio r rest (encode env b @ s) st =
     (case br_effect env func die b st of
        None \<Rightarrow> (None, st, [])
      | Some (st', ws) \<Rightarrow> then_parse env b bio ws
           (binder_parse env func die (bio \<and> (\<forall>t. b \<noteq> Reply t)) (br_status b r) rest s st'))"
proof -
  have "distinct (rev (codes env))" using assms(1) by simp
  then have neq: "distinct (codes env) \<and> distinct (rev (codes env))" using assms(1) by simp
  show ?thesis using assms(2)
    by (cases b) (simp_all add: parse_code neq [unfolded codes_def, simplified] then_parse_def txn_of_append
        field_append field_le_bytes sizeof_txn_def sizeof_txn_secctx_def sizeof_ptr_cookie_def
        split: prod.split option.split)
qed

lemma parse_records:
  assumes "distinct (codes env)" "list_all br_ok bs"
  shows "binder_parse env func die bio r rest (concat (map (encode env) bs)) st =
     (let (left, st', ws) = run_brs env func die bs st
      in (if left = [] then Some (fold br_status bs r, if bio then br_reply env bs else None) else None, st', ws))"
  using assms(2)
proof (induction bs arbitrary: bio r st)
  case Nil
  then show ?case by (simp add: binder_parse.simps)
next
  case (Cons b bs)
  have "then_parse env b bio ws
      (let (left, st', us) = run_brs env func die bs st1
       in (if left = [] then Some (fold br_status bs (br_status b r),
             if bio \<and> (\<forall>t. b \<noteq> Reply t) then br_reply env bs else None) else None, st', us)) =
     (let (left, st', us) = run_brs env func die bs st1
      in (if left = [] then Some (fold br_status (b # bs) r, if bio then br_reply env (b # bs) else None) else None,
          st', ws @ us))" for ws st1
    by (cases b) (auto simp: then_parse_def with_writes_def with_reply_def split: prod.split)
  note step = this
  show ?case
  proof (cases "br_effect env func die b st")
    case None
    with Cons.prems show ?thesis by (simp add: parse_record [OF assms(1)])
  next
    case (Some p)
    obtain st1 ws where p: "p = (st1, ws)" by fastforce
    have "binder_parse env func die bio r rest (concat (map (encode env) (b # bs))) st =
        then_parse env b bio ws (binder_parse env func die (bio \<and> (\<forall>t. b \<noteq> Reply t)) (br_status b r) rest
          (concat (map (encode env) bs)) st1)"
      using Cons.prems Some p by (simp add: parse_record [OF assms(1)])
    also have "list_all br_ok bs" using Cons.prems by simp
    note Cons.IH [OF this]
    also note step
    finally show ?thesis using Some p by (simp add: Let_def split: prod.split)
  qed
qed


section \<open>Services\<close>

fun is_answer :: "bc \<Rightarrow> bool" where
  "is_answer (BC_FREE_BUFFER b) = True"
| "is_answer (BC_REPLY fl d os) = True"
| "is_answer _ = False"

text \<open>The buffers given back (\<open>Some\<close>) and the replies (\<open>None\<close>) among commands.\<close>

fun answers :: "bc list \<Rightarrow> nat option list" where
  "answers [] = []"
| "answers (BC_FREE_BUFFER b # ws) = Some b # answers ws"
| "answers (BC_REPLY fl d os # ws) = None # answers ws"
| "answers (w # ws) = answers ws"

lemma answers_append [simp]: "answers (ws @ us) = answers ws @ answers us"
  by (induction ws rule: answers.induct) simp_all

lemma answers_send_reply [simp]: "answers (binder_send_reply env reply b res) = [Some b, None]"
  by (simp add: binder_send_reply_def)

text \<open>What a transaction must be answered with: its buffer is freed, and it is replied to unless it is one way.\<close>

definition due :: "binder_env \<Rightarrow> txn \<Rightarrow> nat option list" where
  "due env t = Some (t_buffer t) # (if one_way env t then [] else [None])"

definition txns_of :: "br list \<Rightarrow> txn list" where
  "txns_of bs = concat (map (\<lambda>b. case br_txn b of None \<Rightarrow> [] | Some t \<Rightarrow> [t]) bs)"

text \<open>
  The interface between the loop and a service: a handler and a death function, and a relation
  between its state and everything it has written, which both keep and which the answers of the loop
  do not disturb.
\<close>

locale binder_service =
  fixes func :: "'s handler" and die :: "'s death_fun" and inv :: "'s \<Rightarrow> bc list \<Rightarrow> bool"
  assumes func_inv: "inv st ws \<Longrightarrow> func t msg reply st = (res, reply', st', us) \<Longrightarrow> inv st' (ws @ us)"
    and die_inv: "inv st ws \<Longrightarrow> die n st = Some (st', us) \<Longrightarrow> inv st' (ws @ us)"
    and answer_inv: "inv st ws \<Longrightarrow> is_answer c \<Longrightarrow> inv st (ws @ [c])"
begin

lemma serve_inv:
  assumes "inv st ws" "serve env (Some func) t st = (st', us)"
  shows "inv st' (ws @ us)"
proof -
  let ?reply = "bio_init (be_rdata env (be_mem env (t_buffer t) (t_data_size t))) 4"
  obtain res reply' st1 vs where f: "func t (msg_of env t) ?reply st = (res, reply', st1, vs)"
    by (metis prod_cases4)
  have 1: "inv st1 (ws @ vs)" using func_inv [OF assms(1) f] .
  then have 2: "inv st1 ((ws @ vs) @ [BC_FREE_BUFFER b])" for b by (rule answer_inv) simp
  have "inv st1 (((ws @ vs) @ [BC_FREE_BUFFER b]) @ [BC_REPLY fl d os])" for b fl d os
    by (rule answer_inv [OF 2]) simp
  with 2 assms f show ?thesis
    by (auto simp: serve_def binder_send_reply_def Let_def split: if_splits)
qed

lemma parse_inv:
  "inv st ws \<Longrightarrow> binder_parse env (Some func) die bio r rest s st = (out, st', us) \<Longrightarrow> inv st' (ws @ us)"
proof (induction "length s" arbitrary: s bio r ws st out us rule: less_induct)
  case less
  note inv = \<open>inv st ws\<close>
  have writes: "inv st' (ws @ us)"
    if "with_writes vs (binder_parse env (Some func) die bio r rest t st1) = (out, st', us)"
      "inv st1 (ws @ vs)" "length t < length s" for t bio r st1 out us vs
  proof -
    from that(1) obtain zs where z: "binder_parse env (Some func) die bio r rest t st1 = (out, st', zs)" "us = vs @ zs"
      by (auto simp: with_writes_def split: prod.splits)
    from less.hyps [OF that(3,2) z(1)] z(2) show ?thesis by simp
  qed
  have reply: "inv st' (ws @ us)"
    if "with_reply io x (binder_parse env (Some func) die bio r rest t st) = (out, st', us)" "length t < length s"
    for t io x bio r out us
  proof -
    from that(1) obtain out' where "binder_parse env (Some func) die bio r rest t st = (out', st', us)"
      by (auto simp: with_reply_def split: if_splits prod.splits)
    from less.hyps [OF that(2) inv this] show ?thesis .
  qed
  have served: "inv st1 (ws @ vs)" if "serve env (Some func) t st = (st1, vs)" for t st1 vs
    using serve_inv [OF inv that] .
  have died: "inv st1 (ws @ vs)" if "die n st = Some (st1, vs)" for n st1 vs
    using die_inv [OF inv that] .
  show ?case using less.prems(2) inv unfolding binder_parse.simps [of env "Some func" die bio r rest s st]
    by (auto simp: Let_def sizeof_ptr_cookie_def sizeof_txn_def sizeof_txn_secctx_def
        split: if_splits prod.splits option.splits elim!: less.hyps [rotated 2] writes reply intro: served died)
qed

lemma loop_reads_inv:
  "inv st ws \<Longrightarrow> loop_reads env func die buf rs st = (e, st', us) \<Longrightarrow> inv st' (ws @ us)"
proof (induction rs arbitrary: st ws us buf)
  case (Cons r rs)
  show ?case
  proof (cases r)
    case (Some s)
    obtain out st1 vs where p: "binder_parse env (Some func) die False 1 (drop (length s) buf) s st = (out, st1, vs)"
      by (metis prod_cases3)
    have inv1: "inv st1 (ws @ vs)" using parse_inv [OF Cons.prems(1) p] .
    show ?thesis using Cons.prems inv1 Some p Cons.IH [OF inv1]
      by (auto split: if_splits prod.splits option.splits)
  qed (use Cons.prems in auto)
qed simp

end

text \<open>A service that answers through the loop only.\<close>

locale quiet_service = binder_service +
  assumes func_quiet: "func t msg reply st = (res, reply', st', us) \<Longrightarrow> answers us = []"
    and die_quiet: "die n st = Some (st', us) \<Longrightarrow> answers us = []"
begin

lemma serve_answers: "serve env (Some func) t st = (st', us) \<Longrightarrow> answers us = due env t"
  by (auto simp: serve_def due_def Let_def split: prod.splits if_splits dest!: func_quiet)

text \<open>What was answered are the transactions before the records that are left, which start with a death.\<close>

lemma run_brs_answers:
  "run_brs env (Some func) die bs st = (left, st', us) \<Longrightarrow>
   \<exists>served. bs = served @ left \<and> answers us = concat (map (due env) (txns_of served)) \<and>
     (\<forall>b \<in> set (take 1 left). \<exists>n. b = DeadBinder n \<and> die n st' = None)"
proof (induction bs arbitrary: st us)
  case (Cons b bs)
  show ?case
  proof (cases "br_effect env (Some func) die b st")
    case None
    then have "\<exists>n. b = DeadBinder n \<and> die n st = None" by (cases b) simp_all
    with None Cons.prems show ?thesis by (intro exI [of _ "[]"]) (auto simp: txns_of_def)
  next
    case (Some p)
    then obtain st1 ws vs where eff: "br_effect env (Some func) die b st = Some (st1, ws)"
      "run_brs env (Some func) die bs st1 = (left, st', vs)" "us = ws @ vs"
      using Cons.prems by (auto split: prod.splits)
    obtain served where s: "bs = served @ left" "answers vs = concat (map (due env) (txns_of served))"
      "\<forall>b \<in> set (take 1 left). \<exists>n. b = DeadBinder n \<and> die n st' = None"
      using Cons.IH [OF eff(2)] by blast
    have "answers ws = concat (map (due env) (case br_txn b of None \<Rightarrow> [] | Some t \<Rightarrow> [t]))"
      using eff(1) by (cases b) (auto dest: serve_answers die_quiet)
    with s eff(3) show ?thesis by (intro exI [of _ "b # served"]) (auto simp: txns_of_def split: option.split)
  qed
qed (simp add: txns_of_def)

end

end
