(* ===== verification/ServiceManager.thy ===== *)
theory ServiceManager
  imports Binder
begin

unbundle bit_operations_syntax

text \<open>
  \<open>servicemanager/service_manager.c\<close>: the list of services, the operations on it and the handler
  of transactions, in the order of the file.  A \<open>svcinfo\<close> is known by its address, which is also the
  cookie of its death notification; addresses are numbers, handed out one after the other, and
  \<open>sm_malloc\<close> says which allocation succeeds.  Logging is left out.
\<close>

section \<open>Strings\<close>

text \<open>\<open>str8\<close>: at most 127 units, up to a null, each cut to 8 bits.\<close>

definition str8 :: "16 word list \<Rightarrow> string" where
  "str8 x = map (\<lambda>u. char_of (unat u mod 256)) (takeWhile (\<lambda>u. u \<noteq> 0) (take (min 127 (length x)) x))"

definition svcmgr_id :: "16 word list" where
  "svcmgr_id = map of_char ''android.os.IServiceManager''"

section \<open>Permissions\<close>

record sm_env =
  sm_binder :: binder_env
  AID_USER :: int
  AID_ISOLATED_START :: int
  AID_ISOLATED_END :: int
  sm_malloc :: "nat \<Rightarrow> bool"

text \<open>The check returns before it asks SELinux.\<close>

definition check_mac_perms :: "32 word \<Rightarrow> nat \<Rightarrow> 32 word \<Rightarrow> cstring \<Rightarrow> string \<Rightarrow> cstring \<Rightarrow> bool" where
  "check_mac_perms spid sid uid tctx perm name = True"

definition check_mac_perms_from_getcon :: "32 word \<Rightarrow> nat \<Rightarrow> 32 word \<Rightarrow> string \<Rightarrow> bool" where
  "check_mac_perms_from_getcon spid sid uid perm = check_mac_perms spid sid uid None perm None"

definition check_mac_perms_from_lookup :: "32 word \<Rightarrow> nat \<Rightarrow> 32 word \<Rightarrow> string \<Rightarrow> string \<Rightarrow> bool" where
  "check_mac_perms_from_lookup spid sid uid perm name = check_mac_perms spid sid uid None perm (Some name)"

definition svc_can_register :: "16 word list \<Rightarrow> 32 word \<Rightarrow> nat \<Rightarrow> 32 word \<Rightarrow> bool" where
  "svc_can_register name spid sid uid = check_mac_perms_from_lookup spid sid uid ''add'' (str8 name)"

definition svc_can_list :: "32 word \<Rightarrow> nat \<Rightarrow> 32 word \<Rightarrow> bool" where
  "svc_can_list spid sid uid = check_mac_perms_from_getcon spid sid uid ''list''"

definition svc_can_find :: "16 word list \<Rightarrow> 32 word \<Rightarrow> nat \<Rightarrow> 32 word \<Rightarrow> bool" where
  "svc_can_find name spid sid uid = check_mac_perms_from_lookup spid sid uid ''find'' (str8 name)"

section \<open>The list of services\<close>

record svcinfo =
  si_id :: nat
  si_handle :: "32 word"
  si_allow_isolated :: bool
  si_dumpsys_priority :: "32 word"
  si_name :: "16 word list"

record sm =
  svclist :: "svcinfo list"
  next_addr :: nat

definition find_svc :: "16 word list \<Rightarrow> sm \<Rightarrow> svcinfo option" where
  "find_svc s st = List.find (\<lambda>si. length s = length (si_name si) \<and> s = si_name si) (svclist st)"

definition set_handle :: "nat \<Rightarrow> 32 word \<Rightarrow> sm \<Rightarrow> sm" where
  "set_handle i h st = st\<lparr>svclist := map (\<lambda>si. if si_id si = i then si\<lparr>si_handle := h\<rparr> else si) (svclist st)\<rparr>"

definition svcinfo_death :: "svcinfo \<Rightarrow> sm \<Rightarrow> sm \<times> bc list" where
  "svcinfo_death si st =
     (if si_handle si \<noteq> 0 then (set_handle (si_id si) 0 st, [BC_RELEASE (si_handle si)]) else (st, []))"

text \<open>
  The function behind the cookie of a death notification.  Entries are never freed, so a cookie that
  was given to the driver always leads to its entry; what another cookie leads to is undefined.
\<close>

definition death_notified :: "sm death_fun" where
  "death_notified i st = map_option (\<lambda>si. svcinfo_death si st) (List.find (\<lambda>si. si_id si = i) (svclist st))"

definition is_isolated :: "sm_env \<Rightarrow> 32 word \<Rightarrow> bool" where
  "is_isolated env uid \<longleftrightarrow>
     (let appid = uint uid mod AID_USER env in appid \<ge> AID_ISOLATED_START env \<and> appid \<le> AID_ISOLATED_END env)"

definition do_find_service :: "sm_env \<Rightarrow> 16 word list \<Rightarrow> 32 word \<Rightarrow> 32 word \<Rightarrow> nat \<Rightarrow> sm \<Rightarrow> 32 word" where
  "do_find_service env s uid spid sid st =
     (case find_svc s st of
        None \<Rightarrow> 0
      | Some si \<Rightarrow>
          if si_handle si = 0 then 0
          else if \<not> si_allow_isolated si \<and> is_isolated env uid then 0
          else if \<not> svc_can_find s spid sid uid then 0
          else si_handle si)"

definition do_add_service ::
  "sm_env \<Rightarrow> 16 word list \<Rightarrow> 32 word \<Rightarrow> 32 word \<Rightarrow> bool \<Rightarrow> 32 word \<Rightarrow> 32 word \<Rightarrow> nat \<Rightarrow> sm \<Rightarrow> int \<times> sm \<times> bc list" where
  "do_add_service env s handle uid allow_isolated dumpsys_priority spid sid st =
     (if handle = 0 \<or> length s = 0 \<or> length s > 127 then (-1, st, [])
      else if \<not> svc_can_register s spid sid uid then (-1, st, [])
      else
        (case find_svc s st of
           Some si \<Rightarrow>
             (let (st1, ws) = (if si_handle si \<noteq> 0 then svcinfo_death si st else (st, []))
              in (0, set_handle (si_id si) handle st1,
                  ws @ [BC_ACQUIRE handle, BC_REQUEST_DEATH_NOTIFICATION handle (si_id si)]))
         | None \<Rightarrow>
             if \<not> sm_malloc env (next_addr st) then (-1, st, [])
             else
               (let si = \<lparr>si_id = next_addr st, si_handle = handle, si_allow_isolated = allow_isolated,
                          si_dumpsys_priority = dumpsys_priority, si_name = s\<rparr>
                in (0, st\<lparr>svclist := si # svclist st, next_addr := next_addr st + 1\<rparr>,
                    [BC_ACQUIRE handle, BC_REQUEST_DEATH_NOTIFICATION handle (si_id si)]))))"

section \<open>The handler\<close>

definition PING_TRANSACTION :: "32 word" where "PING_TRANSACTION = 0x5f504e47"
definition SVC_MGR_GET_SERVICE :: "32 word" where "SVC_MGR_GET_SERVICE = 1"
definition SVC_MGR_CHECK_SERVICE :: "32 word" where "SVC_MGR_CHECK_SERVICE = 2"
definition SVC_MGR_ADD_SERVICE :: "32 word" where "SVC_MGR_ADD_SERVICE = 3"
definition SVC_MGR_LIST_SERVICES :: "32 word" where "SVC_MGR_LIST_SERVICES = 4"

definition BINDER_SERVICE_MANAGER :: nat where "BINDER_SERVICE_MANAGER = 0"

text \<open>The walk of \<open>SVC_MGR_LIST_SERVICES\<close>.\<close>

fun nth_service :: "32 word \<Rightarrow> nat \<Rightarrow> svcinfo list \<Rightarrow> svcinfo option" where
  "nth_service prio n [] = None"
| "nth_service prio n (si # sis) =
     (if si_dumpsys_priority si AND prio \<noteq> 0 then
        (if n = 0 then Some si else nth_service prio (n - 1) sis)
      else nth_service prio n sis)"

definition svcmgr_get :: "sm_env \<Rightarrow> txn \<Rightarrow> binder_io \<Rightarrow> binder_io \<Rightarrow> sm \<Rightarrow> int \<times> binder_io \<times> sm \<times> bc list" where
  "svcmgr_get env t msg reply st =
     (case fst (bio_get_string16 msg) of
        None \<Rightarrow> (-1, reply, st, [])
      | Some s \<Rightarrow>
          (let handle = do_find_service env s (t_sender_euid t) (t_sender_pid t) (t_secctx t) st
           in if handle = 0 then (0, bio_put_uint32 0 reply, st, [])
              else (0, bio_put_ref (be_abi (sm_binder env)) handle reply, st, [])))"

definition svcmgr_add :: "sm_env \<Rightarrow> txn \<Rightarrow> binder_io \<Rightarrow> binder_io \<Rightarrow> sm \<Rightarrow> int \<times> binder_io \<times> sm \<times> bc list" where
  "svcmgr_add env t msg reply st =
     (let (s, msg1) = bio_get_string16 msg
      in case s of
           None \<Rightarrow> (-1, reply, st, [])
         | Some s \<Rightarrow>
             (let (handle, msg2) = bio_get_ref (be_abi (sm_binder env)) msg1;
                  (allow, msg3) = bio_get_uint32 msg2;
                  (prio, msg4) = bio_get_uint32 msg3;
                  (res, st', ws) = do_add_service env s handle (t_sender_euid t) (allow \<noteq> 0) prio
                                     (t_sender_pid t) (t_secctx t) st
              in if res \<noteq> 0 then (-1, reply, st', ws) else (0, bio_put_uint32 0 reply, st', ws)))"

definition svcmgr_list :: "sm_env \<Rightarrow> txn \<Rightarrow> binder_io \<Rightarrow> binder_io \<Rightarrow> sm \<Rightarrow> int \<times> binder_io \<times> sm \<times> bc list" where
  "svcmgr_list env t msg reply st =
     (let (n, msg1) = bio_get_uint32 msg; (prio, msg2) = bio_get_uint32 msg1
      in if \<not> svc_can_list (t_sender_pid t) (t_secctx t) (t_sender_euid t) then (-1, reply, st, [])
         else
           (case nth_service prio (unat n) (svclist st) of
              Some si \<Rightarrow> (0, bio_put_string16 (Some (si_name si)) reply, st, [])
            | None \<Rightarrow> (-1, reply, st, [])))"

definition svcmgr_handler :: "sm_env \<Rightarrow> sm handler" where
  "svcmgr_handler env t msg reply st =
     (if t_target t \<noteq> BINDER_SERVICE_MANAGER then (-1, reply, st, [])
      else if t_code t = PING_TRANSACTION then (0, reply, st, [])
      else
        (let (strict_policy, msg1) = bio_get_uint32 msg;
             (worksource, msg2) = bio_get_uint32 msg1;
             (s, msg3) = bio_get_string16 msg2
         in case s of
              None \<Rightarrow> (-1, reply, st, [])
            | Some s \<Rightarrow>
                if s \<noteq> svcmgr_id then (-1, reply, st, [])
                else if t_code t = SVC_MGR_GET_SERVICE \<or> t_code t = SVC_MGR_CHECK_SERVICE
                then svcmgr_get env t msg3 reply st
                else if t_code t = SVC_MGR_ADD_SERVICE then svcmgr_add env t msg3 reply st
                else if t_code t = SVC_MGR_LIST_SERVICES then svcmgr_list env t msg3 reply st
                else (-1, reply, st, [])))"

definition sm_start :: sm where
  "sm_start = \<lparr>svclist = [], next_addr = 0\<rparr>"

text \<open>\<open>main\<close>, once the process is the context manager.\<close>

definition svcmgr_main :: "sm_env \<Rightarrow> string option list \<Rightarrow> loop_end \<times> sm \<times> bc list" where
  "svcmgr_main env reads = binder_loop (sm_binder env) (svcmgr_handler env) death_notified reads sm_start"


section \<open>The invariant\<close>

text \<open>
  Addresses and names are unique, and the references that the service manager took in the driver
  and has not given back are exactly the handles in its list.
\<close>

definition wf_sm :: "sm \<Rightarrow> bool" where
  "wf_sm st \<longleftrightarrow> distinct (map si_id (svclist st)) \<and> (\<forall>si \<in> set (svclist st). si_id si < next_addr st) \<and>
     distinct (map si_name (svclist st)) \<and> (\<forall>si \<in> set (svclist st). 0 < length (si_name si) \<and> length (si_name si) \<le> 127)"

definition holders :: "32 word \<Rightarrow> svcinfo list \<Rightarrow> nat" where
  "holders h sis = length (filter (\<lambda>si. si_handle si = h) sis)"

definition acquired :: "32 word \<Rightarrow> bc list \<Rightarrow> nat" where
  "acquired h ws = count_list ws (BC_ACQUIRE h)"

definition released :: "32 word \<Rightarrow> bc list \<Rightarrow> nat" where
  "released h ws = count_list ws (BC_RELEASE h)"

definition balanced :: "sm \<Rightarrow> bc list \<Rightarrow> bool" where
  "balanced st ws \<longleftrightarrow> (\<forall>h. h \<noteq> 0 \<longrightarrow> acquired h ws = released h ws + holders h (svclist st))"

text \<open>Every cookie that was given to the driver is the address of an entry.\<close>

definition cookies_known :: "sm \<Rightarrow> bc list \<Rightarrow> bool" where
  "cookies_known st ws \<longleftrightarrow> (\<forall>h n. BC_REQUEST_DEATH_NOTIFICATION h n \<in> set ws \<longrightarrow> n \<in> si_id ` set (svclist st))"

definition sm_inv :: "sm \<Rightarrow> bc list \<Rightarrow> bool" where
  "sm_inv st ws \<longleftrightarrow> wf_sm st \<and> balanced st ws \<and> cookies_known st ws"

lemma find_id:
  assumes "distinct (map si_id sis)" "si \<in> set sis"
  shows "List.find (\<lambda>x. si_id x = si_id si) sis = Some si"
  using assms by (induction sis) auto

lemma find_svc_Some: "find_svc s st = Some si \<Longrightarrow> si \<in> set (svclist st) \<and> si_name si = s"
  by (auto simp: find_svc_def find_Some_iff)

lemma find_svc_None: "find_svc s st = None \<longleftrightarrow> s \<notin> si_name ` set (svclist st)"
  by (auto simp: find_svc_def find_None_iff)

lemma svclist_set_handle:
  "svclist (set_handle i h st) = map (\<lambda>si. if si_id si = i then si\<lparr>si_handle := h\<rparr> else si) (svclist st)"
  "next_addr (set_handle i h st) = next_addr st"
  by (simp_all add: set_handle_def)

lemma map_set_handle [simp]:
  "map si_id (svclist (set_handle i h st)) = map si_id (svclist st)"
  "map si_name (svclist (set_handle i h st)) = map si_name (svclist st)"
  by (simp_all add: svclist_set_handle)

lemma ids_set_handle [simp]: "si_id ` set (svclist (set_handle i h st)) = si_id ` set (svclist st)"
  by (metis list.set_map map_set_handle(1))

lemma cookies_set_handle:
  assumes "cookies_known st ws" "\<forall>h n. BC_REQUEST_DEATH_NOTIFICATION h n \<in> set us \<longrightarrow> n \<in> si_id ` set (svclist st)"
  shows "cookies_known (set_handle i h st) (ws @ us)"
  using assms unfolding cookies_known_def ids_set_handle set_append by blast

lemma wf_set_handle: "wf_sm st \<Longrightarrow> wf_sm (set_handle i h st)"
  by (auto simp: wf_sm_def svclist_set_handle(2)) (auto simp: svclist_set_handle)

text \<open>Changing the handle of one service moves one reference.\<close>

lemma holders_set:
  assumes "distinct (map si_id sis)" "si \<in> set sis"
  shows "holders h (map (\<lambda>x. if si_id x = si_id si then x\<lparr>si_handle := h'\<rparr> else x) sis) + of_bool (si_handle si = h) =
     holders h sis + of_bool (h' = h)"
  using assms
proof (induction sis)
  case (Cons x sis)
  show ?case
  proof (cases "x = si")
    case True
    have "si_id y \<noteq> si_id si" if "y \<in> set sis" for y
    proof -
      from that have "si_id y \<in> si_id ` set sis" by (rule imageI)
      moreover have "si_id si \<notin> si_id ` set sis" using Cons.prems(1) True by simp
      ultimately show ?thesis by metis
    qed
    then have "map (\<lambda>x. if si_id x = si_id si then x\<lparr>si_handle := h'\<rparr> else x) sis = sis"
      by (intro map_idI) simp
    then show ?thesis using True by (auto simp: holders_def)
  next
    case False
    then have "si_id x \<noteq> si_id si" using Cons.prems by force
    then show ?thesis using Cons False by (auto simp: holders_def)
  qed
qed simp

lemma count_append [simp]:
  "acquired h (ws @ us) = acquired h ws + acquired h us" "released h (ws @ us) = released h ws + released h us"
  by (simp_all add: acquired_def released_def)

lemma count_simps [simp]:
  "acquired h [] = 0" "released h [] = 0"
  "acquired h (BC_ACQUIRE g # ws) = of_bool (g = h) + acquired h ws" "released h (BC_ACQUIRE g # ws) = released h ws"
  "acquired h (BC_RELEASE g # ws) = acquired h ws" "released h (BC_RELEASE g # ws) = of_bool (g = h) + released h ws"
  "acquired h (BC_REQUEST_DEATH_NOTIFICATION g n # ws) = acquired h ws"
  "released h (BC_REQUEST_DEATH_NOTIFICATION g n # ws) = released h ws"
  by (simp_all add: acquired_def released_def)

lemma count_answer [simp]: "is_answer c \<Longrightarrow> acquired h [c] = 0 \<and> released h [c] = 0"
  by (cases c) (simp_all add: acquired_def released_def)

lemma svcinfo_death_inv:
  assumes "sm_inv st ws" "si \<in> set (svclist st)" "svcinfo_death si st = (st', us)"
  shows "sm_inv st' (ws @ us)"
proof -
  have "balanced (set_handle (si_id si) 0 st) (ws @ [BC_RELEASE (si_handle si)])" if "si_handle si \<noteq> 0"
    unfolding balanced_def
  proof (intro allI impI)
    fix h :: "32 word" assume "h \<noteq> 0"
    with holders_set [of "svclist st" si h 0] assms(1,2)
    show "acquired h (ws @ [BC_RELEASE (si_handle si)]) =
        released h (ws @ [BC_RELEASE (si_handle si)]) + holders h (svclist (set_handle (si_id si) 0 st))"
      by (simp add: sm_inv_def wf_sm_def balanced_def svclist_set_handle)
  qed
  then show ?thesis using assms wf_set_handle
    by (auto simp: svcinfo_death_def sm_inv_def cookies_set_handle split: if_splits)
qed

lemma death_notified_inv: "sm_inv st ws \<Longrightarrow> death_notified i st = Some (st', us) \<Longrightarrow> sm_inv st' (ws @ us)"
  by (auto simp: death_notified_def find_Some_iff intro: svcinfo_death_inv [OF _ nth_mem])


lemma add_existing_inv:
  assumes inv: "sm_inv st ws" and si: "si \<in> set (svclist st)" "si_handle si = 0" and h: "handle \<noteq> 0"
  shows "sm_inv (set_handle (si_id si) handle st) (ws @ [BC_ACQUIRE handle, BC_REQUEST_DEATH_NOTIFICATION handle (si_id si)])"
proof -
  have "balanced (set_handle (si_id si) handle st) (ws @ [BC_ACQUIRE handle, BC_REQUEST_DEATH_NOTIFICATION handle (si_id si)])"
    unfolding balanced_def
  proof (intro allI impI)
    fix h :: "32 word" assume "h \<noteq> 0"
    with holders_set [of "svclist st" si h handle] si inv
    show "acquired h (ws @ [BC_ACQUIRE handle, BC_REQUEST_DEATH_NOTIFICATION handle (si_id si)]) =
        released h (ws @ [BC_ACQUIRE handle, BC_REQUEST_DEATH_NOTIFICATION handle (si_id si)]) +
        holders h (svclist (set_handle (si_id si) handle st))"
      by (auto simp: sm_inv_def wf_sm_def balanced_def svclist_set_handle)
  qed
  with inv si(1) show ?thesis by (simp add: sm_inv_def wf_set_handle cookies_set_handle)
qed

lemma set_handle_twice: "set_handle i h (set_handle i g st) = set_handle i h st"
  by (auto simp: set_handle_def)

lemma do_add_service_inv:
  assumes inv: "sm_inv st ws"
    and add: "do_add_service env s handle uid allow prio spid sid st = (res, st', us)"
  shows "sm_inv st' (ws @ us)"
proof -
  consider "us = []" "st' = st"
    | si where "handle \<noteq> 0" "find_svc s st = Some si" "si_handle si = 0" "st' = set_handle (si_id si) handle st"
        "us = [BC_ACQUIRE handle, BC_REQUEST_DEATH_NOTIFICATION handle (si_id si)]"
    | si where "handle \<noteq> 0" "find_svc s st = Some si" "si_handle si \<noteq> 0"
        "st' = set_handle (si_id si) handle (set_handle (si_id si) 0 st)"
        "us = [BC_RELEASE (si_handle si)] @ [BC_ACQUIRE handle, BC_REQUEST_DEATH_NOTIFICATION handle (si_id si)]"
    | "handle \<noteq> 0" "find_svc s st = None" "0 < length s" "length s \<le> 127"
        "st' = st\<lparr>svclist := \<lparr>si_id = next_addr st, si_handle = handle, si_allow_isolated = allow,
           si_dumpsys_priority = prio, si_name = s\<rparr> # svclist st, next_addr := next_addr st + 1\<rparr>"
        "us = [BC_ACQUIRE handle, BC_REQUEST_DEATH_NOTIFICATION handle (next_addr st)]"
    using add
    by (fastforce simp: do_add_service_def svcinfo_death_def Let_def split: if_splits option.splits)
  then show ?thesis
  proof cases
    case 2
    then show ?thesis using add_existing_inv [OF inv, of si handle] find_svc_Some [of s st si] by simp
  next
    case 3
    let ?si = "si\<lparr>si_handle := 0\<rparr>"
    from 3 have si: "si \<in> set (svclist st)" using find_svc_Some by blast
    have "sm_inv (set_handle (si_id si) 0 st) (ws @ [BC_RELEASE (si_handle si)])"
      using svcinfo_death_inv [OF inv si] 3 by (simp add: svcinfo_death_def)
    moreover have "?si \<in> set (svclist (set_handle (si_id si) 0 st))" using si by (force simp: svclist_set_handle)
    ultimately show ?thesis using add_existing_inv [of _ _ ?si handle] 3 by fastforce
  next
    case 4
    then show ?thesis using inv
      by (auto simp: sm_inv_def wf_sm_def balanced_def holders_def find_svc_None cookies_known_def)
  qed (use inv in simp)
qed

lemma svcmgr_handler_inv:
  assumes "sm_inv st ws" "svcmgr_handler env t msg reply st = (res, reply', st', us)"
  shows "sm_inv st' (ws @ us)"
  using assms
  by (auto simp: svcmgr_handler_def svcmgr_get_def svcmgr_add_def svcmgr_list_def Let_def
      split: if_splits option.splits prod.splits intro: do_add_service_inv)

lemma add_answers: "do_add_service env s handle uid allow prio spid sid st = (res, st', us) \<Longrightarrow> answers us = []"
  by (auto simp: do_add_service_def svcinfo_death_def Let_def split: if_splits option.splits prod.splits)

interpretation svcmgr: quiet_service "svcmgr_handler env" death_notified sm_inv
proof
  show "sm_inv st' (ws @ us)" if "sm_inv st ws" "svcmgr_handler env t msg reply st = (res, reply', st', us)"
    for st ws t msg reply res reply' st' us
    using svcmgr_handler_inv that .
  show "sm_inv st' (ws @ us)" if "sm_inv st ws" "death_notified n st = Some (st', us)" for st ws n st' us
    using death_notified_inv that .
  show "sm_inv st (ws @ [c])" if "sm_inv st ws" "is_answer c" for st ws c
    using that by (cases c) (auto simp: sm_inv_def balanced_def cookies_known_def)
  show "answers us = []" if "svcmgr_handler env t msg reply st = (res, reply', st', us)"
    for t msg reply st res reply' st' us
    using that by (auto simp: svcmgr_handler_def svcmgr_get_def svcmgr_add_def svcmgr_list_def Let_def
        split: if_splits option.splits prod.splits dest: add_answers)
  show "answers us = []" if "death_notified n st = Some (st', us)" for n st st' us
    using that by (auto simp: death_notified_def svcinfo_death_def split: if_splits)
qed

end
