(* ===== verification/ServiceManagerCorrect.thy ===== *)
theory ServiceManagerCorrect
  imports ServiceManager
begin

unbundle bit_operations_syntax

text \<open>
  The service manager as a registry: its list behaves like a map from names to live handles, every
  transaction is answered, references are balanced, and a name that was registered over the wire is
  found over the wire.
\<close>

section \<open>References\<close>

text \<open>
  C5: Whatever the driver delivers (complete, truncated or senseless records, any transactions, over
  the memory that their pointers lead to) and wherever the loop stops, the names and addresses in the
  list are unique, and for every handle the references taken in the driver are the references given
  back plus the services that hold the handle: nothing is leaked or released twice.  Every cookie that
  was given to the driver is the address of an entry.  A run reaches up
  to the first point where the behaviour is undefined: a read behind the read buffer, or a death
  notification whose cookie is not the address of an entry; what was done before it counts.
\<close>

theorem references_balanced: "case svcmgr_main env reads of (e, st, ws) \<Rightarrow> sm_inv st ws"
proof -
  obtain e st ws where run: "loop_reads (sm_binder env) (svcmgr_handler env) death_notified
      (be_readbuf (sm_binder env)) reads sm_start = (e, st, ws)"
    by (metis prod_cases3)
  have "sm_inv sm_start [BC_ENTER_LOOPER]"
    by (simp add: sm_inv_def wf_sm_def balanced_def cookies_known_def sm_start_def holders_def acquired_def released_def)
  from svcmgr.loop_reads_inv [OF this run] show ?thesis
    by (simp add: svcmgr_main_def binder_loop_def run)
qed

text \<open>
  C17: Given complete records, whatever lies behind them in the buffer, the loop reads all of them
  and nothing else, up to the first death notification whose cookie is not the address of an entry
  (where the behaviour is undefined); for every transaction it read, in order, its buffer is given
  back once, and it is replied to once unless it is one way.
\<close>

theorem transactions_answered:
  assumes "distinct (codes (sm_binder env))" "list_all br_ok bs"
  shows "\<exists>served left r st' ws. bs = served @ left \<and>
    binder_parse (sm_binder env) (Some (svcmgr_handler env)) death_notified False 1 rest
      (concat (map (encode (sm_binder env)) bs)) st = (if left = [] then Some (r, None) else None, st', ws) \<and>
    answers ws = concat (map (due (sm_binder env)) (txns_of served)) \<and>
    (\<forall>b \<in> set (take 1 left). \<exists>n. b = DeadBinder n \<and> n \<notin> si_id ` set (svclist st'))"
proof -
  obtain left st' ws where run: "run_brs (sm_binder env) (Some (svcmgr_handler env)) death_notified bs st = (left, st', ws)"
    by (metis prod_cases3)
  obtain served where s: "bs = served @ left" "answers ws = concat (map (due (sm_binder env)) (txns_of served))"
    "\<forall>b \<in> set (take 1 left). \<exists>n. b = DeadBinder n \<and> death_notified n st' = None"
    using svcmgr.run_brs_answers [OF run] by blast
  have "\<forall>b \<in> set (take 1 left). \<exists>n. b = DeadBinder n \<and> n \<notin> si_id ` set (svclist st')"
    using s(3) by (fastforce simp: death_notified_def find_None_iff)
  with s(1,2) run parse_records [OF assms, of "Some (svcmgr_handler env)" death_notified False 1 rest st] show ?thesis
    by (intro exI [of _ served] exI [of _ left]) simp
qed

definition demo_binder :: binder_env where
  "demo_binder = \<lparr>be_abi = demo_abi, BR_NOOP = 1, BR_TRANSACTION_COMPLETE = 2, BR_INCREFS = 3, BR_ACQUIRE = 4,
     BR_RELEASE = 5, BR_DECREFS = 6, BR_TRANSACTION_SEC_CTX = 7, BR_TRANSACTION = 8, BR_REPLY = 9,
     BR_DEAD_BINDER = 10, BR_FAILED_REPLY = 11, BR_DEAD_REPLY = 12,
     be_mem = (\<lambda>p n. replicate n CHR 0x00), be_rdata = (\<lambda>s. replicate 256 CHR 0x00),
     be_readbuf = replicate 128 CHR 0x00\<rparr>"

definition demo_sm :: sm_env where
  "demo_sm = \<lparr>sm_binder = demo_binder, AID_USER = 100000, AID_ISOLATED_START = 99000, AID_ISOLATED_END = 99999,
     sm_malloc = (\<lambda>n. True)\<rparr>"

lemma demo_codes: "distinct (codes (sm_binder demo_sm))"
  by (simp add: codes_def demo_sm_def demo_binder_def)

theorem transactions_answered_witness:
  "\<exists>r st' ws. binder_parse (sm_binder demo_sm) (Some (svcmgr_handler demo_sm)) death_notified False 1 []
      (concat (map (encode (sm_binder demo_sm)) [Noop, Transaction (replicate 64 CHR 0x00)])) sm_start =
      (Some (r, None), st', ws) \<and>
    answers ws = [Some 0, None]"
proof -
  let ?bs = "[Noop, Transaction (replicate 64 CHR 0x00)]"
  have "field 48 8 (replicate 64 CHR 0x00) = 0" "get32 (bytes_at 20 4 (replicate 64 CHR 0x00)) = 0"
    by code_simp+
  then have due: "concat (map (due (sm_binder demo_sm)) (txns_of ?bs)) = [Some 0, None]"
    by (simp add: txns_of_def due_def one_way_def txn_of_def)
  have ok: "list_all br_ok ?bs" by (simp add: sizeof_txn_def)
  obtain served left r st' ws where w: "?bs = served @ left"
    "binder_parse (sm_binder demo_sm) (Some (svcmgr_handler demo_sm)) death_notified False 1 []
      (concat (map (encode (sm_binder demo_sm)) ?bs)) sm_start = (if left = [] then Some (r, None) else None, st', ws)"
    "answers ws = concat (map (due (sm_binder demo_sm)) (txns_of served))"
    "\<forall>b \<in> set (take 1 left). \<exists>n. b = DeadBinder n \<and> n \<notin> si_id ` set (svclist st')"
    using transactions_answered [OF demo_codes ok, of "[]" sm_start] by (elim exE conjE) (rule that)
  have "left = []"
  proof (cases left)
    case (Cons b bs)
    with w(4) obtain n where "b = DeadBinder n" by auto
    moreover have "b \<in> set ?bs" using w(1) Cons by simp
    ultimately show ?thesis by simp
  qed simp
  with w due show ?thesis by auto
qed

section \<open>A registry\<close>

datatype ('n, 'h, 'a) reg_op = Register 'n 'h 'a | Withdraw 'n

fun reg_run :: "('n \<Rightarrow> 'h \<Rightarrow> 'a \<Rightarrow> 's \<Rightarrow> 's) \<Rightarrow> ('n \<Rightarrow> 's \<Rightarrow> 's) \<Rightarrow> ('n, 'h, 'a) reg_op list \<Rightarrow> 's \<Rightarrow> 's" where
  "reg_run add rm [] s = s"
| "reg_run add rm (Register n h a # ops) s = reg_run add rm ops (add n h a s)"
| "reg_run add rm (Withdraw n # ops) s = reg_run add rm ops (rm n s)"

text \<open>The same operations on a map; a registration that is not valid changes nothing.\<close>

fun reg_spec :: "('n \<Rightarrow> 'h \<Rightarrow> bool) \<Rightarrow> ('n, 'h, 'a) reg_op list \<Rightarrow> ('n \<rightharpoonup> 'h) \<Rightarrow> ('n \<rightharpoonup> 'h)" where
  "reg_spec valid [] m = m"
| "reg_spec valid (Register n h a # ops) m = reg_spec valid ops (if valid n h then m(n \<mapsto> h) else m)"
| "reg_spec valid (Withdraw n # ops) m = reg_spec valid ops (m(n := None))"

locale name_registry =
  fixes inv :: "'s \<Rightarrow> bool" and live :: "'s \<Rightarrow> 'n \<Rightarrow> 'h option"
    and add :: "'n \<Rightarrow> 'h \<Rightarrow> 'a \<Rightarrow> 's \<Rightarrow> 's" and rm :: "'n \<Rightarrow> 's \<Rightarrow> 's"
    and valid :: "'n \<Rightarrow> 'h \<Rightarrow> bool"
  assumes inv_add: "inv s \<Longrightarrow> inv (add n h a s)"
    and inv_rm: "inv s \<Longrightarrow> inv (rm n s)"
    and live_add: "inv s \<Longrightarrow> live (add n h a s) = (if valid n h then (live s)(n \<mapsto> h) else live s)"
    and live_rm: "inv s \<Longrightarrow> live (rm n s) = (live s)(n := None)"
begin

lemma refines: "inv s \<Longrightarrow> live (reg_run add rm ops s) = reg_spec valid ops (live s)"
proof (induction ops arbitrary: s)
  case (Cons op ops)
  then show ?case by (cases op) (simp_all add: inv_add inv_rm live_add live_rm fun_upd_def)
qed simp

text \<open>The last valid registration of a name counts, until the name is withdrawn.\<close>

lemma last_registration:
  assumes "inv s" "valid n h" "\<forall>op \<in> set ops. case op of Register m g b \<Rightarrow> m \<noteq> n | Withdraw m \<Rightarrow> m \<noteq> n"
  shows "live (reg_run add rm ops (add n h a s)) n = Some h"
proof -
  have "reg_spec valid ops m n = m n" for m
    using assms(3) by (induction valid ops m rule: reg_spec.induct) auto
  then show ?thesis using assms(1,2) by (simp add: refines inv_add live_add)
qed

end

definition live_handle :: "sm \<Rightarrow> 16 word list \<Rightarrow> 32 word option" where
  "live_handle st n =
     (case find_svc n st of None \<Rightarrow> None | Some si \<Rightarrow> if si_handle si = 0 then None else Some (si_handle si))"

definition valid_service :: "16 word list \<Rightarrow> 32 word \<Rightarrow> bool" where
  "valid_service n h \<longleftrightarrow> h \<noteq> 0 \<and> 0 < length n \<and> length n \<le> 127"

text \<open>Who registers: UID, isolated access, priority, PID, security context.\<close>

type_synonym registrant = "32 word \<times> bool \<times> 32 word \<times> 32 word \<times> nat"

definition sm_register :: "sm_env \<Rightarrow> 16 word list \<Rightarrow> 32 word \<Rightarrow> registrant \<Rightarrow> sm \<Rightarrow> sm" where
  "sm_register env n h a st =
     (case a of (uid, allow, prio, spid, sid) \<Rightarrow> fst (snd (do_add_service env n h uid allow prio spid sid st)))"

text \<open>The death of the service that has the name.\<close>

definition sm_died :: "16 word list \<Rightarrow> sm \<Rightarrow> sm" where
  "sm_died n st = (case find_svc n st of None \<Rightarrow> st | Some si \<Rightarrow> fst (svcinfo_death si st))"

lemma find_name:
  assumes "distinct (map si_name (svclist st))" "si \<in> set (svclist st)"
  shows "find_svc (si_name si) st = Some si"
proof -
  have "List.find (\<lambda>x. length (si_name si) = length (si_name x) \<and> si_name si = si_name x) sis = Some si"
    if "distinct (map si_name sis)" "si \<in> set sis" for sis
    using that
  proof (induction sis)
    case (Cons x sis)
    show ?case
    proof (cases "x = si")
      case False
      with Cons.prems have "si_name si \<in> si_name ` set sis" by simp
      with Cons.prems have "si_name si \<noteq> si_name x" by (metis distinct.simps(2) list.simps(9) list.set_map)
      with Cons False show ?thesis by simp
    qed simp
  qed simp
  then show ?thesis using assms by (simp add: find_svc_def)
qed

lemma find_svc_set_handle:
  assumes "wf_sm st" "si \<in> set (svclist st)"
  shows "find_svc n (set_handle (si_id si) h st) =
     (if n = si_name si then Some (si\<lparr>si_handle := h\<rparr>) else find_svc n st)"
proof -
  have "List.find (\<lambda>x. length n = length (si_name x) \<and> n = si_name x)
      (map (\<lambda>x. if si_id x = si_id si then x\<lparr>si_handle := h\<rparr> else x) sis) =
    (if n = si_name si then Some (si\<lparr>si_handle := h\<rparr>)
     else List.find (\<lambda>x. length n = length (si_name x) \<and> n = si_name x) sis)"
    if "distinct (map si_id sis)" "distinct (map si_name sis)" "si \<in> set sis" for sis
    using that
  proof (induction sis)
    case (Cons x sis)
    show ?case
    proof (cases "x = si")
      case True
      have "map (\<lambda>y. if si_id y = si_id x then y\<lparr>si_handle := h\<rparr> else y) sis = sis"
      proof (rule map_idI)
        fix y assume "y \<in> set sis"
        then have "si_id y \<in> si_id ` set sis" by (rule imageI)
        with Cons.prems(1) show "(if si_id y = si_id x then y\<lparr>si_handle := h\<rparr> else y) = y" by (metis distinct.simps(2) list.simps(9) list.set_map)
      qed
      with True show ?thesis by auto
    next
      case False
      with Cons.prems have "si \<in> set sis" by simp
      then have "si_id si \<in> si_id ` set sis" "si_name si \<in> si_name ` set sis" by simp_all
      with Cons.prems have "si_id x \<noteq> si_id si" "si_name x \<noteq> si_name si" by (metis distinct.simps(2) list.simps(9) list.set_map)+
      with Cons \<open>si \<in> set sis\<close> show ?thesis by auto
    qed
  qed simp
  then show ?thesis using assms by (simp add: find_svc_def svclist_set_handle wf_sm_def)
qed

lemma live_set_handle:
  assumes "wf_sm st" "find_svc n st = Some si"
  shows "live_handle (set_handle (si_id si) h st) = (live_handle st)(n := if h = 0 then None else Some h)"
proof
  fix m
  from assms(2) have si: "si \<in> set (svclist st)" "si_name si = n" using find_svc_Some by blast+
  show "live_handle (set_handle (si_id si) h st) m = ((live_handle st)(n := if h = 0 then None else Some h)) m"
    using find_svc_set_handle [OF assms(1) si(1)] si(2) by (simp add: live_handle_def)
qed

lemma live_died:
  assumes "wf_sm st"
  shows "live_handle (sm_died n st) = (live_handle st)(n := None)"
proof (cases "find_svc n st")
  case None
  then have "live_handle st n = None" by (simp add: live_handle_def)
  with None show ?thesis by (simp add: sm_died_def fun_upd_idem)
next
  case (Some si)
  then have "si \<in> set (svclist st)" using find_svc_Some by blast
  from live_set_handle [OF assms Some, of 0] Some
  show ?thesis by (auto simp: sm_died_def svcinfo_death_def live_handle_def fun_eq_iff)
qed


text \<open>A registration, with memory for it.\<close>

lemma do_add_service_cases:
  "do_add_service env n h uid allow prio spid sid st =
     (if \<not> valid_service n h then (-1, st, [])
      else case find_svc n st of
        Some si \<Rightarrow>
          (0, set_handle (si_id si) h st,
           (if si_handle si \<noteq> 0 then [BC_RELEASE (si_handle si)] else []) @
           [BC_ACQUIRE h, BC_REQUEST_DEATH_NOTIFICATION h (si_id si)])
      | None \<Rightarrow>
          if \<not> sm_malloc env (next_addr st) then (-1, st, [])
          else (0, st\<lparr>svclist := \<lparr>si_id = next_addr st, si_handle = h, si_allow_isolated = allow,
                       si_dumpsys_priority = prio, si_name = n\<rparr> # svclist st, next_addr := next_addr st + 1\<rparr>,
                [BC_ACQUIRE h, BC_REQUEST_DEATH_NOTIFICATION h (next_addr st)]))"
  by (auto simp: do_add_service_def svcinfo_death_def valid_service_def svc_can_register_def check_mac_perms_from_lookup_def
      check_mac_perms_def Let_def set_handle_twice split: option.split)

lemma find_svc_Cons: "find_svc n (st\<lparr>svclist := si # svclist st, next_addr := i\<rparr>) =
    (if n = si_name si then Some si else find_svc n st)"
  by (simp add: find_svc_def)

lemma live_register:
  assumes "wf_sm st" "\<forall>i. sm_malloc env i"
  shows "live_handle (sm_register env n h a st) =
     (if valid_service n h then (live_handle st)(n \<mapsto> h) else live_handle st)"
proof (cases "find_svc n st")
  case None
  then show ?thesis using assms
    by (auto simp: sm_register_def do_add_service_cases valid_service_def live_handle_def find_svc_Cons fun_eq_iff
        split: prod.split)
next
  case (Some si)
  then show ?thesis using assms live_set_handle [OF assms(1) Some, of h]
    by (auto simp: sm_register_def do_add_service_cases valid_service_def split: prod.split)
qed

lemma wf_register: "wf_sm st \<Longrightarrow> wf_sm (sm_register env n h a st)"
  by (auto simp: sm_register_def do_add_service_cases wf_set_handle split: prod.split option.split)
    (auto simp: wf_sm_def find_svc_None valid_service_def)

lemma wf_died: "wf_sm st \<Longrightarrow> wf_sm (sm_died n st)"
  by (auto simp: sm_died_def svcinfo_death_def wf_set_handle split: option.split)

interpretation services: name_registry wf_sm live_handle "sm_register (env\<lparr>sm_malloc := \<lambda>i. True\<rparr>)" sm_died valid_service
  by unfold_locales (simp_all add: wf_register wf_died live_register live_died)

text \<open>
  C4: The list of services implements a map.  After any sequence of registrations (by anyone, valid
  or not) and deaths, with memory for the entries, the live handles are those of a map in which a
  valid registration replaces what the name had and a death removes it.
\<close>

theorem services_refine_map:
  "live_handle (reg_run (sm_register (env\<lparr>sm_malloc := \<lambda>i. True\<rparr>)) sm_died ops sm_start) =
     reg_spec valid_service ops (\<lambda>n. None)"
proof -
  have "live_handle sm_start = (\<lambda>n. None)" "wf_sm sm_start"
    by (simp_all add: live_handle_def find_svc_def sm_start_def wf_sm_def fun_eq_iff)
  then show ?thesis using services.refines [of sm_start env ops] by simp
qed

section \<open>Listing\<close>

lemma nth_service_filter:
  "nth_service prio n sis =
     (let l = filter (\<lambda>si. si_dumpsys_priority si AND prio \<noteq> 0) sis in if n < length l then Some (l ! n) else None)"
proof (induction prio n sis rule: nth_service.induct)
  case (2 prio n si sis)
  then show ?case by (cases n) (simp_all add: Let_def)
qed simp


section \<open>Over the wire\<close>

text \<open>Every request starts with the strict mode policy, the work source and the interface name.\<close>

definition request :: "sm_env \<Rightarrow> item list \<Rightarrow> binder_io \<Rightarrow> bool" where
  "request env is msg \<longleftrightarrow> (\<exists>strict worksource.
     holds (be_abi (sm_binder env)) (U32 strict # U32 worksource # Str16 svcmgr_id # is) msg)"

lemma codes_distinct [simp]:
  "SVC_MGR_GET_SERVICE \<noteq> PING_TRANSACTION" "SVC_MGR_CHECK_SERVICE \<noteq> PING_TRANSACTION"
  "SVC_MGR_ADD_SERVICE \<noteq> PING_TRANSACTION" "SVC_MGR_LIST_SERVICES \<noteq> PING_TRANSACTION"
  "SVC_MGR_ADD_SERVICE \<noteq> SVC_MGR_GET_SERVICE" "SVC_MGR_ADD_SERVICE \<noteq> SVC_MGR_CHECK_SERVICE"
  "SVC_MGR_LIST_SERVICES \<noteq> SVC_MGR_GET_SERVICE" "SVC_MGR_LIST_SERVICES \<noteq> SVC_MGR_CHECK_SERVICE"
  "SVC_MGR_LIST_SERVICES \<noteq> SVC_MGR_ADD_SERVICE"
  by (simp_all add: PING_TRANSACTION_def SVC_MGR_GET_SERVICE_def SVC_MGR_CHECK_SERVICE_def
      SVC_MGR_ADD_SERVICE_def SVC_MGR_LIST_SERVICES_def)

lemma handler_request:
  assumes "request env is msg" "t_target t = BINDER_SERVICE_MANAGER" "t_code t \<noteq> PING_TRANSACTION"
  obtains m where "holds (be_abi (sm_binder env)) is m"
    "svcmgr_handler env t msg reply st =
       (if t_code t = SVC_MGR_GET_SERVICE \<or> t_code t = SVC_MGR_CHECK_SERVICE then svcmgr_get env t m reply st
        else if t_code t = SVC_MGR_ADD_SERVICE then svcmgr_add env t m reply st
        else if t_code t = SVC_MGR_LIST_SERVICES then svcmgr_list env t m reply st
        else (-1, reply, st, []))"
proof -
  from assms(1) obtain a b where h: "holds (be_abi (sm_binder env)) (U32 a # U32 b # Str16 svcmgr_id # is) msg"
    by (auto simp: request_def)
  obtain m1 where m1: "bio_get_uint32 msg = (a, m1)" "holds (be_abi (sm_binder env)) (U32 b # Str16 svcmgr_id # is) m1"
    using holds_u32 [OF h] .
  obtain m2 where m2: "bio_get_uint32 m1 = (b, m2)" "holds (be_abi (sm_binder env)) (Str16 svcmgr_id # is) m2"
    using holds_u32 [OF m1(2)] .
  obtain m3 where m3: "bio_get_string16 m2 = (Some svcmgr_id, m3)" "holds (be_abi (sm_binder env)) is m3"
    using holds_str16 [OF m2(2)] .
  show ?thesis by (rule that [OF m3(2)]) (use assms m1 m2 m3 in \<open>simp add: svcmgr_handler_def\<close>)
qed

text \<open>
  Listing by number enumerates exactly the services whose priority mask meets the mask asked
  for, the newest first: number \<open>k\<close> is answered with the name of the \<open>k\<close>th of them, and every
  number beyond with the error -1.  Nothing changes.
\<close>

theorem list_services:
  assumes "request env [U32 k, U32 prio] msg" "t_target t = BINDER_SERVICE_MANAGER"
    "t_code t = SVC_MGR_LIST_SERVICES"
  shows "svcmgr_handler env t msg reply st =
    (let l = filter (\<lambda>si. si_dumpsys_priority si AND prio \<noteq> 0) (svclist st)
     in if unat k < length l then (0, bio_put_string16 (Some (si_name (l ! unat k))) reply, st, [])
        else (-1, reply, st, []))"
proof -
  have "t_code t \<noteq> PING_TRANSACTION" using assms(3) by simp
  with assms(1,2) obtain m where m: "holds (be_abi (sm_binder env)) [U32 k, U32 prio] m"
    "svcmgr_handler env t msg reply st = svcmgr_list env t m reply st"
    by (rule handler_request [where reply = reply and st = st]) (use assms(3) in simp)
  obtain m1 where m1: "bio_get_uint32 m = (k, m1)" "holds (be_abi (sm_binder env)) [U32 prio] m1"
    using holds_u32 [OF m(1)] .
  obtain m2 where m2: "bio_get_uint32 m1 = (prio, m2)" using holds_u32 [OF m1(2)] .
  show ?thesis using m(2) m1(1) m2
    by (simp add: svcmgr_list_def nth_service_filter Let_def svc_can_list_def check_mac_perms_from_getcon_def
        check_mac_perms_def)
qed

lemma reply_handle:
  assumes "length rdata = 256" "h \<noteq> 0"
  shows "let reply = bio_put_ref abi h (bio_init rdata 4)
         in no_overflow reply \<and> fst (bio_get_ref abi (bio_init_from_txn (sent_data reply) (sent_offs reply))) = h"
proof -
  have "no_overflow (put_items abi [Handle h] (bio_init rdata 4))"
    using assms by (subst put_items_room) (simp_all add: bio_init_def no_overflow_def)
  then have ok: "no_overflow (bio_put_ref abi h (bio_init rdata 4))" by simp
  have "holds abi [Handle h] (bio_init_from_txn (sent_data (bio_put_ref abi h (bio_init rdata 4)))
          (sent_offs (bio_put_ref abi h (bio_init rdata 4))))"
    using holds_written [of "[Handle h]" abi rdata 4] assms ok by simp
  then obtain m where "bio_get_ref abi (bio_init_from_txn (sent_data (bio_put_ref abi h (bio_init rdata 4)))
          (sent_offs (bio_put_ref abi h (bio_init rdata 4)))) = (h, m)" by (rule holds_ref)
  with ok show ?thesis by (simp add: Let_def)
qed

text \<open>
  C37: A service that was registered over the wire is found over the wire: after an accepted
  add request, a get or check request for the same name by a process that is not isolated
  is answered with a reference from which the client reads the registered handle.
\<close>

theorem register_then_find:
  assumes wf: "wf_sm st" and valid: "valid_service n h"
    and mem: "find_svc n st \<noteq> None \<or> sm_malloc env (next_addr st)"
    and add: "request env [Str16 n, Handle h, U32 allow, U32 prio] m1" "t_target t1 = BINDER_SERVICE_MANAGER"
      "t_code t1 = SVC_MGR_ADD_SERVICE"
    and get: "request env [Str16 n] m2" "t_target t2 = BINDER_SERVICE_MANAGER"
      "t_code t2 = SVC_MGR_GET_SERVICE \<or> t_code t2 = SVC_MGR_CHECK_SERVICE"
    and caller: "\<not> is_isolated env (t_sender_euid t2)" and rdata: "length rdata = 256"
  shows "\<exists>reply1 st1 ws reply2.
    svcmgr_handler env t1 m1 reply st = (0, reply1, st1, ws) \<and>
    svcmgr_handler env t2 m2 (bio_init rdata 4) st1 = (0, reply2, st1, []) \<and>
    fst (bio_get_ref (be_abi (sm_binder env)) (bio_init_from_txn (sent_data reply2) (sent_offs reply2))) = h"
proof -
  let ?abi = "be_abi (sm_binder env)"
  have "t_code t1 \<noteq> PING_TRANSACTION" "t_code t2 \<noteq> PING_TRANSACTION" using add(3) get(3) by auto
  obtain m where m: "holds ?abi [Str16 n, Handle h, U32 allow, U32 prio] m"
    "svcmgr_handler env t1 m1 reply st = svcmgr_add env t1 m reply st"
    by (rule handler_request [OF add(1,2) \<open>t_code t1 \<noteq> PING_TRANSACTION\<close>, where reply = reply and st = st])
      (use add(3) in simp)
  obtain a1 where a1: "bio_get_string16 m = (Some n, a1)" "holds ?abi [Handle h, U32 allow, U32 prio] a1"
    using holds_str16 [OF m(1)] .
  obtain a2 where a2: "bio_get_ref ?abi a1 = (h, a2)" "holds ?abi [U32 allow, U32 prio] a2" using holds_ref [OF a1(2)] .
  obtain a3 where a3: "bio_get_uint32 a2 = (allow, a3)" "holds ?abi [U32 prio] a3" using holds_u32 [OF a2(2)] .
  obtain a4 where a4: "bio_get_uint32 a3 = (prio, a4)" using holds_u32 [OF a3(2)] .
  obtain st1 ws where new: "do_add_service env n h (t_sender_euid t1) (allow \<noteq> 0) prio (t_sender_pid t1)
      (t_secctx t1) st = (0, st1, ws)" and live: "live_handle st1 n = Some h"
  proof (cases "find_svc n st")
    case None
    then show ?thesis using that valid mem
      by (auto simp: do_add_service_cases live_handle_def find_svc_Cons valid_service_def)
  next
    case (Some si)
    then show ?thesis using that valid live_set_handle [OF wf Some, of h]
      by (auto simp: do_add_service_cases valid_service_def)
  qed
  obtain g where g: "holds ?abi [Str16 n] g" "svcmgr_handler env t2 m2 (bio_init rdata 4) st1 =
      svcmgr_get env t2 g (bio_init rdata 4) st1"
    by (rule handler_request [OF get(1,2) \<open>t_code t2 \<noteq> PING_TRANSACTION\<close>, where reply = "bio_init rdata 4" and st = st1])
      (use get(3) in auto)
  obtain g1 where "bio_get_string16 g = (Some n, g1)" using holds_str16 [OF g(1)] .
  moreover have "do_find_service env n (t_sender_euid t2) (t_sender_pid t2) (t_secctx t2) st1 = h"
    using live caller by (auto simp: do_find_service_def live_handle_def svc_can_find_def
        check_mac_perms_from_lookup_def check_mac_perms_def split: option.splits if_splits)
  ultimately show ?thesis
    using m a1 a2 a3 a4 new g valid reply_handle [OF rdata, of h ?abi]
    by (simp add: svcmgr_add_def svcmgr_get_def valid_service_def Let_def)
qed


section \<open>Witnesses\<close>

definition demo_msg :: "item list \<Rightarrow> binder_io" where
  "demo_msg is =
     (let bio = put_items demo_abi (U32 0 # U32 0 # Str16 svcmgr_id # is) (bio_init (replicate 512 CHR ''x'') 4)
      in bio_init_from_txn (sent_data bio) (sent_offs bio))"

definition demo_txn :: "32 word \<Rightarrow> txn" where
  "demo_txn code = \<lparr>t_target = 0, t_code = code, t_flags = 0, t_sender_pid = 1, t_sender_euid = 10001,
     t_data_size = 0, t_offsets_size = 0, t_buffer = 0, t_offsets = 0, t_secctx = 0\<rparr>"

lemma demo_request:
  assumes "list_all item_ok is" "sum_list (map item_size is) \<le> 400" "sum_list (map item_objs is) \<le> 4"
  shows "request demo_sm is (demo_msg is)"
proof -
  let ?is = "U32 0 # U32 0 # Str16 svcmgr_id # is"
  have ok: "list_all item_ok ?is" using assms(1) by (simp add: svcmgr_id_def MAX_BIO_SIZE_def)
  have "no_overflow (put_items demo_abi ?is (bio_init (replicate 512 CHR ''x'') 4))"
    using ok assms(2,3)
    by (subst put_items_room) (simp_all add: bio_init_def no_overflow_def svcmgr_id_def align4_def)
  from holds_written [OF ok this] show ?thesis
    unfolding request_def demo_sm_def demo_binder_def demo_msg_def by (auto simp: Let_def)
qed

lemma demo_codes_match [simp]: "t_target (demo_txn code) = BINDER_SERVICE_MANAGER" "t_code (demo_txn code) = code"
  by (simp_all add: demo_txn_def BINDER_SERVICE_MANAGER_def)

theorem list_services_witness:
  "svcmgr_handler demo_sm (demo_txn SVC_MGR_LIST_SERVICES) (demo_msg [U32 1, U32 4]) (bio_init [] 0)
     \<lparr>svclist = [\<lparr>si_id = 2, si_handle = 5, si_allow_isolated = False, si_dumpsys_priority = 4, si_name = [99]\<rparr>,
                 \<lparr>si_id = 1, si_handle = 6, si_allow_isolated = False, si_dumpsys_priority = 8, si_name = [98]\<rparr>,
                 \<lparr>si_id = 0, si_handle = 7, si_allow_isolated = False, si_dumpsys_priority = 12, si_name = [97]\<rparr>],
      next_addr = 3\<rparr> =
   (0, bio_put_string16 (Some [97]) (bio_init [] 0),
     \<lparr>svclist = [\<lparr>si_id = 2, si_handle = 5, si_allow_isolated = False, si_dumpsys_priority = 4, si_name = [99]\<rparr>,
                 \<lparr>si_id = 1, si_handle = 6, si_allow_isolated = False, si_dumpsys_priority = 8, si_name = [98]\<rparr>,
                 \<lparr>si_id = 0, si_handle = 7, si_allow_isolated = False, si_dumpsys_priority = 12, si_name = [97]\<rparr>],
      next_addr = 3\<rparr>, [])"
proof -
  have "request demo_sm [U32 1, U32 4] (demo_msg [U32 1, U32 4])" by (rule demo_request) simp_all
  from list_services [OF this, of "demo_txn SVC_MGR_LIST_SERVICES"] show ?thesis by simp
qed

theorem register_then_find_witness:
  "\<exists>reply1 st1 ws reply2.
    svcmgr_handler demo_sm (demo_txn SVC_MGR_ADD_SERVICE) (demo_msg [Str16 [97, 98], Handle 7, U32 0, U32 1])
      (bio_init [] 0) sm_start = (0, reply1, st1, ws) \<and>
    svcmgr_handler demo_sm (demo_txn SVC_MGR_CHECK_SERVICE) (demo_msg [Str16 [97, 98]])
      (bio_init (replicate 256 CHR 0x00) 4) st1 = (0, reply2, st1, []) \<and>
    fst (bio_get_ref demo_abi (bio_init_from_txn (sent_data reply2) (sent_offs reply2))) = 7"
proof -
  have add: "request demo_sm [Str16 [97, 98], Handle 7, U32 0, U32 1] (demo_msg [Str16 [97, 98], Handle 7, U32 0, U32 1])"
    by (rule demo_request) (simp_all add: MAX_BIO_SIZE_def align4_def)
  have get: "request demo_sm [Str16 [97, 98]] (demo_msg [Str16 [97, 98]])"
    by (rule demo_request) (simp_all add: MAX_BIO_SIZE_def align4_def)
  have "wf_sm sm_start" "valid_service [97, 98] 7" "sm_malloc demo_sm (next_addr sm_start)"
    "\<not> is_isolated demo_sm (t_sender_euid (demo_txn SVC_MGR_CHECK_SERVICE))"
    by (simp_all add: wf_sm_def sm_start_def valid_service_def demo_sm_def demo_txn_def is_isolated_def)
  moreover have "be_abi (sm_binder demo_sm) = demo_abi" by (simp add: demo_sm_def demo_binder_def)
  ultimately show ?thesis
    using register_then_find [of sm_start "[97, 98]" 7 demo_sm 0 1 _ "demo_txn SVC_MGR_ADD_SERVICE"
        _ "demo_txn SVC_MGR_CHECK_SERVICE" "replicate 256 CHR 0x00" "bio_init [] 0", OF _ _ _ add _ _ get] by simp
qed

section \<open>What the code does not do\<close>

text \<open>An entry that is registered again keeps the access rule and the priority of the first time.\<close>

lemma override_keeps_flags:
  assumes "wf_sm st" "find_svc n st = Some si" "valid_service n h"
  shows "find_svc n (sm_register env n h (uid, allow, prio, spid, sid) st) = Some (si\<lparr>si_handle := h\<rparr>)"
  using assms find_svc_set_handle [OF assms(1), of si n h] find_svc_Some [OF assms(2)]
  by (simp add: sm_register_def do_add_service_cases)

text \<open>
  The cookie of a death notification is the entry, not the handle: the notification of a handle that
  was replaced drops the handle that replaced it.
\<close>

lemma late_death_drops_successor:
  assumes "wf_sm st" "find_svc n st = Some si" "si_handle si = h2" "h2 \<noteq> 0"
  shows "\<exists>st'. death_notified (si_id si) st = Some (st', [BC_RELEASE h2]) \<and> live_handle st' n = None"
  using assms live_died [OF assms(1), of n] find_svc_Some [OF assms(2)] find_id [of "svclist st" si]
  by (auto simp: sm_died_def death_notified_def svcinfo_death_def wf_sm_def)

text \<open>A name of 110 units can be registered, but the reply that would list it has no room for it.\<close>

lemma long_name_not_listed:
  assumes "length rdata = 256"
  shows "\<not> no_overflow (bio_put_string16 (Some (replicate 110 97)) (bio_init rdata 4)) \<and>
    valid_service (replicate 110 97) 1"
proof -
  have "takeWhile (\<lambda>c. c \<noteq> 0) (replicate 110 (97 :: 16 word)) = replicate 110 97"
    by (simp add: takeWhile_eq_all_conv)
  moreover have "data_avail (bio_put_uint32 n (bio_init rdata 4)) = 220" for n
    using assms by (simp add: bio_init_def put_u32_room)
  ultimately show ?thesis
    by (simp add: bio_put_string16_def cstr16_def put_units_def MAX_BIO_SIZE_def bio_alloc_def align4_def
        overflow_set valid_service_def)
qed

end
