(* ===== verification/Bctest.thy ===== *)
theory Bctest
  imports ServiceManagerCorrect
begin

unbundle bit_operations_syntax

text \<open>
  \<open>servicemanager/bctest.c\<close>: a client of the service manager, and what becomes of its requests.  The
  results of a call that the driver never completes are \<open>None\<close>; \<open>addr\<close> is the address of the
  reply, \<open>iodata\<close> the 512 bytes of the stack that the message is built in.
\<close>

definition SVC_MGR_NAME :: string where
  "SVC_MGR_NAME = ''android.os.IServiceManager''"

definition client_msg :: "string \<Rightarrow> string \<Rightarrow> binder_io" where
  "client_msg iodata name =
     bio_put_string16_x (Some name) (bio_put_string16_x (Some SVC_MGR_NAME) (bio_put_uint32 0 (bio_init iodata 4)))"

definition svcmgr_lookup ::
  "binder_env \<Rightarrow> 's death_fun \<Rightarrow> string \<Rightarrow> nat \<Rightarrow> string option list \<Rightarrow> 32 word \<Rightarrow> string \<Rightarrow> 's \<Rightarrow>
   32 word option \<times> 's \<times> bc list" where
  "svcmgr_lookup env die iodata addr reads target name st =
     (case binder_call env die (client_msg iodata name) target SVC_MGR_CHECK_SERVICE reads st of
        (None, st', ws) \<Rightarrow> (None, st', ws)
      | (Some (res, reply), st', ws) \<Rightarrow>
          if res \<noteq> 0 then (Some 0, st', ws)
          else (let (handle, reply') = bio_get_ref (be_abi env) reply
                in (Some handle, st', ws @ (if handle \<noteq> 0 then [BC_ACQUIRE handle] else []) @ binder_done addr reply')))"

definition svcmgr_publish ::
  "binder_env \<Rightarrow> 's death_fun \<Rightarrow> string \<Rightarrow> nat \<Rightarrow> string option list \<Rightarrow> 32 word \<Rightarrow> string \<Rightarrow> nat \<Rightarrow> 's \<Rightarrow>
   int option \<times> 's \<times> bc list" where
  "svcmgr_publish env die iodata addr reads target name ptr st =
     (case binder_call env die (bio_put_obj (be_abi env) ptr (client_msg iodata name)) target SVC_MGR_ADD_SERVICE reads st of
        (None, st', ws) \<Rightarrow> (None, st', ws)
      | (Some (res, reply), st', ws) \<Rightarrow>
          if res \<noteq> 0 then (Some (-1), st', ws)
          else (let (status, reply') = bio_get_uint32 reply
                in (Some (sint status), st', ws @ binder_done addr reply')))"

text \<open>
  The arguments after the name of the program; \<open>lookup\<close> and \<open>publish\<close> are the two functions above
  as \<open>main\<close> calls them, on its state.
\<close>

fun bctest_args ::
  "(32 word \<Rightarrow> string \<Rightarrow> 's \<Rightarrow> 32 word \<times> 's) \<Rightarrow> (32 word \<Rightarrow> string \<Rightarrow> 's \<Rightarrow> 's) \<Rightarrow> 32 word \<Rightarrow> string list \<Rightarrow> 's \<Rightarrow> int \<times> 's" where
  "bctest_args lookup publish svcmgr [] st = (0, st)"
| "bctest_args lookup publish svcmgr (arg # args) st =
     (if arg = ''alt'' then
        (let (handle, st') = lookup svcmgr ''alt_svc_mgr'' st
         in if handle = 0 then (-1, st') else bctest_args lookup publish handle args st')
      else if arg = ''lookup'' then
        (case args of [] \<Rightarrow> (-1, st) | a # rest \<Rightarrow> bctest_args lookup publish svcmgr rest (snd (lookup svcmgr a st)))
      else if arg = ''publish'' then
        (case args of [] \<Rightarrow> (-1, st) | a # rest \<Rightarrow> bctest_args lookup publish svcmgr rest (publish svcmgr a st))
      else (-1, st))"

text \<open>
  The message has one header word, the service manager reads two: it takes the length of the interface
  name for the work source and the first two characters for the length of a string.
\<close>

lemma string16_x_units: "CHR 0x00 \<notin> set s \<Longrightarrow> bio_put_string16_x (Some s) bio = put_units (map of_char s) bio"
proof -
  assume "CHR 0x00 \<notin> set s"
  then have "takeWhile (\<lambda>c. c \<noteq> CHR 0x00) s = s" by (intro takeWhile_eq_all_conv [THEN iffD2]) auto
  then show ?thesis by (simp only: bio_put_string16_x_def option.case)
qed

lemma null_char: "(of_char c :: 16 word) = 0 \<longleftrightarrow> c = CHR 0x00"
proof -
  have "(of_char c :: nat) < 2 ^ 16" by (rule less_trans [OF nat_of_char_less_256]) simp
  then have "unat (word_of_nat (of_char c) :: 16 word) = of_char c" by (simp add: unat_of_nat)
  then have "unat (of_char c :: 16 word) = of_char c" by (simp only: of_nat_of_char)
  then have "(of_char c :: 16 word) = 0 \<longleftrightarrow> (of_char c :: nat) = of_char (CHR 0x00)"
    by (simp add: unat_eq_zero [symmetric] del: unat_eq_zero)
  then show ?thesis by (simp only: of_char_eq_iff)
qed

lemma chars_no_null: "CHR 0x00 \<notin> set s \<Longrightarrow> (0 :: 16 word) \<notin> set (map of_char s)"
proof
  assume "CHR 0x00 \<notin> set s" "(0 :: 16 word) \<in> set (map of_char s)"
  then obtain c where "c \<in> set s" "(of_char c :: 16 word) = 0" by (metis imageE list.set_map)
  with \<open>CHR 0x00 \<notin> set s\<close> show False by (simp only: null_char)
qed

lemma put_items_no_overflow: "no_overflow (put_items abi is bio) \<Longrightarrow> no_overflow bio"
  by (induction "is" arbitrary: bio) (auto dest: put_item_no_overflow)

lemma put_items_length:
  "wf_io bio \<Longrightarrow> list_all item_ok is \<Longrightarrow> no_overflow (put_items abi is bio) \<Longrightarrow>
     length (io_buf (put_items abi is bio)) = length (io_buf bio)"
proof (induction "is" arbitrary: bio)
  case (Cons i "is")
  then have "no_overflow (put_item abi i bio)" by (auto dest: put_items_no_overflow)
  then have "puts_item abi i bio (put_item abi i bio)" using Cons.prems by (intro puts_item_put) simp_all
  with Cons show ?case by (simp add: puts_item_def)
qed simp

lemma bytes_at_start: "m \<le> n \<Longrightarrow> bytes_at p m b = take m (bytes_at p n b)"
  by (simp add: bytes_at_def min_def)

lemma interface_as_length: "get32 (take 4 (u16_bytes svcmgr_id)) = 0x6e0061"
proof -
  have "svcmgr_id = 97 # 110 # drop 2 svcmgr_id" by (simp add: svcmgr_id_def)
  then have "u16_bytes svcmgr_id = le_bytes 2 97 @ le_bytes 2 110 @ u16_bytes (drop 2 svcmgr_id)"
    using u16_bytes_append [of "[97, 110]" "drop 2 svcmgr_id"] by (simp add: u16_bytes_def)
  then have "take 4 (u16_bytes svcmgr_id) = le_bytes 2 97 @ le_bytes 2 110" by simp
  then show ?thesis by (simp add: get32_def le_val_append le_val_bytes)
qed

lemma client_request_rejected:
  assumes "no_overflow (client_msg iodata name)" "length iodata \<le> 512" "CHR 0x00 \<notin> set name"
    "length name < 2 ^ 29" "t_target t = BINDER_SERVICE_MANAGER" "t_code t = SVC_MGR_CHECK_SERVICE"
  shows "\<exists>msg. msg = bio_init_from_txn (sent_data (client_msg iodata name)) (sent_offs (client_msg iodata name)) \<and>
    svcmgr_handler env t msg reply st = (-1, reply, st, [])"
proof -
  let ?abi = "be_abi (sm_binder env)" and ?is = "[U32 0, Str16 svcmgr_id, Str16 (map of_char name)]"
  let ?bio = "client_msg iodata name"
  have eq: "?bio = put_items ?abi ?is (bio_init iodata 4)"
    using assms(3) chars_no_null [OF assms(3)]
    by (simp add: client_msg_def string16_x_units put_string16_units SVC_MGR_NAME_def svcmgr_id_def)
  have ok: "list_all item_ok ?is" using assms(4) chars_no_null [OF assms(3)] by (simp add: svcmgr_id_def MAX_BIO_SIZE_def)
  have no: "no_overflow (put_items ?abi ?is (bio_init iodata 4))" using assms(1) eq by simp
  define b where "b = sent_data ?bio"
  define os where "os = sent_offs ?bio"
  have "length (io_buf (bio_init iodata 4)) \<le> 512"
    using le_trans [OF diff_le_self assms(2), of 32] by (simp add: bio_init_def Let_def)
  then have "length (io_buf ?bio) \<le> 512" using put_items_length [OF wf_bio_init ok no] by (simp only: eq)
  then have len: "length b \<le> 512" by (simp add: b_def sent_data_def)
  have laid: "laid ?abi ?is b os 0 (io_pos ?bio)"
    using written_laid [OF ok no] by (simp add: Let_def eq b_def os_def)
  let ?rd = "\<lambda>p. reader b os p BIO_F_SHARED"
  from laid have at: "item_at ?abi (U32 0) b os 0" "bytes_at 4 4 b = le32 (word_of_nat (length svcmgr_id))"
    "bytes_at 8 52 b = u16_bytes svcmgr_id" and room: "60 \<le> length b"
    using laid_le [of ?abi "[Str16 (map of_char name)]" b os 60 "io_pos ?bio"]
    by (auto simp: svcmgr_id_def align4_def)
  have "bytes_at 8 4 b = take 4 (u16_bytes svcmgr_id)" using bytes_at_start [of 4 52 8 b] at(3) by simp
  then have third: "bio_get_uint32 (?rd 8) = (0x6e0061, ?rd 12)"
    using room interface_as_length by (simp add: bio_get_uint32_def reader_get)
  have "bio_get_uint32 (?rd 0) = (0, ?rd 4)" using get_u32 [OF at(1)] room by simp
  moreover have "bio_get_uint32 (?rd 4) = (word_of_nat (length svcmgr_id), ?rd 8)"
    using at(2) room by (simp add: bio_get_uint32_def reader_get)
  moreover have "fst (bio_get_string16 (?rd 8)) = None"
    using third len by (simp add: bio_get_string16_def bio_get_def align4_def Let_def)
  ultimately show ?thesis
    using assms(5,6) bio_init_from_txn_reader [of b os]
    by (auto simp: svcmgr_handler_def b_def os_def split: prod.split)
qed

end
