(* ===== verification/BinderOpen.thy ===== *)
theory BinderOpen
  imports OsProg
begin

text \<open>
  Opening the driver (\<open>binder_open\<close>, \<open>binder_become_context_manager\<close>, \<open>binder_close\<close> in
  \<open>servicemanager/binder.c\<close>) and the start of \<open>main\<close> in \<open>servicemanager/service_manager.c\<close>, as
  programs over the system calls they make.  A reply holds the result and, for the version ioctl,
  the version of the driver.
\<close>

datatype bsys =
    Malloc
  | OpenDriver string
  | IoctlVersion
  | Mmap nat
  | CloseFd
  | FreeState
  | Munmap
  | IoctlSetContextMgrExt
  | IoctlSetContextMgr
  | SelinuxStatusOpen
  | BinderLoop

record bsys_reply =
  b_rc :: int
  b_version :: int

type_synonym 'a bsys_prog = "(bsys, bsys_reply, 'a) prog"

definition fail_open :: "bool bsys_prog" where
  "fail_open = Call FreeState (\<lambda>_. Ret False)"

definition fail_map :: "bool bsys_prog" where
  "fail_map = Call CloseFd (\<lambda>_. fail_open)"

text \<open>\<open>malloc\<close> returns 0 for null, \<open>mmap\<close> -1 for \<open>MAP_FAILED\<close>.\<close>

definition binder_open :: "int \<Rightarrow> string \<Rightarrow> nat \<Rightarrow> bool bsys_prog" where
  "binder_open current_version driver mapsize =
     Call Malloc (\<lambda>m. if b_rc m = 0 then Ret False
       else Call (OpenDriver driver) (\<lambda>fd. if b_rc fd < 0 then fail_open
         else Call IoctlVersion (\<lambda>v. if b_rc v = -1 \<or> b_version v \<noteq> current_version then fail_open
           else Call (Mmap mapsize) (\<lambda>p. if b_rc p = -1 then fail_map else Ret True))))"

definition binder_close :: "unit bsys_prog" where
  "binder_close = do_calls [Munmap, CloseFd, FreeState] (Ret ())"

definition binder_become_context_manager :: "int bsys_prog" where
  "binder_become_context_manager =
     Call IoctlSetContextMgrExt (\<lambda>r. if b_rc r \<noteq> 0 then Call IoctlSetContextMgr (\<lambda>r. Ret (b_rc r)) else Ret (b_rc r))"

text \<open>
  \<open>main\<close> of the service manager proper: the vendor build would sleep for ever where the driver
  cannot be opened.
\<close>

definition sm_main :: "int \<Rightarrow> string list \<Rightarrow> int bsys_prog" where
  "sm_main current_version argv =
     (let driver = (if length argv > 1 then argv ! 1 else ''/dev/binder'')
      in bindp (binder_open current_version driver (128 * 1024)) (\<lambda>bs.
           if \<not> bs then Ret (-1)
           else bindp binder_become_context_manager (\<lambda>r.
             if r \<noteq> 0 then Ret (-1)
             else do_calls [SelinuxStatusOpen, BinderLoop] (Ret 0))))"

section \<open>What is left open\<close>

text \<open>The file descriptors and the memory that calls have taken and not given back.\<close>

fun open_fds :: "(bsys, bsys_reply) history \<Rightarrow> int" where
  "open_fds [] = 0"
| "open_fds ((OpenDriver d, r) # h) = (if b_rc r < 0 then 0 else 1) + open_fds h"
| "open_fds ((CloseFd, r) # h) = -1 + open_fds h"
| "open_fds (x # h) = open_fds h"

fun open_states :: "(bsys, bsys_reply) history \<Rightarrow> int" where
  "open_states [] = 0"
| "open_states ((Malloc, r) # h) = (if b_rc r = 0 then 0 else 1) + open_states h"
| "open_states ((FreeState, r) # h) = -1 + open_states h"
| "open_states (x # h) = open_states h"

text \<open>
  A driver of another version, or one that fails the version ioctl, leaves its file descriptor
  open: that path jumps to the label behind the \<open>close\<close>.  No other path leaks.
\<close>

lemma binder_open_fds:
  "yields (binder_open v driver n) (\<lambda>ok h.
     open_states h = of_bool ok \<and>
     (open_fds h = of_bool (ok \<or> (\<exists>r. (IoctlVersion, r) \<in> set h \<and> (b_rc r = -1 \<or> b_version r \<noteq> v)))))"
  by (auto simp: binder_open_def fail_open_def fail_map_def)

lemma version_mismatch_leaks_fd:
  assumes "b_rc (os [(Malloc, os [] Malloc)] (OpenDriver d)) \<ge> 0" "b_rc (os [] Malloc) \<noteq> 0" "\<And>h. b_version (os h IoctlVersion) \<noteq> v"
  shows "\<exists>h. run (binder_open v d n) os [] = (Some False, h) \<and> open_fds h = 1"
  using assms by (simp add: binder_open_def fail_open_def)

end
