(* ===== verification/ProcProg.thy ===== *)
theory ProcProg
  imports OsProg
begin

text \<open>
  Programs of calls that run in processes: a program ends as itself, by exiting, or by executing
  another binary.  A monitor keeps a state from call to call and may forbid a call; \<open>wp\<close> is the weakest
  precondition of a program under a monitor: whatever the replies, no forbidden call is made, and the
  postcondition holds where the program returns.
\<close>

section \<open>Processes\<close>

text \<open>\<open>Running\<close> is a loop that has used up its fuel.\<close>

datatype 'a proc = Live 'a | Exited int | Execed | Running

type_synonym ('c, 'r, 'a) process = "('c, 'r, 'a proc) prog"

definition pure :: "'a \<Rightarrow> ('c, 'r, 'a) process" where
  "pure a = Ret (Live a)"

definition exit_process :: "int \<Rightarrow> ('c, 'r, 'a) process" where
  "exit_process code = Ret (Exited code)"

definition bindx :: "('c, 'r, 'a) process \<Rightarrow> ('a \<Rightarrow> ('c, 'r, 'b) process) \<Rightarrow> ('c, 'r, 'b) process" where
  "bindx p f = bindp p (\<lambda>x. case x of Live a \<Rightarrow> f a | Exited n \<Rightarrow> Ret (Exited n) | Execed \<Rightarrow> Ret Execed
     | Running \<Rightarrow> Ret Running)"

lemma bindx_simps [simp]:
  "bindx (pure a) f = f a" "bindx (Ret (Live a)) f = f a" "bindx Abort f = Abort"
  "bindx (exit_process n) f = exit_process n" "bindx (Ret Execed) f = Ret Execed"
  "bindx (Ret (Exited n)) f = Ret (Exited n)" "bindx (Ret Running) f = Ret Running"
  "bindx (Call c k) f = Call c (\<lambda>r. bindx (k r) f)"
  by (simp_all add: bindx_def pure_def exit_process_def)

section \<open>Monitors\<close>

named_theorems wp_rules \<open>weakest preconditions of helper programs\<close>

type_synonym ('c, 'r, 's) monitor = "'s \<Rightarrow> 'c \<Rightarrow> 'r \<Rightarrow> 's option"

fun watch :: "('c, 'r, 's) monitor \<Rightarrow> 's \<Rightarrow> ('c, 'r) history \<Rightarrow> 's option" where
  "watch M s [] = Some s"
| "watch M s ((c, r) # t) = (case M s c r of None \<Rightarrow> None | Some s' \<Rightarrow> watch M s' t)"

primrec wp :: "('c, 'r, 's) monitor \<Rightarrow> ('c, 'r, 'a) process \<Rightarrow> ('a \<Rightarrow> 's \<Rightarrow> bool) \<Rightarrow> 's \<Rightarrow> bool" where
  "wp M (Ret x) Q s = (case x of Live a \<Rightarrow> Q a s | _ \<Rightarrow> True)"
| "wp M Abort Q s = True"
| "wp M (Call c k) Q s = (\<forall>r. case M s c r of None \<Rightarrow> False | Some s' \<Rightarrow> wp M (k r) Q s')"

lemma wp_pure [simp]: "wp M (pure a) Q s = Q a s"
  and wp_exit [simp]: "wp M (exit_process n) Q s"
  by (simp_all add: pure_def exit_process_def)

lemma wp_sound:
  assumes "wp M p Q s" "run p os h = (res, h')"
  shows "\<exists>t s'. h' = h @ t \<and> watch M s t = Some s' \<and> (\<forall>a. res = Some (Live a) \<longrightarrow> Q a s')"
  using assms
proof (induction p arbitrary: s h)
  case (Call c k)
  from Call.prems obtain s' where s': "M s c (os h c) = Some s'" "wp M (k (os h c)) Q s'"
    by (auto split: option.splits)
  from Call.prems have "run (k (os h c)) os (h @ [(c, os h c)]) = (res, h')" by simp
  from Call.IH [OF rangeI s'(2) this] obtain t s'' where
    "h' = (h @ [(c, os h c)]) @ t" "watch M s' t = Some s''" "\<forall>a. res = Some (Live a) \<longrightarrow> Q a s''" by blast
  with s'(1) show ?case by (intro exI [of _ "(c, os h c) # t"] exI [of _ s'']) simp
qed (auto split: proc.splits)

lemma wp_bindx [simp]: "wp M (bindx p f) Q = wp M p (\<lambda>a. wp M (f a) Q)"
proof (rule ext)
  show "wp M (bindx p f) Q s = wp M p (\<lambda>a. wp M (f a) Q) s" for s
  proof (induction p arbitrary: s)
    case (Ret x)
    then show ?case by (cases x) auto
  next
    case (Call c k)
    then show ?case by (simp split: option.splits)
  qed simp
qed

lemma wp_mono: "wp M p Q s \<Longrightarrow> (\<And>a s'. Q a s' \<Longrightarrow> R a s') \<Longrightarrow> wp M p R s"
proof (induction p arbitrary: s)
  case (Ret x)
  then show ?case by (cases x) auto
next
  case (Call c k)
  show ?case
  proof (simp, rule allI)
    fix r
    from Call.prems(1) obtain s' where "M s c r = Some s'" "wp M (k r) Q s'" by (auto split: option.splits)
    with Call.IH [OF rangeI _ Call.prems(2)] show "case M s c r of None \<Rightarrow> False | Some s' \<Rightarrow> wp M (k r) R s'"
      by simp
  qed
qed simp

end
