(* ===== verification/InstalldProc.thy ===== *)
theory InstalldProc
  imports InstalldApp ProcProg "HOL-Library.Multiset"
begin

text \<open>
  What installd's compilation code asks of the system beyond the calls of \<open>InstalldApp\<close>:
  file descriptors, locks and processes.  After \<open>fork\<close> one program continues as parent and child,
  told apart by the reply; a process that has exited or executed another binary does nothing more.
  Destructors run where the object's scope ends, and not in a process that exits.
\<close>

section \<open>Calls\<close>

datatype oflag = O_RDONLY | O_WRONLY | O_RDWR | O_CREAT | O_EXCL | O_TRUNC | O_NOFOLLOW | O_CLOEXEC

datatype pcall =
    Sys call
  | AccessX string
  | AccessR string
  | Open string "oflag list" int
  | Close int
  | FlockEx int
  | FlockUn int
  | Ftruncate int int
  | Fchmod int int
  | Fchown int int int
  | Fstat int
  | Lseek int int
  | ReadFd int nat
  | WriteFd int string int
  | ReadAll int
  | ReadFully int nat
  | WriteFully int string
  | Dup2 int int
  | Pipe
  | Rmdir string
  | Utime string int int
  | RestoreconRecurse string cstring int
  | PrepareFileStrict string int int int
  | Fork
  | Waitpid int
  | Setgid int
  | Setuid int
  | Capset
  | SchedBackground
  | PriorityBackground
  | Execv string "string list"
  | AshmemValid int
  | AshmemSize int
  | Mmap int int
  | EnableVerity int
  | SetVerityMeasurement int "nat list"
  | Opendir string
  | Openat int string
  | Fdopendir int
  | Readdir int
  | Closedir int
  | StatFile string

text \<open>
  \<open>rc\<close> is the value returned (0 and 1 for a \<open>bool\<close>), \<open>r_status\<close> the exit status, \<open>r_fds\<close> the ends of
  a pipe, reading end first, \<open>r_str\<close> the data read, \<open>r_size\<close> the size of a file.  A directory stream is
  known by its descriptor; of an entry that \<open>Readdir\<close> returns, \<open>r_str\<close> is the name and \<open>r_status\<close> the
  type, and \<open>rc\<close> is 0 behind the last.
\<close>

record preply = reply +
  r_status :: int
  r_fds :: "int \<times> int"
  r_times :: "int \<times> int"
  r_size :: int

type_synonym 'a proc_prog = "(pcall, preply, 'a proc) prog"

text \<open>The programs over the calls of \<open>InstalldApp\<close>.\<close>

primrec lift :: "(call, reply, 'a) prog \<Rightarrow> 'a proc_prog" where
  "lift (Ret a) = Ret (Live a)"
| "lift Abort = Abort"
| "lift (Call c k) = Call (Sys c) (\<lambda>r. lift (k (reply.truncate r)))"

definition errno :: "(int \<Rightarrow> 'a proc_prog) \<Rightarrow> 'a proc_prog" where
  "errno f = Call (Sys GetErrno) (\<lambda>r. f (rc r))"

section \<open>File descriptors\<close>

text \<open>The destructor of a \<open>unique_fd\<close>, and a scope that ends with it.\<close>

definition close_fd :: "int \<Rightarrow> unit proc_prog" where
  "close_fd fd = (if fd \<ge> 0 then Call (Close fd) (\<lambda>_. pure ()) else pure ())"

fun close_fds :: "int list \<Rightarrow> unit proc_prog" where
  "close_fds [] = pure ()"
| "close_fds (fd # fds) = bindx (close_fd fd) (\<lambda>_. close_fds fds)"

definition with_fd :: "int \<Rightarrow> 'a proc_prog \<Rightarrow> 'a proc_prog" where
  "with_fd fd p = bindx p (\<lambda>a. bindx (close_fd fd) (\<lambda>_. pure a))"

definition with_fds :: "int list \<Rightarrow> 'a proc_prog \<Rightarrow> 'a proc_prog" where
  "with_fds fds p = bindx p (\<lambda>a. bindx (close_fds fds) (\<lambda>_. pure a))"

section \<open>Processes\<close>

definition kSetGid :: int where "kSetGid = 64"
definition kSetUid :: int where "kSetUid = 65"
definition kCapSet :: int where "kCapSet = 66"
definition kFlock :: int where "kFlock = 67"
definition kProfmanExec :: int where "kProfmanExec = 68"
definition kSetSchedPolicy :: int where "kSetSchedPolicy = 70"
definition kSetPriority :: int where "kSetPriority = 71"
definition kDex2oatExec :: int where "kDex2oatExec = 72"
definition kInstructionSetLength :: int where "kInstructionSetLength = 73"
definition kHashValidatePath :: int where "kHashValidatePath = 74"
definition kHashOpenPath :: int where "kHashOpenPath = 75"
definition kHashReadDex :: int where "kHashReadDex = 76"
definition kHashWrite :: int where "kHashWrite = 77"

definition drop_capabilities :: "int \<Rightarrow> unit proc_prog" where
  "drop_capabilities uid =
     Call (Setgid uid) (\<lambda>r. if rc r \<noteq> 0 then exit_process kSetGid
       else Call (Setuid uid) (\<lambda>r. if rc r \<noteq> 0 then exit_process kSetUid
         else Call Capset (\<lambda>r. if rc r < 0 then exit_process kCapSet else pure ())))"

text \<open>The macros over a wait status.\<close>

definition WIFEXITED :: "int \<Rightarrow> bool" where
  "WIFEXITED status \<longleftrightarrow> status mod 128 = 0"

definition WEXITSTATUS :: "int \<Rightarrow> int" where
  "WEXITSTATUS status = (status div 256) mod 256"

text \<open>
  The reply to \<open>Waitpid\<close> is that of the first call that is not interrupted.  When the call fails
  for the pid -1 of a \<open>fork\<close> that failed, the status is whatever the uninitialised variable holds.
\<close>

definition wait_child :: "int \<Rightarrow> int proc_prog" where
  "wait_child pid =
     Call (Waitpid pid) (\<lambda>r.
       if rc r \<noteq> pid then pure 1
       else if WIFEXITED (r_status r) \<and> WEXITSTATUS (r_status r) = 0 then pure 0
       else pure (r_status r))"

text \<open>\<open>ExecVHelper::Exec\<close>: the call returns only when it fails.\<close>

definition exec_or_exit :: "string list \<Rightarrow> int \<Rightarrow> 'a proc_prog" where
  "exec_or_exit argv code =
     Call (Execv (hd argv) argv) (\<lambda>r. if rc r = 0 then Ret Execed else exit_process code)"

text \<open>A child that does \<open>child\<close>, which does not return, and the parent that goes on with its pid.\<close>

definition fork_child :: "'a proc_prog \<Rightarrow> (int \<Rightarrow> 'a proc_prog) \<Rightarrow> 'a proc_prog" where
  "fork_child child parent = Call Fork (\<lambda>r. if rc r = 0 then child else parent (rc r))"

end
