(* ===== verification/ProcMonitor.thy ===== *)
theory ProcMonitor
  imports InstalldProc
begin

text \<open>
  Two monitors over the programs of installd: the ledger of open file descriptors, which forbids
  closing one that is not open, and the privileges of the process, which forbid executing a binary
  before they are dropped.
\<close>

lemma wp_lift [wp_rules]:
  assumes "\<And>c r. M s (Sys c) r = Some s" "\<And>a. Q a s"
  shows "wp M (lift p) Q s"
  using assms(2)
proof (induction p)
  case (Call c k)
  then show ?case by (auto simp: assms(1))
qed auto

lemma all_rc: "(\<forall>r :: preply. P (rc r) (r_status r)) \<longleftrightarrow> (\<forall>n m. P n m)"
proof (intro iffI allI)
  fix n m
  assume "\<forall>r :: preply. P (rc r) (r_status r)"
  from this [rule_format, of "undefined\<lparr>rc := n, r_status := m\<rparr>"] show "P n m" by simp
qed simp

lemma wp_fork_child [simp]:
  assumes "\<And>r. M s Fork r = Some s"
  shows "wp M (fork_child child parent) Q s \<longleftrightarrow> wp M child Q s \<and> (\<forall>pid. pid \<noteq> 0 \<longrightarrow> wp M (parent pid) Q s)"
proof -
  have "wp M (fork_child child parent) Q s \<longleftrightarrow>
      (\<forall>r :: preply. if rc r = 0 then wp M child Q s else wp M (parent (rc r)) Q s)"
    by (simp add: fork_child_def assms if_distrib [of "\<lambda>p. wp M p Q s"])
  also have "\<dots> \<longleftrightarrow> (\<forall>n (m :: int). if n = 0 then wp M child Q s else wp M (parent n) Q s)"
    using all_rc [of "\<lambda>n m. if n = 0 then wp M child Q s else wp M (parent n) Q s"] .
  finally show ?thesis by auto
qed

lemma wp_wait_child [wp_rules]:
  assumes "\<And>r. M s (Waitpid pid) r = Some s" "\<And>n. Q n s"
  shows "wp M (wait_child pid) Q s"
  by (simp add: wait_child_def assms)

section \<open>The ledger of file descriptors\<close>

definition opened :: "int \<Rightarrow> int multiset" where
  "opened fd = (if fd \<ge> 0 then {#fd#} else {#})"

fun ledger :: "(pcall, preply, int multiset) monitor" where
  "ledger F (Open p fl m) r = Some (F + opened (rc r))"
| "ledger F Pipe r = Some (if rc r = 0 then F + opened (fst (r_fds r)) + opened (snd (r_fds r)) else F)"
| "ledger F (Close fd) r = (if fd \<in># F then Some (F - {#fd#}) else None)"
| "ledger F (Openat d p) r = Some (F + opened (rc r))"
| "ledger F (Closedir fd) r = (if fd \<in># F then Some (F - {#fd#}) else None)"
| "ledger F (Opendir p) r = None"
| "ledger F c r = Some F"

text \<open>The program closes every descriptor that it opens, and no descriptor but those.\<close>

definition tidy :: "'a proc_prog \<Rightarrow> bool" where
  "tidy p \<longleftrightarrow> (\<forall>F. wp ledger p (\<lambda>a F'. F' = F) F)"

lemma wp_ledger_close_fd [wp_rules]:
  assumes "opened fd \<subseteq># F" "Q () (F - opened fd)"
  shows "wp ledger (close_fd fd) Q F"
  using assms by (auto simp: close_fd_def opened_def)

definition openeds :: "int list \<Rightarrow> int multiset" where
  "openeds fds = sum_list (map opened fds)"

lemma openeds_simps [simp]: "openeds [] = {#}" "openeds (fd # fds) = opened fd + openeds fds"
  "openeds (xs @ ys) = openeds xs + openeds ys"
  by (simp_all add: openeds_def)

lemma opened_neg [simp]: "fd < 0 \<Longrightarrow> opened fd = {#}"
  by (simp add: opened_def)

lemma wp_ledger_close_fds [wp_rules]:
  assumes "openeds fds \<subseteq># F" "Q () (F - openeds fds)"
  shows "wp ledger (close_fds fds) Q F"
  using assms
proof (induction fds arbitrary: F)
  case (Cons fd fds)
  from Cons.prems(1) obtain G where F: "F = opened fd + openeds fds + G"
    by (auto simp: mset_subset_eq_exists_conv)
  show ?case
    by (simp, rule wp_ledger_close_fd, simp add: F add.assoc, rule Cons.IH)
      (use Cons.prems(2) in \<open>simp_all add: F add.assoc\<close>)
qed simp

lemma wp_ledger_with_fd [wp_rules]:
  assumes "wp ledger p (\<lambda>a F'. opened fd \<subseteq># F' \<and> Q a (F' - opened fd)) F"
  shows "wp ledger (with_fd fd p) Q F"
  unfolding with_fd_def wp_bindx
  by (rule wp_mono [OF assms]) (simp add: wp_ledger_close_fd)

lemma wp_ledger_with_fds [wp_rules]:
  assumes "wp ledger p (\<lambda>a F'. openeds fds \<subseteq># F' \<and> Q a (F' - openeds fds)) F"
  shows "wp ledger (with_fds fds p) Q F"
  unfolding with_fds_def wp_bindx
  by (rule wp_mono [OF assms]) (simp add: wp_ledger_close_fds)

lemma tidyD: "tidy p \<Longrightarrow> (\<And>a. Q a F) \<Longrightarrow> wp ledger p Q F"
  unfolding tidy_def by (drule spec [of _ F], erule wp_mono) simp

text \<open>What \<open>tidy\<close> says of a run: the closes are the opens, and each closes what is open.\<close>

lemma tidy_run:
  assumes "tidy p" "run p os [] = (Some (Live a), t)"
  shows "watch ledger {#} t = Some {#}"
proof -
  from assms(1) have "wp ledger p (\<lambda>a F'. F' = {#}) {#}" by (auto simp: tidy_def)
  from wp_sound [OF this assms(2)] show ?thesis by auto
qed

text \<open>
  The ledger forbids \<open>opendir\<close>.  In the ledger \<open>descriptors\<close> the stream of one directory may be opened
  and counts as a descriptor; \<open>skipping\<close> keeps it out of the ledger, up to \<open>k\<close> times.
\<close>

definition descriptors :: "string \<Rightarrow> (pcall, preply, int multiset) monitor" where
  "descriptors dir F c r = (if c = Opendir dir then Some (F + opened (rc r)) else ledger F c r)"

definition skipping :: "string \<Rightarrow> (pcall, preply, int multiset \<times> nat) monitor" where
  "skipping dir s c r =
     (case s of (F, k) \<Rightarrow>
        if c = Opendir dir then (if k > 0 then Some (F, k - 1) else None)
        else map_option (\<lambda>F'. (F', k)) (ledger F c r))"

definition opendirs :: "string \<Rightarrow> (pcall, preply) history \<Rightarrow> int list" where
  "opendirs dir t = map (rc \<circ> snd) (filter (\<lambda>x. fst x = Opendir dir) t)"

lemma skipping_simp:
  "skipping dir (F, k) c r =
     (if c = Opendir dir then (if k > 0 then Some (F, k - 1) else None) else map_option (\<lambda>F'. (F', k)) (ledger F c r))"
  by (simp add: skipping_def)

lemma ledger_more: "ledger F c r = Some F' \<Longrightarrow> ledger (F + K) c r = Some (F' + K)"
  by (cases c) (auto simp: ac_simps split: if_splits)

lemma watch_skipping:
  "watch (skipping dir) (F, k) t = Some (F', k') \<Longrightarrow>
   watch (descriptors dir) (F + K) t = Some (F' + K + openeds (opendirs dir t)) \<and> k = k' + length (opendirs dir t)"
proof (induction t arbitrary: F k K)
  case (Cons x t)
  obtain c r where x: "x = (c, r)" by (cases x)
  show ?case
  proof (cases "c = Opendir dir")
    case True
    with Cons.prems x have "k > 0" "watch (skipping dir) (F, k - 1) t = Some (F', k')"
      by (auto simp: skipping_simp split: if_splits)
    with Cons.IH [of F "k - 1" "K + opened (rc r)"] True x show ?thesis
      by (auto simp: descriptors_def opendirs_def ac_simps)
  next
    case False
    with Cons.prems x obtain G where G: "ledger F c r = Some G" "watch (skipping dir) (G, k) t = Some (F', k')"
      by (auto simp: skipping_simp split: option.splits)
    with Cons.IH [of G k K] False x ledger_more [OF G(1), of K] show ?thesis
      by (auto simp: descriptors_def opendirs_def)
  qed
qed (simp add: opendirs_def)

lemma wp_skipping:
  assumes "wp ledger p (\<lambda>a F'. Q a (F', k)) F"
  shows "wp (skipping dir) p Q (F, k)"
  using assms
proof (induction p arbitrary: F)
  case (Ret x)
  then show ?case by (cases x) auto
next
  case (Call c f)
  show ?case
  proof (simp, rule allI)
    fix r
    from Call.prems obtain F' where F': "ledger F c r = Some F'" "wp ledger (f r) (\<lambda>a F'. Q a (F', k)) F'"
      by (auto split: option.splits)
    then have "skipping dir (F, k) c r = Some (F', k)" by (auto simp: skipping_simp)
    with Call.IH [OF rangeI F'(2)]
    show "case skipping dir (F, k) c r of None \<Rightarrow> False | Some s \<Rightarrow> wp (skipping dir) (f r) Q s" by simp
  qed
qed simp

text \<open>A program that leaves at most \<open>k\<close> streams of the directory open, and nothing else.\<close>

definition tidy_but :: "string \<Rightarrow> nat \<Rightarrow> 'a proc_prog \<Rightarrow> bool" where
  "tidy_but dir k p \<longleftrightarrow> (\<forall>F. wp (skipping dir) p (\<lambda>a s. fst s = F) (F, k))"

lemma tidy_but_tidy: "tidy p \<Longrightarrow> tidy_but dir k p"
  unfolding tidy_but_def by (intro allI wp_skipping) (simp add: tidy_def)

lemma tidy_but_run:
  assumes "tidy_but dir k p" "run p os [] = (Some (Live a), t)"
  shows "watch (descriptors dir) {#} t = Some (openeds (opendirs dir t)) \<and> length (opendirs dir t) \<le> k"
proof -
  from assms(1) have "wp (skipping dir) p (\<lambda>a s. fst s = {#}) ({#}, k)" by (simp add: tidy_but_def)
  from wp_sound [OF this assms(2)] obtain k' where "watch (skipping dir) ({#}, k) t = Some ({#}, k')" by auto
  from watch_skipping [OF this, of "{#}"] show ?thesis by simp
qed

section \<open>Privileges\<close>

datatype priv = Privileged | GidDropped | UidDropped | Unprivileged

fun privs :: "int \<Rightarrow> (pcall, preply, priv) monitor" where
  "privs uid s (Setgid g) r = Some (if g = uid \<and> rc r = 0 \<and> s = Privileged then GidDropped else s)"
| "privs uid s (Setuid u) r = Some (if u = uid \<and> rc r = 0 \<and> s = GidDropped then UidDropped else s)"
| "privs uid s Capset r = Some (if rc r \<ge> 0 \<and> s = UidDropped then Unprivileged else s)"
| "privs uid s (Execv b argv) r = (if s = Unprivileged then Some s else None)"
| "privs uid s c r = Some s"

text \<open>
  No binary is executed before the group, the user and the capabilities are dropped, and the
  process that returns has the privileges it had before.
\<close>

definition unprivileged :: "int \<Rightarrow> 'a proc_prog \<Rightarrow> bool" where
  "unprivileged uid p \<longleftrightarrow> (\<forall>s \<in> {Privileged, Unprivileged}. wp (privs uid) p (\<lambda>a s'. s' = s) s)"

lemma wp_privs_drop [wp_rules]:
  assumes "s \<in> {Privileged, Unprivileged}" "Q () Unprivileged"
  shows "wp (privs uid) (drop_capabilities uid) Q s"
  using assms by (auto simp: drop_capabilities_def)

lemma wp_privs_exec [simp]: "wp (privs uid) (exec_or_exit argv code) Q Unprivileged"
  by (auto simp: exec_or_exit_def)

lemma wp_privs_close_fd [simp]: "wp (privs uid) (close_fd fd) Q = Q ()"
  by (rule ext) (simp add: close_fd_def)

lemma wp_privs_close_fds [simp]: "wp (privs uid) (close_fds fds) Q = Q ()"
  by (induction fds) (simp_all add: fun_eq_iff)

lemma wp_privs_with_fd [simp]: "wp (privs uid) (with_fd fd p) Q = wp (privs uid) p Q"
  and wp_privs_with_fds [simp]: "wp (privs uid) (with_fds fds p) Q = wp (privs uid) p Q"
  by (simp_all add: with_fd_def with_fds_def pure_def)

text \<open>What \<open>unprivileged\<close> says of a run: before every \<open>execv\<close> the three calls have succeeded.\<close>

lemma watch_append: "watch M s (t @ u) = (case watch M s t of None \<Rightarrow> None | Some s' \<Rightarrow> watch M s' u)"
  by (induction M s t rule: watch.induct) (auto split: option.splits)

end
