(* ===== verification/DexPaths.thy ===== *)
theory DexPaths
  imports InstalldPaths
begin

text \<open>
  Where compiled code lives: the oat, odex and dalvik-cache paths of \<open>installd/dexopt.cpp\<close>
  and the names of the vdex and image files that go with an oat file.  A function that writes a
  path into a buffer of \<open>PKG_PATH_MAX\<close> characters and returns a \<open>bool\<close> is an option here.
\<close>

section \<open>Searching backwards\<close>

text \<open>\<open>s.rfind(c, pos)\<close> and \<open>s.rfind(pat)\<close>.\<close>

definition rfind_char_upto :: "char \<Rightarrow> string \<Rightarrow> nat \<Rightarrow> nat option" where
  "rfind_char_upto c s pos = rfind_char c (take (Suc pos) s)"

definition rfind_sub :: "string \<Rightarrow> string \<Rightarrow> nat option" where
  "rfind_sub pat s = map_option (\<lambda>i. length s - i - length pat) (find_sub (rev pat) (rev s))"

section \<open>Checks\<close>

definition PKG_PATH_MAX :: nat where "PKG_PATH_MAX = 1024"

text \<open>The buffers hold \<open>PKG_PATH_MAX\<close> characters: \<open>snprintf\<close> cuts a longer path.\<close>

definition cut :: "string \<Rightarrow> string" where
  "cut s = take (PKG_PATH_MAX - 1) s"

text \<open>\<open>path.find('/') != 0\<close>: the first slash is the first character.\<close>

definition is_absolute_path :: "string \<Rightarrow> bool" where
  "is_absolute_path path =
     (if find_char CHR ''/'' path 0 \<noteq> Some 0 \<or> find_sub ''..'' path \<noteq> None then False else True)"

definition is_valid_instruction_set :: "string \<Rightarrow> bool" where
  "is_valid_instruction_set instruction_set =
     (if find_char CHR ''/'' instruction_set 0 \<noteq> None then False else True)"

definition validate_dex_path_size :: "string \<Rightarrow> bool" where
  "validate_dex_path_size dex_path = (if length dex_path \<ge> PKG_PATH_MAX - 8 then False else True)"

text \<open>The output is the dalvik cache when no directory, or one that begins with \<open>!\<close>, is given.\<close>

definition IsOutputDalvikCache :: "cstring \<Rightarrow> bool" where
  "IsOutputDalvikCache oat_dir =
     (case oat_dir of None \<Rightarrow> True | Some d \<Rightarrow> d \<noteq> [] \<and> hd d = CHR ''!'')"

section \<open>Oat paths\<close>

definition calculate_oat_file_path_default :: "string \<Rightarrow> string \<Rightarrow> string \<Rightarrow> string option" where
  "calculate_oat_file_path_default oat_dir apk_path instruction_set =
     (if \<not> is_absolute_path oat_dir then None
      else if \<not> is_absolute_path apk_path then None
      else if \<not> is_valid_instruction_set instruction_set then None
      else
        (case rfind_char CHR ''.'' apk_path of
           None \<Rightarrow> None
         | Some end_ \<Rightarrow>
             (case rfind_char_upto CHR ''/'' apk_path end_ of
                None \<Rightarrow> None
              | Some start \<Rightarrow>
                  (let res = oat_dir @ ''/'' @ instruction_set @ ''/''
                         @ take (end_ - start - 1) (drop (start + 1) apk_path) @ ''.odex''
                   in if length res \<ge> PKG_PATH_MAX then None else Some res))))"

definition calculate_odex_file_path_default :: "string \<Rightarrow> string \<Rightarrow> string option" where
  "calculate_odex_file_path_default apk_path instruction_set =
     (if \<not> is_absolute_path apk_path then None
      else if \<not> is_valid_instruction_set instruction_set then None
      else
        (case rfind_char CHR ''.'' apk_path of
           None \<Rightarrow> None
         | Some end_ \<Rightarrow>
             (case rfind_char_upto CHR ''/'' apk_path end_ of
                None \<Rightarrow> None
              | Some start \<Rightarrow>
                  calculate_oat_file_path_default (take (start + 1) apk_path @ ''oat'') apk_path instruction_set)))"

definition create_cache_path_default :: "globals \<Rightarrow> string \<Rightarrow> string \<Rightarrow> string option" where
  "create_cache_path_default g src instruction_set =
     (if \<not> is_absolute_path src then None
      else if \<not> is_valid_instruction_set instruction_set then None
      else
        (let res = android_data_dir g @ ''dalvik-cache'' @ ''/'' @ instruction_set
               @ take 1 src @ map (\<lambda>c. if c = CHR ''/'' then CHR ''@'' else c) (drop 1 src)
               @ ''@classes.dex''
         in if length res \<ge> PKG_PATH_MAX then None else Some res))"

text \<open>The outer option is the abort of \<open>validate_apk_path\<close> running out of nested calls.\<close>

definition create_oat_out_path ::
  "globals \<Rightarrow> string \<Rightarrow> string \<Rightarrow> cstring \<Rightarrow> bool \<Rightarrow> string option option" where
  "create_oat_out_path g apk_path instruction_set oat_dir is_secondary_dex =
     (if \<not> validate_dex_path_size apk_path then Some None
      else
        (case oat_dir of
           Some d \<Rightarrow>
             if IsOutputDalvikCache (Some d) then Some (create_cache_path_default g apk_path instruction_set)
             else if is_secondary_dex
             then Some (calculate_oat_file_path_default d apk_path instruction_set)
             else do {
               v \<leftarrow> validate_apk_path g d;
               Some (if v \<noteq> 0 then None else calculate_oat_file_path_default d apk_path instruction_set) }
         | None \<Rightarrow> Some (create_cache_path_default g apk_path instruction_set)))"

section \<open>The files beside an oat file\<close>

definition replace_file_extension :: "string \<Rightarrow> string \<Rightarrow> string" where
  "replace_file_extension oat_path new_ext =
     (if suffix ''.dex'' oat_path then take (length oat_path - 4) oat_path @ new_ext
      else
        (case rfind_sub ''.odex'' oat_path of
           Some odex_pos \<Rightarrow> take odex_pos oat_path @ new_ext @ drop (odex_pos + 5) oat_path
         | None \<Rightarrow> []))"

definition create_image_filename :: "string \<Rightarrow> string" where
  "create_image_filename oat_path = replace_file_extension oat_path ''.art''"

definition create_vdex_filename :: "string \<Rightarrow> string" where
  "create_vdex_filename oat_path = replace_file_extension oat_path ''.vdex''"

definition get_location_from_path :: "string \<Rightarrow> string" where
  "get_location_from_path path =
     (case rfind_char CHR ''/'' path of None \<Rightarrow> path | Some i \<Rightarrow> drop (i + 1) path)"

section \<open>Facts about the paths\<close>

lemma find_sub_append: "find_sub pat (pat @ s) = Some 0"
proof (cases "pat @ s")
  case (Cons c t)
  then have "prefix pat (c # t)" by (metis prefixI)
  then show ?thesis unfolding Cons by simp
qed simp

lemma rfind_sub_suffix: "rfind_sub pat (s @ pat) = Some (length s)"
  by (simp add: rfind_sub_def find_sub_append)

lemma is_absolute_path_iff: "is_absolute_path p \<longleftrightarrow> (\<exists>q. p = CHR ''/'' # q) \<and> \<not> sublist ''..'' p"
  by (cases p) (auto simp: is_absolute_path_def find_char_def find_sub_None simp del: find_sub.simps)

lemma is_valid_instruction_set_iff: "is_valid_instruction_set isa \<longleftrightarrow> CHR ''/'' \<notin> set isa"
  by (simp add: is_valid_instruction_set_def cstr)

text \<open>The two \<open>CHECK\<close>s of \<open>replace_file_extension\<close> hold: the new name contains the extension.\<close>

lemma replace_file_extension_checks:
  "replace_file_extension p ext \<noteq> [] \<Longrightarrow> find_sub ext (replace_file_extension p ext) \<noteq> None"
  "suffix ''.dex'' p \<Longrightarrow> suffix ext (replace_file_extension p ext)"
  by (auto simp: replace_file_extension_def find_sub_None suffix_def split: option.splits)

lemma replace_odex: "replace_file_extension (s @ ''.odex'') ext = s @ ext"
proof -
  have "\<not> suffix ''.dex'' (s @ ''.odex'')"
    by (auto simp: suffix_def append_eq_append_conv2 Cons_eq_append_conv)
  moreover have "rfind_sub ''.odex'' (s @ ''.odex'') = Some (length s)"
    using rfind_sub_suffix [of "''.odex''" s] by simp
  ultimately show ?thesis
    by (simp add: replace_file_extension_def del: rev_append)
qed

lemma replace_dex: "replace_file_extension (s @ ''.dex'') ext = s @ ext"
  by (simp add: replace_file_extension_def suffix_def)

lemma rfind_char_upto_Some:
  assumes "rfind_char_upto c s pos = Some i"
  shows "i \<le> pos" "i < length s" "s ! i = c" "c \<notin> set (take (pos - i) (drop (Suc i) s))"
proof -
  from assms have r: "rfind_char c (take (Suc pos) s) = Some i" by (simp add: rfind_char_upto_def)
  from rfind_char_Some(3) [OF this] show "i \<le> pos" "i < length s" by simp_all
  from rfind_char_Some(1) [OF r] rfind_char_Some(3) [OF r]
  have "take (Suc pos) s ! i = c" by (metis nth_append_length length_take min.absorb4)
  with \<open>i \<le> pos\<close> show "s ! i = c" by simp
  from rfind_char_Some(2) [OF r] show "c \<notin> set (take (pos - i) (drop (Suc i) s))"
    by (simp add: drop_take)
qed

lemma apk_path_split:
  assumes "rfind_char CHR ''.'' apk = Some e" "rfind_char_upto CHR ''/'' apk e = Some b"
  shows "apk = take b apk @ ''/'' @ take (e - b - 1) (drop (b + 1) apk) @ ''.'' @ drop (Suc e) apk"
    and "CHR ''/'' \<notin> set (take (e - b - 1) (drop (b + 1) apk))" "CHR ''.'' \<notin> set (drop (Suc e) apk)"
proof -
  note e = rfind_char_Some [OF assms(1)] and b = rfind_char_upto_Some [OF assms(2)]
  show "CHR ''.'' \<notin> set (drop (Suc e) apk)" by (rule e(2))
  show "CHR ''/'' \<notin> set (take (e - b - 1) (drop (b + 1) apk))"
    using b(4) set_take_subset_set_take [of "e - b - 1" "e - b" "drop (b + 1) apk"] by (auto simp: diff_le_mono2)
  have "apk ! e = CHR ''.''" using e by (metis nth_append_length length_take min.absorb4)
  with b(3) have "b \<noteq> e" by auto
  with b(1) have "b < e" by simp
  have "apk = take b apk @ CHR ''/'' # drop (Suc b) apk"
    using b(2,3) by (metis id_take_nth_drop)
  also have "drop (Suc b) apk = take (e - b - 1) (drop (Suc b) apk) @ drop (e - b - 1) (drop (Suc b) apk)" by (rule append_take_drop_id [symmetric])
  also have "drop (e - b - 1) (drop (Suc b) apk) = drop e apk" using \<open>b < e\<close> by simp
  also have "drop e apk = CHR ''.'' # drop (Suc e) apk"
    using e(3) \<open>apk ! e = CHR ''.''\<close> by (metis Cons_nth_drop_Suc)
  finally show "apk = take b apk @ ''/'' @ take (e - b - 1) (drop (b + 1) apk) @ ''.'' @ drop (Suc e) apk"
    by simp
qed

lemma calculate_oat_SomeE:
  assumes "calculate_oat_file_path_default d apk isa = Some p"
  obtains dir base ext where "apk = dir @ ''/'' @ base @ ''.'' @ ext" "CHR ''/'' \<notin> set base" "CHR ''.'' \<notin> set ext"
    "p = d @ ''/'' @ isa @ ''/'' @ base @ ''.odex''" "length p < PKG_PATH_MAX"
    "is_absolute_path d" "is_absolute_path apk" "CHR ''/'' \<notin> set isa"
proof -
  from assms obtain e b where eb: "rfind_char CHR ''.'' apk = Some e" "rfind_char_upto CHR ''/'' apk e = Some b"
    and p: "p = d @ ''/'' @ isa @ ''/'' @ take (e - b - 1) (drop (b + 1) apk) @ ''.odex''" "length p < PKG_PATH_MAX"
    and d: "is_absolute_path d" "is_absolute_path apk" "CHR ''/'' \<notin> set isa"
    by (auto simp: calculate_oat_file_path_default_def Let_def is_valid_instruction_set_iff not_le
        split: if_splits option.splits)
  show thesis by (rule that [OF apk_path_split [OF eb] p d])
qed

lemma calculate_odex_SomeE:
  assumes "calculate_odex_file_path_default apk isa = Some p"
  obtains dir base ext where "apk = dir @ ''/'' @ base @ ''.'' @ ext" "CHR ''/'' \<notin> set base" "CHR ''.'' \<notin> set ext"
    "p = dir @ ''/oat/'' @ isa @ ''/'' @ base @ ''.odex''" "length p < PKG_PATH_MAX"
    "is_absolute_path apk" "CHR ''/'' \<notin> set isa"
proof -
  from assms obtain e b where eb: "rfind_char CHR ''.'' apk = Some e" "rfind_char_upto CHR ''/'' apk e = Some b"
    and c: "calculate_oat_file_path_default (take (b + 1) apk @ ''oat'') apk isa = Some p"
    by (auto simp: calculate_odex_file_path_default_def split: if_splits option.splits)
  have "take (b + 1) apk = take b apk @ ''/''"
    using rfind_char_upto_Some [OF eb(2)] by (simp add: take_Suc_conv_app_nth)
  moreover from c eb have "p = (take (b + 1) apk @ ''oat'') @ ''/'' @ isa @ ''/''
        @ take (e - b - 1) (drop (b + 1) apk) @ ''.odex''" "length p < PKG_PATH_MAX"
      "is_absolute_path apk" "CHR ''/'' \<notin> set isa"
    by (auto simp: calculate_oat_file_path_default_def Let_def is_valid_instruction_set_iff not_le
        split: if_splits option.splits)
  ultimately show thesis
    by (intro that [OF apk_path_split [OF eb]]) simp_all
qed

text \<open>
  The dalvik cache keeps one directory per instruction set and encodes the whole path of the APK
  in the file name.  The encoding is lossy: a slash and an at sign become the same character.
\<close>

lemma cache_path_SomeD:
  assumes "create_cache_path_default g src isa = Some p"
  shows "src = CHR ''/'' # drop 1 src" "CHR ''/'' \<notin> set isa" "length p < PKG_PATH_MAX"
    "p = android_data_dir g @ ''dalvik-cache/'' @ isa @ ''/'' @
       map (\<lambda>c. if c = CHR ''/'' then CHR ''@'' else c) (drop 1 src) @ ''@classes.dex''"
  using assms
  by (auto simp: create_cache_path_default_def Let_def is_valid_instruction_set_iff is_absolute_path_iff not_le
      split: if_splits)

lemma cache_path_collides:
  "create_cache_path_default g ''/data/app/a@b.apk'' isa = create_cache_path_default g ''/data/app/a/b.apk'' isa"
proof -
  have "is_absolute_path ''/data/app/a@b.apk''" "is_absolute_path ''/data/app/a/b.apk''"
    by (simp_all add: is_absolute_path_def find_char_def)
  then show ?thesis by (simp add: create_cache_path_default_def Let_def)
qed

text \<open>\<open>..\<close> passes as an instruction set: the file is then one directory higher than the caller's.\<close>

lemma instruction_set_dot_dot:
  "calculate_oat_file_path_default ''/data/app/x/oat'' ''/data/app/x/base.apk'' ''..'' =
     Some ''/data/app/x/oat/../base.odex''"
  by (simp add: calculate_oat_file_path_default_def is_absolute_path_def is_valid_instruction_set_def find_char_def
      rfind_char_upto_def rfind_char_def Let_def PKG_PATH_MAX_def)

lemma decode_at: "CHR ''@'' \<notin> set s \<Longrightarrow>
  map (\<lambda>c. if c = CHR ''@'' then CHR ''/'' else c) (map (\<lambda>c. if c = CHR ''/'' then CHR ''@'' else c) s) = s"
  by (induction s) auto

lemma encode_at_inj:
  assumes "map (\<lambda>c. if c = CHR ''/'' then CHR ''@'' else c) s = map (\<lambda>c. if c = CHR ''/'' then CHR ''@'' else c) t"
    "CHR ''@'' \<notin> set s" "CHR ''@'' \<notin> set t"
  shows "s = t"
  using decode_at [OF assms(2)] decode_at [OF assms(3)] assms(1) by metis

lemma cache_path_inj:
  assumes "create_cache_path_default g s isa = Some p" "create_cache_path_default g t isb = Some p"
    "CHR ''@'' \<notin> set s" "CHR ''@'' \<notin> set t"
  shows "s = t" "isa = isb"
proof -
  note a = cache_path_SomeD [OF assms(1)] and b = cache_path_SomeD [OF assms(2)]
  define enc where "enc = map (\<lambda>c. if c = CHR ''/'' then CHR ''@'' else c)"
  have eq: "isa @ CHR ''/'' # enc (drop 1 s) = isb @ CHR ''/'' # enc (drop 1 t)"
    using a(4) b(4) by (simp add: enc_def)
  have "CHR ''/'' \<notin> set (enc (drop 1 s))" by (auto simp: enc_def)
  have isa: "takeWhile (\<lambda>c. c \<noteq> CHR ''/'') (i @ CHR ''/'' # x) = i" if "CHR ''/'' \<notin> set i" for i x
    using that by (subst takeWhile_append2) auto
  show "isa = isb"
    using arg_cong [OF eq, of "takeWhile (\<lambda>c. c \<noteq> CHR ''/'')"] unfolding isa [OF a(2)] isa [OF b(2)] .
  with eq have "enc (drop 1 s) = enc (drop 1 t)" by simp
  moreover have "CHR ''@'' \<notin> set (drop 1 s)" "CHR ''@'' \<notin> set (drop 1 t)"
    using assms(3,4) in_set_dropD by fast+
  ultimately have "drop 1 s = drop 1 t"
    unfolding enc_def by (rule encode_at_inj)
  then have "CHR ''/'' # drop 1 s = CHR ''/'' # drop 1 t" by simp
  then show "s = t" by (rule trans [OF a(1) trans [OF _ b(1) [symmetric]]])
qed

text \<open>Every path that \<open>create_oat_out_path\<close> makes has a vdex and an image name beside it.\<close>

lemma oat_out_path_stem:
  assumes "create_oat_out_path g apk isa oat_dir sec = Some (Some p)"
  obtains s where "p = s @ ''.odex'' \<or> p = s @ ''.dex''" "length p < PKG_PATH_MAX"
    "create_vdex_filename p = s @ ''.vdex''" "create_image_filename p = s @ ''.art''"
proof -
  have "\<exists>s. (p = s @ ''.odex'' \<or> p = s @ ''.dex'') \<and> length p < PKG_PATH_MAX"
  proof -
    consider "create_cache_path_default g apk isa = Some p"
      | d where "calculate_oat_file_path_default d apk isa = Some p"
      using assms by (auto simp: create_oat_out_path_def split: if_splits option.splits bind_splits)
    then show ?thesis
    proof cases
      case 1
      define enc where "enc = map (\<lambda>c. if c = CHR ''/'' then CHR ''@'' else c) (drop 1 apk)"
      from cache_path_SomeD(3,4) [OF 1, folded enc_def]
      have "p = (android_data_dir g @ ''dalvik-cache/'' @ isa @ ''/'' @ enc @ ''@classes'') @ ''.dex''"
        "length p < PKG_PATH_MAX" by simp_all
      then show ?thesis by blast
    next
      case (2 d)
      then obtain base where "p = (d @ ''/'' @ isa @ ''/'' @ base) @ ''.odex''" "length p < PKG_PATH_MAX"
        by (elim calculate_oat_SomeE) simp
      then show ?thesis by blast
    qed
  qed
  then show thesis
    by (auto simp: create_vdex_filename_def create_image_filename_def replace_odex replace_dex intro: that)
qed

text \<open>
  a compiled file outside the dalvik cache is named after the APK (its last component up to
  the last dot) and lies in the subdirectory of the instruction set; every oat path fits its
  buffer, and the oat, vdex and image files that go together are three different files that differ
  only in the extension.
\<close>

theorem oat_artifacts:
  assumes "create_oat_out_path g apk isa oat_dir sec = Some (Some p)"
  shows "length p < PKG_PATH_MAX \<and>
    (\<exists>s. (p = s @ ''.odex'' \<or> p = s @ ''.dex'') \<and> create_vdex_filename p = s @ ''.vdex'' \<and>
       create_image_filename p = s @ ''.art'') \<and>
    distinct [p, create_vdex_filename p, create_image_filename p] \<and>
    (IsOutputDalvikCache oat_dir \<or>
      (\<exists>d dir base ext. oat_dir = Some d \<and> apk = dir @ ''/'' @ base @ ''.'' @ ext \<and> CHR ''/'' \<notin> set base \<and>
         CHR ''.'' \<notin> set ext \<and> CHR ''/'' \<notin> set isa \<and> p = d @ ''/'' @ isa @ ''/'' @ base @ ''.odex''))"
proof -
  obtain s where s: "p = s @ ''.odex'' \<or> p = s @ ''.dex''" "length p < PKG_PATH_MAX"
    "create_vdex_filename p = s @ ''.vdex''" "create_image_filename p = s @ ''.art''"
    by (rule oat_out_path_stem [OF assms])
  have "\<exists>d dir base ext. oat_dir = Some d \<and> apk = dir @ ''/'' @ base @ ''.'' @ ext \<and> CHR ''/'' \<notin> set base \<and>
      CHR ''.'' \<notin> set ext \<and> CHR ''/'' \<notin> set isa \<and> p = d @ ''/'' @ isa @ ''/'' @ base @ ''.odex''"
    if "\<not> IsOutputDalvikCache oat_dir"
  proof -
    from that obtain d where d: "oat_dir = Some d"
      by (cases oat_dir) (auto simp: IsOutputDalvikCache_def)
    with that assms have "calculate_oat_file_path_default d apk isa = Some p"
      by (auto simp: create_oat_out_path_def split: if_splits bind_splits)
    then show ?thesis by (rule calculate_oat_SomeE) (use d in blast)
  qed
  with s show ?thesis by auto
qed

lemma demo_oat_path:
  "create_oat_out_path std_globals ''/data/app/x/base.apk'' ''arm'' (Some ''/data/app/x/oat'') True =
     Some (Some ''/data/app/x/oat/arm/base.odex'')"
  by (simp add: create_oat_out_path_def validate_dex_path_size_def IsOutputDalvikCache_def
      calculate_oat_file_path_default_def is_absolute_path_def is_valid_instruction_set_def find_char_def
      rfind_char_upto_def rfind_char_def Let_def PKG_PATH_MAX_def)

theorem oat_artifacts_witness:
  "\<exists>s. create_vdex_filename ''/data/app/x/oat/arm/base.odex'' = s @ ''.vdex'' \<and>
     create_image_filename ''/data/app/x/oat/arm/base.odex'' = s @ ''.art''"
  using oat_artifacts [OF demo_oat_path] by blast

end
