(* ===== verification/DexProfiles.thy ===== *)
theory DexProfiles
  imports ProcMonitor DexPaths
begin

text \<open>
  The profiles of \<open>installd/dexopt.cpp\<close>: clearing, opening and merging them with
  \<open>profman\<close>, which runs in a child process with the privileges of the app.  System properties are
  a function of the environment.
\<close>

section \<open>The environment\<close>

record dex_env =
  d_svc :: svc_env
  d_props :: "string \<Rightarrow> string"
  d_getenv :: "string \<Rightarrow> cstring"
  d_flags :: "string \<Rightarrow> string \<Rightarrow> string"

definition GetProperty :: "dex_env \<Rightarrow> string \<Rightarrow> string \<Rightarrow> string" where
  "GetProperty env key default_value = (let v = d_props env key in if v = [] then default_value else v)"

definition GetBoolProperty :: "dex_env \<Rightarrow> string \<Rightarrow> bool \<Rightarrow> bool" where
  "GetBoolProperty env key default_value =
     (let v = d_props env key
      in if v \<in> {''1'', ''y'', ''yes'', ''on'', ''true''} then True
         else if v \<in> {''0'', ''n'', ''no'', ''off'', ''false''} then False
         else default_value)"

definition is_debug_runtime :: "dex_env \<Rightarrow> bool" where
  "is_debug_runtime env \<longleftrightarrow> GetProperty env ''persist.sys.dalvik.vm.lib.2'' [] = ''libartd.so''"

definition is_debuggable_build :: "dex_env \<Rightarrow> bool" where
  "is_debuggable_build env = GetBoolProperty env ''ro.debuggable'' False"

definition select_execution_binary ::
  "string \<Rightarrow> string \<Rightarrow> bool \<Rightarrow> bool \<Rightarrow> bool \<Rightarrow> bool \<Rightarrow> string proc_prog" where
  "select_execution_binary binary debug_binary background_job_compile debug_runtime is_release debuggable_build =
     (let is_debug_bg_job = background_job_compile \<and> debuggable_build \<and> \<not> is_release
      in if debug_runtime \<or> is_debug_bg_job
         then Call (AccessX debug_binary) (\<lambda>r. pure (if rc r = 0 then debug_binary else binary))
         else pure binary)"

definition select_binary :: "dex_env \<Rightarrow> string \<Rightarrow> string \<Rightarrow> bool \<Rightarrow> string proc_prog" where
  "select_binary env binary debug_binary background =
     select_execution_binary binary debug_binary background (is_debug_runtime env)
       (GetProperty env ''ro.build.version.codename'' [] = ''REL'') (is_debuggable_build env)"

section \<open>Clearing profiles\<close>

definition EEXIST :: int where "EEXIST = 17"

definition clear_profile :: "string \<Rightarrow> bool proc_prog" where
  "clear_profile profile =
     Call (Open profile [O_WRONLY, O_NOFOLLOW, O_CLOEXEC] 0) (\<lambda>r.
       if rc r < 0 then errno (\<lambda>e. if e \<noteq> ENOENT then pure False else pure True)
       else with_fd (rc r)
         (Call (FlockEx (rc r)) (\<lambda>l.
            if rc l \<noteq> 0 then pure False
            else Call (Ftruncate (rc r) 0) (\<lambda>t. Call (FlockUn (rc r)) (\<lambda>_. pure (rc t = 0))))))"

definition clear_reference_profile :: "dex_env \<Rightarrow> string \<Rightarrow> string \<Rightarrow> bool \<Rightarrow> bool proc_prog" where
  "clear_reference_profile env package_name location is_secondary_dex =
     with_some (create_reference_profile_path (se_globals (d_svc env)) package_name location is_secondary_dex) clear_profile"

definition clear_current_profile :: "dex_env \<Rightarrow> string \<Rightarrow> string \<Rightarrow> int \<Rightarrow> bool \<Rightarrow> bool proc_prog" where
  "clear_current_profile env package_name location user is_secondary_dex =
     with_some (create_current_profile_path (se_globals (d_svc env)) (nat user) package_name location is_secondary_dex)
       clear_profile"

definition clear_primary_reference_profile :: "dex_env \<Rightarrow> string \<Rightarrow> string \<Rightarrow> bool proc_prog" where
  "clear_primary_reference_profile env package_name location = clear_reference_profile env package_name location False"

fun clear_currents :: "dex_env \<Rightarrow> string \<Rightarrow> string \<Rightarrow> int list \<Rightarrow> bool \<Rightarrow> bool proc_prog" where
  "clear_currents env package_name location [] success = pure success"
| "clear_currents env package_name location (user # users) success =
     bindx (clear_current_profile env package_name location user False)
       (\<lambda>ok. clear_currents env package_name location users (success \<and> ok))"

definition known_users :: "dex_env \<Rightarrow> int list" where
  "known_users env = get_known_users (se_users (d_svc env) None)"

definition clear_primary_current_profiles :: "dex_env \<Rightarrow> string \<Rightarrow> string \<Rightarrow> bool proc_prog" where
  "clear_primary_current_profiles env package_name location =
     clear_currents env package_name location (known_users env) True"

definition clear_primary_current_profile :: "dex_env \<Rightarrow> string \<Rightarrow> string \<Rightarrow> int \<Rightarrow> bool proc_prog" where
  "clear_primary_current_profile env package_name location user =
     clear_current_profile env package_name location user False"

section \<open>Opening profiles\<close>

text \<open>The descriptor, or -1.\<close>

definition create_profile :: "int \<Rightarrow> string \<Rightarrow> oflag list \<Rightarrow> int proc_prog" where
  "create_profile uid profile flags =
     Call (Open profile flags 384) (\<lambda>r.
       let own = Call (Fchown (rc r) uid uid) (\<lambda>c.
             if rc c < 0 then bindx (close_fd (rc r)) (\<lambda>_. pure (-1)) else pure (rc r))
       in if rc r < 0 then errno (\<lambda>e. if e \<noteq> EEXIST then pure (-1) else own) else own)"

definition open_profile :: "int \<Rightarrow> string \<Rightarrow> oflag list \<Rightarrow> int proc_prog" where
  "open_profile uid profile flags =
     (let flags = flags @ [O_NOFOLLOW]
      in bindx (if O_CREAT \<in> set flags then create_profile uid profile flags
                else Call (Open profile flags 0) (\<lambda>r. pure (rc r)))
           (\<lambda>fd. if fd < 0 then pure (-1) else pure fd))"

definition open_current_profile :: "dex_env \<Rightarrow> int \<Rightarrow> int \<Rightarrow> string \<Rightarrow> string \<Rightarrow> bool \<Rightarrow> int proc_prog" where
  "open_current_profile env uid user package_name location is_secondary_dex =
     with_some (create_current_profile_path (se_globals (d_svc env)) (nat user) package_name location is_secondary_dex)
       (\<lambda>profile. open_profile uid profile [O_RDONLY])"

definition open_reference_profile :: "dex_env \<Rightarrow> int \<Rightarrow> string \<Rightarrow> string \<Rightarrow> bool \<Rightarrow> bool \<Rightarrow> int proc_prog" where
  "open_reference_profile env uid package_name location read_write is_secondary_dex =
     with_some (create_reference_profile_path (se_globals (d_svc env)) package_name location is_secondary_dex)
       (\<lambda>profile. open_profile uid profile (if read_write then [O_CREAT, O_RDWR] else [O_RDONLY]))"

definition open_snapshot_profile :: "dex_env \<Rightarrow> int \<Rightarrow> string \<Rightarrow> string \<Rightarrow> int proc_prog" where
  "open_snapshot_profile env uid package_name location =
     with_some (create_snapshot_profile_path (se_globals (d_svc env)) package_name location)
       (\<lambda>profile. open_profile uid profile [O_CREAT, O_RDWR, O_TRUNC])"

fun open_currents :: "dex_env \<Rightarrow> int \<Rightarrow> string \<Rightarrow> string \<Rightarrow> bool \<Rightarrow> int list \<Rightarrow> int list proc_prog" where
  "open_currents env uid package_name location is_secondary_dex [] = pure []"
| "open_currents env uid package_name location is_secondary_dex (user # users) =
     bindx (open_current_profile env uid user package_name location is_secondary_dex) (\<lambda>fd.
       bindx (open_currents env uid package_name location is_secondary_dex users) (\<lambda>fds.
         pure (if fd \<ge> 0 then fd # fds else fds)))"

definition open_profile_files :: "dex_env \<Rightarrow> int \<Rightarrow> string \<Rightarrow> string \<Rightarrow> bool \<Rightarrow> (int list \<times> int) proc_prog" where
  "open_profile_files env uid package_name location is_secondary_dex =
     bindx (open_reference_profile env uid package_name location True is_secondary_dex) (\<lambda>reference_profile_fd.
       bindx (open_currents env uid package_name location is_secondary_dex
                (if is_secondary_dex then [se_user_of (d_svc env) uid] else known_users env))
         (\<lambda>profiles_fd. pure (profiles_fd, reference_profile_fd)))"

section \<open>Running profman\<close>

text \<open>
  The command line of \<open>RunProfman::SetupArgs\<close>, after the arguments \<open>pre\<close> added before.  The two
  \<open>CHECK_EQ\<close>s of \<open>copy_and_update\<close> hold for its only caller, which passes one of each.
\<close>

definition profman_args ::
  "dex_env \<Rightarrow> string list \<Rightarrow> int list \<Rightarrow> int \<Rightarrow> int list \<Rightarrow> string list \<Rightarrow> bool \<Rightarrow> bool \<Rightarrow> string list proc_prog" where
  "profman_args env pre profile_fds reference_profile_fd apk_fds dex_locations copy_and_update store_aggregation_counters =
     bindx (select_binary env ''/apex/com.android.runtime/bin/profman'' ''/apex/com.android.runtime/bin/profmand'' True)
       (\<lambda>bin.
         if copy_and_update \<and> (length profile_fds \<noteq> 1 \<or> length apk_fds \<noteq> 1) then Abort
         else pure (bin # pre
           @ (if reference_profile_fd \<noteq> -1 then [''--reference-profile-file-fd='' @ dec_int reference_profile_fd] else [])
           @ map (\<lambda>fd. ''--profile-file-fd='' @ dec_int fd) profile_fds
           @ map (\<lambda>fd. ''--apk-fd='' @ dec_int fd) apk_fds
           @ map (\<lambda>l. ''--dex-location='' @ l) dex_locations
           @ (if copy_and_update then [''--copy-and-update-profile-key''] else [])
           @ (if store_aggregation_counters then [''--store-aggregation-counters''] else [])))"

definition fork_exec :: "int \<Rightarrow> string list \<Rightarrow> int \<Rightarrow> (int \<Rightarrow> 'a proc_prog) \<Rightarrow> 'a proc_prog" where
  "fork_exec uid argv code parent =
     fork_child (bindx (drop_capabilities uid) (\<lambda>_. exec_or_exit argv code)) parent"

text \<open>What an exit code of \<open>profman\<close> means: compile, clear the current profiles, clear the reference profile.\<close>

definition profman_verdict :: "int \<Rightarrow> bool \<times> bool \<times> bool" where
  "profman_verdict code =
     (if code = 0 then (True, True, False)
      else if code = 1 then (False, False, False)
      else if code = 2 then (False, True, True)
      else if code = 3 \<or> code = 4 then (False, False, False)
      else (False, True, True))"

definition analyze_profiles :: "dex_env \<Rightarrow> int \<Rightarrow> string \<Rightarrow> string \<Rightarrow> bool \<Rightarrow> bool proc_prog" where
  "analyze_profiles env uid package_name location is_secondary_dex =
     bindx (open_profile_files env uid package_name location is_secondary_dex) (\<lambda>(profiles_fd, reference_profile_fd).
       with_fds profiles_fd (with_fd reference_profile_fd
         (if profiles_fd = [] \<or> reference_profile_fd < 0 then pure False
          else bindx (profman_args env [] profiles_fd reference_profile_fd [] [] False False) (\<lambda>argv.
            fork_exec uid argv kProfmanExec (\<lambda>pid.
              bindx (wait_child pid) (\<lambda>return_code.
                let (need_to_compile, clear_current, clear_reference) =
                      (if \<not> WIFEXITED return_code then (False, False, False)
                       else profman_verdict (WEXITSTATUS return_code))
                in bindx (if clear_current then
                            (if is_secondary_dex
                             then clear_current_profile env package_name location (se_user_of (d_svc env) uid) True
                             else clear_primary_current_profiles env package_name location)
                          else pure True) (\<lambda>_.
                   bindx (if clear_reference then clear_reference_profile env package_name location is_secondary_dex
                          else pure True) (\<lambda>_. pure need_to_compile))))))))"

definition analyze_primary_profiles :: "dex_env \<Rightarrow> int \<Rightarrow> string \<Rightarrow> string \<Rightarrow> bool proc_prog" where
  "analyze_primary_profiles env uid package_name profile_name = analyze_profiles env uid package_name profile_name False"

section \<open>Dumping and copying\<close>

definition dump_profiles :: "dex_env \<Rightarrow> int \<Rightarrow> string \<Rightarrow> string \<Rightarrow> string \<Rightarrow> bool proc_prog" where
  "dump_profiles env uid pkgname profile_name code_path =
     (let out_file_name = ''/data/misc/profman/'' @ pkgname @ ''-'' @ profile_name @ ''.txt'' in
      bindx (open_profile_files env uid pkgname profile_name False) (\<lambda>(profile_fds, reference_profile_fd).
       with_fds profile_fds (with_fd reference_profile_fd
         (if reference_profile_fd = -1 \<and> profile_fds = [] then pure False
          else Call (Open out_file_name [O_WRONLY, O_CREAT, O_TRUNC, O_NOFOLLOW] 420) (\<lambda>out.
            with_fd (rc out) (Call (Fchmod (rc out) 420) (\<lambda>m.
              if rc m < 0 then pure False
              else Call (Open code_path [O_RDONLY, O_NOFOLLOW] 0) (\<lambda>apk.
                if rc apk = -1 then pure False
                else with_fds [rc apk]
                  (bindx (profman_args env [''--dump-only'', ''--dump-output-to-fd='' @ dec_int (rc out)]
                            profile_fds reference_profile_fd [rc apk] [get_location_from_path code_path] False False)
                    (\<lambda>argv. fork_exec uid argv kProfmanExec (\<lambda>pid.
                       bindx (wait_child pid) (\<lambda>return_code. pure (WIFEXITED return_code)))))))))))))"

text \<open>
  The loop ends at the end of the file; an error, whose count is negative, is passed on to
  \<open>write\<close>.  The fuel is the number of reads.
\<close>

fun copy_loop :: "nat \<Rightarrow> int \<Rightarrow> int \<Rightarrow> unit proc_prog" where
  "copy_loop 0 in_fd out_fd = Ret Running"
| "copy_loop (Suc n) in_fd out_fd =
     Call (ReadFd in_fd 4096) (\<lambda>r.
       if rc r = 0 then pure ()
       else Call (WriteFd out_fd (r_str r) (rc r)) (\<lambda>_. copy_loop n in_fd out_fd))"

definition copy_system_profile ::
  "dex_env \<Rightarrow> nat \<Rightarrow> string \<Rightarrow> int \<Rightarrow> string \<Rightarrow> string \<Rightarrow> bool proc_prog" where
  "copy_system_profile env fuel system_profile packageUid package_name profile_name =
     Call (Open system_profile [O_RDONLY, O_NOFOLLOW, O_CLOEXEC] 0) (\<lambda>i.
       with_fd (rc i)
         (bindx (open_reference_profile env packageUid package_name profile_name True False) (\<lambda>out_fd.
           with_fd out_fd
             (if rc i < 0 then pure False
              else if out_fd < 0 then pure False
              else fork_child
                (bindx (drop_capabilities packageUid) (\<lambda>_.
                   Call (FlockEx out_fd) (\<lambda>l.
                     if rc l \<noteq> 0 then pure False
                     else Call (Ftruncate out_fd 0) (\<lambda>_.
                       bindx (copy_loop fuel (rc i) out_fd) (\<lambda>_.
                         Call (FlockUn out_fd) (\<lambda>_. exit_process 0))))))
                (\<lambda>pid. bindx (wait_child pid) (\<lambda>return_code. pure (return_code = 0)))))))"

section \<open>Snapshots\<close>

definition DT_DIR :: int where "DT_DIR = 4"
definition DT_REG :: int where "DT_REG = 8"

text \<open>
  The loop over the entries of the stream \<open>d\<close>, whose descriptor \<open>dirfd\<close> returns: whether there was no
  error, and the profiles.  \<open>Fdopendir\<close> closes the descriptor when there is no stream for it.  The fuel
  bounds the entries of a directory and the depth together.
\<close>

fun collect_entries :: "nat \<Rightarrow> int \<Rightarrow> string \<Rightarrow> (bool \<times> string list) proc_prog" where
  "collect_entries 0 d current_path = Ret Running"
| "collect_entries (Suc n) d current_path =
     Call (Readdir d) (\<lambda>e.
       if rc e = 0 then pure (True, [])
       else
         (let name = r_str e; local_path = current_path @ ''/'' @ name in
          bindx
            (if r_status e = DT_REG then
               (if suffix ''.prof'' name then
                  Call (StatFile local_path) (\<lambda>s.
                    if rc s \<noteq> 0 then pure (False, [])
                    else pure (True, if r_size s > 0 then [local_path] else []))
                else pure (True, []))
             else if r_status e = DT_DIR then
               (if name = ''.'' \<or> name = ''..'' then pure (True, [])
                else Call (Openat d name) (\<lambda>s.
                  if rc s < 0 then pure (False, [])
                  else Call (Fdopendir (rc s)) (\<lambda>f.
                    if rc f = 0 then bindx (close_fd (rc s)) (\<lambda>_. pure (False, []))
                    else bindx (collect_entries n (rc s) local_path) (\<lambda>x.
                      Call (Closedir (rc s)) (\<lambda>_. pure x)))))
             else pure (True, []))
            (\<lambda>(result1, paths1).
               bindx (collect_entries n d current_path) (\<lambda>(result2, paths2).
                 pure (result1 \<and> result2, paths1 @ paths2)))))"

text \<open>The stream of the profiles directory is not closed.\<close>

definition collect_profiles :: "dex_env \<Rightarrow> nat \<Rightarrow> (bool \<times> string list) proc_prog" where
  "collect_profiles env fuel =
     (let dir = android_profiles_dir (se_globals (d_svc env)) in
      Call (Opendir dir) (\<lambda>d. if rc d < 0 then pure (False, []) else collect_entries fuel (rc d) dir))"

text \<open>The descriptors and locations opened so far, and whether every element could be opened.\<close>

fun open_classpath_elems :: "string list \<Rightarrow> int list \<Rightarrow> string list \<Rightarrow> (bool \<times> int list \<times> string list) proc_prog" where
  "open_classpath_elems [] apk_fds dex_locations = pure (True, apk_fds, dex_locations)"
| "open_classpath_elems (elem # elems) apk_fds dex_locations =
     Call (Open elem [O_RDONLY] 0) (\<lambda>r.
       if rc r < 0 then pure (False, apk_fds, dex_locations)
       else open_classpath_elems elems (apk_fds @ [rc r]) (dex_locations @ [elem]))"

definition open_classpath_files :: "string \<Rightarrow> (bool \<times> int list \<times> string list) proc_prog" where
  "open_classpath_files classpath = open_classpath_elems (split_on CHR '':'' classpath) [] []"

definition create_app_profile_snapshot ::
  "dex_env \<Rightarrow> int \<Rightarrow> string \<Rightarrow> string \<Rightarrow> string \<Rightarrow> bool proc_prog" where
  "create_app_profile_snapshot env app_id package_name profile_name classpath =
     (let app_shared_gid = to_u32 (se_shared_gid (d_svc env) 0 app_id) in
      bindx (open_snapshot_profile env (AID_SYSTEM (d_svc env)) package_name profile_name) (\<lambda>snapshot_fd.
       if snapshot_fd < 0 then pure False
       else with_fd snapshot_fd
         (bindx (open_profile_files env app_shared_gid package_name profile_name False)
           (\<lambda>(profiles_fd, reference_profile_fd).
             if profiles_fd = [] \<or> reference_profile_fd < 0
             then with_fds profiles_fd (with_fd reference_profile_fd (pure False))
             else with_fds (profiles_fd @ [reference_profile_fd])
               (bindx (open_classpath_files classpath) (\<lambda>(ok, apk_fds, dex_locations).
                  with_fds apk_fds
                    (if \<not> ok then pure False
                     else bindx (profman_args env [] (profiles_fd @ [reference_profile_fd]) snapshot_fd
                                   apk_fds dex_locations False False) (\<lambda>argv.
                       fork_exec app_shared_gid argv kProfmanExec (\<lambda>pid.
                         bindx (wait_child pid) (\<lambda>return_code. pure (WIFEXITED return_code)))))))))))"

fun open_batch :: "int \<Rightarrow> string list \<Rightarrow> int list proc_prog" where
  "open_batch uid [] = pure []"
| "open_batch uid (p # ps) =
     bindx (open_profile uid p [O_RDONLY]) (\<lambda>fd.
       bindx (open_batch uid ps) (\<lambda>fds. pure (if fd \<ge> 0 then fd # fds else fds)))"

text \<open>
  The loop over the batches: \<open>return true\<close> stands inside it, so it ends with the first batch.
\<close>

definition aggregate_batches ::
  "dex_env \<Rightarrow> int \<Rightarrow> int list \<Rightarrow> string list \<Rightarrow> string list \<Rightarrow> bool proc_prog" where
  "aggregate_batches env snapshot_fd apk_fds dex_locations profiles =
     (if profiles = [] then pure True
      else bindx (open_batch (AID_SYSTEM (d_svc env)) (take 10 profiles)) (\<lambda>profiles_fd.
        with_fds profiles_fd
          (bindx (profman_args env [] profiles_fd snapshot_fd apk_fds dex_locations False True) (\<lambda>argv.
             fork_exec (AID_SYSTEM (d_svc env)) argv kProfmanExec (\<lambda>pid.
               bindx (wait_child pid) (\<lambda>return_code.
                 if \<not> WIFEXITED return_code then pure False else pure True))))))"

definition create_boot_image_profile_snapshot ::
  "dex_env \<Rightarrow> nat \<Rightarrow> string \<Rightarrow> string \<Rightarrow> string \<Rightarrow> bool proc_prog" where
  "create_boot_image_profile_snapshot env fuel package_name profile_name classpath =
     with_some (create_primary_reference_profile_package_dir_path (se_globals (d_svc env)) package_name)
       (\<lambda>ref_profile_dir.
         Call (Sys (PrepareDir ref_profile_dir 504 (AID_SYSTEM (d_svc env)) (AID_SYSTEM (d_svc env)))) (\<lambda>r.
           if rc r \<noteq> 0 then pure False
           else if classpath = [] then pure False
           else bindx (open_snapshot_profile env (AID_SYSTEM (d_svc env)) package_name profile_name) (\<lambda>snapshot_fd.
             with_fd snapshot_fd
               (bindx (collect_profiles env fuel) (\<lambda>(_, profiles).
                  if profiles = [] then pure True
                  else bindx (open_classpath_files classpath) (\<lambda>(ok, apk_fds, dex_locations).
                    with_fds apk_fds
                      (if \<not> ok then pure False
                       else if apk_fds = [] then pure False
                       else aggregate_batches env snapshot_fd apk_fds dex_locations profiles)))))))"

definition create_profile_snapshot ::
  "dex_env \<Rightarrow> nat \<Rightarrow> int \<Rightarrow> string \<Rightarrow> string \<Rightarrow> string \<Rightarrow> bool proc_prog" where
  "create_profile_snapshot env fuel app_id package_name profile_name classpath =
     (if app_id = -1 then create_boot_image_profile_snapshot env fuel package_name profile_name classpath
      else create_app_profile_snapshot env app_id package_name profile_name classpath)"

section \<open>Preparing the profile of an app\<close>

definition prepare_app_profile ::
  "dex_env \<Rightarrow> string \<Rightarrow> int \<Rightarrow> int \<Rightarrow> string \<Rightarrow> string \<Rightarrow> cstring \<Rightarrow> bool proc_prog" where
  "prepare_app_profile env package_name user_id app_id profile_name code_path dex_metadata =
     with_some (create_current_profile_path (se_globals (d_svc env)) (nat user_id) package_name profile_name False)
       (\<lambda>cur_profile.
         let uid = se_get_uid (d_svc env) user_id app_id in
         Call (PrepareFileStrict cur_profile 384 uid uid) (\<lambda>r.
           if rc r \<noteq> 0 then pure False
           else
             (case dex_metadata of
                None \<Rightarrow> pure True
              | Some dm \<Rightarrow>
                  bindx (open_reference_profile env uid package_name profile_name True False) (\<lambda>ref_profile_fd.
                   with_fd ref_profile_fd
                   (Call (Open dm [O_RDONLY, O_NOFOLLOW] 0) (\<lambda>d. with_fd (rc d)
                   (Call (Open code_path [O_RDONLY, O_NOFOLLOW] 0) (\<lambda>a. with_fd (rc a)
                     (if rc a < 0 then pure False
                      else bindx (profman_args env [] [rc d] ref_profile_fd [rc a] [code_path] True False) (\<lambda>argv.
                        fork_exec (to_u32 (se_shared_gid (d_svc env) user_id app_id)) argv kProfmanExec (\<lambda>pid.
                          bindx (wait_child pid) (\<lambda>return_code. pure (WIFEXITED return_code)))))))))))))"

end
