(* ===== verification/DexSecondary.thy ===== *)
theory DexSecondary
  imports DexProfiles
begin

text \<open>
  Secondary dex files, which live in the data of an app (\<open>installd/dexopt.cpp\<close>): deciding with
  \<open>dexoptanalyzer\<close> whether one needs compiling, removing what belongs to one that is gone, and
  hashing one.  All of it runs in a child with the privileges of the app.
\<close>

section \<open>Flags\<close>

definition DEXOPT_PUBLIC :: int where "DEXOPT_PUBLIC = 2"
definition DEXOPT_DEBUGGABLE :: int where "DEXOPT_DEBUGGABLE = 4"
definition DEXOPT_BOOTCOMPLETE :: int where "DEXOPT_BOOTCOMPLETE = 8"
definition DEXOPT_PROFILE_GUIDED :: int where "DEXOPT_PROFILE_GUIDED = 16"
definition DEXOPT_SECONDARY_DEX :: int where "DEXOPT_SECONDARY_DEX = 32"
definition DEXOPT_FORCE :: int where "DEXOPT_FORCE = 64"
definition DEXOPT_STORAGE_CE :: int where "DEXOPT_STORAGE_CE = 128"
definition DEXOPT_STORAGE_DE :: int where "DEXOPT_STORAGE_DE = 256"
definition DEXOPT_IDLE_BACKGROUND_JOB :: int where "DEXOPT_IDLE_BACKGROUND_JOB = 512"
definition DEXOPT_ENABLE_HIDDEN_API_CHECKS :: int where "DEXOPT_ENABLE_HIDDEN_API_CHECKS = 1024"
definition DEXOPT_GENERATE_COMPACT_DEX :: int where "DEXOPT_GENERATE_COMPACT_DEX = 2048"
definition DEXOPT_GENERATE_APP_IMAGE :: int where "DEXOPT_GENERATE_APP_IMAGE = 4096"

definition DEXOPT_MASK :: int where
  "DEXOPT_MASK = DEXOPT_PUBLIC OR DEXOPT_DEBUGGABLE OR DEXOPT_BOOTCOMPLETE OR DEXOPT_PROFILE_GUIDED OR
     DEXOPT_SECONDARY_DEX OR DEXOPT_FORCE OR DEXOPT_STORAGE_CE OR DEXOPT_STORAGE_DE OR
     DEXOPT_IDLE_BACKGROUND_JOB OR DEXOPT_ENABLE_HIDDEN_API_CHECKS OR DEXOPT_GENERATE_COMPACT_DEX OR
     DEXOPT_GENERATE_APP_IMAGE"

definition NO_DEXOPT_NEEDED :: int where "NO_DEXOPT_NEEDED = 0"
definition DEX2OAT_FROM_SCRATCH :: int where "DEX2OAT_FROM_SCRATCH = 1"
definition DEX2OAT_FOR_BOOT_IMAGE :: int where "DEX2OAT_FOR_BOOT_IMAGE = 2"
definition DEX2OAT_FOR_FILTER :: int where "DEX2OAT_FOR_FILTER = 3"

section \<open>The command line of dexoptanalyzer\<close>

definition add_arg :: "string \<Rightarrow> string list" where
  "add_arg arg = (if arg \<noteq> [] then [arg] else [])"

definition add_runtime_arg :: "string \<Rightarrow> string list" where
  "add_runtime_arg arg = (if arg \<noteq> [] then [''--runtime-arg'', arg] else [])"

definition select_dexoptanalyzer :: "dex_env \<Rightarrow> string proc_prog" where
  "select_dexoptanalyzer env =
     select_binary env ''/apex/com.android.runtime/bin/dexoptanalyzer'' ''/apex/com.android.runtime/bin/dexoptanalyzerd'' True"

definition dexoptanalyzer_args ::
  "dex_env \<Rightarrow> string \<Rightarrow> int \<Rightarrow> int \<Rightarrow> int \<Rightarrow> string \<Rightarrow> string \<Rightarrow> bool \<Rightarrow> bool \<Rightarrow> cstring \<Rightarrow> string \<Rightarrow> string list proc_prog" where
  "dexoptanalyzer_args env dex_file vdex_fd oat_fd zip_fd isa compiler_filter profile_was_updated downgrade
       class_loader_context class_loader_context_fds =
     (if zip_fd < 0 then Abort
      else bindx (select_dexoptanalyzer env) (\<lambda>bin.
        pure (bin # add_arg (''--dex-file='' @ dex_file)
          @ add_arg (''--isa='' @ isa)
          @ add_arg (''--compiler-filter='' @ compiler_filter)
          @ (if oat_fd \<ge> 0 then add_arg (''--oat-fd='' @ dec_int oat_fd) else [])
          @ (if vdex_fd \<ge> 0 then add_arg (''--vdex-fd='' @ dec_int vdex_fd) else [])
          @ add_arg (''--zip-fd='' @ dec_int zip_fd)
          @ (if profile_was_updated then add_arg ''--assume-profile-changed'' else [])
          @ (if downgrade then add_arg ''--downgrade'' else [])
          @ (case class_loader_context of
               None \<Rightarrow> []
             | Some c \<Rightarrow> add_arg (''--class-loader-context='' @ c)
                 @ (if class_loader_context_fds \<noteq> []
                    then add_arg (''--class-loader-context-fds='' @ class_loader_context_fds) else [])))))"

definition flatten_context_args :: "dex_env \<Rightarrow> string \<Rightarrow> string list proc_prog" where
  "flatten_context_args env class_loader_context =
     bindx (select_dexoptanalyzer env) (\<lambda>bin.
       pure (bin # add_arg ''--flatten-class-loader-context''
         @ add_arg (''--class-loader-context='' @ class_loader_context)))"

section \<open>Paths and access\<close>

definition prepare_secondary_dex_oat_dir :: "string \<Rightarrow> int \<Rightarrow> string \<Rightarrow> bool proc_prog" where
  "prepare_secondary_dex_oat_dir dex_path uid instruction_set =
     (case rfind_char CHR ''/'' dex_path of
        None \<Rightarrow> pure False
      | Some dirIndex \<Rightarrow>
          (let dex_dir = take dirIndex dex_path in
           bindx (lift (prepare_app_cache_dir dex_dir ''oat'' 505 uid uid)) (\<lambda>r.
             if r \<noteq> 0 then pure False
             else bindx (lift (prepare_app_cache_dir (cut (dex_dir @ ''/oat'')) instruction_set 505 uid uid))
               (\<lambda>r. pure (r = 0)))))"

definition process_secondary_dexoptanalyzer_result :: "int \<Rightarrow> int option" where
  "process_secondary_dexoptanalyzer_result result =
     (if result = 0 then Some NO_DEXOPT_NEEDED
      else if result = 1 then Some DEX2OAT_FROM_SCRATCH
      else if result = 4 then Some (- DEX2OAT_FOR_BOOT_IMAGE)
      else if result = 5 then Some (- DEX2OAT_FOR_FILTER)
      else if result = 2 \<or> result = 3 then None
      else if result = 205 then Some NO_DEXOPT_NEEDED
      else None)"

datatype dex_access = ReadOk | DoesNotExist | PermissionError | IOError

definition EACCES :: int where "EACCES = 13"

definition check_secondary_dex_access :: "string \<Rightarrow> (dex_access \<Rightarrow> 'a proc_prog) \<Rightarrow> 'a proc_prog" where
  "check_secondary_dex_access dex_path f =
     Call (AccessR dex_path) (\<lambda>r.
       if rc r = 0 then f ReadOk
       else errno (\<lambda>e. if e = ENOENT then f DoesNotExist else if e = EACCES then f PermissionError else f IOError))"

definition is_file_public :: "string \<Rightarrow> bool proc_prog" where
  "is_file_public filename = Call (Sys (Stat filename)) (\<lambda>r. pure (if rc r = 0 then r_mode r AND 4 \<noteq> 0 else False))"

definition create_secondary_dex_oat_layout ::
  "dex_env \<Rightarrow> string \<Rightarrow> string \<Rightarrow> (string \<times> string \<times> string) option" where
  "create_secondary_dex_oat_layout env dex_path isa =
     (case rfind_char CHR ''/'' dex_path of
        None \<Rightarrow> None
      | Some dirIndex \<Rightarrow>
          (let oat_dir = cut (take dirIndex dex_path @ ''/oat'');
               oat_isa_dir = cut (oat_dir @ ''/'' @ isa)
           in case create_oat_out_path (se_globals (d_svc env)) dex_path isa (Some oat_dir) True of
                Some (Some oat_path) \<Rightarrow> Some (oat_dir, oat_isa_dir, oat_path)
              | _ \<Rightarrow> None))"

definition validate_dexopt_storage_flags :: "int \<Rightarrow> int option" where
  "validate_dexopt_storage_flags dexopt_flags =
     (if has_flag dexopt_flags DEXOPT_STORAGE_CE then
        (if has_flag dexopt_flags DEXOPT_STORAGE_DE then None else Some FLAG_STORAGE_CE)
      else if has_flag dexopt_flags DEXOPT_STORAGE_DE then Some FLAG_STORAGE_DE
      else None)"

definition get_class_loader_context_dex_paths ::
  "dex_env \<Rightarrow> cstring \<Rightarrow> int \<Rightarrow> (bool \<times> string list) proc_prog" where
  "get_class_loader_context_dex_paths env class_loader_context uid =
     (case class_loader_context of
        None \<Rightarrow> pure (True, [])
      | Some ctx \<Rightarrow>
          Call Pipe (\<lambda>p.
            if rc p \<noteq> 0 then pure (False, [])
            else fork_child
              (bindx (drop_capabilities uid) (\<lambda>_.
                 Call (Dup2 (snd (r_fds p)) 1) (\<lambda>_.
                 bindx (close_fds [snd (r_fds p), fst (r_fds p)]) (\<lambda>_.
                 bindx (flatten_context_args env ctx) (\<lambda>argv. exec_or_exit argv 204)))))
              (\<lambda>pid.
                bindx (close_fd (snd (r_fds p))) (\<lambda>_.
                Call (ReadAll (fst (r_fds p))) (\<lambda>s.
                  bindx (close_fd (fst (r_fds p))) (\<lambda>_.
                    if rc s < 0 then pure (False, [])
                    else bindx (wait_child pid) (\<lambda>return_code.
                      if \<not> WIFEXITED return_code then pure (False, [])
                      else if WEXITSTATUS return_code \<noteq> 50 then pure (False, [])
                      else pure (True, if r_str s \<noteq> [] then split_on CHR '':'' (r_str s) else []))))))))"

text \<open>The code of \<open>open_dex_paths\<close> and the descriptors opened, the last one -1 when a file is missing.\<close>

fun open_dex_paths :: "string list \<Rightarrow> int list \<Rightarrow> (int \<times> int list) proc_prog" where
  "open_dex_paths [] zip_fds = pure (0, zip_fds)"
| "open_dex_paths (dex_path # dex_paths) zip_fds =
     Call (Open dex_path [O_RDONLY] 0) (\<lambda>r.
       if rc r < 0 then errno (\<lambda>e. pure (if e = ENOENT then 205 else 201, zip_fds @ [rc r]))
       else open_dex_paths dex_paths (zip_fds @ [rc r]))"

definition join_fds :: "int list \<Rightarrow> string" where
  "join_fds fds = join_with '':'' (map dec_int fds)"

text \<open>The descriptors, which may be -1.\<close>

definition maybe_open_oat_and_vdex_file ::
  "dex_env \<Rightarrow> string \<Rightarrow> string \<Rightarrow> string \<Rightarrow> bool \<Rightarrow> (int \<times> int) option proc_prog" where
  "maybe_open_oat_and_vdex_file env apk_path oat_dir instruction_set is_secondary_dex =
     with_some (create_oat_out_path (se_globals (d_svc env)) apk_path instruction_set (Some oat_dir) is_secondary_dex)
       (\<lambda>p. case p of
          None \<Rightarrow> pure None
        | Some oat_path \<Rightarrow>
            Call (Open oat_path [O_RDONLY] 0) (\<lambda>oat.
              Call (Open (create_vdex_filename oat_path) [O_RDONLY] 0) (\<lambda>vdex. pure (Some (rc oat, rc vdex)))))"

section \<open>Does a secondary dex file need compiling?\<close>

text \<open>The child never returns: it exits with a code of its own or runs \<open>dexoptanalyzer\<close>.\<close>

definition secondary_child ::
  "dex_env \<Rightarrow> string \<Rightarrow> string \<Rightarrow> cstring \<Rightarrow> int \<Rightarrow> string \<Rightarrow> string \<Rightarrow> string \<Rightarrow> bool \<Rightarrow> cstring \<Rightarrow> string list \<Rightarrow> int
     \<Rightarrow> 'a proc_prog" where
  "secondary_child env dex_path pkgname volume_uuid uid instruction_set compiler_filter oat_dir downgrade
       class_loader_context context_dex_paths storage_flag =
     bindx (drop_capabilities uid) (\<lambda>_.
      with_some (validate_secondary_dex_path (se_paths (d_svc env)) (\<lambda>u. nat (se_user_of (d_svc env) u)) pkgname
                   dex_path volume_uuid uid storage_flag) (\<lambda>valid.
       if \<not> valid then exit_process 200
       else Call (Open dex_path [O_RDONLY] 0) (\<lambda>zip.
         if rc zip < 0 then errno (\<lambda>e. if e = ENOENT then exit_process 205 else exit_process 201)
         else bindx (open_dex_paths context_dex_paths []) (\<lambda>(open_dex_paths_rc, context_zip_fds).
           if open_dex_paths_rc \<noteq> 0 then exit_process open_dex_paths_rc
           else bindx (prepare_secondary_dex_oat_dir dex_path uid instruction_set) (\<lambda>ok.
             if \<not> ok then exit_process 202
             else bindx (maybe_open_oat_and_vdex_file env dex_path oat_dir instruction_set True) (\<lambda>fds.
               case fds of
                 None \<Rightarrow> exit_process 203
               | Some (oat_fd, vdex_fd) \<Rightarrow>
                   bindx (analyze_profiles env uid pkgname dex_path True) (\<lambda>profile_was_updated.
                     bindx (dexoptanalyzer_args env dex_path vdex_fd oat_fd (rc zip) instruction_set compiler_filter
                              profile_was_updated downgrade class_loader_context (join_fds context_zip_fds))
                       (\<lambda>argv. exec_or_exit argv 204))))))))"

text \<open>\<open>None\<close> for an error; otherwise whether the oat file may be public, what is needed and the oat directory.\<close>

definition process_secondary_dex_dexopt ::
  "dex_env \<Rightarrow> string \<Rightarrow> string \<Rightarrow> int \<Rightarrow> cstring \<Rightarrow> int \<Rightarrow> string \<Rightarrow> string \<Rightarrow> bool \<Rightarrow> cstring \<Rightarrow> string list
     \<Rightarrow> (bool \<times> int \<times> string) option proc_prog" where
  "process_secondary_dex_dexopt env dex_path pkgname dexopt_flags volume_uuid uid instruction_set compiler_filter
       downgrade class_loader_context context_dex_paths =
     (case validate_dexopt_storage_flags dexopt_flags of
        None \<Rightarrow> pure None
      | Some storage_flag \<Rightarrow>
          (case create_secondary_dex_oat_layout env dex_path instruction_set of
             None \<Rightarrow> pure None
           | Some (oat_dir, oat_isa_dir, oat_path) \<Rightarrow>
               fork_child
                 (secondary_child env dex_path pkgname volume_uuid uid instruction_set compiler_filter oat_dir
                    downgrade class_loader_context context_dex_paths storage_flag)
                 (\<lambda>pid. bindx (wait_child pid) (\<lambda>status.
                    if \<not> WIFEXITED status then pure None
                    else
                      (let result = WEXITSTATUS status; needed = process_secondary_dexoptanalyzer_result result
                       in bindx (if has_flag dexopt_flags DEXOPT_PUBLIC then is_file_public dex_path else pure False)
                            (\<lambda>is_public. pure (case needed of
                               None \<Rightarrow> None
                             | Some n \<Rightarrow> Some (is_public,
                                 (if result \<noteq> 205 \<and> has_flag dexopt_flags DEXOPT_FORCE then DEX2OAT_FROM_SCRATCH else n),
                                 oat_dir))))))))"

section \<open>A secondary dex file that is gone\<close>

definition ENOTEMPTY :: int where "ENOTEMPTY = 39"

definition rmdir_if_empty :: "string \<Rightarrow> bool proc_prog" where
  "rmdir_if_empty dir =
     Call (Rmdir dir) (\<lambda>r.
       if rc r = 0 then pure True
       else errno (\<lambda>e. if e = ENOENT \<or> e = ENOTEMPTY then pure True else pure False))"

definition unlink_if_exists :: "string \<Rightarrow> bool proc_prog" where
  "unlink_if_exists file =
     Call (Sys (Unlink file)) (\<lambda>r. if rc r = 0 then pure True else errno (\<lambda>e. if e = ENOENT then pure True else pure False))"

text \<open>A chain of \<open>result = f(x) && result\<close>.\<close>

fun and_all :: "bool proc_prog list \<Rightarrow> bool \<Rightarrow> bool proc_prog" where
  "and_all [] result = pure result"
| "and_all (p # ps) result = bindx p (\<lambda>ok. and_all ps (ok \<and> result))"

text \<open>
  The assignment for the old location of the profile does not look at the result so far.
\<close>

fun clean_artifacts :: "dex_env \<Rightarrow> string \<Rightarrow> string \<Rightarrow> int \<Rightarrow> string list \<Rightarrow> bool \<Rightarrow> bool proc_prog" where
  "clean_artifacts env dex_path pkgname uid [] result = pure result"
| "clean_artifacts env dex_path pkgname uid (isa # isas) result =
     (case create_secondary_dex_oat_layout env dex_path isa of
        None \<Rightarrow> exit_process 2
      | Some (oat_dir, oat_isa_dir, oat_path) \<Rightarrow>
          bindx (and_all [unlink_if_exists oat_path, unlink_if_exists (create_vdex_filename oat_path),
                   unlink_if_exists (create_image_filename oat_path)] result) (\<lambda>result.
          with_some (create_current_profile_path (se_globals (d_svc env)) (nat (se_user_of (d_svc env) uid)) pkgname
                       dex_path True) (\<lambda>current_profile.
          with_some (create_reference_profile_path (se_globals (d_svc env)) pkgname dex_path True) (\<lambda>reference_profile.
          bindx (and_all [unlink_if_exists current_profile, unlink_if_exists reference_profile] result) (\<lambda>result.
          bindx (unlink_if_exists (dex_path @ ''.prof'')) (\<lambda>result.
          bindx (and_all [rmdir_if_empty oat_isa_dir, rmdir_if_empty oat_dir] result) (\<lambda>result.
            clean_artifacts env dex_path pkgname uid isas result)))))))"

definition reconcile_child ::
  "dex_env \<Rightarrow> string \<Rightarrow> string \<Rightarrow> int \<Rightarrow> string list \<Rightarrow> cstring \<Rightarrow> int \<Rightarrow> 'a proc_prog" where
  "reconcile_child env dex_path pkgname uid isas volume_uuid storage_flag =
     bindx (drop_capabilities uid) (\<lambda>_.
      with_some (validate_secondary_dex_path (se_paths (d_svc env)) (\<lambda>u. nat (se_user_of (d_svc env) u)) pkgname
                   dex_path volume_uuid uid storage_flag) (\<lambda>valid.
       if \<not> valid then exit_process 2
       else check_secondary_dex_access dex_path (\<lambda>a. case a of
           ReadOk \<Rightarrow> exit_process 0
         | IOError \<Rightarrow> exit_process 4
         | PermissionError \<Rightarrow> exit_process 2
         | DoesNotExist \<Rightarrow>
             bindx (clean_artifacts env dex_path pkgname uid isas True)
               (\<lambda>result. exit_process (if result then 1 else 4)))))"

text \<open>The result and whether the file exists.\<close>

definition reconcile_secondary_dex_file ::
  "dex_env \<Rightarrow> string \<Rightarrow> string \<Rightarrow> int \<Rightarrow> string list \<Rightarrow> cstring \<Rightarrow> int \<Rightarrow> (bool \<times> bool) proc_prog" where
  "reconcile_secondary_dex_file env dex_path pkgname uid isas volume_uuid storage_flag =
     (if length isas = 0 then pure (False, False)
      else if storage_flag \<noteq> FLAG_STORAGE_CE \<and> storage_flag \<noteq> FLAG_STORAGE_DE then pure (False, False)
      else fork_child (reconcile_child env dex_path pkgname uid isas volume_uuid storage_flag)
        (\<lambda>pid. bindx (wait_child pid) (\<lambda>status.
           let return_code = (if \<not> WIFEXITED status then status else WEXITSTATUS status)
           in if return_code = 1 \<or> return_code = 2 then pure (True, False)
              else if return_code = 0 then pure (True, True)
              else if return_code = 4 then pure (False, False)
              else pure (False, False))))"

section \<open>Hashing\<close>

text \<open>
  The reads of the file, whose pieces go into the digest; the fuel is their number.  SHA-256 is a
  parameter: the digest of everything read.
\<close>

fun hash_reads :: "nat \<Rightarrow> int \<Rightarrow> string \<Rightarrow> string proc_prog" where
  "hash_reads 0 fd acc = Ret Running"
| "hash_reads (Suc n) fd acc =
     Call (ReadFd fd 65536) (\<lambda>r.
       if rc r = 0 then pure acc
       else if rc r = -1 then exit_process kHashReadDex
       else hash_reads n fd (acc @ r_str r))"

definition hash_secondary_dex_file ::
  "dex_env \<Rightarrow> (string \<Rightarrow> string) \<Rightarrow> nat \<Rightarrow> string \<Rightarrow> string \<Rightarrow> int \<Rightarrow> cstring \<Rightarrow> int \<Rightarrow> (bool \<times> string) proc_prog" where
  "hash_secondary_dex_file env sha256 fuel dex_path pkgname uid volume_uuid storage_flag =
     (if storage_flag \<noteq> FLAG_STORAGE_CE \<and> storage_flag \<noteq> FLAG_STORAGE_DE then pure (False, [])
      else Call Pipe (\<lambda>p.
        if rc p \<noteq> 0 then pure (False, [])
        else fork_child
          (bindx (drop_capabilities uid) (\<lambda>_.
           bindx (close_fd (fst (r_fds p))) (\<lambda>_.
           with_some (validate_secondary_dex_path (se_paths (d_svc env)) (\<lambda>u. nat (se_user_of (d_svc env) u)) pkgname
                        dex_path volume_uuid uid storage_flag) (\<lambda>valid.
             if \<not> valid then exit_process kHashValidatePath
             else Call (Open dex_path [O_RDONLY, O_CLOEXEC, O_NOFOLLOW] 0) (\<lambda>f.
               if rc f = -1 then errno (\<lambda>e. if e = EACCES \<or> e = ENOENT then exit_process 0 else exit_process kHashOpenPath)
               else bindx (hash_reads fuel (rc f) []) (\<lambda>contents.
                 Call (WriteFully (snd (r_fds p)) (sha256 contents)) (\<lambda>w.
                   if rc w = 0 then exit_process kHashWrite else exit_process 0)))))))
          (\<lambda>pid.
            bindx (close_fd (snd (r_fds p))) (\<lambda>_.
            Call (ReadFully (fst (r_fds p)) 32) (\<lambda>s.
              with_fd (fst (r_fds p))
                (bindx (wait_child pid) (\<lambda>return_code.
                   pure (return_code = 0, if rc s = 0 then [] else r_str s))))))))"

end
