(* ===== verification/DexCompile.thy ===== *)
theory DexCompile
  imports DexSecondary
begin

text \<open>
  Compiling a dex file (\<open>installd/dexopt.cpp\<close>): the command line of \<open>dex2oat\<close>, the output
  files with their clean-up, and \<open>dexopt\<close> itself.  Error messages are not kept.
\<close>

section \<open>The command line of dex2oat\<close>

definition SplitBySpaces :: "string \<Rightarrow> string list" where
  "SplitBySpaces str = (if str = [] then [] else split_on CHR '' '' str)"

text \<open>The formats all end in the property: \<open>pre\<close> is what stands before it.\<close>

definition MapPropertyToArg :: "dex_env \<Rightarrow> string \<Rightarrow> string \<Rightarrow> string" where
  "MapPropertyToArg env property pre =
     (let prop = GetProperty env property [] in if prop \<noteq> [] then pre @ prop else [])"

record dex2oat_in =
  zip_fd :: int
  oat_fd :: int
  input_vdex_fd :: int
  output_vdex_fd :: int
  image_fd :: int
  input_file_name :: string
  output_file_name :: string
  swap_fd :: int
  o_instruction_set :: string
  o_compiler_filter :: cstring
  o_debuggable :: bool
  post_bootcomplete :: bool
  o_background_job :: bool
  profile_fd :: int
  o_class_loader_context :: cstring
  o_class_loader_context_fds :: string
  o_target_sdk_version :: int
  o_enable_hidden_api_checks :: bool
  o_generate_compact_dex :: bool
  dex_metadata_fd :: int
  o_compilation_reason :: cstring

definition skip_compilation :: "dex_env \<Rightarrow> bool" where
  "skip_compilation env \<longleftrightarrow>
     GetProperty env ''vold.decrypt'' [] = ''trigger_restart_min_framework'' \<or> GetProperty env ''vold.decrypt'' [] = ''1''"

definition dex2oat_filter_arg :: "dex_env \<Rightarrow> cstring \<Rightarrow> string" where
  "dex2oat_filter_arg env compiler_filter =
     (let arg = (if skip_compilation env then ''--compiler-filter=extract''
                 else (case compiler_filter of Some f \<Rightarrow> ''--compiler-filter='' @ f | None \<Rightarrow> []))
      in if arg = [] then MapPropertyToArg env ''dalvik.vm.dex2oat-filter'' ''--compiler-filter='' else arg)"

definition dex2oat_boot_image :: "dex_env \<Rightarrow> string" where
  "dex2oat_boot_image env =
     (if d_flags env ''runtime_native_boot'' ''enable_apex_image'' = ''true''
      then ''-Ximage:/system/framework/apex.art''
      else MapPropertyToArg env ''dalvik.vm.boot-image'' ''-Ximage:'')"

definition dex2oat_resolve_strings :: "dex_env \<Rightarrow> string" where
  "dex2oat_resolve_strings env =
     (let arg = MapPropertyToArg env ''persist.device_config.runtime.dex2oat_resolve_startup_strings''
                  ''--resolve-startup-const-strings=''
      in if arg = [] then MapPropertyToArg env ''dalvik.vm.dex2oat-resolve-startup-strings''
                            ''--resolve-startup-const-strings=''
         else arg)"

text \<open>The files.\<close>

definition dex2oat_file_args :: "dex_env \<Rightarrow> dex2oat_in \<Rightarrow> string list" where
  "dex2oat_file_args env inp =
     add_arg (''--zip-fd='' @ dec_int (zip_fd inp))
     @ add_arg (''--zip-location='' @ get_location_from_path (input_file_name inp))
     @ add_arg (''--input-vdex-fd='' @ dec_int (input_vdex_fd inp))
     @ add_arg (''--output-vdex-fd='' @ dec_int (output_vdex_fd inp))
     @ add_arg (''--oat-fd='' @ dec_int (oat_fd inp))
     @ add_arg (''--oat-location='' @ output_file_name inp)
     @ add_arg (''--instruction-set='' @ o_instruction_set inp)
     @ add_arg (MapPropertyToArg env (''dalvik.vm.isa.'' @ o_instruction_set inp @ ''.variant'') ''--instruction-set-variant='')
     @ add_arg (MapPropertyToArg env (''dalvik.vm.isa.'' @ o_instruction_set inp @ ''.features'') ''--instruction-set-features='')"

text \<open>The runtime, the compiler filter and what depends on the optional files.\<close>

definition dex2oat_runtime_args :: "dex_env \<Rightarrow> dex2oat_in \<Rightarrow> string list" where
  "dex2oat_runtime_args env inp =
     add_runtime_arg (dex2oat_boot_image env)
     @ add_runtime_arg (case d_getenv env ''DEX2OATBOOTCLASSPATH'' of None \<Rightarrow> [] | Some b \<Rightarrow> ''-Xbootclasspath:'' @ b)
     @ add_runtime_arg (MapPropertyToArg env ''dalvik.vm.dex2oat-Xms'' ''-Xms'')
     @ add_runtime_arg (MapPropertyToArg env ''dalvik.vm.dex2oat-Xmx'' ''-Xmx'')
     @ add_arg (dex2oat_resolve_strings env)
     @ add_arg (MapPropertyToArg env ''dalvik.vm.dex2oat-max-image-block-size'' ''--max-image-block-size='')
     @ add_arg (dex2oat_filter_arg env (o_compiler_filter inp))
     @ add_arg (MapPropertyToArg env (if post_bootcomplete inp then ''dalvik.vm.dex2oat-threads''
                                      else ''dalvik.vm.boot-dex2oat-threads'') ''-j'')
     @ (if swap_fd inp \<ge> 0 then add_arg (''--swap-fd='' @ dec_int (swap_fd inp)) else [])
     @ (if image_fd inp \<ge> 0 then add_arg (''--app-image-fd='' @ dec_int (image_fd inp)) else [])
     @ (if GetBoolProperty env ''debug.generate-debug-info'' False then add_arg ''--generate-debug-info'' else [])
     @ (if o_debuggable inp \<or> GetProperty env ''dalvik.vm.always_debuggable'' [] = ''1''
        then add_arg ''--debuggable'' else [])
     @ (if image_fd inp \<ge> 0 then add_arg (MapPropertyToArg env ''dalvik.vm.appimageformat'' ''--image-format='') else [])
     @ add_arg (MapPropertyToArg env ''dalvik.vm.dex2oat-very-large'' ''--very-large-app-threshold='')"

text \<open>The rest; the flags of the property come last, so that they override the others.\<close>

definition dex2oat_tail_args :: "dex_env \<Rightarrow> dex2oat_in \<Rightarrow> string list" where
  "dex2oat_tail_args env inp =
     (if skip_compilation env then add_runtime_arg ''-Xnorelocate'' else [])
     @ (if profile_fd inp \<noteq> -1 then add_arg (''--profile-file-fd='' @ dec_int (profile_fd inp)) else [])
     @ (case rfind_char CHR ''/'' (input_file_name inp) of
          None \<Rightarrow> []
        | Some i \<Rightarrow> add_arg (''--classpath-dir='' @ take i (input_file_name inp)))
     @ (case o_class_loader_context inp of
          None \<Rightarrow> []
        | Some c \<Rightarrow> add_arg (''--class-loader-context='' @ c)
            @ (if o_class_loader_context_fds inp \<noteq> []
               then add_arg (''--class-loader-context-fds='' @ o_class_loader_context_fds inp) else []))
     @ (if GetBoolProperty env ''dalvik.vm.dex2oat-minidebuginfo'' False then add_arg ''--generate-mini-debug-info'' else [])
     @ (if \<not> o_generate_compact_dex inp \<or> input_vdex_fd inp = output_vdex_fd inp then add_arg ''--compact-dex-level=none'' else [])
     @ (if o_target_sdk_version inp \<noteq> 0
        then add_runtime_arg (''-Xtarget-sdk-version:'' @ dec_int (o_target_sdk_version inp)) else [])
     @ (if o_enable_hidden_api_checks inp then add_runtime_arg ''-Xhidden-api-policy:enabled'' else [])
     @ (if dex_metadata_fd inp > -1 then add_arg (''--dm-fd='' @ dec_int (dex_metadata_fd inp)) else [])
     @ (case o_compilation_reason inp of None \<Rightarrow> [] | Some r \<Rightarrow> add_arg (''--compilation-reason='' @ r))
     @ SplitBySpaces (GetProperty env ''dalvik.vm.dex2oat-flags'' [])"

definition RunDex2Oat :: "dex_env \<Rightarrow> dex2oat_in \<Rightarrow> string list proc_prog" where
  "RunDex2Oat env inp =
     bindx (select_binary env ''/apex/com.android.runtime/bin/dex2oat'' ''/apex/com.android.runtime/bin/dex2oatd''
              (o_background_job inp))
       (\<lambda>bin. pure (bin # dex2oat_file_args env inp @ dex2oat_runtime_args env inp @ dex2oat_tail_args env inp))"

definition ShouldUseSwapFileForDexopt :: "dex_env \<Rightarrow> bool" where
  "ShouldUseSwapFileForDexopt env =
     (let p = GetProperty env ''dalvik.vm.dex2oat-swap'' [] in if p \<noteq> [] then p = ''true'' else True)"

definition SetDex2OatScheduling :: "bool \<Rightarrow> unit proc_prog" where
  "SetDex2OatScheduling set_to_bg =
     (if set_to_bg then
        Call SchedBackground (\<lambda>r. if rc r < 0 then exit_process kSetSchedPolicy
          else Call PriorityBackground (\<lambda>r. if rc r < 0 then exit_process kSetPriority else pure ()))
      else pure ())"

section \<open>Output files\<close>

definition open_output_file :: "string \<Rightarrow> bool \<Rightarrow> int \<Rightarrow> int proc_prog" where
  "open_output_file file_name recreate permissions =
     (if recreate then Call (Sys (Unlink file_name)) (\<lambda>_.
        Call (Open file_name [O_RDWR, O_CREAT, O_EXCL] permissions) (\<lambda>r. pure (rc r)))
      else Call (Open file_name [O_RDWR, O_CREAT] permissions) (\<lambda>r. pure (rc r)))"

definition set_permissions_and_ownership :: "dex_env \<Rightarrow> int \<Rightarrow> bool \<Rightarrow> int \<Rightarrow> bool \<Rightarrow> bool proc_prog" where
  "set_permissions_and_ownership env fd is_public uid is_secondary_dex =
     (let owning_uid = (if is_secondary_dex then uid else AID_SYSTEM (d_svc env)) in
      Call (Fchmod fd (416 OR (if is_public then 4 else 0))) (\<lambda>m.
        if rc m < 0 then pure False
        else Call (Fchown fd owning_uid uid) (\<lambda>c. if rc c < 0 then pure False else pure True)))"

text \<open>
  \<open>Dex2oatFileWrapper\<close>: a descriptor, what to do when it goes (its clean-up function), whether to do
  it and whether to close it.
\<close>

datatype cleanup = NoCleanup | UnlinkFile string | ClearReference string string bool

record file_wrapper =
  w_value :: int
  w_cleanup :: cleanup
  w_do_cleanup :: bool
  w_auto_close :: bool

definition new_wrapper :: "int \<Rightarrow> cleanup \<Rightarrow> file_wrapper" where
  "new_wrapper value cl = \<lparr>w_value = value, w_cleanup = cl, w_do_cleanup = True, w_auto_close = True\<rparr>"

definition no_wrapper :: file_wrapper where
  "no_wrapper = new_wrapper (-1) NoCleanup"

definition run_cleanup :: "dex_env \<Rightarrow> cleanup \<Rightarrow> unit proc_prog" where
  "run_cleanup env cl =
     (case cl of
        NoCleanup \<Rightarrow> pure ()
      | UnlinkFile path \<Rightarrow> Call (Sys (Unlink path)) (\<lambda>_. pure ())
      | ClearReference pkg location is_secondary_dex \<Rightarrow>
          bindx (clear_reference_profile env pkg location is_secondary_dex) (\<lambda>_. pure ()))"

definition wrapper_release :: "dex_env \<Rightarrow> file_wrapper \<Rightarrow> unit proc_prog" where
  "wrapper_release env w =
     bindx (if w_auto_close w \<and> w_value w \<ge> 0 then close_fd (w_value w) else pure ()) (\<lambda>_.
       if w_do_cleanup w \<and> w_cleanup w \<noteq> NoCleanup then run_cleanup env (w_cleanup w) else pure ())"

definition wrapper_reset :: "dex_env \<Rightarrow> file_wrapper \<Rightarrow> int \<Rightarrow> file_wrapper proc_prog" where
  "wrapper_reset env w new_value = bindx (wrapper_release env w) (\<lambda>_. pure (w\<lparr>w_value := new_value\<rparr>))"

definition wrapper_reset_with :: "dex_env \<Rightarrow> file_wrapper \<Rightarrow> int \<Rightarrow> cleanup \<Rightarrow> file_wrapper proc_prog" where
  "wrapper_reset_with env w new_value new_cleanup =
     bindx (wrapper_release env w) (\<lambda>_. pure (w\<lparr>w_value := new_value, w_cleanup := new_cleanup\<rparr>))"

text \<open>
  The scope of a wrapper around a body whose result says whether \<open>SetCleanup(false)\<close> was called: the
  destructor is \<open>reset(-1)\<close>.
\<close>

definition with_wrapper :: "dex_env \<Rightarrow> file_wrapper \<Rightarrow> ('a \<times> bool) proc_prog \<Rightarrow> ('a \<times> bool) proc_prog" where
  "with_wrapper env w p =
     bindx p (\<lambda>(res, keep).
       bindx (wrapper_release env (if keep then w\<lparr>w_do_cleanup := False\<rparr> else w)) (\<lambda>_. pure (res, keep)))"

definition maybe_open_app_image :: "dex_env \<Rightarrow> string \<Rightarrow> bool \<Rightarrow> bool \<Rightarrow> int \<Rightarrow> bool \<Rightarrow> file_wrapper proc_prog" where
  "maybe_open_app_image env out_oat_path generate_app_image is_public uid is_secondary_dex =
     (let image_path = create_image_filename out_oat_path in
      if is_secondary_dex then pure no_wrapper
      else if image_path = [] then pure no_wrapper
      else Call (Sys (Unlink image_path)) (\<lambda>_.
        if \<not> generate_app_image then pure no_wrapper
        else if GetProperty env ''dalvik.vm.appimageformat'' [] = [] then pure no_wrapper
        else bindx (open_output_file image_path True 384) (\<lambda>fd.
          let w = new_wrapper fd (UnlinkFile image_path) in
          if fd < 0 then Call (Sys (Unlink image_path)) (\<lambda>_. pure w)
          else bindx (set_permissions_and_ownership env fd is_public uid is_secondary_dex) (\<lambda>ok.
            if \<not> ok then wrapper_reset env w (-1) else pure w))))"

definition maybe_open_dexopt_swap_file :: "dex_env \<Rightarrow> string \<Rightarrow> int proc_prog" where
  "maybe_open_dexopt_swap_file env out_oat_path =
     (if \<not> ShouldUseSwapFileForDexopt env then pure (-1)
      else bindx (open_output_file (out_oat_path @ ''.swap'') True 384) (\<lambda>fd.
        if fd < 0 then pure fd else Call (Sys (Unlink (out_oat_path @ ''.swap''))) (\<lambda>_. pure fd)))"

definition maybe_open_reference_profile ::
  "dex_env \<Rightarrow> string \<Rightarrow> string \<Rightarrow> cstring \<Rightarrow> bool \<Rightarrow> bool \<Rightarrow> int \<Rightarrow> bool \<Rightarrow> file_wrapper proc_prog" where
  "maybe_open_reference_profile env pkgname dex_path profile_name profile_guided is_public uid is_secondary_dex =
     (let opened_at = (\<lambda>location.
        bindx (open_reference_profile env uid pkgname location False is_secondary_dex)
          (\<lambda>fd. pure (new_wrapper fd (ClearReference pkgname location is_secondary_dex))))
      in if \<not> profile_guided \<or> take 1 pkgname = ''*'' then pure no_wrapper
         else if is_secondary_dex \<and> is_public then pure no_wrapper
         else if is_secondary_dex then opened_at dex_path
         else (case profile_name of None \<Rightarrow> pure no_wrapper | Some n \<Rightarrow> opened_at n))"

text \<open>
  \<open>Some\<close> the input and the output vdex, and whether the function succeeded.  An in-place update
  uses one descriptor for both: the output's wrapper closes it.
\<close>

definition open_out_vdex ::
  "dex_env \<Rightarrow> string \<Rightarrow> bool \<Rightarrow> file_wrapper \<Rightarrow> bool \<Rightarrow> int \<Rightarrow> bool \<Rightarrow> (bool \<times> file_wrapper \<times> file_wrapper) proc_prog" where
  "open_out_vdex env out_vdex_path update_in_place in_w is_public uid is_secondary_dex =
     bindx (if update_in_place
            then bindx (wrapper_reset_with env no_wrapper (w_value in_w) (UnlinkFile out_vdex_path))
                   (\<lambda>out_w. pure (in_w\<lparr>w_auto_close := False\<rparr>, out_w))
            else bindx (open_output_file out_vdex_path True 420) (\<lambda>fd.
                   bindx (wrapper_reset_with env no_wrapper fd (UnlinkFile out_vdex_path))
                     (\<lambda>out_w. pure (in_w, out_w))))
       (\<lambda>(in_w, out_w).
          if \<not> update_in_place \<and> w_value out_w < 0 then pure (False, in_w, out_w)
          else bindx (set_permissions_and_ownership env (w_value out_w) is_public uid is_secondary_dex)
            (\<lambda>ok. pure (ok, in_w, out_w)))"

definition open_vdex_files_for_dex2oat ::
  "dex_env \<Rightarrow> string \<Rightarrow> string \<Rightarrow> int \<Rightarrow> string \<Rightarrow> bool \<Rightarrow> int \<Rightarrow> bool \<Rightarrow> bool
     \<Rightarrow> (bool \<times> file_wrapper \<times> file_wrapper) proc_prog" where
  "open_vdex_files_for_dex2oat env apk_path out_oat_path dexopt_needed instruction_set is_public uid
       is_secondary_dex profile_guided =
     (let dexopt_action = \<bar>dexopt_needed\<bar>; is_odex_location = dexopt_needed < 0;
          out_vdex_path = create_vdex_filename out_oat_path;
          finish = (\<lambda>in_w upd. open_out_vdex env out_vdex_path upd in_w is_public uid is_secondary_dex)
      in if out_vdex_path = [] then pure (False, no_wrapper, no_wrapper)
         else if dexopt_action = DEX2OAT_FROM_SCRATCH then finish no_wrapper False
         else
           (case (if is_odex_location then calculate_odex_file_path_default apk_path instruction_set
                  else Some out_oat_path) of
              None \<Rightarrow> pure (False, no_wrapper, no_wrapper)
            | Some path \<Rightarrow>
                (let in_vdex_path = create_vdex_filename path in
                 if in_vdex_path = [] then pure (False, no_wrapper, no_wrapper)
                 else if in_vdex_path = out_vdex_path \<and> dexopt_action = DEX2OAT_FOR_BOOT_IMAGE \<and> \<not> profile_guided
                 then Call (Open in_vdex_path [O_RDWR] 0) (\<lambda>r.
                        bindx (wrapper_reset env no_wrapper (rc r)) (\<lambda>in_w. finish in_w (rc r \<noteq> -1)))
                 else Call (Open in_vdex_path [O_RDONLY] 0) (\<lambda>r.
                        bindx (wrapper_reset env no_wrapper (rc r)) (\<lambda>in_w. finish in_w False)))))"

text \<open>The wrapper of the oat file and its path, \<open>None\<close> when no path could be made.\<close>

definition open_oat_out_file ::
  "dex_env \<Rightarrow> string \<Rightarrow> cstring \<Rightarrow> bool \<Rightarrow> int \<Rightarrow> string \<Rightarrow> bool \<Rightarrow> (file_wrapper \<times> string option) proc_prog" where
  "open_oat_out_file env apk_path oat_dir is_public uid instruction_set is_secondary_dex =
     with_some (create_oat_out_path (se_globals (d_svc env)) apk_path instruction_set oat_dir is_secondary_dex)
       (\<lambda>p. case p of
          None \<Rightarrow> pure (no_wrapper, None)
        | Some out_oat_path \<Rightarrow>
            bindx (open_output_file out_oat_path True 420) (\<lambda>fd.
              let w = new_wrapper fd (UnlinkFile out_oat_path) in
              if fd < 0 then pure (w, Some out_oat_path)
              else bindx (set_permissions_and_ownership env fd is_public uid is_secondary_dex) (\<lambda>ok.
                if \<not> ok then bindx (wrapper_reset env w (-1)) (\<lambda>w. pure (w, Some out_oat_path))
                else pure (w, Some out_oat_path))))"

definition update_out_oat_access_times :: "string \<Rightarrow> string \<Rightarrow> unit proc_prog" where
  "update_out_oat_access_times apk_path out_oat_path =
     Call (Sys (Stat apk_path)) (\<lambda>st.
       if rc st \<noteq> 0 then pure ()
       else Call (Utime out_oat_path (fst (r_times st)) (snd (r_times st))) (\<lambda>_. pure ()))"

section \<open>Compiling\<close>

record dexopt_in =
  x_dex_path :: string
  x_uid :: int
  x_pkgname :: string
  x_instruction_set :: string
  x_dexopt_needed :: int
  x_oat_dir :: cstring
  x_flags :: int
  x_compiler_filter :: string
  x_volume_uuid :: cstring
  x_class_loader_context :: cstring
  x_se_info :: cstring
  x_downgrade :: bool
  x_target_sdk_version :: int
  x_profile_name :: cstring
  x_dex_metadata_path :: cstring
  x_compilation_reason :: cstring

text \<open>The child and the parent of the compiler, once every file is open.\<close>

definition run_dex2oat :: "dex_env \<Rightarrow> dexopt_in \<Rightarrow> dex2oat_in \<Rightarrow> (int \<times> bool) proc_prog" where
  "run_dex2oat env x inp =
     bindx (RunDex2Oat env inp) (\<lambda>argv.
       fork_child
         (bindx (drop_capabilities (x_uid x)) (\<lambda>_.
          bindx (SetDex2OatScheduling (has_flag (x_flags x) DEXOPT_BOOTCOMPLETE)) (\<lambda>_.
            Call (FlockEx (oat_fd inp)) (\<lambda>l.
              if rc l \<noteq> 0 then exit_process kFlock else exec_or_exit argv kDex2oatExec))))
         (\<lambda>pid. bindx (wait_child pid) (\<lambda>res.
            if res \<noteq> 0 then pure (res, False)
            else bindx (update_out_oat_access_times (x_dex_path x) (output_file_name inp)) (\<lambda>_. pure (0, True)))))"

definition dex2oat_inputs ::
  "dexopt_in \<Rightarrow> int \<Rightarrow> int list \<Rightarrow> file_wrapper \<Rightarrow> file_wrapper \<Rightarrow> file_wrapper \<Rightarrow> string \<Rightarrow> int \<Rightarrow> file_wrapper
     \<Rightarrow> file_wrapper \<Rightarrow> int \<Rightarrow> dex2oat_in" where
  "dex2oat_inputs x input ctx oat in_vdex out_vdex out_oat_path swap img profile dm =
     \<lparr>zip_fd = input, oat_fd = w_value oat, input_vdex_fd = w_value in_vdex, output_vdex_fd = w_value out_vdex,
      image_fd = w_value img, input_file_name = x_dex_path x, output_file_name = out_oat_path, swap_fd = swap,
      o_instruction_set = x_instruction_set x, o_compiler_filter = Some (x_compiler_filter x),
      o_debuggable = has_flag (x_flags x) DEXOPT_DEBUGGABLE,
      post_bootcomplete = has_flag (x_flags x) DEXOPT_BOOTCOMPLETE,
      o_background_job = has_flag (x_flags x) DEXOPT_IDLE_BACKGROUND_JOB,
      profile_fd = w_value profile, o_class_loader_context = x_class_loader_context x,
      o_class_loader_context_fds = join_fds ctx, o_target_sdk_version = x_target_sdk_version x,
      o_enable_hidden_api_checks = has_flag (x_flags x) DEXOPT_ENABLE_HIDDEN_API_CHECKS,
      o_generate_compact_dex = has_flag (x_flags x) DEXOPT_GENERATE_COMPACT_DEX,
      dex_metadata_fd = dm, o_compilation_reason = x_compilation_reason x\<rparr>"

text \<open>
  From the vdex files on.  The results are the code returned and whether the outputs are kept; the
  wrappers go in the reverse order of their declaration.
\<close>

definition dexopt_outputs ::
  "dex_env \<Rightarrow> dexopt_in \<Rightarrow> bool \<Rightarrow> int \<Rightarrow> cstring \<Rightarrow> int \<Rightarrow> int list \<Rightarrow> file_wrapper \<Rightarrow> string \<Rightarrow> (int \<times> bool) proc_prog" where
  "dexopt_outputs env x is_public dexopt_needed oat_dir input ctx out_oat out_oat_path =
     (let uid = x_uid x; sec = has_flag (x_flags x) DEXOPT_SECONDARY_DEX;
          profile_guided = has_flag (x_flags x) DEXOPT_PROFILE_GUIDED
      in bindx (open_vdex_files_for_dex2oat env (x_dex_path x) out_oat_path dexopt_needed (x_instruction_set x)
                  is_public uid sec profile_guided) (\<lambda>(ok, in_vdex, out_vdex).
         with_wrapper env in_vdex (with_wrapper env out_vdex
           (if \<not> ok then pure (-1, False)
            else bindx (if sec then with_some oat_dir (\<lambda>d. Call (RestoreconRecurse d (x_se_info x) uid) (\<lambda>r. pure (rc r = 0)))
                        else pure True) (\<lambda>restored.
              if \<not> restored then pure (-1, False)
              else bindx (maybe_open_dexopt_swap_file env out_oat_path) (\<lambda>swap. with_fd swap
                (bindx (maybe_open_app_image env out_oat_path (has_flag (x_flags x) DEXOPT_GENERATE_APP_IMAGE)
                          is_public uid sec) (\<lambda>img. with_wrapper env img
                (bindx (maybe_open_reference_profile env (x_pkgname x) (x_dex_path x) (x_profile_name x)
                          profile_guided is_public uid sec) (\<lambda>profile. with_wrapper env profile
                (bindx (case x_dex_metadata_path x of None \<Rightarrow> pure (-1)
                        | Some dm \<Rightarrow> Call (Open dm [O_RDONLY, O_NOFOLLOW] 0) (\<lambda>r. pure (rc r))) (\<lambda>dm. with_fd dm
                  (run_dex2oat env x
                    (dex2oat_inputs x input ctx out_oat in_vdex out_vdex out_oat_path swap img profile dm))))))))))))))"

text \<open>From the input file on; the oat file is opened first and closed last.\<close>

definition dexopt_files ::
  "dex_env \<Rightarrow> dexopt_in \<Rightarrow> bool \<Rightarrow> int \<Rightarrow> cstring \<Rightarrow> string list \<Rightarrow> int proc_prog" where
  "dexopt_files env x is_public dexopt_needed oat_dir context_dex_paths =
     Call (Open (x_dex_path x) [O_RDONLY] 0) (\<lambda>i.
       if rc i < 0 then pure (-1)
       else with_fd (rc i)
         (bindx (open_dex_paths context_dex_paths []) (\<lambda>(code, ctx). with_fds ctx
           (if code \<noteq> 0 then pure (-1)
            else bindx (open_oat_out_file env (x_dex_path x) oat_dir is_public (x_uid x) (x_instruction_set x)
                          (has_flag (x_flags x) DEXOPT_SECONDARY_DEX)) (\<lambda>(out_oat, path).
              bindx (with_wrapper env out_oat
                       (if w_value out_oat < 0 then pure (-1, False)
                        else with_some path (dexopt_outputs env x is_public dexopt_needed oat_dir (rc i) ctx out_oat)))
                (\<lambda>(res, keep). pure res))))))"

definition dexopt :: "dex_env \<Rightarrow> dexopt_in \<Rightarrow> int proc_prog" where
  "dexopt env x =
     (let is_public = has_flag (x_flags x) DEXOPT_PUBLIC; sec = has_flag (x_flags x) DEXOPT_SECONDARY_DEX
      in if x_pkgname x = [] then Abort
         else if x_flags x AND NOT DEXOPT_MASK \<noteq> 0 then Abort
         else if \<not> validate_dex_path_size (x_dex_path x) then pure (-1)
         else if (case x_class_loader_context x of None \<Rightarrow> False | Some c \<Rightarrow> length c > PKG_PATH_MAX) then pure (-1)
         else if sec then
           bindx (get_class_loader_context_dex_paths env (x_class_loader_context x) (x_uid x)) (\<lambda>(ok, context_dex_paths).
             if \<not> ok then pure (-1)
             else bindx (process_secondary_dex_dexopt env (x_dex_path x) (x_pkgname x) (x_flags x) (x_volume_uuid x)
                           (x_uid x) (x_instruction_set x) (x_compiler_filter x) (x_downgrade x)
                           (x_class_loader_context x) context_dex_paths) (\<lambda>r.
               case r of
                 None \<Rightarrow> pure (-1)
               | Some (is_public, dexopt_needed, oat_dir) \<Rightarrow>
                   if dexopt_needed = NO_DEXOPT_NEEDED then pure 0
                   else dexopt_files env x is_public dexopt_needed (Some oat_dir) context_dex_paths))
         else if has_flag (x_flags x) DEXOPT_STORAGE_CE then Abort
         else if has_flag (x_flags x) DEXOPT_STORAGE_DE then Abort
         else dexopt_files env x is_public (x_dexopt_needed x) (x_oat_dir x) [])"

end
