(* ===== verification/DexProfilesCorrect.thy ===== *)
theory DexProfilesCorrect
  imports DexProfiles InstalldAppCorrect
begin

text \<open>
  The profile functions neither leak nor close twice a file descriptor, and run \<open>profman\<close> with
  the privileges of the app only.
\<close>

section \<open>Descriptors\<close>

text \<open>The program keeps open exactly the descriptors that its result says.\<close>

definition owning :: "('a \<Rightarrow> int multiset) \<Rightarrow> 'a proc_prog \<Rightarrow> bool" where
  "owning own p \<longleftrightarrow> (\<forall>F. wp ledger p (\<lambda>a F'. F' = F + own a) F)"

lemma owningI: "(\<And>F. wp ledger p (\<lambda>a F'. F' = F + own a) F) \<Longrightarrow> owning own p"
  by (simp add: owning_def)

lemma owningD: "owning own p \<Longrightarrow> (\<And>a. Q a (F + own a)) \<Longrightarrow> wp ledger p Q F"
  unfolding owning_def by (drule spec [of _ F], erule wp_mono) simp

lemma tidy_owning: "tidy p \<longleftrightarrow> owning (\<lambda>_. {#}) p"
  by (simp add: tidy_def owning_def)

lemma tidyI: "(\<And>F. wp ledger p (\<lambda>a F'. F' = F) F) \<Longrightarrow> tidy p"
  by (simp add: tidy_def)

lemma wp_with_some [simp]: "wp M (with_some x f) Q s \<longleftrightarrow> (\<forall>y. x = Some y \<longrightarrow> wp M (f y) Q s)"
  by (cases x) auto

lemma wp_errno [simp]: "(\<And>r. M s (Sys GetErrno) r = Some s) \<Longrightarrow> wp M (errno f) Q s \<longleftrightarrow> (\<forall>n. wp M (f n) Q s)"
  using all_rc [of "\<lambda>n _. wp M (f n) Q s"] by (simp add: errno_def)

lemma wp_ledger_exec [simp]: "wp ledger (exec_or_exit argv code) Q F"
  by (simp add: exec_or_exit_def)

lemma wp_ledger_drop [wp_rules]: "Q () F \<Longrightarrow> wp ledger (drop_capabilities uid) Q F"
  by (auto simp: drop_capabilities_def)

lemma wp_ledger_fork_exec [wp_rules]:
  assumes "\<And>pid. wp ledger (parent pid) Q F"
  shows "wp ledger (fork_exec uid argv code parent) Q F"
  using assms by (auto simp: fork_exec_def intro!: wp_rules)

lemma wp_ledger_select_binary [wp_rules]:
  "(\<And>b. Q b F) \<Longrightarrow> wp ledger (select_binary env bin debug bg) Q F"
  by (auto simp: select_binary_def select_execution_binary_def Let_def)

lemma wp_ledger_profman_args [wp_rules]:
  "(\<And>argv. Q argv F) \<Longrightarrow> wp ledger (profman_args env pre fds ref apks locs cu st) Q F"
  by (auto simp: profman_args_def intro!: wp_rules)

lemma tidy_clear_profile: "tidy (clear_profile p)"
  by (rule tidyI) (auto simp: clear_profile_def opened_def intro!: wp_rules)

lemma tidy_with_some: "(\<And>y. tidy (f y)) \<Longrightarrow> tidy (with_some x f)"
  by (auto simp: tidy_def)

lemma tidy_clear:
  "tidy (clear_reference_profile env pkg loc sec)" "tidy (clear_current_profile env pkg loc user sec)"
  by (simp_all add: clear_reference_profile_def clear_current_profile_def tidy_with_some tidy_clear_profile)

lemma tidy_clear_currents: "tidy (clear_currents env pkg loc users ok)"
proof (induction users arbitrary: ok)
  case (Cons u us)
  show ?case
    by (rule tidyI, simp, rule tidyD [OF tidy_clear(2)]) (rule tidyD [OF Cons], rule refl)
qed (simp add: tidy_def)

lemma tidy_clear_primary: "tidy (clear_primary_current_profiles env pkg loc)"
  by (simp add: clear_primary_current_profiles_def tidy_clear_currents)

lemma owning_create_profile: "owning opened (create_profile uid p fl)"
  by (rule owningI) (auto simp: create_profile_def Let_def intro!: wp_rules)

lemma owning_open_profile: "owning opened (open_profile uid p fl)"
proof (rule owningI)
  fix F
  have "wp ledger (if O_CREAT \<in> set fl' then create_profile uid p fl' else Call (Open p fl' 0) (\<lambda>r. pure (rc r)))
      (\<lambda>fd F'. F' = F + opened fd) F" for fl'
    by (auto intro!: owningD [OF owning_create_profile])
  then show "wp ledger (open_profile uid p fl) (\<lambda>a F'. F' = F + opened a) F"
    unfolding open_profile_def Let_def wp_bindx
    by (rule wp_mono) auto
qed

lemma owning_with_some: "(\<And>y. owning own (f y)) \<Longrightarrow> owning own (with_some x f)"
  by (auto simp: owning_def)

lemma owning_open_profiles:
  "owning opened (open_current_profile env uid user pkg loc sec)"
  "owning opened (open_reference_profile env uid pkg loc rw sec)"
  "owning opened (open_snapshot_profile env uid pkg loc)"
  by (simp_all add: open_current_profile_def open_reference_profile_def open_snapshot_profile_def
      owning_with_some owning_open_profile)

lemma owning_open_currents: "owning openeds (open_currents env uid pkg loc sec users)"
proof (induction users)
  case (Cons u us)
  show ?case
    by (rule owningI, simp, rule owningD [OF owning_open_profiles(1)], rule owningD [OF Cons])
      (auto simp: add.assoc)
qed (simp add: owning_def)

lemma wp_ledger_open_profile_files [wp_rules]:
  assumes "\<And>fds ref. Q (fds, ref) (F + opened ref + openeds fds)"
  shows "wp ledger (open_profile_files env uid pkg loc sec) Q F"
  unfolding open_profile_files_def wp_bindx
  by (rule owningD [OF owning_open_profiles(2)], rule owningD [OF owning_open_currents]) (simp add: assms)

lemma tidy_if: "tidy p \<Longrightarrow> tidy q \<Longrightarrow> tidy (if b then p else q)"
  by simp

lemma tidy_pure [simp]: "tidy (pure a)"
  by (simp add: tidy_def)

lemma tidy_analyze_profiles: "tidy (analyze_profiles env uid pkg loc sec)"
  unfolding analyze_profiles_def
  by (rule tidyI) (auto simp: split_beta Let_def
      intro!: wp_rules tidyD [OF tidy_clear(1)] tidyD [OF tidy_clear(2)] tidyD [OF tidy_clear_primary])

lemma tidy_dump_profiles: "tidy (dump_profiles env uid pkg prof code)"
  unfolding dump_profiles_def Let_def
  by (rule tidyI) (auto simp: split_beta intro!: wp_rules)

lemma wp_ledger_copy_loop [wp_rules]: "Q () F \<Longrightarrow> wp ledger (copy_loop n i out) Q F"
  by (induction n) auto

lemma tidy_copy_system_profile: "tidy (copy_system_profile env n sys uid pkg prof)"
  unfolding copy_system_profile_def
  by (rule tidyI) (auto intro!: wp_rules owningD [OF owning_open_profiles(2)])

lemma wp_ledger_open_classpath [wp_rules]:
  assumes "\<And>ok fds locs. Q (ok, fds, locs) (F + openeds fds)"
  shows "wp ledger (open_classpath_files cp) Q F"
proof -
  have "wp ledger (open_classpath_elems es fds locs) Q (F + openeds fds)" for es fds locs
  proof (induction es arbitrary: fds locs)
    case (Cons e es)
    show ?case using Cons.IH [of "fds @ [_]"] by (auto simp: assms add.assoc)
  qed (simp add: assms)
  from this [of _ "[]"] show ?thesis by (simp add: open_classpath_files_def)
qed

lemma tidy_create_app_profile_snapshot: "tidy (create_app_profile_snapshot env app pkg prof cp)"
  unfolding create_app_profile_snapshot_def Let_def
  by (rule tidyI) (auto simp: split_beta intro!: wp_rules owningD [OF owning_open_profiles(3)])

lemma wp_ledger_open_batch [wp_rules]:
  "(\<And>fds. Q fds (F + openeds fds)) \<Longrightarrow> wp ledger (open_batch uid ps) Q F"
proof (induction ps arbitrary: F Q)
  case (Cons p ps)
  have "Q (if fd \<ge> 0 then fd # fds else fds) (F + opened fd + openeds fds)" for fd fds
    using Cons.prems [of fds] Cons.prems [of "fd # fds"] by (auto simp: add.assoc opened_def)
  then show ?case
    by (simp, intro owningD [OF owning_open_profile] Cons.IH) simp
next
  case Nil
  from Nil [of "[]"] show ?case by simp
qed


lemma tidy_collect_entries: "tidy (collect_entries n d path)"
proof (induction n arbitrary: d path)
  case (Suc n)
  show ?case
    by (rule tidyI) (auto simp: Let_def split_beta opened_def intro!: wp_rules tidyD [OF Suc])
qed (simp add: tidy_def)

text \<open>Collecting the profiles leaves a stream open; everything around it is tidy.\<close>

lemma wp_skipping_tidy: "tidy p \<Longrightarrow> (\<And>a. Q a (F, k)) \<Longrightarrow> wp (skipping dir) p Q (F, k)"
  by (rule wp_skipping, rule tidyD)

lemma wp_skipping_collect_profiles:
  assumes "\<And>x. Q x (F, 0)"
  shows "wp (skipping (android_profiles_dir (se_globals (d_svc env)))) (collect_profiles env n) Q (F, 1)"
  by (auto simp: collect_profiles_def skipping_simp Let_def assms intro!: wp_skipping_tidy [OF tidy_collect_entries])

lemma tidy_but_create_boot_image_profile_snapshot:
  "tidy_but (android_profiles_dir (se_globals (d_svc env))) 1 (create_boot_image_profile_snapshot env n pkg prof cp)"
proof -
  let ?dir = "android_profiles_dir (se_globals (d_svc env))"
  have agg: "tidy (aggregate_batches env fd apks locs ps)" for fd apks locs ps
    unfolding aggregate_batches_def by (rule tidyI) (auto intro!: wp_rules)
  define after where "after fd profiles = (if profiles = [] then pure True
      else bindx (open_classpath_files cp) (\<lambda>(ok, apk_fds, dex_locations).
        with_fds apk_fds
          (if \<not> ok then pure False
           else if apk_fds = [] then pure False
           else aggregate_batches env fd apk_fds dex_locations profiles)))" for fd profiles
  have after: "tidy (after fd profiles)" for fd profiles
    unfolding after_def by (rule tidyI) (auto simp: split_beta intro!: wp_rules tidyD [OF agg])
  have scope: "wp (skipping ?dir) (with_fd fd (bindx (collect_profiles env n) (\<lambda>(_, profiles). after fd profiles)))
      (\<lambda>a s. fst s = F) (F + opened fd, 1)" for fd F
    unfolding with_fd_def wp_bindx
    by (rule wp_skipping_collect_profiles, unfold split_beta, rule wp_skipping_tidy [OF after], rule wp_skipping,
        rule wp_ledger_close_fd) simp_all
  have "wp (skipping ?dir) (bindx (open_snapshot_profile env (AID_SYSTEM (d_svc env)) pkg prof) (\<lambda>fd.
      with_fd fd (bindx (collect_profiles env n) (\<lambda>(_, profiles). after fd profiles)))) (\<lambda>a s. fst s = F) (F, 1)" for F
    unfolding wp_bindx
    by (rule wp_skipping, rule owningD [OF owning_open_profiles(3)], rule scope)
  then show ?thesis
    unfolding create_boot_image_profile_snapshot_def after_def [symmetric] tidy_but_def
    by (simp add: skipping_simp)
qed

lemma tidy_create_profile_snapshot: "app \<noteq> -1 \<Longrightarrow> tidy (create_profile_snapshot env n app pkg prof cp)"
  by (simp add: create_profile_snapshot_def tidy_create_app_profile_snapshot)

lemma tidy_prepare_app_profile: "tidy (prepare_app_profile env pkg user app prof code dm)"
  unfolding prepare_app_profile_def Let_def
  by (rule tidyI) (auto split: option.splits intro!: wp_rules owningD [OF owning_open_profiles(2)])

section \<open>Privileges\<close>

text \<open>The program executes nothing: it leaves the privileges as they are.\<close>

definition same_privs :: "'a proc_prog \<Rightarrow> bool" where
  "same_privs p \<longleftrightarrow> (\<forall>uid s. wp (privs uid) p (\<lambda>a s'. s' = s) s)"

lemma same_privsI: "(\<And>uid s. wp (privs uid) p (\<lambda>a s'. s' = s) s) \<Longrightarrow> same_privs p"
  by (simp add: same_privs_def)

lemma same_privsD: "same_privs p \<Longrightarrow> (\<And>a. Q a s) \<Longrightarrow> wp (privs uid) p Q s"
  unfolding same_privs_def by (drule spec [of _ uid], drule spec [of _ s], erule wp_mono) simp

lemma unprivilegedI:
  "(\<And>s. s \<in> {Privileged, Unprivileged} \<Longrightarrow> wp (privs uid) p (\<lambda>a s'. s' = s) s) \<Longrightarrow> unprivileged uid p"
  by (simp add: unprivileged_def)

lemma unprivilegedD:
  "unprivileged uid p \<Longrightarrow> s \<in> {Privileged, Unprivileged} \<Longrightarrow> (\<And>a. Q a s) \<Longrightarrow> wp (privs uid) p Q s"
  unfolding unprivileged_def by (drule bspec, assumption, erule wp_mono) simp

lemma wp_privs_fork_exec [wp_rules]:
  assumes "s \<in> {Privileged, Unprivileged}" "\<And>pid. wp (privs uid) (parent pid) Q s"
  shows "wp (privs uid) (fork_exec uid argv code parent) Q s"
  using assms by (simp add: fork_exec_def wp_privs_drop)

lemma wp_privs_select_binary [wp_rules]:
  "(\<And>b. Q b s) \<Longrightarrow> wp (privs uid) (select_binary env bin debug bg) Q s"
  by (auto simp: select_binary_def select_execution_binary_def Let_def)

lemma wp_privs_profman_args [wp_rules]:
  "(\<And>argv. Q argv s) \<Longrightarrow> wp (privs uid) (profman_args env pre fds ref apks locs cu st) Q s"
  by (auto simp: profman_args_def intro!: wp_rules)

lemma same_privs_with_some: "(\<And>y. same_privs (f y)) \<Longrightarrow> same_privs (with_some x f)"
  by (auto simp: same_privs_def)

lemma same_privs_bindx: "same_privs p \<Longrightarrow> (\<And>a. same_privs (f a)) \<Longrightarrow> same_privs (bindx p f)"
  by (rule same_privsI, simp) (rule same_privsD, assumption, rule same_privsD, auto)

lemma same_privs_pure [simp]: "same_privs (pure a)"
  by (simp add: same_privs_def)

lemma same_privs_clear_profile: "same_privs (clear_profile p)"
  by (rule same_privsI) (simp add: clear_profile_def)

lemma same_privs_clear:
  "same_privs (clear_reference_profile env pkg loc sec)" "same_privs (clear_current_profile env pkg loc user sec)"
  by (simp_all add: clear_reference_profile_def clear_current_profile_def same_privs_with_some same_privs_clear_profile)

lemma same_privs_clear_primary: "same_privs (clear_primary_current_profiles env pkg loc)"
proof -
  have "same_privs (clear_currents env pkg loc users ok)" for users ok
    by (induction users arbitrary: ok) (auto intro!: same_privs_bindx same_privs_clear(2))
  then show ?thesis by (simp add: clear_primary_current_profiles_def)
qed

lemma same_privs_open_profile: "same_privs (open_profile uid p fl)"
  by (rule same_privsI) (simp add: open_profile_def create_profile_def Let_def)

lemma same_privs_opens:
  "same_privs (open_current_profile env uid user pkg loc sec)"
  "same_privs (open_reference_profile env uid pkg loc rw sec)"
  "same_privs (open_snapshot_profile env uid pkg loc)"
  by (simp_all add: open_current_profile_def open_reference_profile_def open_snapshot_profile_def
      same_privs_with_some same_privs_open_profile)

lemma same_privs_open_profile_files: "same_privs (open_profile_files env uid pkg loc sec)"
proof -
  have "same_privs (open_currents env uid pkg loc sec users)" for users
    by (induction users) (auto intro!: same_privs_bindx same_privs_opens(1))
  then show ?thesis
    by (auto simp: open_profile_files_def intro!: same_privs_bindx same_privs_opens(1,2))
qed

lemma same_privs_open_classpath: "same_privs (open_classpath_files cp)"
proof -
  have "same_privs (open_classpath_elems es fds locs)" for es fds locs
    by (induction es arbitrary: fds locs) (auto simp: same_privs_def)
  then show ?thesis by (simp add: open_classpath_files_def)
qed

lemma same_privs_open_batch: "same_privs (open_batch uid ps)"
  by (induction ps) (auto intro!: same_privs_bindx same_privs_open_profile)

lemmas same_privs_rules = same_privs_clear same_privs_clear_primary same_privs_opens same_privs_open_profile_files
  same_privs_open_classpath same_privs_open_batch

lemmas same_privs_wp = same_privs_rules [THEN same_privsD]

lemma unprivileged_analyze_profiles: "unprivileged uid (analyze_profiles env uid pkg loc sec)"
  unfolding analyze_profiles_def
  by (rule unprivilegedI) (auto simp: split_beta Let_def intro!: wp_rules same_privs_wp)

lemma unprivileged_dump_profiles: "unprivileged uid (dump_profiles env uid pkg prof code)"
  unfolding dump_profiles_def Let_def
  by (rule unprivilegedI) (auto simp: split_beta intro!: wp_rules same_privs_wp)

lemma unprivileged_create_app_profile_snapshot:
  "unprivileged (to_u32 (se_shared_gid (d_svc env) 0 app)) (create_app_profile_snapshot env app pkg prof cp)"
  unfolding create_app_profile_snapshot_def Let_def
  by (rule unprivilegedI) (auto simp: split_beta intro!: wp_rules same_privs_wp)

lemma same_privs_collect_profiles: "same_privs (collect_profiles env n)"
proof -
  have call: "same_privs (Call c k)"
    if "\<And>uid s r. privs uid s c r = Some s" "\<And>r. same_privs (k r)" for c and k :: "preply \<Rightarrow> (bool \<times> string list) proc_prog"
    using that by (simp add: same_privs_def)
  have cond: "same_privs (if b then p else q)" if "same_privs p" "same_privs q"
    for b and p q :: "(bool \<times> string list) proc_prog"
    using that by simp
  have close: "same_privs (close_fd fd)" for fd by (simp add: same_privs_def)
  have "same_privs (collect_entries n d path)" for d path
  proof (induction n arbitrary: d path)
    case (Suc n)
    show ?case
      unfolding collect_entries.simps Let_def split_beta
      by (intro call cond same_privs_bindx close same_privs_pure Suc) simp_all
  qed (simp add: same_privs_def)
  then show ?thesis
    unfolding collect_profiles_def Let_def by (intro call cond same_privs_pure) simp_all
qed

lemma unprivileged_create_boot_image_profile_snapshot:
  "unprivileged (AID_SYSTEM (d_svc env)) (create_boot_image_profile_snapshot env n pkg prof cp)"
  unfolding create_boot_image_profile_snapshot_def aggregate_batches_def
  by (rule unprivilegedI)
    (auto simp: split_beta intro!: wp_rules same_privs_wp same_privsD [OF same_privs_collect_profiles])

lemma unprivileged_prepare_app_profile:
  "unprivileged (to_u32 (se_shared_gid (d_svc env) user app)) (prepare_app_profile env pkg user app prof code dm)"
  unfolding prepare_app_profile_def Let_def
  by (rule unprivilegedI) (auto split: option.splits intro!: wp_rules same_privs_wp)

section \<open>What the analysis of the profiles does\<close>

text \<open>
  The result of the last wait of a run, and the files it opened to clear them: every other file is
  opened for reading, or for reading and writing.
\<close>

fun wait_result :: "int option \<Rightarrow> (pcall, preply) history \<Rightarrow> int option" where
  "wait_result v [] = v"
| "wait_result v ((Waitpid pid, r) # t) = wait_result (Some (if rc r \<noteq> pid then 1 else r_status r)) t"
| "wait_result v (c # t) = wait_result v t"

fun cleared_files :: "(pcall, preply) history \<Rightarrow> string list" where
  "cleared_files [] = []"
| "cleared_files ((Open p fl m, r) # t) = (if O_WRONLY \<in> set fl then p # cleared_files t else cleared_files t)"
| "cleared_files (c # t) = cleared_files t"

fun audit :: "(pcall, preply, (int option \<times> string list)) monitor" where
  "audit (v, cl) (Waitpid pid) r = Some (Some (if rc r \<noteq> pid then 1 else r_status r), cl)"
| "audit (v, cl) (Open p fl m) r = Some (v, if O_WRONLY \<in> set fl then cl @ [p] else cl)"
| "audit (v, cl) c r = Some (v, cl)"

lemma watch_audit: "watch audit (v, cl) t = Some (wait_result v t, cl @ cleared_files t)"
proof (induction t arbitrary: v cl)
  case (Cons x t)
  obtain c r where x: "x = (c, r)" by (cases x)
  show ?case by (cases c) (auto simp: x Cons)
qed simp

lemma exit_status_0 [simp]: "WIFEXITED 0" "WEXITSTATUS 0 = 0"
  by (simp_all add: WIFEXITED_def WEXITSTATUS_def)

lemma wp_audit_wait [wp_rules]:
  assumes "\<And>n m. (WIFEXITED n \<longleftrightarrow> WIFEXITED m) \<Longrightarrow> (WIFEXITED m \<Longrightarrow> WEXITSTATUS n = WEXITSTATUS m) \<Longrightarrow> Q n (Some m, cl)"
  shows "wp audit (wait_child pid) Q (v, cl)"
  by (auto simp: wait_child_def intro!: assms)

lemma wp_audit_clear_profile [wp_rules]:
  "(\<And>b. Q b (v, cl @ [p])) \<Longrightarrow> wp audit (clear_profile p) Q (v, cl)"
  by (simp add: clear_profile_def with_fd_def close_fd_def)

lemma wp_audit_profman_args [wp_rules]:
  "(\<And>argv. Q argv s) \<Longrightarrow> wp audit (profman_args env pre fds ref apks locs cu st) Q s"
  by (cases s) (auto simp: select_binary_def select_execution_binary_def profman_args_def Let_def)

lemma wp_audit_close [simp]: "wp audit (close_fd fd) Q = Q ()" "wp audit (close_fds fds) Q = Q ()"
proof -
  show *: "wp audit (close_fd fd) Q = Q ()" for fd Q
    by (rule ext, rename_tac s, case_tac s) (simp add: close_fd_def)
  show "wp audit (close_fds fds) Q = Q ()" by (induction fds) (simp_all add: *)
qed

lemma wp_audit_with [simp]: "wp audit (with_fd fd p) Q = wp audit p Q" "wp audit (with_fds fds p) Q = wp audit p Q"
  by (simp_all add: with_fd_def with_fds_def pure_def)

lemma wp_audit_fork_exec [wp_rules]:
  "(\<And>pid. wp audit (parent pid) Q s) \<Longrightarrow> wp audit (fork_exec uid argv code parent) Q s"
  by (cases s) (auto simp: fork_exec_def drop_capabilities_def exec_or_exit_def)

lemma wp_audit_open_profile:
  "O_WRONLY \<notin> set fl \<Longrightarrow> (\<And>fd. Q fd s) \<Longrightarrow> wp audit (open_profile uid p fl) Q s"
  by (cases s) (auto simp: open_profile_def create_profile_def Let_def)

lemma wp_audit_open_profile_files [wp_rules]:
  assumes "\<And>x. Q x s"
  shows "wp audit (open_profile_files env uid pkg loc sec) Q s"
proof -
  have "wp audit (open_currents env uid pkg loc sec users) Q s" if "\<And>fds. Q fds s" for users Q
    using that
    by (induction users arbitrary: Q) (auto simp: open_current_profile_def intro!: wp_audit_open_profile)
  then show ?thesis
    by (auto simp: open_profile_files_def open_reference_profile_def open_current_profile_def assms
        intro!: wp_audit_open_profile)
qed

text \<open>The profiles of the users that are cleared together.\<close>

definition current_profile_paths :: "dex_env \<Rightarrow> int \<Rightarrow> string \<Rightarrow> string \<Rightarrow> bool \<Rightarrow> string option list" where
  "current_profile_paths env uid pkg loc sec =
     map (\<lambda>user. create_current_profile_path (se_globals (d_svc env)) (nat user) pkg loc sec)
       (if sec then [se_user_of (d_svc env) uid] else known_users env)"

lemma wp_audit_clear_currents:
  assumes "\<And>b cl'. map Some cl' = map Some cl @ map (\<lambda>user. create_current_profile_path (se_globals (d_svc env)) (nat user) pkg loc False) users
      \<Longrightarrow> Q b (v, cl')"
  shows "wp audit (clear_currents env pkg loc users ok) Q (v, cl)"
  using assms
proof (induction users arbitrary: ok cl)
  case (Cons u us)
  show ?case
    by (auto simp: clear_current_profile_def intro!: wp_rules Cons.IH Cons.prems)
qed auto

text \<open>The exit codes of a program, and those of a child that was to run \<open>profman\<close>.\<close>

primrec exits :: "(int \<Rightarrow> bool) \<Rightarrow> ('c, 'r, 'a) process \<Rightarrow> bool" where
  "exits P (Ret x) = (case x of Exited n \<Rightarrow> P n | _ \<Rightarrow> True)"
| "exits P Abort = True"
| "exits P (Call c k) = (\<forall>r. exits P (k r))"

lemma exits_simps [simp]: "exits P (pure a)" "exits P (exit_process n) = P n"
  by (simp_all add: pure_def exit_process_def)

lemma exits_run: "exits P p \<Longrightarrow> run p os h = (Some (Exited n), t) \<Longrightarrow> P n"
  by (induction p arbitrary: h) (auto split: proc.splits)

lemma exits_bindx [intro!]:
  assumes "exits P p" "\<And>a. exits P (f a)"
  shows "exits P (bindx p f)"
  using assms(1)
proof (induction p)
  case (Ret x)
  then show ?case by (cases x) (auto simp: assms(2))
qed auto

lemma exits_clear_profile: "exits P (clear_profile p)"
  by (auto simp: clear_profile_def with_fd_def close_fd_def errno_def)

lemma exits_clear: "exits P (clear_reference_profile env pkg loc sec)" "exits P (clear_current_profile env pkg loc user sec)"
    "exits P (clear_primary_current_profiles env pkg loc)"
proof -
  show 1: "exits P (clear_reference_profile env pkg loc sec)" "exits P (clear_current_profile env pkg loc user sec)" for sec user
    by (simp_all add: clear_reference_profile_def clear_current_profile_def with_some_def exits_clear_profile
        split: option.split)
  have "exits P (clear_currents env pkg loc users ok)" for users ok
    by (induction users arbitrary: ok) (auto intro: 1(2))
  then show "exits P (clear_primary_current_profiles env pkg loc)"
    by (simp add: clear_primary_current_profiles_def)
qed

lemma exits_open_profile_files: "exits P (open_profile_files env uid pkg loc sec)"
proof -
  have o: "exits P (open_profile u p fl)" for u p fl
    by (auto simp: open_profile_def create_profile_def Let_def errno_def close_fd_def)
  have "exits P (open_currents env uid pkg loc sec users)" for users
    by (induction users) (auto simp: open_current_profile_def with_some_def o split: option.split)
  then show ?thesis
    by (auto simp: open_profile_files_def open_reference_profile_def with_some_def o simp del: open_currents.simps
        split: option.split)
qed

lemma exits_close [simp]: "exits P (close_fd fd)" "exits P (close_fds fds)"
proof -
  show *: "exits P (close_fd fd)" for fd by (simp add: close_fd_def)
  show "exits P (close_fds fds)" by (induction fds) (auto simp: *)
qed

lemma exits_profman_args: "exits P (profman_args env pre fds ref apks locs cu st)"
  by (auto simp: profman_args_def select_binary_def select_execution_binary_def Let_def)

lemma exits_analyze_profiles:
  assumes "P kSetGid" "P kSetUid" "P kCapSet" "P kProfmanExec"
  shows "exits P (analyze_profiles env uid pkg loc sec)"
proof -
  have scoped: "exits P (with_fd fd p)" "exits P (with_fds fds p)" if "exits P p" for fd fds and p :: "bool proc_prog"
    using that by (auto simp: with_fd_def with_fds_def)
  have fork: "exits P (fork_exec uid argv kProfmanExec parent)" if "\<And>pid. exits P (parent pid)"
    for argv and parent :: "int \<Rightarrow> bool proc_prog"
    using assms that by (simp add: fork_exec_def fork_child_def drop_capabilities_def exec_or_exit_def)
  have wait: "exits P (wait_child pid)" for pid by (simp add: wait_child_def)
  show ?thesis
    unfolding analyze_profiles_def split_beta Let_def
    by (intro exits_bindx exits_open_profile_files scoped fork wait exits_profman_args if_split [where P = "exits P", THEN iffD2]
        conjI impI exits_simps(1) exits_clear)
qed


text \<open>
  A device on which every file can be opened, as descriptor 3, and \<open>profman\<close> exits with code 2.
\<close>

definition demo_dex :: dex_env where
  "demo_dex = \<lparr>d_svc = demo_svc, d_props = (\<lambda>_. []), d_getenv = (\<lambda>_. None), d_flags = (\<lambda>_ _. [])\<rparr>"

definition good_reply :: "int \<Rightarrow> int \<Rightarrow> preply" where
  "good_reply n status = \<lparr>rc = n, r_str = [], r_uid = 0, r_gid = 0, r_mode = 0, r_ino = 0, r_trees = None,
     r_status = status, r_fds = (4, 5), r_times = (0, 0), r_size = 0\<rparr>"

definition bad_profiles_os :: "(pcall, preply) os_oracle" where
  "bad_profiles_os h c =
     (case c of Open p fl m \<Rightarrow> good_reply 3 0 | Fork \<Rightarrow> good_reply 7 0 | Waitpid pid \<Rightarrow> good_reply 7 512 | _ \<Rightarrow> good_reply 0 0)"

definition demo_analysis :: "bool proc option \<times> (pcall, preply) history" where
  "demo_analysis = run (analyze_profiles demo_dex 10001 ''com.example'' ''primary.prof'' False) bad_profiles_os []"


section \<open>Where the code does not do what it means to\<close>

text \<open>
  \<open>copy_system_profile\<close>: when the child cannot take the lock it returns from the function, and goes
  on as a second installd, with the privileges of the app.
\<close>

definition locked_os :: "(pcall, preply) os_oracle" where
  "locked_os h c = (case c of Open p fl m \<Rightarrow> good_reply 3 0 | FlockEx fd \<Rightarrow> good_reply (-1) 0 | _ \<Rightarrow> good_reply 0 0)"

lemma copy_system_profile_child_returns:
  "fst (run (copy_system_profile demo_dex n ''/system/p.prof'' 10001 ''com.example'' ''primary.prof'') locked_os []) =
     Some (Live False)"
  "Setuid 10001 \<in> set (map fst (snd (run (copy_system_profile demo_dex n ''/system/p.prof'' 10001 ''com.example''
     ''primary.prof'') locked_os [])))"
  by (code_simp, code_simp)

text \<open>The stream of the profiles directory stays open.\<close>

definition empty_dir_os :: "(pcall, preply) os_oracle" where
  "empty_dir_os h c = (case c of Opendir p \<Rightarrow> good_reply 9 0 | Open p fl m \<Rightarrow> good_reply 3 0 | _ \<Rightarrow> good_reply 0 0)"

lemma collect_profiles_leaks_stream:
  "case run (collect_profiles demo_dex 1) empty_dir_os [] of (res, t) \<Rightarrow>
     res = Some (Live (True, [])) \<and> watch (descriptors ''/data/misc/profiles'') {#} t = Some {#9#}"
  by code_simp

text \<open>A \<open>read\<close> that fails is not told apart from data: the loop writes and reads for ever.\<close>

lemma copy_loop_read_error:
  "fst (run (copy_loop n i out) (\<lambda>h c. good_reply (-1) 0) h) = Some Running"
  by (induction n arbitrary: h) (simp_all add: good_reply_def)

text \<open>The profiles after the first ten are not merged into the snapshot of the boot image.\<close>

lemma aggregate_only_ten:
  "length ps = 10 \<Longrightarrow> aggregate_batches env fd apks locs (ps @ qs) = aggregate_batches env fd apks locs ps"
  by (auto simp: aggregate_batches_def)

text \<open>
  A \<open>fork\<close> that fails: the pid -1 is waited for, the wait fails with the same value, and the status
  that was never set decides over the profiles.
\<close>

definition no_fork_os :: "(pcall, preply) os_oracle" where
  "no_fork_os h c =
     (case c of Open p fl m \<Rightarrow> good_reply 3 0 | Fork \<Rightarrow> good_reply (-1) 0 | Waitpid pid \<Rightarrow> good_reply (-1) 512
      | _ \<Rightarrow> good_reply 0 0)"

lemma fork_failure_clears_profiles:
  "length (cleared_files (snd (run (analyze_profiles demo_dex 10001 ''com.example'' ''primary.prof'' False)
     no_fork_os []))) = 2"
  by code_simp

end
