(* ===== verification/DexCompileCorrect.thy ===== *)
theory DexCompileCorrect
  imports DexCompile DexProfilesCorrect
begin

text \<open>
  \<open>dexopt\<close> and the handling of secondary dex files: descriptors are neither leaked nor closed
  twice, nothing is executed with privileges, and a compilation that fails leaves no output file.
\<close>

section \<open>Descriptors\<close>

lemma wp_ledger_check_access [wp_rules]:
  "(\<And>a. wp ledger (f a) Q F) \<Longrightarrow> wp ledger (check_secondary_dex_access p f) Q F"
  by (simp add: check_secondary_dex_access_def)

lemma wp_ledger_prepare_oat_dir [wp_rules]:
  "(\<And>b. Q b F) \<Longrightarrow> wp ledger (prepare_secondary_dex_oat_dir p uid isa) Q F"
  by (auto simp: prepare_secondary_dex_oat_dir_def Let_def split: option.splits intro!: wp_rules)

lemma wp_ledger_dexoptanalyzer [wp_rules]:
  "(\<And>argv. Q argv F) \<Longrightarrow> wp ledger (dexoptanalyzer_args env p v o_fd z isa cf pu d clc fds) Q F"
  "(\<And>argv. Q argv F) \<Longrightarrow> wp ledger (flatten_context_args env ctx) Q F"
  by (auto simp: dexoptanalyzer_args_def flatten_context_args_def select_dexoptanalyzer_def intro!: wp_rules)

lemma wp_ledger_open_dex_paths [wp_rules]:
  assumes "\<And>code fds. Q (code, fds) (F + openeds fds)"
  shows "wp ledger (open_dex_paths ps []) Q F"
proof -
  have "wp ledger (open_dex_paths ps fds) Q (F + openeds fds)" for fds
  proof (induction ps arbitrary: fds)
    case (Cons p ps)
    have "Q (code, fds @ [fd]) (F + openeds fds)" if "fd < 0" for code fd
      using assms [of code "fds @ [fd]"] that by simp
    then show ?case using Cons [of "fds @ [_]"] by (auto simp: add.assoc)
  qed (simp add: assms)
  from this [of "[]"] show ?thesis by simp
qed

lemma opened_r_fds [simp]: "fd \<in># F \<Longrightarrow> opened fd \<subseteq># F"
  by (simp add: opened_def)

text \<open>A child that never returns leaves nothing to the caller.\<close>

lemma wp_ledger_secondary_child [wp_rules]:
  "wp ledger (secondary_child env p pkg vol uid isa cf oat d clc ctx sf) Q F"
  unfolding secondary_child_def maybe_open_oat_and_vdex_file_def
  by (auto simp: split_beta split: option.splits intro!: wp_rules tidyD [OF tidy_analyze_profiles])

lemma wp_ledger_is_file_public [wp_rules]: "(\<And>b. Q b F) \<Longrightarrow> wp ledger (is_file_public p) Q F"
  by (simp add: is_file_public_def)

lemma tidy_process_secondary:
  "tidy (process_secondary_dex_dexopt env p pkg fl vol uid isa cf d clc ctx)"
  unfolding process_secondary_dex_dexopt_def
  by (rule tidyI) (auto simp: Let_def split: option.splits intro!: wp_rules)

lemma wp_ledger_reconcile_child [wp_rules]: "wp ledger (reconcile_child env p pkg uid isas vol sf) Q F"
proof -
  have unlink: "wp ledger (unlink_if_exists f) Q F" "wp ledger (rmdir_if_empty f) Q F" if "\<And>b. Q b F" for f Q F
    by (simp_all add: unlink_if_exists_def rmdir_if_empty_def that)
  have "wp ledger (clean_artifacts env p pkg uid isas ok) Q F" if "\<And>b. Q b F" for ok Q
    using that by (induction isas arbitrary: ok Q) (auto split: option.splits intro!: unlink)
  then show ?thesis
    unfolding reconcile_child_def by (auto split: dex_access.splits intro!: wp_rules)
qed

lemma tidy_reconcile: "tidy (reconcile_secondary_dex_file env p pkg uid isas vol sf)"
  unfolding reconcile_secondary_dex_file_def by (rule tidyI) (auto simp: Let_def intro!: wp_rules)

lemma tidy_get_class_loader_context: "tidy (get_class_loader_context_dex_paths env clc uid)"
  unfolding get_class_loader_context_dex_paths_def
  by (rule tidyI) (auto split: option.splits intro!: wp_rules)

lemma wp_ledger_hash_reads [wp_rules]: "(\<And>x. Q x F) \<Longrightarrow> wp ledger (hash_reads n fd acc) Q F"
  by (induction n arbitrary: acc) auto

lemma tidy_hash: "tidy (hash_secondary_dex_file env sha n p pkg uid vol sf)"
  unfolding hash_secondary_dex_file_def
  by (rule tidyI) (auto intro!: wp_rules)

text \<open>The descriptors that a wrapper closes.\<close>

definition held :: "file_wrapper \<Rightarrow> int multiset" where
  "held w = (if w_auto_close w then opened (w_value w) else {#})"

lemma held_simps [simp]: "held (new_wrapper fd cl) = opened fd" "held no_wrapper = {#}"
  "held (w\<lparr>w_do_cleanup := b\<rparr>) = held w" "held (w\<lparr>w_auto_close := False\<rparr>) = {#}"
  "w_auto_close (new_wrapper fd cl)" "w_auto_close no_wrapper" "w_value no_wrapper = -1"
  "w_value (new_wrapper fd cl) = fd" "w_cleanup (new_wrapper fd cl) = cl" "w_cleanup no_wrapper = NoCleanup"
  "w_do_cleanup (new_wrapper fd cl)" "w_do_cleanup no_wrapper"
  by (simp_all add: held_def new_wrapper_def no_wrapper_def opened_def)

lemma held_value: "w_auto_close w \<Longrightarrow> held (w\<lparr>w_value := fd\<rparr>) = opened fd"
  "w_auto_close w \<Longrightarrow> held (w\<lparr>w_value := fd, w_cleanup := cl\<rparr>) = opened fd"
  by (simp_all add: held_def)

lemma tidy_run_cleanup: "tidy (run_cleanup env cl)"
  by (rule tidyI) (auto simp: run_cleanup_def split: cleanup.splits intro!: tidyD [OF tidy_clear(1)])

lemma wp_ledger_wrapper_release [wp_rules]:
  assumes "held w \<subseteq># F" "Q () (F - held w)"
  shows "wp ledger (wrapper_release env w) Q F"
  using assms
  by (auto simp: wrapper_release_def held_def opened_def [of "w_value w"] intro!: wp_rules tidyD [OF tidy_run_cleanup]
      split: if_splits)

lemma wp_ledger_wrapper_reset [wp_rules]:
  assumes "held w \<subseteq># F" "Q (w\<lparr>w_value := fd\<rparr>) (F - held w)"
  shows "wp ledger (wrapper_reset env w fd) Q F"
  using assms by (auto simp: wrapper_reset_def intro!: wp_rules)

lemma wp_ledger_wrapper_reset_with [wp_rules]:
  assumes "held w \<subseteq># F" "Q (w\<lparr>w_value := fd, w_cleanup := cl\<rparr>) (F - held w)"
  shows "wp ledger (wrapper_reset_with env w fd cl) Q F"
  using assms by (auto simp: wrapper_reset_with_def intro!: wp_rules)

lemma wp_ledger_with_wrapper [wp_rules]:
  assumes "wp ledger p (\<lambda>a F'. held w \<subseteq># F' \<and> Q a (F' - held w)) F"
  shows "wp ledger (with_wrapper env w p) Q F"
  unfolding with_wrapper_def wp_bindx
  by (rule wp_mono [OF assms]) (auto intro!: wp_rules)

lemma wp_ledger_open_output_file [wp_rules]:
  "(\<And>fd. Q fd (F + opened fd)) \<Longrightarrow> wp ledger (open_output_file p re perm) Q F"
  by (simp add: open_output_file_def)

lemma wp_ledger_set_permissions [wp_rules]:
  "(\<And>b. Q b F) \<Longrightarrow> wp ledger (set_permissions_and_ownership env fd pub uid sec) Q F"
  by (simp add: set_permissions_and_ownership_def Let_def)

lemma wp_ledger_app_image [wp_rules]:
  assumes "\<And>w. Q w (F + held w)"
  shows "wp ledger (maybe_open_app_image env p gen pub uid sec) Q F"
proof -
  have "Q (new_wrapper fd cl) F" if "fd < 0" for fd cl
    using assms [of "new_wrapper fd cl"] that by simp
  then show ?thesis
    using assms [of no_wrapper] assms [of "new_wrapper _ _"]
      assms [of "(new_wrapper _ _)\<lparr>w_value := -1\<rparr>", unfolded held_value [OF held_simps(5)]]
    unfolding maybe_open_app_image_def by (auto simp: Let_def opened_def [of "-1"] intro!: wp_rules)
qed

lemma wp_ledger_swap [wp_rules]:
  "(\<And>fd. Q fd (F + opened fd)) \<Longrightarrow> wp ledger (maybe_open_dexopt_swap_file env p) Q F"
proof -
  assume q: "\<And>fd. Q fd (F + opened fd)"
  from q have "Q fd F" if "fd < 0" for fd using q [of fd] that by simp
  with q show ?thesis by (auto simp: maybe_open_dexopt_swap_file_def intro!: wp_rules)
qed

lemma wp_ledger_reference_wrapper [wp_rules]:
  assumes "\<And>w. Q w (F + held w)"
  shows "wp ledger (maybe_open_reference_profile env pkg p name pg pub uid sec) Q F"
  using assms [of no_wrapper] assms [of "new_wrapper _ _"]
  by (auto simp: maybe_open_reference_profile_def Let_def split: option.splits
      intro!: owningD [OF owning_open_profiles(2)])

lemma wp_ledger_open_out_vdex [wp_rules]:
  assumes "\<And>ok in' out'. Q (ok, in', out') (F + held in' + held out')" "w_auto_close w"
  shows "wp ledger (open_out_vdex env p upd w pub uid sec) Q (F + held w)"
proof -
  have "Q (ok, w\<lparr>w_auto_close := False\<rparr>, no_wrapper\<lparr>w_value := w_value w, w_cleanup := cl\<rparr>) (F + opened (w_value w))"
    for ok cl
    using assms(1) [of ok "w\<lparr>w_auto_close := False\<rparr>" "no_wrapper\<lparr>w_value := w_value w, w_cleanup := cl\<rparr>"]
    by (simp add: held_value)
  moreover have "Q (ok, w, no_wrapper\<lparr>w_value := fd, w_cleanup := cl\<rparr>) (F + held w + opened fd)" for ok cl fd
    using assms(1) [of ok w "no_wrapper\<lparr>w_value := fd, w_cleanup := cl\<rparr>"] by (simp add: held_value)
  moreover have "Q (ok, w, no_wrapper\<lparr>w_value := fd, w_cleanup := cl\<rparr>) (F + held w)" if "fd < 0" for ok cl fd
    using assms(1) [of ok w "no_wrapper\<lparr>w_value := fd, w_cleanup := cl\<rparr>"] that by (simp add: held_value)
  moreover have "held w = opened (w_value w)" using assms(2) by (simp add: held_def)
  ultimately show ?thesis
    by (auto simp: open_out_vdex_def intro!: wp_rules)
qed

lemma wp_ledger_open_vdex_files [wp_rules]:
  assumes "\<And>ok in' out'. Q (ok, in', out') (F + held in' + held out')"
  shows "wp ledger (open_vdex_files_for_dex2oat env apk p n isa pub uid sec pg) Q F"
proof -
  have "Q (False, no_wrapper, no_wrapper) F" using assms [of False no_wrapper no_wrapper] by simp
  moreover have "wp ledger (open_out_vdex env p' upd no_wrapper pub uid sec) Q F" for p' upd
    using wp_ledger_open_out_vdex [where Q = Q and w = no_wrapper, OF assms] by simp
  moreover have "wp ledger (open_out_vdex env p' upd (no_wrapper\<lparr>w_value := fd\<rparr>) pub uid sec) Q (F + opened fd)"
    for p' upd fd
    using wp_ledger_open_out_vdex [where Q = Q and w = "no_wrapper\<lparr>w_value := fd\<rparr>", OF assms]
    by (simp add: held_value)
  ultimately show ?thesis
    unfolding open_vdex_files_for_dex2oat_def by (auto simp: Let_def split: option.splits intro!: wp_rules)
qed

lemma wp_ledger_open_oat_out_file [wp_rules]:
  assumes "\<And>w path. Q (w, path) (F + held w)"
  shows "wp ledger (open_oat_out_file env apk od pub uid isa sec) Q F"
proof -
  have "Q (new_wrapper fd cl, path) F" if "fd < 0" for fd cl path
    using assms [of "new_wrapper fd cl" path] that by simp
  then show ?thesis
    using assms [of no_wrapper] assms [of "new_wrapper _ _"]
      assms [of "(new_wrapper _ _)\<lparr>w_value := -1\<rparr>", unfolded held_value [OF held_simps(5)]]
    unfolding open_oat_out_file_def by (auto simp: Let_def split: option.splits intro!: wp_rules)
qed

lemma wp_ledger_run_dex2oat [wp_rules]:
  "(\<And>x. Q x F) \<Longrightarrow> wp ledger (run_dex2oat env x inp) Q F"
  unfolding run_dex2oat_def RunDex2Oat_def SetDex2OatScheduling_def update_out_oat_access_times_def
  by (auto intro!: wp_rules)

lemma wp_ledger_dexopt_outputs [wp_rules]:
  assumes "\<And>res. Q res F"
  shows "wp ledger (dexopt_outputs env x pub n od input ctx w p) Q F"
  unfolding dexopt_outputs_def Let_def
  by (auto simp: assms opened_def [of "-1"] split: option.splits intro!: wp_rules)

lemma tidy_dexopt_files: "tidy (dexopt_files env x pub n od ctx)"
  unfolding dexopt_files_def
  by (rule tidyI) (auto simp: split_beta intro!: wp_rules)

lemma tidy_dexopt: "tidy (dexopt env x)"
  unfolding dexopt_def Let_def
  by (rule tidyI) (auto simp: split_beta split: option.splits
      intro!: tidyD [OF tidy_get_class_loader_context] tidyD [OF tidy_process_secondary] tidyD [OF tidy_dexopt_files])

section \<open>Privileges\<close>

lemma same_privs_lift: "same_privs (lift p)"
  by (rule same_privsI) (auto intro!: wp_lift)

lemma wp_privs_prepare_oat_dir [wp_rules]:
  "(\<And>b. Q b s) \<Longrightarrow> wp (privs uid) (prepare_secondary_dex_oat_dir p u isa) Q s"
  by (auto simp: prepare_secondary_dex_oat_dir_def Let_def split: option.splits intro!: wp_rules)

lemma wp_privs_dexoptanalyzer [wp_rules]:
  "(\<And>argv. Q argv s) \<Longrightarrow> wp (privs uid) (dexoptanalyzer_args env p v o_fd z isa cf pu d clc fds) Q s"
  "(\<And>argv. Q argv s) \<Longrightarrow> wp (privs uid) (flatten_context_args env ctx) Q s"
  by (auto simp: dexoptanalyzer_args_def flatten_context_args_def select_dexoptanalyzer_def intro!: wp_rules)

lemma same_privs_open_dex_paths: "same_privs (open_dex_paths ps fds)"
  by (induction ps arbitrary: fds) (auto simp: same_privs_def)

lemma wp_privs_secondary_child:
  "s \<in> {Privileged, Unprivileged} \<Longrightarrow>
     wp (privs uid) (secondary_child env p pkg vol uid isa cf oat d clc ctx sf) Q s"
  unfolding secondary_child_def maybe_open_oat_and_vdex_file_def
  by (auto simp: split_beta split: option.splits intro!: wp_rules same_privsD [OF same_privs_open_dex_paths]
      unprivilegedD [OF unprivileged_analyze_profiles])

lemma unprivileged_process_secondary:
  "unprivileged uid (process_secondary_dex_dexopt env p pkg fl vol uid isa cf d clc ctx)"
  unfolding process_secondary_dex_dexopt_def
  by (rule unprivilegedI) (auto simp: Let_def is_file_public_def split: option.splits intro!: wp_rules wp_privs_secondary_child)

lemma unprivileged_get_class_loader_context: "unprivileged uid (get_class_loader_context_dex_paths env clc uid)"
  unfolding get_class_loader_context_dex_paths_def
  by (rule unprivilegedI) (auto split: option.splits intro!: wp_rules)

lemma same_privs_cleanup: "same_privs (wrapper_release env w)" "same_privs (wrapper_reset env w fd)"
  "same_privs (wrapper_reset_with env w fd cl)"
proof -
  have "same_privs (run_cleanup env cl)" for cl
    by (rule same_privsI) (auto simp: run_cleanup_def split: cleanup.splits intro!: same_privs_wp)
  then show *: "same_privs (wrapper_release env w)" for w
    by (intro same_privsI) (auto simp: wrapper_release_def intro!: same_privsD)
  show "same_privs (wrapper_reset env w fd)" "same_privs (wrapper_reset_with env w fd cl)"
    by (auto simp: wrapper_reset_def wrapper_reset_with_def intro!: same_privs_bindx *)
qed

lemma wp_privs_with_wrapper [wp_rules]:
  assumes "wp (privs uid) p Q s"
  shows "wp (privs uid) (with_wrapper env w p) Q s"
  unfolding with_wrapper_def wp_bindx
  by (rule wp_mono [OF assms]) (auto intro!: same_privsD [OF same_privs_cleanup(1)])

lemma same_privs_outputs: "same_privs (open_output_file p re perm)"
  "same_privs (set_permissions_and_ownership env fd pub u sec)"
  by (rule same_privsI, simp add: open_output_file_def set_permissions_and_ownership_def Let_def)+

lemma same_privs_vdex: "same_privs (open_vdex_files_for_dex2oat env apk p n isa pub u sec pg)"
proof -
  have "same_privs (open_out_vdex env p upd w pub u sec)" for p upd w
    by (rule same_privsI) (auto simp: open_out_vdex_def intro!: same_privsD [OF same_privs_cleanup(3)]
        same_privs_outputs [THEN same_privsD])
  then show ?thesis
    unfolding open_vdex_files_for_dex2oat_def
    by (intro same_privsI) (auto simp: Let_def split: option.splits
        intro!: same_privsD [OF same_privs_cleanup(2)] intro: same_privsD)
qed

lemma same_privs_opened: "same_privs (maybe_open_app_image env p gen pub u sec)"
  "same_privs (maybe_open_dexopt_swap_file env p)"
  "same_privs (maybe_open_reference_profile env pkg p name pg pub u sec)"
  "same_privs (open_oat_out_file env apk od pub u isa sec)"
  by (rule same_privsI, auto simp: maybe_open_app_image_def maybe_open_dexopt_swap_file_def
      maybe_open_reference_profile_def open_oat_out_file_def Let_def split: option.splits
      intro!: same_privsD [OF same_privs_cleanup(2)] same_privs_outputs [THEN same_privsD] same_privs_wp)+

lemma wp_privs_run_dex2oat [wp_rules]:
  "s \<in> {Privileged, Unprivileged} \<Longrightarrow> (\<And>r. Q r s) \<Longrightarrow> wp (privs (x_uid x)) (run_dex2oat env x inp) Q s"
  unfolding run_dex2oat_def RunDex2Oat_def SetDex2OatScheduling_def update_out_oat_access_times_def
  by (auto intro!: wp_rules)

lemma unprivileged_dexopt_files: "unprivileged (x_uid x) (dexopt_files env x pub n od ctx)"
  unfolding dexopt_files_def dexopt_outputs_def Let_def
  by (rule unprivilegedI) (auto simp: split_beta split: option.splits
      intro!: wp_rules same_privsD [OF same_privs_open_dex_paths] same_privsD [OF same_privs_vdex]
        same_privs_opened [THEN same_privsD])

lemma unprivileged_dexopt: "unprivileged (x_uid x) (dexopt env x)"
  unfolding dexopt_def Let_def
  by (rule unprivilegedI) (auto simp: split_beta split: option.splits
      intro!: unprivilegedD [OF unprivileged_get_class_loader_context]
        unprivilegedD [OF unprivileged_process_secondary] unprivilegedD [OF unprivileged_dexopt_files])

end
