(* ===== verification/DexOutcome.thy ===== *)
theory DexOutcome
  imports DexCompileCorrect
begin

text \<open>
  What a compilation leaves behind: nothing when it fails, and on success the oat file and the vdex
  file, and perhaps an image.
\<close>

section \<open>Programs that never return\<close>

lemma wp_never:
  assumes "wp M p (\<lambda>_ _. False) s" "\<And>s c r. M' s c r \<noteq> None"
  shows "wp M' p Q s'"
  using assms(1)
proof (induction p arbitrary: s s')
  case (Ret x)
  then show ?case by (auto split: proc.splits)
next
  case (Call c k)
  have "\<exists>t. wp M (k r) (\<lambda>_ _. False) t" for r
    using Call.prems by (auto split: option.splits)
  then show ?case
    using Call.IH [OF rangeI] assms(2) by (simp split: option.splits) blast
qed simp

section \<open>The output files of a run\<close>

text \<open>
  The files that a run has opened for writing results and has not unlinked since: new files (which
  are opened with \<open>O_EXCL\<close>; their descriptor is not negative) and a vdex file that is updated in
  place, where the code takes every value but -1 for success.
\<close>

fun outs :: "(pcall, preply, string set) monitor" where
  "outs S (Open p fl m) r =
     Some (if O_RDWR \<in> set fl \<and> (if O_EXCL \<in> set fl then rc r \<ge> 0 else rc r \<noteq> -1) then insert p S else S)"
| "outs S (Sys (Unlink p)) r = Some (S - {p})"
| "outs S c r = Some S"

lemma outs_total: "outs S c r \<noteq> None"
  by (induction S c r rule: outs.induct) auto

definition outputs :: "(pcall, preply) history \<Rightarrow> string set" where
  "outputs t = the (watch outs {} t)"

text \<open>The program leaves the output files as they are.\<close>

definition steady :: "'a proc_prog \<Rightarrow> bool" where
  "steady p \<longleftrightarrow> (\<forall>S. wp outs p (\<lambda>_ S'. S' = S) S)"

lemma steadyI: "(\<And>S. wp outs p (\<lambda>_ S'. S' = S) S) \<Longrightarrow> steady p"
  by (simp add: steady_def)

lemma steadyD: "steady p \<Longrightarrow> (\<And>a. Q a S) \<Longrightarrow> wp outs p Q S"
  unfolding steady_def by (drule spec [of _ S], erule wp_mono) simp

lemma steady_with_some: "(\<And>y. steady (f y)) \<Longrightarrow> steady (with_some x f)"
  by (auto simp: steady_def)

lemma wp_outs_close [simp]: "wp outs (close_fd fd) Q = Q ()" "wp outs (close_fds fds) Q = Q ()"
proof -
  show *: "wp outs (close_fd fd) Q = Q ()" for fd Q by (rule ext) (simp add: close_fd_def)
  show "wp outs (close_fds fds) Q = Q ()" by (induction fds) (simp_all add: *)
qed

lemma wp_outs_with [simp]: "wp outs (with_fd fd p) Q = wp outs p Q" "wp outs (with_fds fds p) Q = wp outs p Q"
  by (simp_all add: with_fd_def with_fds_def pure_def)

lemma steady_clear_profile: "steady (clear_profile p)"
  by (rule steadyI) (simp add: clear_profile_def)

lemma steady_clear_reference: "steady (clear_reference_profile env pkg loc sec)"
  by (simp add: clear_reference_profile_def steady_with_some steady_clear_profile)

lemma steady_open_reference: "steady (open_reference_profile env uid pkg loc False sec)"
  unfolding open_reference_profile_def
  by (rule steady_with_some, rule steadyI) (simp add: open_profile_def Let_def)

lemma steady_set_permissions: "steady (set_permissions_and_ownership env fd pub uid sec)"
  by (rule steadyI) (simp add: set_permissions_and_ownership_def Let_def)

lemma steady_select: "steady (select_binary env a b bg)"
  by (rule steadyI) (auto simp: select_binary_def select_execution_binary_def Let_def)

lemma steady_open_dex_paths: "steady (open_dex_paths ps fds)"
  by (rule steadyI, induction ps arbitrary: fds) auto

lemma never_exec: "wp ledger (bindx (drop_capabilities uid) f) (\<lambda>_ _. False) F"
  if "\<And>F. wp ledger (f ()) (\<lambda>_ _. False) F"
  using that by (auto intro!: wp_rules)

lemma wp_outs_run_dex2oat:
  assumes "\<And>res keep. keep \<longleftrightarrow> res = 0 \<Longrightarrow> Q (res, keep) S"
  shows "wp outs (run_dex2oat env x inp) Q S"
proof -
  have "wp ledger (bindx (drop_capabilities (x_uid x)) (\<lambda>_.
          bindx (SetDex2OatScheduling (has_flag (x_flags x) DEXOPT_BOOTCOMPLETE)) (\<lambda>_.
            Call (FlockEx (oat_fd inp)) (\<lambda>l.
              if rc l \<noteq> 0 then exit_process kFlock else exec_or_exit argv kDex2oatExec)))) (\<lambda>_ _. False) {#}" for argv
    by (auto simp: SetDex2OatScheduling_def intro!: wp_rules)
  note child = wp_never [where M' = outs, OF this outs_total]
  have "Q (n, False) S" if "n \<noteq> 0" for n using assms [of False n] that by simp
  moreover have "Q (0, True) S" using assms [of True 0] by simp
  moreover have fork: "wp outs (fork_child c p) Q S" if "wp outs c Q S" "\<And>pid. wp outs (p pid) Q S" for c p Q
    using that by simp
  ultimately show ?thesis
    unfolding run_dex2oat_def RunDex2Oat_def update_out_oat_access_times_def wp_bindx
    by (intro steadyD [OF steady_select], simp only: wp_pure, intro fork child) (auto intro!: wp_wait_child)
qed

section \<open>Wrappers\<close>

text \<open>What is left of the files when a wrapper goes.\<close>

definition after :: "file_wrapper \<Rightarrow> bool \<Rightarrow> string set \<Rightarrow> string set" where
  "after w keep S = (if keep \<or> \<not> w_do_cleanup w then S else (case w_cleanup w of UnlinkFile p \<Rightarrow> S - {p} | _ \<Rightarrow> S))"

lemma wp_outs_release: "Q () (after w False S) \<Longrightarrow> wp outs (wrapper_release env w) Q S"
  by (auto simp: wrapper_release_def after_def run_cleanup_def split: cleanup.splits
      intro!: steadyD [OF steady_clear_reference])

lemma wp_outs_reset: "Q (w\<lparr>w_value := fd\<rparr>) (after w False S) \<Longrightarrow> wp outs (wrapper_reset env w fd) Q S"
  by (auto simp: wrapper_reset_def intro!: wp_outs_release)

lemma wp_outs_with_wrapper:
  assumes "wp outs p (\<lambda>(res, keep) S'. Q (res, keep) (after w keep S')) S"
  shows "wp outs (with_wrapper env w p) Q S"
  unfolding with_wrapper_def wp_bindx
  by (rule wp_mono [OF assms]) (auto intro!: wp_outs_release simp: after_def split: if_splits)

lemma wp_outs_open_output:
  "(\<And>fd. Q fd (if fd \<ge> 0 then insert p S else S - {p})) \<Longrightarrow> wp outs (open_output_file p True perm) Q S"
proof -
  assume q: "\<And>fd. Q fd (if fd \<ge> 0 then insert p S else S - {p})"
  have "Q fd (insert p S)" if "fd \<ge> 0" for fd using q [of fd] that by simp
  moreover have "Q fd (S - {p})" if "fd < 0" for fd using q [of fd] that by simp
  ultimately show ?thesis by (auto simp: open_output_file_def)
qed

section \<open>Opening the output files\<close>

lemma after_simps [simp]:
  "after no_wrapper k S = S" "after (new_wrapper fd (UnlinkFile p)) False S = S - {p}"
  "after (new_wrapper fd (ClearReference a b c)) k S = S" "after (w\<lparr>w_value := fd\<rparr>) k S = after w k S"
  "after (w\<lparr>w_auto_close := c\<rparr>) k S = after w k S" "after w True S = S"
  "after (w\<lparr>w_value := fd, w_cleanup := UnlinkFile p\<rparr>) False S = (if w_do_cleanup w then S - {p} else S)"
  by (auto simp: after_def no_wrapper_def new_wrapper_def)

lemma wp_outs_oat_file:
  assumes "\<And>w. w_value w < 0 \<Longrightarrow> after w False {} = {} \<Longrightarrow> Q (w, None) {}"
    and "\<And>w p. create_oat_out_path (se_globals (d_svc env)) apk isa od sec = Some (Some p) \<Longrightarrow> w_value w < 0 \<Longrightarrow>
      w_cleanup w = UnlinkFile p \<Longrightarrow> w_do_cleanup w \<Longrightarrow> Q (w, Some p) {}"
    and "\<And>fd p. create_oat_out_path (se_globals (d_svc env)) apk isa od sec = Some (Some p) \<Longrightarrow> fd \<ge> 0 \<Longrightarrow>
      Q (new_wrapper fd (UnlinkFile p), Some p) {p}"
  shows "wp outs (open_oat_out_file env apk od pub uid isa sec) Q {}"
  unfolding open_oat_out_file_def
  by (auto simp: Let_def assms split: option.splits
      intro!: wp_outs_open_output steadyD [OF steady_set_permissions] wp_outs_reset)

lemma wp_outs_image:
  assumes "\<And>w. w = no_wrapper \<or> w_cleanup w = UnlinkFile (create_image_filename p) \<and> w_do_cleanup w \<Longrightarrow>
      Q w (S - {create_image_filename p})"
    and "\<And>w. sec \<or> create_image_filename p = [] \<Longrightarrow> Q no_wrapper S"
    and "\<And>fd. Q (new_wrapper fd (UnlinkFile (create_image_filename p))) (insert (create_image_filename p) S)"
  shows "wp outs (maybe_open_app_image env p gen pub uid sec) Q S"
  unfolding maybe_open_app_image_def Let_def
  by (auto simp: assms intro!: wp_outs_open_output steadyD [OF steady_set_permissions] wp_outs_reset)

lemma wp_outs_swap:
  assumes "p @ ''.swap'' \<notin> S" "\<And>fd. Q fd S"
  shows "wp outs (maybe_open_dexopt_swap_file env p) Q S"
  using assms unfolding maybe_open_dexopt_swap_file_def
  by (auto intro!: wp_outs_open_output)

lemma wp_outs_profile:
  assumes "\<And>w. (\<And>k T. after w k T = T) \<Longrightarrow> Q w S"
  shows "wp outs (maybe_open_reference_profile env pkg p name pg pub uid sec) Q S"
  unfolding maybe_open_reference_profile_def Let_def
  by (auto simp: assms split: option.splits intro!: steadyD [OF steady_open_reference])

lemma wp_outs_out_vdex:
  assumes "\<And>ok in' out'. w_cleanup in' = NoCleanup \<Longrightarrow> w_cleanup out' = UnlinkFile v \<Longrightarrow> w_do_cleanup out' \<Longrightarrow>
      Q (ok, in', out') (insert v S)"
    and "\<And>in' out'. w_cleanup in' = NoCleanup \<Longrightarrow> w_cleanup out' = UnlinkFile v \<Longrightarrow> w_do_cleanup out' \<Longrightarrow>
      Q (False, in', out') (S - {v})"
    and "w_cleanup w = NoCleanup" "upd \<Longrightarrow> v \<in> S"
  shows "wp outs (open_out_vdex env v upd w pub uid sec) Q S"
proof -
  have reset: "wp outs (wrapper_reset_with env no_wrapper fd cl) R T \<longleftrightarrow> R (no_wrapper\<lparr>w_value := fd, w_cleanup := cl\<rparr>) T"
    for fd cl R T
    by (simp add: wrapper_reset_with_def wrapper_release_def)
  show ?thesis
    using assms unfolding open_out_vdex_def
    by (auto simp: reset insert_absorb intro!: wp_outs_open_output steadyD [OF steady_set_permissions])
qed

lemma wp_outs_vdex:
  assumes "\<And>ok in' out'. w_cleanup in' = NoCleanup \<Longrightarrow> w_cleanup out' = UnlinkFile (create_vdex_filename p) \<Longrightarrow>
      w_do_cleanup out' \<Longrightarrow> Q (ok, in', out') (insert (create_vdex_filename p) S)"
    and "\<And>in' out'. w_cleanup in' = NoCleanup \<Longrightarrow> w_cleanup out' = UnlinkFile (create_vdex_filename p) \<Longrightarrow>
      w_do_cleanup out' \<Longrightarrow> Q (False, in', out') (S - {create_vdex_filename p})"
    and "Q (False, no_wrapper, no_wrapper) S"
  shows "wp outs (open_vdex_files_for_dex2oat env apk p n isa pub uid sec pg) Q S"
proof -
  have reset: "wp outs (wrapper_reset env no_wrapper fd) R T \<longleftrightarrow> R (no_wrapper\<lparr>w_value := fd\<rparr>) T" for fd R T
    by (simp add: wrapper_reset_def wrapper_release_def)
  have out: "wp outs (open_out_vdex env (create_vdex_filename p) upd (no_wrapper\<lparr>w_value := fd\<rparr>) pub uid sec) Q T"
    if "upd \<Longrightarrow> create_vdex_filename p \<in> T" "T = S \<or> T = insert (create_vdex_filename p) S" for upd fd T
    using that assms(1,2) by (intro wp_outs_out_vdex) auto
  have out': "wp outs (open_out_vdex env (create_vdex_filename p) False no_wrapper pub uid sec) Q S"
    using assms(1,2) by (intro wp_outs_out_vdex) auto
  show ?thesis
    unfolding open_vdex_files_for_dex2oat_def Let_def
    by (auto simp: reset assms(3) out' split: option.splits intro!: out)
qed

lemma wp_outs_dexopt_outputs:
  assumes "distinct [p, create_vdex_filename p, create_image_filename p]"
    and "p @ ''.swap'' \<notin> {p, create_vdex_filename p}"
  shows "wp outs (dexopt_outputs env x pub n od input ctx w p)
    (\<lambda>(res, keep) S'. keep = (res = 0) \<and>
      (if keep then {p, create_vdex_filename p} \<subseteq> S' \<and> S' \<subseteq> {p, create_vdex_filename p, create_image_filename p}
       else S' \<subseteq> {p})) {p}"
proof -
  let ?v = "create_vdex_filename p" and ?i = "create_image_filename p"
  let ?R = "\<lambda>(res :: int, keep) S'. keep = (res = 0) \<and>
      (if keep then {p, ?v} \<subseteq> S' \<and> S' \<subseteq> {p, ?v, ?i} else S' \<subseteq> {p, ?v})"
  have inner: "wp outs (with_wrapper env img q) ?R S"
    if "wp outs q (\<lambda>(res, keep) S'. keep = (res = 0) \<and> S' = S) S" "{p, ?v} \<subseteq> S" "S \<subseteq> {p, ?v, ?i}"
      "S \<subseteq> {p, ?v} \<or> w_cleanup img = UnlinkFile ?i \<and> w_do_cleanup img" for img q S
    by (rule wp_outs_with_wrapper, rule wp_mono [OF that(1)]) (use that(2-4) in \<open>auto simp: after_def split: cleanup.splits\<close>)
  have profile: "wp outs (with_wrapper env w' (bindx (case d of None \<Rightarrow> pure (-1)
        | Some dm \<Rightarrow> Call (Open dm [O_RDONLY, O_NOFOLLOW] 0) (\<lambda>r. pure (rc r))) (\<lambda>dm. with_fd dm (run_dex2oat env x (f dm)))))
      (\<lambda>(res, keep) S'. keep = (res = 0) \<and> S' = S) S"
    if "\<And>k T. after w' k T = T" for w' d f S
    by (rule wp_outs_with_wrapper) (auto simp: that split: option.splits intro!: wp_outs_run_dex2oat)
  have body: "wp outs (bindx (maybe_open_dexopt_swap_file env p) (\<lambda>swap. with_fd swap
        (bindx (maybe_open_app_image env p gen pub u sec) (\<lambda>img. with_wrapper env img
        (bindx (maybe_open_reference_profile env pkg dex name pg pub u sec) (\<lambda>profile. with_wrapper env profile
        (bindx (case d of None \<Rightarrow> pure (-1)
           | Some dm \<Rightarrow> Call (Open dm [O_RDONLY, O_NOFOLLOW] 0) (\<lambda>r. pure (rc r))) (\<lambda>dm. with_fd dm
           (run_dex2oat env x (f swap img profile dm)))))))))) ?R {p, ?v}" for gen u sec pkg dex name pg d f
  proof -
    have mid: "wp outs (bindx (maybe_open_reference_profile env pkg dex name pg pub u sec) (\<lambda>profile. with_wrapper env profile
        (bindx (case d of None \<Rightarrow> pure (-1)
           | Some dm \<Rightarrow> Call (Open dm [O_RDONLY, O_NOFOLLOW] 0) (\<lambda>r. pure (rc r))) (\<lambda>dm. with_fd dm
           (run_dex2oat env x (f swap img profile dm)))))) (\<lambda>(res, keep) S'. keep = (res = 0) \<and> S' = S) S" for swap img S
      by (simp only: wp_bindx [of _ "maybe_open_reference_profile env pkg dex name pg pub u sec"])
        (intro wp_outs_profile profile)
    show ?thesis
      unfolding wp_bindx wp_outs_with
      by (intro wp_outs_swap wp_outs_image inner mid) (use assms in \<open>auto simp: no_wrapper_def new_wrapper_def\<close>)
  qed
  have outer: "wp outs (with_wrapper env in' (with_wrapper env out' q))
      (\<lambda>(res, keep) S'. keep = (res = 0) \<and> (if keep then {p, ?v} \<subseteq> S' \<and> S' \<subseteq> {p, ?v, ?i} else S' \<subseteq> {p})) S"
    if "wp outs q ?R S" "w_cleanup in' = NoCleanup" "w_cleanup out' = UnlinkFile ?v" "w_do_cleanup out'" for in' out' q S
    by (rule wp_outs_with_wrapper, rule wp_outs_with_wrapper, rule wp_mono [OF that(1)])
      (use that(2-4) in \<open>auto simp: after_def\<close>)
  have start: "wp outs (if \<not> ok then pure (-1, False)
      else bindx (if sec then with_some d (\<lambda>d. Call (RestoreconRecurse d se u) (\<lambda>r. pure (rc r = 0))) else pure True)
        (\<lambda>restored. if \<not> restored then pure (-1, False) else b)) ?R S"
    if "ok \<Longrightarrow> S = {p, ?v}" "S \<subseteq> {p, ?v}" "wp outs b ?R {p, ?v}" for ok sec d se u b S
    by (cases ok) (auto simp: that(1) that(3) dest!: subsetD [OF that(2)])
  show ?thesis
    unfolding dexopt_outputs_def Let_def wp_bindx [of _ "open_vdex_files_for_dex2oat a b c d e f g h i" for a b c d e f g h i]
  proof (rule wp_outs_vdex, goal_cases)
    case (1 ok in' out')
    then show ?case unfolding prod.case
      by (intro outer start body) auto
  next
    case (2 in' out')
    then show ?case unfolding prod.case
      by (intro outer start body) auto
  next
    case 3
    show ?case unfolding prod.case
      by (rule wp_outs_with_wrapper, rule wp_outs_with_wrapper) simp
  qed
qed

lemma oat_out_path_distinct:
  assumes "create_oat_out_path g apk isa od sec = Some (Some p)"
  shows "distinct [p, create_vdex_filename p, create_image_filename p]"
    "p @ ''.swap'' \<notin> {p, create_vdex_filename p}"
proof -
  obtain s where s: "p = s @ ''.odex'' \<or> p = s @ ''.dex''"
    "create_vdex_filename p = s @ ''.vdex''" "create_image_filename p = s @ ''.art''"
    by (rule oat_out_path_stem [OF assms])
  then show "distinct [p, create_vdex_filename p, create_image_filename p]" by auto
  from s have "length (p @ ''.swap'') > length (create_vdex_filename p)" by auto
  then have "p @ ''.swap'' \<noteq> create_vdex_filename p" by (metis nat_neq_iff)
  then show "p @ ''.swap'' \<notin> {p, create_vdex_filename p}" by simp
qed

lemma wp_outs_dexopt_files:
  "wp outs (dexopt_files env x pub n od ctx)
    (\<lambda>res S. if res \<noteq> 0 then S = {} else
       \<exists>p. create_oat_out_path (se_globals (d_svc env)) (x_dex_path x) (x_instruction_set x) od
             (has_flag (x_flags x) DEXOPT_SECONDARY_DEX) = Some (Some p) \<and>
           {p, create_vdex_filename p} \<subseteq> S \<and> S \<subseteq> {p, create_vdex_filename p, create_image_filename p}) {}"
  unfolding dexopt_files_def
proof (auto simp: split_beta intro!: steadyD [OF steady_open_dex_paths] wp_outs_oat_file, goal_cases)
  case 1
  then show ?case by (intro wp_outs_with_wrapper) simp
next
  case 2
  then show ?case by (intro wp_outs_with_wrapper) (simp add: after_def)
next
  case (3 i ctx fd p)
  note d = oat_out_path_distinct [OF 3(2)]
  show ?case
    by (rule wp_outs_with_wrapper, rule wp_mono [OF wp_outs_dexopt_outputs [OF d]])
      (use d in \<open>auto split: if_splits\<close>)
qed

lemma wp_outs_fork: "wp ledger c (\<lambda>_ _. False) {#} \<Longrightarrow> (\<And>pid. wp outs (p pid) Q S) \<Longrightarrow> wp outs (fork_child c p) Q S"
  by (simp add: wp_never [where M' = outs, OF _ outs_total])

lemma steady_get_class_loader_context: "steady (get_class_loader_context_dex_paths env clc uid)"
  unfolding get_class_loader_context_dex_paths_def
  by (rule steadyI) (auto simp: drop_capabilities_def exec_or_exit_def flatten_context_args_def select_dexoptanalyzer_def
      split: option.splits intro!: steadyD [OF steady_select] wp_wait_child)

lemma steady_process_secondary: "steady (process_secondary_dex_dexopt env p pkg fl vol uid isa cf d clc ctx)"
  unfolding process_secondary_dex_dexopt_def
  by (rule steadyI) (auto simp: Let_def is_file_public_def simp del: wp_fork_child split: option.splits
      intro!: wp_outs_fork wp_rules)

text \<open>
  C1: a compilation that does not return 0 leaves no output file behind: whatever oat, vdex or image
  file was created, or updated in place, has been unlinked.  One that returns 0 leaves the oat file
  and the vdex file, at the paths \<open>create_oat_out_path\<close> computes, and besides them at most the
  image; for a secondary dex file, 0 may also mean that there was nothing to compile.  Swap files
  never stay.
\<close>

theorem dexopt_outcome:
  assumes "run (dexopt env x) os [] = (Some (Live n), t)"
  shows "if n \<noteq> 0 then outputs t = {}
    else outputs t = {} \<and> has_flag (x_flags x) DEXOPT_SECONDARY_DEX \<or>
      (\<exists>oat_dir p. create_oat_out_path (se_globals (d_svc env)) (x_dex_path x) (x_instruction_set x) oat_dir
           (has_flag (x_flags x) DEXOPT_SECONDARY_DEX) = Some (Some p) \<and>
         (has_flag (x_flags x) DEXOPT_SECONDARY_DEX \<or> oat_dir = x_oat_dir x) \<and>
         {p, create_vdex_filename p} \<subseteq> outputs t \<and>
         outputs t \<subseteq> {p, create_vdex_filename p, create_image_filename p})"
    (is "?P n (outputs t)")
proof -
  let ?sec = "has_flag (x_flags x) DEXOPT_SECONDARY_DEX"
  define P where "P = ?P"
  have P: "P m {}" if "m \<noteq> 0 \<or> ?sec" for m using that by (simp add: P_def)
  have files: "wp outs (dexopt_files env x pub m od ctx) P {}" if "?sec \<or> od = x_oat_dir x" for pub m od ctx
    unfolding P_def
    by (rule wp_mono [OF wp_outs_dexopt_files], simp split: if_splits) (use that in blast)
  have "wp outs (dexopt env x) P {}"
    unfolding dexopt_def Let_def
    by (auto simp: P split: option.splits
        intro!: steadyD [OF steady_get_class_loader_context] steadyD [OF steady_process_secondary] files)
  from wp_sound [OF this assms] obtain S where "watch outs {} t = Some S" "P n S" by auto
  moreover from this(1) have "outputs t = S" by (simp add: outputs_def)
  ultimately show ?thesis by (simp only: P_def)
qed

text \<open>A compilation of an APK on a device where everything succeeds.\<close>

definition demo_dexopt :: dexopt_in where
  "demo_dexopt = \<lparr>x_dex_path = ''/data/app/x/base.apk'', x_uid = 10001, x_pkgname = ''com.example'',
     x_instruction_set = ''arm'', x_dexopt_needed = 1, x_oat_dir = Some ''/data/app/x/oat'', x_flags = 2,
     x_compiler_filter = ''speed'', x_volume_uuid = None, x_class_loader_context = None, x_se_info = None,
     x_downgrade = False, x_target_sdk_version = 0, x_profile_name = None, x_dex_metadata_path = None,
     x_compilation_reason = None\<rparr>"

definition good_os :: "(pcall, preply) os_oracle" where
  "good_os h c = (case c of Open p fl m \<Rightarrow> good_reply 3 0 | Fork \<Rightarrow> good_reply 7 0 | Waitpid pid \<Rightarrow> good_reply 7 0
     | _ \<Rightarrow> good_reply 0 0)"

lemma demo_dexopt_result: "fst (run (dexopt demo_dex demo_dexopt) good_os []) = Some (Live 0)"
  by code_simp

theorem dexopt_outcome_witness:
  "\<exists>p t. run (dexopt demo_dex demo_dexopt) good_os [] = (Some (Live 0), t) \<and> {p, create_vdex_filename p} \<subseteq> outputs t"
proof -
  from demo_dexopt_result obtain t where r: "run (dexopt demo_dex demo_dexopt) good_os [] = (Some (Live 0), t)"
    by (metis prod.collapse)
  have "\<not> has_flag (x_flags demo_dexopt) DEXOPT_SECONDARY_DEX" by code_simp
  with dexopt_outcome [OF r] r show ?thesis by auto
qed

end
