(* ===== verification/DexSafety.thy ===== *)
theory DexSafety
  imports DexOutcome
begin

text \<open>
  The safety of the entry points of \<open>installd/dexopt.cpp\<close> taken together: which privileges they
  use, which descriptors they hold, and what the removal of leftovers may touch.
\<close>

section \<open>The entry points\<close>

definition void :: "'a proc_prog \<Rightarrow> unit proc_prog" where
  "void p = bindx p (\<lambda>_. pure ())"

text \<open>The program runs its binaries as the user \<open>uid\<close>.\<close>

inductive runs_as :: "dex_env \<Rightarrow> int \<Rightarrow> unit proc_prog \<Rightarrow> bool" for env where
  "runs_as env (x_uid x) (void (dexopt env x))"
| "runs_as env uid (void (analyze_primary_profiles env uid pkg prof))"
| "runs_as env uid (void (dump_profiles env uid pkg prof code))"
| "runs_as env (if app = -1 then AID_SYSTEM (d_svc env) else to_u32 (se_shared_gid (d_svc env) 0 app))
     (void (create_profile_snapshot env fuel app pkg prof classpath))"
| "runs_as env (to_u32 (se_shared_gid (d_svc env) user app))
     (void (prepare_app_profile env pkg user app prof code dm))"
| "runs_as env uid (void (reconcile_secondary_dex_file env dex pkg uid isas vol sf))"
| "runs_as env uid (void (hash_secondary_dex_file env sha fuel dex pkg uid vol sf))"

lemma tidy_void: "tidy p \<Longrightarrow> tidy (void p)"
  by (rule tidyI) (auto simp: void_def intro!: tidyD)

lemma unprivileged_void: "unprivileged uid p \<Longrightarrow> unprivileged uid (void p)"
  by (rule unprivilegedI, unfold void_def wp_bindx, rule unprivilegedD) auto

lemma same_privs_clean_artifacts: "same_privs (clean_artifacts env dex pkg uid isas ok)"
proof -
  have u: "same_privs (unlink_if_exists f)" "same_privs (rmdir_if_empty f)" for f
    by (rule same_privsI, simp add: unlink_if_exists_def rmdir_if_empty_def)+
  show ?thesis
    by (induction isas arbitrary: ok)
      (auto simp: same_privs_def split: option.splits prod.splits intro!: u [THEN same_privsD] intro: same_privsD)
qed

lemma wp_privs_reconcile_child [wp_rules]:
  assumes "s \<in> {Privileged, Unprivileged}"
  shows "wp (privs uid) (reconcile_child env dex pkg uid isas vol sf) Q s"
  using assms unfolding reconcile_child_def check_secondary_dex_access_def
  by (auto split: dex_access.splits intro!: wp_rules same_privsD [OF same_privs_clean_artifacts])

lemma unprivileged_reconcile: "unprivileged uid (reconcile_secondary_dex_file env dex pkg uid isas vol sf)"
  unfolding reconcile_secondary_dex_file_def
  by (rule unprivilegedI) (auto simp: Let_def intro!: wp_rules)

lemma unprivileged_hash: "unprivileged uid (hash_secondary_dex_file env sha n dex pkg uid vol sf)"
proof -
  have "same_privs (hash_reads n fd acc)" for fd acc
    by (induction n arbitrary: acc) (auto simp: same_privs_def)
  then show ?thesis
    unfolding hash_secondary_dex_file_def
    by (intro unprivilegedI) (auto intro!: wp_rules same_privsD [OF \<open>\<And>fd acc. same_privs (hash_reads n fd acc)\<close>])
qed

text \<open>All are tidy but the snapshot for the boot image, which leaves one stream open.\<close>

definition profiles_dir :: "dex_env \<Rightarrow> string" where
  "profiles_dir env = android_profiles_dir (se_globals (d_svc env))"

lemma tidy_but_void: "tidy_but dir k p \<Longrightarrow> tidy_but dir k (void p)"
  unfolding tidy_but_def void_def wp_bindx
proof (intro allI)
  fix F assume "\<forall>F. wp (skipping dir) p (\<lambda>a s. fst s = F) (F, k)"
  then have "wp (skipping dir) p (\<lambda>a s. fst s = F) (F, k)" ..
  then show "wp (skipping dir) p (\<lambda>a. wp (skipping dir) (pure ()) (\<lambda>a s. fst s = F)) (F, k)" by (rule wp_mono) simp
qed

lemma runs_as_tidy:
  "runs_as env uid p \<Longrightarrow> tidy p \<or>
     tidy_but (profiles_dir env) 1 p \<and> (\<exists>fuel pkg prof cp. p = void (create_profile_snapshot env fuel (-1) pkg prof cp))"
proof (induction rule: runs_as.induct)
  case (4 app fuel pkg prof classpath)
  show ?case
  proof (cases "app = -1")
    case True
    then have "tidy_but (profiles_dir env) 1 (void (create_profile_snapshot env fuel app pkg prof classpath))"
      by (intro tidy_but_void)
        (simp add: create_profile_snapshot_def profiles_dir_def
          tidy_but_create_boot_image_profile_snapshot [simplified])
    with True show ?thesis by blast
  qed (simp add: tidy_void tidy_create_profile_snapshot)
qed (simp_all add: tidy_void tidy_dexopt analyze_primary_profiles_def tidy_analyze_profiles tidy_dump_profiles
    tidy_prepare_app_profile tidy_reconcile tidy_hash)

lemma runs_as_unprivileged: "runs_as env uid p \<Longrightarrow> unprivileged uid p"
  by (induction rule: runs_as.induct)
    (simp_all add: unprivileged_void unprivileged_dexopt analyze_primary_profiles_def unprivileged_analyze_profiles
      unprivileged_dump_profiles create_profile_snapshot_def unprivileged_create_app_profile_snapshot
      unprivileged_create_boot_image_profile_snapshot unprivileged_prepare_app_profile unprivileged_reconcile
      unprivileged_hash)

section \<open>Privileges and descriptors\<close>

text \<open>The three calls that drop the privileges have succeeded.\<close>

definition dropped :: "int \<Rightarrow> (pcall, preply) history \<Rightarrow> bool" where
  "dropped uid t \<longleftrightarrow> (\<exists>r. (Setgid uid, r) \<in> set t \<and> rc r = 0) \<and> (\<exists>r. (Setuid uid, r) \<in> set t \<and> rc r = 0) \<and>
     (\<exists>r. (Capset, r) \<in> set t \<and> rc r \<ge> 0)"

lemma watch_privs_dropped:
  assumes "watch (privs uid) s t = Some Unprivileged"
  shows "(s = Privileged \<longrightarrow> (\<exists>r. (Setgid uid, r) \<in> set t \<and> rc r = 0)) \<and>
    (s \<in> {Privileged, GidDropped} \<longrightarrow> (\<exists>r. (Setuid uid, r) \<in> set t \<and> rc r = 0)) \<and>
    (s \<noteq> Unprivileged \<longrightarrow> (\<exists>r. (Capset, r) \<in> set t \<and> rc r \<ge> 0))"
  using assms
proof (induction t arbitrary: s)
  case (Cons x t)
  obtain c r where x: "x = (c, r)" by (cases x)
  from Cons.prems obtain s' where s': "privs uid s c r = Some s'" "watch (privs uid) s' t = Some Unprivileged"
    by (auto simp: x split: option.splits)
  note ih = Cons.IH [OF s'(2)]
  have "s' = s \<or> (s = Privileged \<and> s' = GidDropped \<and> c = Setgid uid \<and> rc r = 0) \<or>
      (s = GidDropped \<and> s' = UidDropped \<and> c = Setuid uid \<and> rc r = 0) \<or>
      (s = UidDropped \<and> s' = Unprivileged \<and> c = Capset \<and> rc r \<ge> 0)"
    using s'(1) by (cases c) (auto split: if_splits)
  with ih show ?case by (auto simp: x)
qed simp

lemma unprivileged_run:
  assumes "unprivileged uid p" "run p os [] = (res, u @ (Execv b argv, r) # v)"
  shows "dropped uid u"
proof -
  from assms(1) have "wp (privs uid) p (\<lambda>a s'. s' = Privileged) Privileged" by (simp add: unprivileged_def)
  from wp_sound [OF this assms(2)] obtain s where "watch (privs uid) Privileged (u @ (Execv b argv, r) # v) = Some s"
    by auto
  then have "watch (privs uid) Privileged u = Some Unprivileged"
    by (auto simp: watch_append split: option.splits if_splits)
  from watch_privs_dropped [OF this] show ?thesis by (auto simp: dropped_def)
qed


text \<open>
  C2: No entry point of \<open>dexopt.cpp\<close> executes \<open>dex2oat\<close>, \<open>profman\<close> or \<open>dexoptanalyzer\<close> with the
  privileges of installd: in any run of any of them, whatever the system replies, the group, the user
  and the capabilities had been given up, successfully, before an \<open>execv\<close>.
\<close>

theorem exec_unprivileged:
  assumes "runs_as env uid p" "run p os [] = (res, u @ (Execv b argv, r) # v)"
  shows "dropped uid u"
  using unprivileged_run [OF runs_as_unprivileged [OF assms(1)] assms(2)] .

definition child_os :: "(pcall, preply) os_oracle" where
  "child_os h c = (case c of Open p fl m \<Rightarrow> good_reply 3 0 | _ \<Rightarrow> good_reply 0 0)"

definition is_exec :: "pcall \<times> preply \<Rightarrow> bool" where
  "is_exec x = (case fst x of Execv b argv \<Rightarrow> True | _ \<Rightarrow> False)"

lemma demo_child_execs:
  "list_ex is_exec (snd (run (dexopt demo_dex demo_dexopt) child_os []))"
  by code_simp

lemma run_void_history: "snd (run (void p) os h) = snd (run p os h)"
  by (induction p arbitrary: h) (auto simp: void_def pure_def bindx_def split: proc.splits)

theorem exec_unprivileged_witness:
  "\<exists>u b argv r v. snd (run (void (dexopt demo_dex demo_dexopt)) child_os []) = u @ (Execv b argv, r) # v \<and>
     dropped 10001 u"
proof -
  let ?p = "void (dexopt demo_dex demo_dexopt)"
  have "list_ex is_exec (snd (run ?p child_os []))" by (simp add: run_void_history demo_child_execs)
  then obtain x where "x \<in> set (snd (run ?p child_os []))" "is_exec x" by (auto simp: list_ex_iff)
  moreover obtain b argv where "fst x = Execv b argv" using \<open>is_exec x\<close> by (auto simp: is_exec_def split: pcall.splits)
  ultimately obtain u v where s: "snd (run ?p child_os []) = u @ (Execv b argv, snd x) # v"
    by (metis split_list prod.collapse)
  have "runs_as demo_dex 10001 ?p"
    using runs_as.intros(1) [of demo_dex demo_dexopt] by (simp add: demo_dexopt_def)
  from exec_unprivileged [OF this, of child_os] s show ?thesis by (metis prod.collapse)
qed

text \<open>
  C15: The entry points of \<open>dexopt.cpp\<close> close every file descriptor and directory stream that they
  open, and none twice, with one exception: in a run that returns, whatever the system replies, each
  \<open>close\<close> and \<open>closedir\<close> is of a descriptor opened before and still open, and what is left at the end are
  the replies to \<open>opendir\<close> of the profiles directory.  Only the snapshot for the boot image makes that
  call, once; its stream is leaked whenever it could be opened.
\<close>

theorem descriptors_balanced:
  assumes "runs_as env uid p" "run p os [] = (Some (Live a), t)"
  shows "watch (descriptors (profiles_dir env)) {#} t = Some (openeds (opendirs (profiles_dir env) t)) \<and>
    (opendirs (profiles_dir env) t = [] \<or>
     (\<exists>fd fuel pkg prof cp. opendirs (profiles_dir env) t = [fd] \<and>
        p = void (create_profile_snapshot env fuel (-1) pkg prof cp)))"
proof -
  from runs_as_tidy [OF assms(1)] consider "tidy_but (profiles_dir env) 0 p"
    | fuel pkg prof cp where "tidy_but (profiles_dir env) 1 p" "p = void (create_profile_snapshot env fuel (-1) pkg prof cp)"
    using tidy_but_tidy by blast
  then show ?thesis
  proof cases
    case 1
    from tidy_but_run [OF this assms(2)] show ?thesis by simp
  next
    case 2
    note r = tidy_but_run [OF 2(1) assms(2)]
    then have "opendirs (profiles_dir env) t = [] \<or> (\<exists>fd. opendirs (profiles_dir env) t = [fd])"
      by (cases "opendirs (profiles_dir env) t") auto
    with r 2(2) show ?thesis by blast
  qed
qed

theorem descriptors_balanced_witness:
  "\<exists>t. run (void (create_profile_snapshot demo_dex 1 (-1) ''android'' ''boot.prof'' ''/a.jar'')) empty_dir_os [] =
       (Some (Live ()), t) \<and>
     opendirs (profiles_dir demo_dex) t = [9] \<and> watch (descriptors (profiles_dir demo_dex)) {#} t = Some {#9#}"
proof -
  let ?p = "void (create_profile_snapshot demo_dex 1 (-1) ''android'' ''boot.prof'' ''/a.jar'')"
  have "fst (run ?p empty_dir_os []) = Some (Live ())" by code_simp
  then obtain t where t: "run ?p empty_dir_os [] = (Some (Live ()), t)" by (metis prod.collapse)
  have "opendirs (profiles_dir demo_dex) (snd (run ?p empty_dir_os [])) = [9]" by code_simp
  then have o: "opendirs (profiles_dir demo_dex) t = [9]" by (simp only: t snd_conv)
  have "runs_as demo_dex (AID_SYSTEM (d_svc demo_dex)) ?p"
    using runs_as.intros(4) [of demo_dex "-1" 1] by simp
  from descriptors_balanced [OF this t] t o show ?thesis by (simp add: opened_def)
qed


section \<open>Removing the leftovers of a secondary dex file\<close>

text \<open>What may be removed: nothing, unless the path is one that the app may have.\<close>

definition leftovers :: "dex_env \<Rightarrow> string \<Rightarrow> string \<Rightarrow> int \<Rightarrow> string list \<Rightarrow> cstring \<Rightarrow> int \<Rightarrow> string set" where
  "leftovers env dex pkg uid isas vol sf =
     (if validate_secondary_dex_path (se_paths (d_svc env)) (\<lambda>u. nat (se_user_of (d_svc env) u)) pkg dex vol uid sf
           = Some True
      then {dex @ ''.prof''} \<union>
        set_option (create_current_profile_path (se_globals (d_svc env)) (nat (se_user_of (d_svc env) uid)) pkg dex True) \<union>
        set_option (create_reference_profile_path (se_globals (d_svc env)) pkg dex True) \<union>
        (\<Union>isa \<in> set isas. \<Union>(oat_dir, oat_isa_dir, oat) \<in> set_option (create_secondary_dex_oat_layout env dex isa).
           {oat, create_vdex_filename oat, create_image_filename oat, oat_isa_dir, oat_dir})
      else {})"

datatype probe = Unknown | Failed | Missing

text \<open>The calls that look, wait, fork or give up privileges.\<close>

definition harmless :: "int \<Rightarrow> string \<Rightarrow> pcall \<Rightarrow> bool" where
  "harmless uid dex c \<longleftrightarrow> c \<in> {Fork, Setgid uid, Setuid uid, Capset, AccessR dex, Sys GetErrno} \<or> (\<exists>pid. c = Waitpid pid)"

definition removal :: "int \<Rightarrow> string \<Rightarrow> string set \<Rightarrow> (pcall, preply, (priv \<times> probe)) monitor" where
  "removal uid dex L sq c r = (case sq of (s, q) \<Rightarrow>
     if harmless uid dex c
     then map_option (\<lambda>s'. (s', if c = AccessR dex \<and> rc r \<noteq> 0 then Failed
            else if c = Sys GetErrno \<and> rc r = ENOENT \<and> q = Failed then Missing
            else if q = Failed then Unknown else q)) (privs uid s c r)
     else if s = Unprivileged \<and> q = Missing \<and> (\<exists>f \<in> L. c = Sys (Unlink f) \<or> c = Rmdir f) then Some (s, q) else None)"

lemma harmless_simps [simp]:
  "harmless uid dex Fork" "harmless uid dex (Setgid g) = (g = uid)" "harmless uid dex (Setuid g) = (g = uid)"
  "harmless uid dex Capset" "harmless uid dex (AccessR p) = (p = dex)" "harmless uid dex (Sys GetErrno)"
  "harmless uid dex (Waitpid pid)" "\<not> harmless uid dex (Sys (Unlink f))" "\<not> harmless uid dex (Rmdir f)"
  by (auto simp: harmless_def)

text \<open>A program that runs after the file was found missing, and stays within \<open>L\<close>.\<close>

definition cleans :: "int \<Rightarrow> string \<Rightarrow> string set \<Rightarrow> 'a proc_prog \<Rightarrow> bool" where
  "cleans uid dex L p \<longleftrightarrow> wp (removal uid dex L) p (\<lambda>a s. s = (Unprivileged, Missing)) (Unprivileged, Missing)"

lemma cleansD:
  "cleans uid dex L p \<Longrightarrow> (\<And>a. Q a (Unprivileged, Missing)) \<Longrightarrow> wp (removal uid dex L) p Q (Unprivileged, Missing)"
  unfolding cleans_def by (erule wp_mono) simp

lemma cleans_bindx: "cleans uid dex L p \<Longrightarrow> (\<And>a. cleans uid dex L (f a)) \<Longrightarrow> cleans uid dex L (bindx p f)"
  unfolding cleans_def wp_bindx by (erule wp_mono) simp

lemma cleans_remove: "f \<in> L \<Longrightarrow> cleans uid dex L (unlink_if_exists f)" "f \<in> L \<Longrightarrow> cleans uid dex L (rmdir_if_empty f)"
  by (auto simp: cleans_def unlink_if_exists_def rmdir_if_empty_def removal_def errno_def)

lemma cleans_and_all: "(\<And>p. p \<in> set ps \<Longrightarrow> cleans uid dex L p) \<Longrightarrow> cleans uid dex L (and_all ps ok)"
  by (induction ps arbitrary: ok) (auto simp: cleans_def [of _ _ _ "pure _"] intro!: cleans_bindx)

lemma cleans_with_some: "(\<And>y. x = Some y \<Longrightarrow> cleans uid dex L (f y)) \<Longrightarrow> cleans uid dex L (with_some x f)"
  by (auto simp: cleans_def)

lemma cleans_clean_artifacts:
  assumes "validate_secondary_dex_path (se_paths (d_svc env)) (\<lambda>u. nat (se_user_of (d_svc env) u)) pkg dex vol uid sf
      = Some True" "set isas' \<subseteq> set isas"
  shows "cleans uid dex (leftovers env dex pkg uid isas vol sf) (clean_artifacts env dex pkg uid isas' ok)"
  using assms(2)
proof (induction isas' arbitrary: ok)
  case (Cons isa isas')
  define L where "L = leftovers env dex pkg uid isas vol sf"
  have L: "dex @ ''.prof'' \<in> L"
    "create_current_profile_path (se_globals (d_svc env)) (nat (se_user_of (d_svc env) uid)) pkg dex True = Some p \<Longrightarrow> p \<in> L"
    "create_reference_profile_path (se_globals (d_svc env)) pkg dex True = Some p \<Longrightarrow> p \<in> L" for p
    by (simp_all add: L_def leftovers_def assms(1))
  have layout: "{oat, create_vdex_filename oat, create_image_filename oat, isa_dir, dir} \<subseteq> L"
    if "create_secondary_dex_oat_layout env dex isa = Some (dir, isa_dir, oat)" for dir isa_dir oat
    using Cons.prems that by (force simp: L_def leftovers_def assms(1))
  from Cons.IH Cons.prems have ih: "cleans uid dex L (clean_artifacts env dex pkg uid isas' ok)" for ok
    by (simp add: L_def)
  show ?case
    unfolding L_def [symmetric]
  proof (cases "create_secondary_dex_oat_layout env dex isa")
    case (Some t)
    obtain dir isa_dir oat where t: "t = (dir, isa_dir, oat)" by (cases t)
    have l: "oat \<in> L" "create_vdex_filename oat \<in> L" "create_image_filename oat \<in> L" "isa_dir \<in> L" "dir \<in> L"
      using layout [OF Some [unfolded t]] by simp_all
    have a: "cleans uid dex L (and_all [unlink_if_exists f, unlink_if_exists g] ok)"
      "cleans uid dex L (and_all [unlink_if_exists f, unlink_if_exists g, unlink_if_exists h] ok)"
      "cleans uid dex L (and_all [rmdir_if_empty f, rmdir_if_empty g] ok)"
      if "f \<in> L" "g \<in> L" "h \<in> L" for f g h ok
      using that by (auto intro!: cleans_and_all cleans_remove simp del: and_all.simps)
    show "cleans uid dex L (clean_artifacts env dex pkg uid (isa # isas') ok)"
      unfolding clean_artifacts.simps Some t option.case prod.case
      by (intro cleans_bindx cleans_with_some a cleans_remove ih l L) (simp_all add: l)
  qed (simp add: cleans_def)
qed (simp add: cleans_def)

lemma wp_removal_reconcile:
  "wp (removal uid dex (leftovers env dex pkg uid isas vol sf)) (reconcile_secondary_dex_file env dex pkg uid isas vol sf)
     (\<lambda>a s. True) (Privileged, Unknown)"
  unfolding reconcile_secondary_dex_file_def reconcile_child_def drop_capabilities_def check_secondary_dex_access_def
    wait_child_def errno_def
  by (auto simp: removal_def Let_def split: dex_access.splits intro!: cleansD [OF cleans_clean_artifacts])


lemma watch_removal_dropped:
  assumes "watch (removal uid dex L) (s, q) t = Some (s', q')"
  shows "watch (privs uid) s t = Some s'"
  using assms
proof (induction t arbitrary: s q)
  case (Cons x t)
  obtain c r where x: "x = (c, r)" by (cases x)
  from Cons.prems obtain s1 q1 where s1: "removal uid dex L (s, q) c r = Some (s1, q1)"
    "watch (removal uid dex L) (s1, q1) t = Some (s', q')"
    by (auto simp: x split: option.splits)
  from s1(1) have "privs uid s c r = Some s1" by (auto simp: removal_def split: if_splits)
  with Cons.IH [OF s1(2)] show ?case by (simp add: x)
qed simp

text \<open>The file was looked for and found not to exist.\<close>

definition found_missing :: "string \<Rightarrow> (pcall, preply) history \<Rightarrow> bool" where
  "found_missing dex t \<longleftrightarrow> (\<exists>t1 ra re t2. t = t1 @ [(AccessR dex, ra), (Sys GetErrno, re)] @ t2 \<and> rc ra \<noteq> 0 \<and> rc re = ENOENT)"

lemma watch_removal_missing:
  assumes "watch (removal uid dex L) (s, q) t = Some (s', Missing)" "q \<noteq> Missing"
  shows "found_missing dex t \<or> (q = Failed \<and> (\<exists>re t2. t = (Sys GetErrno, re) # t2 \<and> rc re = ENOENT))"
  using assms
proof (induction t arbitrary: s q)
  case (Cons x t)
  obtain c r where x: "x = (c, r)" by (cases x)
  from Cons.prems obtain s1 q1 where s1: "removal uid dex L (s, q) c r = Some (s1, q1)"
    "watch (removal uid dex L) (s1, q1) t = Some (s', Missing)"
    by (auto simp: x split: option.splits)
  show ?case
  proof (cases "q1 = Missing")
    case True
    with s1(1) Cons.prems(2) show ?thesis by (auto simp: x removal_def split: if_splits)
  next
    case False
    from Cons.IH [OF s1(2) False] show ?thesis
    proof
      assume "found_missing dex t"
      then obtain t1 ra re t2 where "t = t1 @ [(AccessR dex, ra), (Sys GetErrno, re)] @ t2" "rc ra \<noteq> 0" "rc re = ENOENT"
        by (auto simp: found_missing_def)
      then have "found_missing dex (x # t)" unfolding found_missing_def by (intro exI [of _ "x # t1"]) auto
      then show ?thesis ..
    next
      assume "q1 = Failed \<and> (\<exists>re t2. t = (Sys GetErrno, re) # t2 \<and> rc re = ENOENT)"
      then obtain re t2 where t: "q1 = Failed" "t = (Sys GetErrno, re) # t2" "rc re = ENOENT" by auto
      from s1(1) t(1) have "c = AccessR dex" "rc r \<noteq> 0" by (auto simp: removal_def split: if_splits)
      with t have "found_missing dex (x # t)" unfolding found_missing_def x by (intro exI [of _ "[]"]) auto
      then show ?thesis ..
    qed
  qed
qed simp

text \<open>
  C35: \<open>reconcile_secondary_dex_file\<close> changes nothing but the leftovers of a dex file that is gone: a
  call that does more than look, wait, fork or give up privileges removes one of the artifacts of the
  file (its oat, vdex, image and profiles, and their directories, for one of the instruction sets
  named), comes after the privileges were dropped to those of the app and after the file was found
  missing, and is made only for a path that passed the validation.
\<close>

theorem reconcile_removes_leftovers:
  assumes "run (reconcile_secondary_dex_file env dex pkg uid isas vol sf) os [] = (res, u @ (c, r) # v)"
    and "\<not> harmless uid dex c"
  shows "\<exists>f \<in> leftovers env dex pkg uid isas vol sf. (c = Sys (Unlink f) \<or> c = Rmdir f) \<and> dropped uid u \<and>
    found_missing dex u"
proof -
  define M where "M = removal uid dex (leftovers env dex pkg uid isas vol sf)"
  from wp_sound [OF wp_removal_reconcile assms(1)] obtain s' where
    "watch M (Privileged, Unknown) (u @ (c, r) # v) = Some s'"
    by (auto simp: M_def)
  then obtain s q s'' where s: "watch M (Privileged, Unknown) u = Some (s, q)" "M (s, q) c r = Some s''"
    by (auto simp: watch_append split: option.splits)
  from s(2) assms(2) have q: "s = Unprivileged" "q = Missing"
    "\<exists>f \<in> leftovers env dex pkg uid isas vol sf. c = Sys (Unlink f) \<or> c = Rmdir f"
    by (auto simp: M_def removal_def split: if_splits)
  from watch_privs_dropped [OF watch_removal_dropped [OF s(1) [unfolded M_def q(1)]]] have "dropped uid u"
    by (auto simp: dropped_def)
  moreover from watch_removal_missing [OF s(1) [unfolded M_def q(2)]] have "found_missing dex u" by auto
  ultimately show ?thesis using q(3) by blast
qed


definition missing_os :: "(pcall, preply) os_oracle" where
  "missing_os h c = (case c of AccessR p \<Rightarrow> good_reply (-1) 0 | Sys c \<Rightarrow> good_reply (if c = GetErrno then 2 else 0) 0
     | _ \<Rightarrow> good_reply 0 0)"

definition demo_reconcile :: "(bool \<times> bool) proc option \<times> (pcall, preply) history" where
  "demo_reconcile = run (reconcile_secondary_dex_file demo_dex ''/data/user_de/0/com.example/a.dex'' ''com.example'' 10001
     [''arm''] None 1) missing_os []"

lemma demo_reconcile_calls:
  "length (snd demo_reconcile) = 14"
  "fst (snd demo_reconcile ! 6) = Sys (Unlink ''/data/user_de/0/com.example/oat/arm/a.odex'')"
  by (code_simp, code_simp)

theorem reconcile_removes_leftovers_witness:
  "\<exists>f \<in> leftovers demo_dex ''/data/user_de/0/com.example/a.dex'' ''com.example'' 10001 [''arm''] None 1.
     f = ''/data/user_de/0/com.example/oat/arm/a.odex'' \<and> dropped 10001 (take 6 (snd demo_reconcile)) \<and>
     found_missing ''/data/user_de/0/com.example/a.dex'' (take 6 (snd demo_reconcile))"
proof -
  let ?c = "Sys (Unlink ''/data/user_de/0/com.example/oat/arm/a.odex'')" and ?t = "snd demo_reconcile"
  have "?t = take 6 ?t @ ?t ! 6 # drop 7 ?t"
    using id_take_nth_drop [of 6 ?t] by (simp add: demo_reconcile_calls(1))
  then have "?t = take 6 ?t @ (?c, snd (?t ! 6)) # drop 7 ?t"
    using demo_reconcile_calls(2) by (metis prod.collapse)
  then have "demo_reconcile = (fst demo_reconcile, take 6 ?t @ (?c, snd (?t ! 6)) # drop 7 ?t)"
    by (metis prod.collapse)
  from reconcile_removes_leftovers [OF this [unfolded demo_reconcile_def]]
  show ?thesis by (auto simp: demo_reconcile_def)
qed

text \<open>
  The wait status of a child that a signal killed is the number of the signal: \<open>SIGHUP\<close> and
  \<open>SIGINT\<close> are read as the exit codes 1 and 2, and so is the 1 for a \<open>waitpid\<close> that failed.  The
  caller is told that the file is gone, and forgets it, though nothing was looked at.
\<close>

definition hangup_os :: "(pcall, preply) os_oracle" where
  "hangup_os h c = (case c of Fork \<Rightarrow> good_reply 7 0 | Waitpid pid \<Rightarrow> good_reply 7 1 | _ \<Rightarrow> good_reply 0 0)"

lemma reconcile_signal_as_code:
  "fst (run (reconcile_secondary_dex_file demo_dex ''/data/user_de/0/com.example/a.dex'' ''com.example'' 10001
     [''arm''] None 1) hangup_os []) = Some (Live (True, False))"
  "\<not> WIFEXITED 1"
  by (code_simp, code_simp)

text \<open>The result of the removals before the old profile is lost: a failed \<open>unlink\<close> is not reported.\<close>

definition stuck_os :: "(pcall, preply) os_oracle" where
  "stuck_os h c = (case c of AccessR p \<Rightarrow> good_reply (-1) 0
     | Sys (Unlink p) \<Rightarrow> good_reply (if p = ''/data/user_de/0/com.example/oat/arm/a.odex'' then -1 else 0) 0
     | Sys c \<Rightarrow> good_reply (if c = GetErrno then (if h = [] \<or> fst (last h) \<noteq> AccessR ''/data/user_de/0/com.example/a.dex''
         then 13 else 2) else 0) 0
     | _ \<Rightarrow> good_reply 0 0)"

lemma reconcile_failure_lost:
  "fst (run (reconcile_secondary_dex_file demo_dex ''/data/user_de/0/com.example/a.dex'' ''com.example'' 10001
     [''arm''] None 1) stuck_os []) = Some (Exited 1)"
  by code_simp

end
