(* ===== verification/DexMove.thy ===== *)
theory DexMove
  imports DexProfilesCorrect DexSecondary OtaUtils
begin

text \<open>
  Moving the artifacts compiled for the other slot into place after an update, and deleting them
  (\<open>move_ab\<close> and \<open>delete_odex\<close> of \<open>installd/dexopt.cpp\<close>).
\<close>

section \<open>Moving\<close>

definition EPERM :: int where "EPERM = 1"

definition unlink_and_rename :: "string \<Rightarrow> string \<Rightarrow> bool handler" where
  "unlink_and_rename from_path to_path =
     (let rename_it = Call (Rename from_path to_path) (\<lambda>r. Ret (rc r = 0))
      in Call (Stat to_path) (\<lambda>s.
           if rc s = 0
           then (if \<not> S_ISREG (r_mode s) then Ret False
                 else Call (Unlink to_path) (\<lambda>u. if rc u \<noteq> 0 then Ret False else rename_it))
           else rename_it))"

definition move_ab_path :: "string \<Rightarrow> string \<Rightarrow> bool handler" where
  "move_ab_path b_path a_path =
     Call (Stat b_path) (\<lambda>s.
       if rc s \<noteq> 0 then Ret False
       else if \<not> S_ISREG (r_mode s) then Call (Unlink b_path) (\<lambda>_. Ret False)
       else bindp (unlink_and_rename b_path a_path) (\<lambda>ok.
         if \<not> ok then Call (Unlink b_path) (\<lambda>_. Ret False) else Ret True))"

text \<open>The artifacts, and their names in the other slot.\<close>

definition slot_path :: "string \<Rightarrow> string \<Rightarrow> string" where
  "slot_path slot_suffix a_path = a_path @ ''.'' @ slot_suffix"

definition move_ab_files :: "string \<Rightarrow> string \<Rightarrow> bool handler" where
  "move_ab_files slot_suffix a_path =
     (let a_vdex_path = create_vdex_filename a_path;
          a_image_path = create_image_filename a_path;
          b_path = slot_path slot_suffix a_path;
          b_vdex_path = slot_path slot_suffix a_vdex_path;
          b_image_path = slot_path slot_suffix a_image_path
      in bindp (move_ab_path b_path a_path) (\<lambda>oat.
           if oat
           then bindp (move_ab_path b_vdex_path a_vdex_path) (\<lambda>vdex.
             if vdex
             then (if a_image_path \<noteq> []
                   then bindp (move_ab_path b_image_path a_image_path) (\<lambda>image.
                     if \<not> image then Call (Unlink a_image_path) (\<lambda>_. Ret True) else Ret True)
                   else Ret True)
             else Call (Unlink b_image_path) (\<lambda>_. Ret False))
           else Call (Unlink b_vdex_path) (\<lambda>_. Call (Unlink b_image_path) (\<lambda>_. Ret False))))"

definition move_ab :: "dex_env \<Rightarrow> string \<Rightarrow> string \<Rightarrow> string \<Rightarrow> bool handler" where
  "move_ab env apk_path instruction_set oat_dir =
     (let slot_suffix = GetProperty env ''ro.boot.slot_suffix'' []
      in if slot_suffix = [] then Ret False
         else if \<not> ValidateTargetSlotSuffix slot_suffix then Ret False
         else with_some (validate_apk_path (se_globals (d_svc env)) apk_path) (\<lambda>v.
           if v \<noteq> 0 then Ret False
           else with_some (validate_apk_path (se_globals (d_svc env)) oat_dir) (\<lambda>v.
             if v \<noteq> 0 then Ret False
             else case calculate_oat_file_path_default oat_dir apk_path instruction_set of
                    None \<Rightarrow> Ret False
                  | Some a_path \<Rightarrow> move_ab_files slot_suffix a_path)))"

section \<open>Deleting\<close>

definition unlink_and_check :: "string \<Rightarrow> bool handler" where
  "unlink_and_check path =
     Call (Unlink path) (\<lambda>r.
       if rc r \<noteq> 0
       then Call GetErrno (\<lambda>e. if rc e = EACCES \<or> rc e = EPERM then Ret False else Ret True)
       else Ret True)"

definition delete_odex :: "dex_env \<Rightarrow> string \<Rightarrow> string \<Rightarrow> cstring \<Rightarrow> bool handler" where
  "delete_odex env apk_path instruction_set oat_dir =
     with_some (create_oat_out_path (se_globals (d_svc env)) apk_path instruction_set oat_dir False) (\<lambda>out.
       case out of
         None \<Rightarrow> Ret False
       | Some out_path \<Rightarrow>
           bindp (unlink_and_check out_path) (\<lambda>return_value_oat.
           bindp (unlink_and_check (create_image_filename out_path)) (\<lambda>return_value_art.
           bindp (unlink_and_check (create_vdex_filename out_path)) (\<lambda>return_value_vdex.
             Ret (return_value_oat \<and> return_value_art \<and> return_value_vdex)))))"

section \<open>What the move leaves behind\<close>

text \<open>The renames done, the removals tried, and whether nothing is left of a file to try again.\<close>

definition moves :: "(call, reply) history \<Rightarrow> (string \<times> string) set" where
  "moves t = {(b, a). \<exists>r. (Rename b a, r) \<in> set t \<and> rc r = 0}"

definition unlinks :: "(call, reply) history \<Rightarrow> string set" where
  "unlinks t = {p. \<exists>r. (Unlink p, r) \<in> set t}"

definition settled :: "string \<Rightarrow> string \<Rightarrow> (call, reply) history \<Rightarrow> bool" where
  "settled b a t \<longleftrightarrow> (b, a) \<in> moves t \<or> b \<in> unlinks t \<or> (\<exists>r. (Stat b, r) \<in> set t \<and> rc r \<noteq> 0)"

lemma moves_append [simp]: "moves (t @ u) = moves t \<union> moves u" "unlinks (t @ u) = unlinks t \<union> unlinks u"
  "settled b a (t @ u) \<longleftrightarrow> settled b a t \<or> settled b a u"
  by (auto simp: moves_def unlinks_def settled_def)

lemma moves_unlinks [simp]: "moves [] = {}" "unlinks [] = {}" "moves ((Unlink p, r) # t) = moves t"
  "unlinks ((Unlink p, r) # t) = insert p (unlinks t)"
  by (auto simp: moves_def unlinks_def)

lemma settled_unlinked: "b \<in> unlinks t \<Longrightarrow> settled b a t"
  by (simp add: settled_def)

lemma move_ab_path_yields:
  "yields (move_ab_path b a) (\<lambda>ok t. settled b a t \<and> moves t = (if ok then {(b, a)} else {}))"
  by (auto simp: move_ab_path_def unlink_and_rename_def Let_def settled_def moves_def unlinks_def)

text \<open>
  The contract of the move of one set of artifacts: nothing of the other slot is left to be tried
  again, the result says whether both the oat and the vdex file are in place, and then no stale
  image is.
\<close>

definition slot_moved :: "string \<Rightarrow> string \<Rightarrow> bool \<Rightarrow> (call, reply) history \<Rightarrow> bool" where
  "slot_moved sfx a ok t \<longleftrightarrow>
     (let files = {a, create_vdex_filename a, create_image_filename a}; pair = (\<lambda>x. (slot_path sfx x, x))
      in (\<forall>x \<in> files. settled (slot_path sfx x) x t) \<and> moves t \<subseteq> pair ` files \<and>
         (ok \<longleftrightarrow> {pair a, pair (create_vdex_filename a)} \<subseteq> moves t) \<and>
         (ok \<longrightarrow> pair (create_image_filename a) \<in> moves t \<or> create_image_filename a \<in> unlinks t))"

lemma move_ab_files_yields:
  assumes "create_vdex_filename a \<noteq> a" "create_image_filename a \<noteq> a" "create_image_filename a \<noteq> create_vdex_filename a"
    "create_image_filename a \<noteq> []"
  shows "yields (move_ab_files sfx a) (slot_moved sfx a)"
proof -
  note mv = move_ab_path_yields
  show ?thesis
    unfolding move_ab_files_def Let_def
  proof (rule yields_bindpI [OF mv], goal_cases)
    case (1 oat t)
    show ?case
    proof (cases oat)
      case True
      show ?thesis
        unfolding if_P [OF True]
      proof (rule yields_bindpI [OF mv], goal_cases)
        case (1 vdex u)
        note t = \<open>settled (slot_path sfx a) a t \<and> moves t = _\<close> and u = 1
        show ?case
        proof (cases vdex)
          case v: True
          show ?thesis
            unfolding if_P [OF v] if_P [OF assms(4)]
            by (rule yields_bindpI [OF mv])
              (use t u v True assms in \<open>auto simp: slot_moved_def settled_unlinked split: if_splits\<close>)
        next
          case v: False
          show ?thesis
            using t u v True assms by (auto simp: slot_moved_def settled_unlinked)
        qed
      qed
    next
      case False
      with 1 assms show ?thesis by (auto simp: slot_moved_def settled_unlinked)
    qed
  qed
qed

text \<open>
  C36: \<open>move_ab\<close> is all or nothing as far as the code can see: either nothing is done (there is no
  other slot, or an argument is refused) and the result is false, or the result is true exactly when
  both the oat and the vdex file of the other slot were renamed into place; nothing else is renamed;
  an image of the other slot replaces the present one or the present one is removed; and every
  artifact of the other slot was missing, was renamed or was the object of an \<open>unlink\<close>, so that a
  failed move is not tried again.
\<close>

theorem move_ab_outcome:
  assumes "run (move_ab env apk isa dir) os [] = (Some ok, t)"
  shows "(t = [] \<and> \<not> ok) \<or>
    (\<exists>a. calculate_oat_file_path_default dir apk isa = Some a \<and>
         slot_moved (GetProperty env ''ro.boot.slot_suffix'' []) a ok t)"
proof -
  let ?sfx = "GetProperty env ''ro.boot.slot_suffix'' []"
  from assms consider "t = []" "\<not> ok"
    | a where "calculate_oat_file_path_default dir apk isa = Some a" "run (move_ab_files ?sfx a) os [] = (Some ok, t)"
    by (auto simp: move_ab_def Let_def with_some_def split: if_splits option.splits)
  then show ?thesis
  proof cases
    case (2 a)
    from 2(1) obtain s where a: "a = s @ ''.odex''" by (rule calculate_oat_SomeE) auto
    have "yields (move_ab_files ?sfx a) (slot_moved ?sfx a)"
      by (rule move_ab_files_yields) (simp_all add: a create_vdex_filename_def create_image_filename_def replace_odex)
    from yields_run [OF this, of os "[]"] 2 show ?thesis by auto
  qed auto
qed

definition slot_dex :: dex_env where
  "slot_dex = demo_dex\<lparr>d_props := (\<lambda>k. if k = ''ro.boot.slot_suffix'' then ''_b'' else [])\<rparr>"

definition files_os :: "(call, reply) os_oracle" where
  "files_os h c = \<lparr>rc = 0, r_str = [], r_uid = 0, r_gid = 0, r_mode = S_IFREG, r_ino = 0, r_trees = None\<rparr>"

theorem move_ab_outcome_witness:
  "\<exists>t. run (move_ab slot_dex ''/data/app/x/base.apk'' ''arm'' ''/data/app/x/oat'') files_os [] = (Some True, t) \<and>
     slot_moved ''_b'' ''/data/app/x/oat/arm/base.odex'' True t"
proof -
  let ?p = "move_ab slot_dex ''/data/app/x/base.apk'' ''arm'' ''/data/app/x/oat''"
  have "fst (run ?p files_os []) = Some True" by code_simp
  then obtain t where t: "run ?p files_os [] = (Some True, t)" by (metis prod.collapse)
  have "calculate_oat_file_path_default ''/data/app/x/oat'' ''/data/app/x/base.apk'' ''arm''
      = Some ''/data/app/x/oat/arm/base.odex''" by code_simp
  moreover have "GetProperty slot_dex ''ro.boot.slot_suffix'' [] = ''_b''" by code_simp
  ultimately show ?thesis using move_ab_outcome [OF t] t by auto
qed

end
