(* ===== verification/InstalldLinks.thy ===== *)
theory InstalldLinks
  imports InstalldAppCorrect DexPaths
begin

text \<open>
  The handlers of \<open>installd/InstalldNativeService.cpp\<close> for the code directories of packages: the
  link to the native libraries, hard links between packages, the directories of compiled code and
  the entries of the dalvik cache.
\<close>

section \<open>The link to the native libraries\<close>

definition S_ISLNK :: "int \<Rightarrow> bool" where "S_ISLNK m \<longleftrightarrow> S_IFMT_of m = 10"

text \<open>The part up to the label \<open>out\<close>: what is in the way of the link goes first.\<close>

definition make_library_link :: "string \<Rightarrow> string \<Rightarrow> string \<Rightarrow> status handler" where
  "make_library_link asecLibDir libsymlink con =
     Call (Symlink asecLibDir libsymlink) (\<lambda>r.
       if rc r < 0 then error_now
       else Call (LSetFileCon libsymlink con) (\<lambda>r. if rc r < 0 then error_now else Ret StatusOk))"

definition replace_library_link :: "string \<Rightarrow> string \<Rightarrow> string \<Rightarrow> status handler" where
  "replace_library_link asecLibDir libsymlink con =
     Call (LStat libsymlink) (\<lambda>libStat.
       if rc libStat < 0 then
         Call GetErrno (\<lambda>e. if rc e \<noteq> ENOENT then error_now else make_library_link asecLibDir libsymlink con)
       else if S_ISDIR (r_mode libStat) then
         Call (DeleteContents libsymlink True False) (\<lambda>r.
           if rc r < 0 then error_now else make_library_link asecLibDir libsymlink con)
       else if S_ISLNK (r_mode libStat) then
         Call (Unlink libsymlink) (\<lambda>r.
           if rc r < 0 then error_now else make_library_link asecLibDir libsymlink con)
       else make_library_link asecLibDir libsymlink con)"

text \<open>The cleanup; an error is reported only when there was none before.\<close>

definition restore_pkgdir :: "string \<Rightarrow> reply \<Rightarrow> status \<Rightarrow> status handler" where
  "restore_pkgdir pkgdir s res =
     Call (Chmod pkgdir (r_mode s)) (\<lambda>m.
       bindp (if rc m < 0 \<and> isOk res then error_now else Ret res) (\<lambda>res.
         Call (Chown pkgdir (r_uid s) (r_gid s)) (\<lambda>c. if rc c < 0 \<and> isOk res then error_now else Ret res)))"

definition linkNativeLibraryDirectory ::
  "svc_env \<Rightarrow> cstring \<Rightarrow> string \<Rightarrow> string \<Rightarrow> int \<Rightarrow> status handler" where
  "linkNativeLibraryDirectory env uuid packageName nativeLibPath32 userId =
     guard [uid_check env, checkArgumentUuid uuid, checkArgumentPackageName packageName,
            checkArgumentPath nativeLibPath32] id
       (with_some (ce_package env uuid userId packageName) (\<lambda>pkgdir.
          let libsymlink = pkgdir @ ''/lib'' in
          Call (Stat pkgdir) (\<lambda>s.
            if rc s < 0 then error_now
            else Call (LGetFileCon pkgdir) (\<lambda>con.
              if rc con < 0 then error_now
              else bindp
                (Call (Chown pkgdir (AID_INSTALL env) (AID_INSTALL env)) (\<lambda>r.
                   if rc r < 0 then error_now
                   else Call (Chmod pkgdir 448) (\<lambda>r.
                     if rc r < 0 then error_now
                     else replace_library_link nativeLibPath32 libsymlink (r_str con))))
                (restore_pkgdir pkgdir s)))))"

section \<open>Code directories\<close>

definition rmdex :: "svc_env \<Rightarrow> string \<Rightarrow> string \<Rightarrow> status handler" where
  "rmdex env codePath instructionSet =
     guard [uid_check env, checkArgumentPath codePath] id
       (with_some (validate_apk_path (se_globals env) codePath) (\<lambda>v.
          if v \<noteq> 0 \<and> validate_system_app_path (se_globals env) codePath \<noteq> 0 then error_now
          else case create_cache_path_default (se_globals env) codePath instructionSet of
                 None \<Rightarrow> error_now
               | Some dex_path \<Rightarrow>
                   Call (Unlink dex_path) (\<lambda>r.
                     if rc r < 0 then Call GetErrno (\<lambda>e. if rc e \<noteq> ENOENT then error_now else Ret StatusOk)
                     else Ret StatusOk)))"

text \<open>
  \<open>sprintf\<close> into the buffer: a longer path would be written behind its end, and the behaviour of the
  program is then not defined.
\<close>

definition markBootComplete :: "svc_env \<Rightarrow> string \<Rightarrow> status handler" where
  "markBootComplete env instructionSet =
     guard [uid_check env] id
       (let boot_marker_path = android_data_dir (se_globals env) @ ''/dalvik-cache/'' @ instructionSet @ ''/.booting''
        in if length boot_marker_path \<ge> PKG_PATH_MAX then Abort
           else Call (Unlink boot_marker_path) (\<lambda>r. if rc r \<noteq> 0 then error_now else Ret StatusOk))"

definition createOatDir :: "svc_env \<Rightarrow> string \<Rightarrow> string \<Rightarrow> status handler" where
  "createOatDir env oatDir instructionSet =
     guard [uid_check env, checkArgumentPath oatDir] id
       (with_some (validate_apk_path (se_globals env) oatDir) (\<lambda>v.
          if v \<noteq> 0 then error_now
          else Call (PrepareDir oatDir 505 (AID_SYSTEM env) (AID_INSTALL env)) (\<lambda>r.
            if rc r \<noteq> 0 then error_now
            else Call (Restorecon oatDir False) (\<lambda>r.
              if rc r \<noteq> 0 then error_now
              else Call (PrepareDir (cut (oatDir @ ''/'' @ instructionSet)) 505 (AID_SYSTEM env) (AID_INSTALL env))
                (\<lambda>r. if rc r \<noteq> 0 then error_now else Ret StatusOk)))))"

definition rm_package_dir :: "string \<Rightarrow> int handler" where
  "rm_package_dir package_dir = rc_of (DeleteContents package_dir True False)"

definition rmPackageDir :: "svc_env \<Rightarrow> string \<Rightarrow> status handler" where
  "rmPackageDir env packageDir =
     guard [uid_check env, checkArgumentPath packageDir] id
       (with_some (validate_apk_path (se_globals env) packageDir) (\<lambda>v.
          if v \<noteq> 0 then error_now
          else bindp (rm_package_dir packageDir) (\<lambda>r. if r \<noteq> 0 then error_now else Ret StatusOk)))"

definition linkFile :: "svc_env \<Rightarrow> string \<Rightarrow> string \<Rightarrow> string \<Rightarrow> status handler" where
  "linkFile env relativePath fromBase toBase =
     guard [uid_check env, checkArgumentPath fromBase, checkArgumentPath toBase] id
       (let from_path = cut (fromBase @ ''/'' @ relativePath); to_path = cut (toBase @ ''/'' @ relativePath)
        in with_some (validate_apk_path_subdirs (se_globals env) from_path) (\<lambda>v.
             if v \<noteq> 0 then error_now
             else with_some (validate_apk_path_subdirs (se_globals env) to_path) (\<lambda>v.
               if v \<noteq> 0 then error_now
               else Call (Link from_path to_path) (\<lambda>r. if rc r < 0 then error_now else Ret StatusOk))))"

definition destroyProfileSnapshot :: "svc_env \<Rightarrow> string \<Rightarrow> string \<Rightarrow> status handler" where
  "destroyProfileSnapshot env packageName profileName =
     guard [uid_check env, checkArgumentPackageName packageName] id
       (with_some (create_snapshot_profile_path (se_globals env) packageName profileName) (\<lambda>snapshot.
          Call (Unlink snapshot) (\<lambda>r.
            if rc r \<noteq> 0 then Call GetErrno (\<lambda>e. if rc e \<noteq> ENOENT then error_now else Ret StatusOk)
            else Ret StatusOk)))"

text \<open>The script is run by \<open>system\<close>; a failure is only logged.\<close>

definition migrateLegacyObbData :: "svc_env \<Rightarrow> (string \<Rightarrow> int) \<Rightarrow> status" where
  "migrateLegacyObbData env system_call =
     (if \<not> isOk (uid_check env) then uid_check env
      else if system_call ''/system/bin/migrate_legacy_obb_data.sh'' \<noteq> 0 then StatusOk else StatusOk)"

section \<open>The names in the resource cache\<close>

text \<open>
  \<open>flatten_path\<close>: \<open>None\<close> is the result -1.  The lengths are those of strings in memory, so their sum
  fits a \<open>size_t\<close> exactly when the tests say so.
\<close>

definition SIZE_MAX :: nat where "SIZE_MAX = 2 ^ 64 - 1"

definition flatten_path :: "string \<Rightarrow> string \<Rightarrow> string \<Rightarrow> nat \<Rightarrow> string option" where
  "flatten_path pre suf overlay_path N =
     (if length overlay_path < 2 \<or> hd overlay_path \<noteq> CHR ''/'' then None
      else if SIZE_MAX - length pre < length overlay_path
              \<or> SIZE_MAX - (length pre + length overlay_path) < length suf then None
      else if N < length pre + length overlay_path + length suf then None
      else Some (pre @ map (\<lambda>c. if c = CHR ''/'' then CHR ''@'' else c) (drop 1 overlay_path @ suf)))"

definition idmap_path :: "string \<Rightarrow> string option" where
  "idmap_path overlay_apk = flatten_path ''/data/resource-cache/'' ''@idmap'' overlay_apk 4096"

definition removeIdmap :: "svc_env \<Rightarrow> string \<Rightarrow> status handler" where
  "removeIdmap env overlayApkPath =
     guard [uid_check env, checkArgumentPath overlayApkPath] id
       (case idmap_path overlayApkPath of
          None \<Rightarrow> error_now
        | Some p \<Rightarrow> Call (Unlink p) (\<lambda>r. if rc r < 0 then error_now else Ret StatusOk))"


section \<open>The native library link leaves the package as it was\<close>

text \<open>The changes of the mode and the owner of a path.\<close>

fun sets_attr :: "string \<Rightarrow> call \<Rightarrow> bool" where
  "sets_attr p (Chmod q m) \<longleftrightarrow> q = p"
| "sets_attr p (Chown q u g) \<longleftrightarrow> q = p"
| "sets_attr p _ \<longleftrightarrow> False"

definition attrs :: "string \<Rightarrow> (call, reply) history \<Rightarrow> (call, reply) history" where
  "attrs p t = filter (\<lambda>(c, r). sets_attr p c) t"

lemma attrs_simps [simp]: "attrs p [] = []" "attrs p ((c, r) # t) = (if sets_attr p c then (c, r) # attrs p t else attrs p t)"
  "attrs p (t @ u) = attrs p t @ attrs p u"
  by (simp_all add: attrs_def)

definition linked :: "string \<Rightarrow> string \<Rightarrow> (call, reply) history \<Rightarrow> bool" where
  "linked lib l t \<longleftrightarrow> (\<exists>r. (Symlink lib l, r) \<in> set t \<and> rc r \<ge> 0)"

lemma linked_simps [simp]: "\<not> linked lib l []" "linked lib l (t @ u) \<longleftrightarrow> linked lib l t \<or> linked lib l u"
  "linked lib l ((c, r) # t) \<longleftrightarrow> (c = Symlink lib l \<and> rc r \<ge> 0) \<or> linked lib l t"
  by (auto simp: linked_def)

text \<open>
  What holds of a run: no attribute was changed, or the last changes put back the mode and the owner
  that \<open>stat\<close> reported; and an ok status means that the link was made and no change failed.
\<close>

definition link_contract :: "string \<Rightarrow> string \<Rightarrow> status \<Rightarrow> (call, reply) history \<Rightarrow> bool" where
  "link_contract pkgdir lib st t \<longleftrightarrow>
     (attrs pkgdir t = [] \<or>
      (\<exists>s u m c. (Stat pkgdir, s) \<in> set t \<and>
         attrs pkgdir t = u @ [(Chmod pkgdir (r_mode s), m), (Chown pkgdir (r_uid s) (r_gid s), c)])) \<and>
     (st = StatusOk \<longrightarrow> linked lib (pkgdir @ ''/lib'') t \<and> (\<forall>(c, r) \<in> set (attrs pkgdir t). rc r \<ge> 0))"

lemma make_link_yields:
  "yields (make_library_link lib l con) (\<lambda>st t. (st = StatusOk \<longrightarrow> linked lib l t) \<and> attrs p t = [])"
  by (auto simp: make_library_link_def error_now_def)

lemma replace_link_yields:
  "yields (replace_library_link lib l con) (\<lambda>st t. (st = StatusOk \<longrightarrow> linked lib l t) \<and> attrs p t = [])"
  unfolding replace_library_link_def
  by (auto simp: error_now_def intro!: yields_mono [OF make_link_yields [of lib l con p]])

lemma restore_yields:
  "yields (restore_pkgdir p s res) (\<lambda>st t. \<exists>m c. attrs p t = [(Chmod p (r_mode s), m), (Chown p (r_uid s) (r_gid s), c)] \<and>
     (st = StatusOk \<longrightarrow> res = StatusOk \<and> rc m \<ge> 0 \<and> rc c \<ge> 0))"
  by (auto simp: restore_pkgdir_def error_now_def isOk_def)

lemma link_library_yields:
  assumes "ce_package env uuid user pkg = Some d"
  shows "yields (linkNativeLibraryDirectory env uuid pkg lib user) (link_contract d lib)"
proof -
  have g: "yields (guard cs id p) (link_contract d lib)" if "yields p (link_contract d lib)" for cs p
    using that by (induction cs) (auto simp: link_contract_def isOk_def)
  have body: "yields (Call (Chown d (AID_INSTALL env) (AID_INSTALL env)) (\<lambda>r.
      if rc r < 0 then error_now
      else Call (Chmod d 448) (\<lambda>r. if rc r < 0 then error_now else replace_library_link lib l con)))
    (\<lambda>st t. st = StatusOk \<longrightarrow> linked lib l t \<and> (\<forall>(c, r) \<in> set (attrs d t). rc r \<ge> 0))" for l con
    by (auto simp: error_now_def intro!: yields_mono [OF replace_link_yields [of lib l con d]])
  have whole: "yields (bindp (Call (Chown d (AID_INSTALL env) (AID_INSTALL env)) (\<lambda>r.
      if rc r < 0 then error_now
      else Call (Chmod d 448) (\<lambda>r. if rc r < 0 then error_now else replace_library_link lib l con))) (restore_pkgdir d s))
    (\<lambda>st t. (\<exists>u m c. attrs d t = u @ [(Chmod d (r_mode s), m), (Chown d (r_uid s) (r_gid s), c)]) \<and>
       (st = StatusOk \<longrightarrow> linked lib l t \<and> (\<forall>(c, r) \<in> set (attrs d t). rc r \<ge> 0)))" for l con s
    by (rule yields_bindpI [OF body], rule yields_mono [OF restore_yields]) auto
  show ?thesis
    unfolding linkNativeLibraryDirectory_def assms with_some_simps Let_def
    by (rule g, simp add: error_now_def del: yields_bindp bindp.simps)
      (auto simp: link_contract_def intro!: yields_mono [OF whole] simp del: yields_bindp bindp.simps)
qed

text \<open>
  C23: Whatever calls fail, \<open>linkNativeLibraryDirectory\<close> leaves the data directory of the package with
  the mode and the owner it had: it returns, and either it never changed them or the last changes it
  made, both attempted on every path, put back what \<open>stat\<close> had reported.  An ok status means that the
  symbolic link was made and that no change of mode or owner failed.
\<close>

theorem linkNativeLibraryDirectory_restores:
  assumes "usable_volume (se_paths env) uuid" "is_valid_package_name pkg"
  shows "\<exists>d st t. ce_package env uuid user pkg = Some d \<and>
    run (linkNativeLibraryDirectory env uuid pkg lib user) os [] = (Some st, t) \<and> link_contract d lib st t"
proof -
  obtain d where d: "ce_package env uuid user pkg = Some d" using package_paths_exist(1) [OF assms] by blast
  from yields_run [OF link_library_yields [OF d], of lib os "[]"] d show ?thesis by auto
qed

definition busy_os :: "(call, reply) os_oracle" where
  "busy_os h c = \<lparr>rc = (case c of Symlink a b \<Rightarrow> -1 | GetErrno \<Rightarrow> 30 | _ \<Rightarrow> 0), r_str = ''u:object_r:app'', r_uid = 10001,
     r_gid = 10001, r_mode = S_IFDIR + 448, r_ino = 0, r_trees = None\<rparr>"

theorem linkNativeLibraryDirectory_restores_witness:
  "\<exists>st t. run (linkNativeLibraryDirectory demo_svc None ''com.example'' ''/data/app-lib/x'' 0) busy_os [] = (Some st, t) \<and>
     st = ServiceError 30 \<and> link_contract ''/data/user/0/com.example'' ''/data/app-lib/x'' st t"
proof -
  have d: "ce_package demo_svc None 0 ''com.example'' = Some ''/data/user/0/com.example''" by code_simp
  have f: "fst (run (linkNativeLibraryDirectory demo_svc None ''com.example'' ''/data/app-lib/x'' 0) busy_os []) =
      Some (ServiceError 30)" by code_simp
  from linkNativeLibraryDirectory_restores [OF demo_svc_ok(2,3), of 0 "''/data/app-lib/x''" busy_os] d f
  show ?thesis by auto
qed

section \<open>Code directories stay where they belong\<close>

definition files_ok_os :: "(call, reply) os_oracle" where
  "files_ok_os h c = \<lparr>rc = 0, r_str = [], r_uid = 0, r_gid = 0, r_mode = 0, r_ino = 0, r_trees = None\<rparr>"

text \<open>What the validation of a path promises, with the number of levels it allows.\<close>

definition in_app_dir :: "globals \<Rightarrow> int \<Rightarrow> string \<Rightarrow> bool" where
  "in_app_dir g n path \<longleftrightarrow> (\<exists>dir \<in> set (apk_dirs g). \<exists>rest. volume_rewrite g path (dir @ rest) \<and>
     \<not> sublist ''..'' (dir @ rest) \<and> slash_runs rest \<le> n)"

lemma validated_in_app_dir:
  "validate_apk_path g p = Some 0 \<Longrightarrow> in_app_dir g 1 p" "validate_apk_path_subdirs g p = Some 0 \<Longrightarrow> in_app_dir g 3 p"
  unfolding in_app_dir_def validate_apk_path_def validate_apk_path_subdirs_def
  by (drule validate_apk_path_internal_sound, unfold validate_path_iff, blast)+

text \<open>
  What a handler may do to a path: remove or make a directory of code, label it, link a file.  The
  directory of an instruction set is made below one that was accepted.
\<close>

fun code_call_ok :: "globals \<Rightarrow> string \<Rightarrow> call \<Rightarrow> bool" where
  "code_call_ok g isa (DeleteContents p d i) \<longleftrightarrow> in_app_dir g 1 p"
| "code_call_ok g isa (PrepareDir p m u gr) \<longleftrightarrow> in_app_dir g 1 p \<or> (\<exists>q. in_app_dir g 1 q \<and> p = cut (q @ ''/'' @ isa))"
| "code_call_ok g isa (Restorecon p re) \<longleftrightarrow> in_app_dir g 1 p"
| "code_call_ok g isa (Link p q) \<longleftrightarrow> in_app_dir g 3 p \<and> in_app_dir g 3 q"
| "code_call_ok g isa GetErrno \<longleftrightarrow> True"
| "code_call_ok g isa _ \<longleftrightarrow> False"

inductive code_handler :: "svc_env \<Rightarrow> string \<Rightarrow> status handler \<Rightarrow> bool" for env isa where
  "code_handler env isa (createOatDir env oatDir isa)"
| "code_handler env isa (rmPackageDir env packageDir)"
| "code_handler env isa (linkFile env relativePath fromBase toBase)"

lemma calls_within_guard: "(list_all isOk cs \<Longrightarrow> calls_within C p) \<Longrightarrow> calls_within C (guard cs f p)"
  by (induction cs) auto

lemma calls_within_some: "(\<And>y. x = Some y \<Longrightarrow> calls_within C (f y)) \<Longrightarrow> calls_within C (with_some x f)"
  by (cases x) auto

lemma code_handler_calls:
  assumes "code_handler env isa p"
  shows "calls_within (\<lambda>c. code_call_ok (se_globals env) isa c \<and> uid_check env = StatusOk) p"
  using assms
proof cases
  case (1 oatDir)
  show ?thesis
    unfolding 1
    by (auto simp: createOatDir_def error_now_def isOk_def dest!: validated_in_app_dir
        intro!: calls_within_guard calls_within_some)
next
  case (2 packageDir)
  show ?thesis
    unfolding 2
    by (auto simp: rmPackageDir_def rm_package_dir_def rc_of_def error_now_def isOk_def dest!: validated_in_app_dir
        intro!: calls_within_guard calls_within_some)
next
  case (3 relativePath fromBase toBase)
  show ?thesis
    unfolding 3
    by (auto simp: linkFile_def Let_def error_now_def isOk_def dest!: validated_in_app_dir
        intro!: calls_within_guard calls_within_some)
qed

text \<open>
  \<open>createOatDir\<close>, \<open>rmPackageDir\<close> and \<open>linkFile\<close> make a call only for the system, and touch nothing
  but code: what is deleted, prepared, labelled or linked is, after rewriting volumes, an application
  directory followed by a rest without \<open>..\<close> and with few levels, or the directory of the instruction
  set below such a path.
\<close>

theorem code_handlers_confined:
  assumes "code_handler env isa p" "run p os [] = (res, u @ (c, r) # v)"
  shows "code_call_ok (se_globals env) isa c \<and> uid_check env = StatusOk"
  using calls_within_run [OF code_handler_calls [OF assms(1)] assms(2)] by simp

theorem code_handlers_confined_witness:
  "\<exists>r. run (linkFile demo_svc ''base.apk'' ''/data/app/x'' ''/data/app/y'') files_ok_os [] =
     (Some StatusOk, [(Link ''/data/app/x/base.apk'' ''/data/app/y/base.apk'', r)]) \<and>
   code_call_ok std_globals ''arm'' (Link ''/data/app/x/base.apk'' ''/data/app/y/base.apk'')"
proof -
  let ?p = "linkFile demo_svc ''base.apk'' ''/data/app/x'' ''/data/app/y''"
  let ?c = "Link ''/data/app/x/base.apk'' ''/data/app/y/base.apk''"
  have r: "run ?p files_ok_os [] = (Some StatusOk, [(?c, files_ok_os [] ?c)])" by code_simp
  then have "run ?p files_ok_os [] = (Some StatusOk, [] @ (?c, files_ok_os [] ?c) # [])" by simp
  from code_handlers_confined [OF code_handler.intros(3) this, of "''arm''"] r show ?thesis
    by (auto simp: demo_svc_def)
qed

text \<open>
  The buffers of \<open>linkFile\<close> cut a path that does not fit, without an error: the file linked is then
  another one than the one named.
\<close>

lemma linkFile_cuts:
  assumes "length fromBase + length r \<ge> PKG_PATH_MAX" "length toBase + length r \<ge> PKG_PATH_MAX"
  shows "linkFile env (r @ s) fromBase toBase = linkFile env (r @ s') fromBase toBase"
proof -
  have c: "cut (b @ ''/'' @ r @ s) = cut (b @ ''/'' @ r @ s')" if "length b + length r \<ge> PKG_PATH_MAX" for b
  proof -
    have "cut (b @ ''/'' @ r @ z) = take (PKG_PATH_MAX - 1) (b @ ''/'' @ r)" for z
      using that take_append [of "PKG_PATH_MAX - 1" "b @ ''/'' @ r" z] by (simp add: cut_def)
    then show ?thesis by simp
  qed
  show ?thesis unfolding linkFile_def c [OF assms(1)] c [OF assms(2)] ..
qed

section \<open>Names in the resource cache\<close>

text \<open>A name fits the buffer with its null byte; two overlays may share one.\<close>

lemma flatten_path_fits: "flatten_path pre suf p N = Some q \<Longrightarrow> length q + 1 \<le> N"
  by (auto simp: flatten_path_def split: if_splits)

lemma flatten_path_inj:
  assumes "flatten_path pre suf p N = Some s" "flatten_path pre suf q N = Some s" "CHR ''@'' \<notin> set p" "CHR ''@'' \<notin> set q"
  shows "p = q"
proof -
  let ?f = "\<lambda>c. if c = CHR ''/'' then CHR ''@'' else c"
  from assms(1,2) have d: "map ?f (drop 1 p) = map ?f (drop 1 q)" and
    h: "p \<noteq> []" "q \<noteq> []" "hd p = CHR ''/''" "hd q = CHR ''/''"
    by (auto simp: flatten_path_def split: if_splits)
  have "CHR ''@'' \<notin> set (drop 1 p)" "CHR ''@'' \<notin> set (drop 1 q)"
    using assms(3,4) by (auto dest: in_set_dropD)
  with d have "drop 1 p = drop 1 q" by (rule encode_at_inj)
  with h show ?thesis by (cases p; cases q) auto
qed

lemma idmap_paths_collide:
  "idmap_path ''/vendor/a/b.apk'' = idmap_path ''/vendor/a@b.apk''" "idmap_path ''/vendor/a/b.apk'' \<noteq> None"
  by (simp_all add: idmap_path_def flatten_path_def SIZE_MAX_def)

end
