(* ===== verification/InstalldService.thy ===== *)
theory InstalldService
  imports DexSafety DexMove InstalldLinks
begin

text \<open>
  The handlers of \<open>installd/InstalldNativeService.cpp\<close> that hand over to \<open>dexopt.cpp\<close>, the resource
  maps of overlays and the verity data of an APK.  A handler returns its status and, where it has
  one, the value it was asked for.
\<close>

section \<open>Entry\<close>

fun guardx :: "status list \<Rightarrow> (status \<Rightarrow> 'a) \<Rightarrow> 'a proc_prog \<Rightarrow> 'a proc_prog" where
  "guardx [] f p = p"
| "guardx (st # sts) f p = (if isOk st then guardx sts f p else pure (f st))"

definition error_x :: "status proc_prog" where
  "error_x = errno (\<lambda>e. pure (ServiceError e))"

text \<open>A boolean result, and no status but those of the checks.\<close>

definition returning :: "'a proc_prog \<Rightarrow> (status \<times> 'a option) proc_prog" where
  "returning p = bindx p (\<lambda>a. pure (StatusOk, Some a))"

abbreviation refused :: "status \<Rightarrow> status \<times> 'a option" where
  "refused st \<equiv> (st, None)"

section \<open>Profiles and compilation\<close>

definition dumpProfiles :: "dex_env \<Rightarrow> int \<Rightarrow> string \<Rightarrow> string \<Rightarrow> string \<Rightarrow> (status \<times> bool option) proc_prog" where
  "dumpProfiles env uid packageName profileName codePath =
     guardx [uid_check (d_svc env), checkArgumentPackageName packageName, checkArgumentPath codePath] refused
       (returning (dump_profiles env uid packageName profileName codePath))"

definition copySystemProfile ::
  "dex_env \<Rightarrow> nat \<Rightarrow> string \<Rightarrow> int \<Rightarrow> string \<Rightarrow> string \<Rightarrow> (status \<times> bool option) proc_prog" where
  "copySystemProfile env fuel systemProfile packageUid packageName profileName =
     guardx [uid_check (d_svc env), checkArgumentPackageName packageName] refused
       (returning (copy_system_profile env fuel systemProfile packageUid packageName profileName))"

definition mergeProfiles :: "dex_env \<Rightarrow> int \<Rightarrow> string \<Rightarrow> string \<Rightarrow> (status \<times> bool option) proc_prog" where
  "mergeProfiles env uid packageName profileName =
     guardx [uid_check (d_svc env), checkArgumentPackageName packageName] refused
       (returning (analyze_primary_profiles env uid packageName profileName))"

definition createProfileSnapshot ::
  "dex_env \<Rightarrow> nat \<Rightarrow> int \<Rightarrow> string \<Rightarrow> string \<Rightarrow> string \<Rightarrow> (status \<times> bool option) proc_prog" where
  "createProfileSnapshot env fuel appId packageName profileName classpath =
     guardx [uid_check (d_svc env), checkArgumentPackageName packageName] refused
       (returning (create_profile_snapshot env fuel appId packageName profileName classpath))"

definition prepareAppProfile ::
  "dex_env \<Rightarrow> string \<Rightarrow> int \<Rightarrow> int \<Rightarrow> string \<Rightarrow> string \<Rightarrow> cstring \<Rightarrow> (status \<times> bool option) proc_prog" where
  "prepareAppProfile env packageName userId appId profileName codePath dexMetadata =
     guardx [uid_check (d_svc env), checkArgumentPackageName packageName, checkArgumentPath codePath] refused
       (returning (prepare_app_profile env packageName userId appId profileName codePath dexMetadata))"

text \<open>The package of a shared library is \<open>*\<close>, and so is the one of a call without a name.\<close>

definition dexopt_checks :: "dex_env \<Rightarrow> cstring \<Rightarrow> dexopt_in \<Rightarrow> status list" where
  "dexopt_checks env packageName x =
     [uid_check (d_svc env), checkArgumentUuid (x_volume_uuid x), checkArgumentPath (x_dex_path x),
      (case packageName of None \<Rightarrow> StatusOk | Some p \<Rightarrow> if p \<noteq> ''*'' then checkArgumentPackageName p else StatusOk),
      checkArgumentPath_opt (x_oat_dir x), checkArgumentPath_opt (x_dex_metadata_path x)]"

definition dexopt_handler :: "dex_env \<Rightarrow> cstring \<Rightarrow> dexopt_in \<Rightarrow> status proc_prog" where
  "dexopt_handler env packageName x =
     guardx (dexopt_checks env packageName x) id
       (bindx (dexopt env (x\<lparr>x_pkgname := (case packageName of None \<Rightarrow> ''*'' | Some p \<Rightarrow> p)\<rparr>))
          (\<lambda>res. pure (if res \<noteq> 0 then ServiceError res else StatusOk)))"

definition reconcileSecondaryDexFile ::
  "dex_env \<Rightarrow> string \<Rightarrow> string \<Rightarrow> int \<Rightarrow> string list \<Rightarrow> cstring \<Rightarrow> int \<Rightarrow> (status \<times> bool option) proc_prog" where
  "reconcileSecondaryDexFile env dexPath packageName uid isas volumeUuid storage_flag =
     guardx [uid_check (d_svc env), checkArgumentUuid volumeUuid, checkArgumentPackageName packageName,
             checkArgumentPath dexPath] refused
       (bindx (reconcile_secondary_dex_file env dexPath packageName uid isas volumeUuid storage_flag)
          (\<lambda>(result, present). if result then pure (StatusOk, Some present)
             else bindx error_x (\<lambda>st. pure (st, Some present))))"

definition hashSecondaryDexFile ::
  "dex_env \<Rightarrow> (string \<Rightarrow> string) \<Rightarrow> nat \<Rightarrow> string \<Rightarrow> string \<Rightarrow> int \<Rightarrow> cstring \<Rightarrow> int
     \<Rightarrow> (status \<times> string option) proc_prog" where
  "hashSecondaryDexFile env sha256 fuel dexPath packageName uid volumeUuid storageFlag =
     guardx [uid_check (d_svc env), checkArgumentUuid volumeUuid, checkArgumentPackageName packageName,
             checkArgumentPath dexPath] refused
       (bindx (hash_secondary_dex_file env sha256 fuel dexPath packageName uid volumeUuid storageFlag)
          (\<lambda>(result, hash). if result then pure (StatusOk, Some hash)
             else bindx error_x (\<lambda>st. pure (st, Some hash))))"

definition moveAb :: "dex_env \<Rightarrow> string \<Rightarrow> string \<Rightarrow> string \<Rightarrow> status handler" where
  "moveAb env apkPath instructionSet outputPath =
     guard [uid_check (d_svc env), checkArgumentPath apkPath, checkArgumentPath outputPath] id
       (bindp (move_ab env apkPath instructionSet outputPath) (\<lambda>success. if success then Ret StatusOk else error_now))"

definition deleteOdex :: "dex_env \<Rightarrow> string \<Rightarrow> string \<Rightarrow> cstring \<Rightarrow> status handler" where
  "deleteOdex env apkPath instructionSet outputPath =
     guard [uid_check (d_svc env), checkArgumentPath apkPath, checkArgumentPath_opt outputPath] id
       (bindp (delete_odex env apkPath instructionSet outputPath) (\<lambda>res. if res then Ret StatusOk else error_now))"

section \<open>Resource maps of overlays\<close>

text \<open>The child of both runs of \<open>idmap\<close>: every failure ends it with 1.\<close>

definition idmap_child :: "int \<Rightarrow> int \<Rightarrow> string \<Rightarrow> string \<Rightarrow> string \<Rightarrow> 'a proc_prog" where
  "idmap_child uid idmap_fd mode target_apk overlay_apk =
     Call (Setgid uid) (\<lambda>g.
       if rc g \<noteq> 0 then exit_process 1
       else Call (Setuid uid) (\<lambda>u.
         if rc u \<noteq> 0 then exit_process 1
         else Call (FlockEx idmap_fd) (\<lambda>l.
           if rc l \<noteq> 0 then exit_process 1
           else exec_or_exit [''/system/bin/idmap'', mode, target_apk, overlay_apk, dec_int idmap_fd] 1)))"

definition delete_stale_idmap :: "string \<Rightarrow> string \<Rightarrow> string \<Rightarrow> int \<Rightarrow> bool proc_prog" where
  "delete_stale_idmap target_apk overlay_apk path uid =
     Call (Open path [O_RDWR] 0) (\<lambda>f.
       if rc f < 0 then Call (Sys (Unlink path)) (\<lambda>_. pure True)
       else fork_child (idmap_child uid (rc f) ''--verify'' target_apk overlay_apk) (\<lambda>pid.
         bindx (wait_child pid) (\<lambda>status.
           bindx (close_fd (rc f)) (\<lambda>_.
             if status \<noteq> 0 then Call (Sys (Unlink path)) (\<lambda>_. pure True) else pure False))))"

text \<open>The part behind the label \<open>fail\<close>.\<close>

definition idmap_fail :: "int \<Rightarrow> string \<Rightarrow> status proc_prog" where
  "idmap_fail idmap_fd path =
     (if idmap_fd \<ge> 0 then bindx (close_fd idmap_fd) (\<lambda>_. Call (Sys (Unlink path)) (\<lambda>_. error_x)) else error_x)"

definition idmap_make :: "dex_env \<Rightarrow> string \<Rightarrow> string \<Rightarrow> int \<Rightarrow> string \<Rightarrow> bool \<Rightarrow> status proc_prog" where
  "idmap_make env target_apk overlay_apk uid path outdated =
     Call (if outdated then Open path [O_RDWR, O_CREAT, O_EXCL] 420 else Open path [O_RDWR] 0) (\<lambda>f.
       if rc f < 0 then idmap_fail (rc f) path
       else Call (Fchown (rc f) (AID_SYSTEM (d_svc env)) uid) (\<lambda>o1.
         if rc o1 < 0 then idmap_fail (rc f) path
         else Call (Fchmod (rc f) 420) (\<lambda>m.
           if rc m < 0 then idmap_fail (rc f) path
           else if \<not> outdated then bindx (close_fd (rc f)) (\<lambda>_. pure StatusOk)
           else fork_child (idmap_child uid (rc f) ''--fd'' target_apk overlay_apk) (\<lambda>pid.
             bindx (wait_child pid) (\<lambda>status.
               if status \<noteq> 0 then idmap_fail (rc f) path
               else bindx (close_fd (rc f)) (\<lambda>_. pure StatusOk))))))"

definition idmap :: "dex_env \<Rightarrow> string \<Rightarrow> string \<Rightarrow> int \<Rightarrow> status proc_prog" where
  "idmap env targetApkPath overlayApkPath uid =
     guardx [uid_check (d_svc env), checkArgumentPath targetApkPath, checkArgumentPath overlayApkPath] id
       (case idmap_path overlayApkPath of
          None \<Rightarrow> error_x
        | Some path \<Rightarrow>
            Call (Sys (Stat path)) (\<lambda>s.
              bindx (if rc s < 0 then pure True else delete_stale_idmap targetApkPath overlayApkPath path uid)
                (idmap_make env targetApkPath overlayApkPath uid path)))"

section \<open>Verity\<close>

definition kVerityPageSize :: int where "kVerityPageSize = 4096"

text \<open>The place of the verity data: the next page boundary.  C's remainder of a size is that of \<open>mod\<close>.\<close>

definition verity_offset :: "int \<Rightarrow> int" where
  "verity_offset st_size =
     (let padding = kVerityPageSize - st_size mod kVerityPageSize
      in st_size + (if padding = kVerityPageSize then 0 else padding))"

text \<open>
  The loop over the data still to be written.  A \<open>write\<close> that writes nothing leaves it as it was: the
  fuel is the number of calls.
\<close>

fun verity_write :: "nat \<Rightarrow> int \<Rightarrow> string \<Rightarrow> bool proc_prog" where
  "verity_write 0 fd cursor = (if cursor = [] then pure True else Ret Running)"
| "verity_write (Suc n) fd cursor =
     (if cursor = [] then pure True
      else Call (WriteFd fd cursor (int (length cursor))) (\<lambda>r.
        if rc r < 0 then pure False else verity_write n fd (drop (nat (rc r)) cursor)))"

text \<open>Page size checks are those of a debug build and left out; \<open>data\<close> is what the mapping shows.\<close>

definition verity_content :: "nat \<Rightarrow> string \<Rightarrow> int \<Rightarrow> int \<Rightarrow> int \<Rightarrow> (bool \<times> status) proc_prog" where
  "verity_content fuel data wfd ashmem contentSize =
     (let failed = bindx error_x (\<lambda>st. pure (False, st))
      in Call (AshmemSize ashmem) (\<lambda>s.
           if rc s < 0 then failed
           else if contentSize < 0 then failed
           else if contentSize > rc s then failed
           else Call (Mmap ashmem contentSize) (\<lambda>m.
             if rc m = -1 then failed
             else bindx (verity_write fuel wfd (take (nat contentSize) data))
                    (\<lambda>ok. if ok then pure (True, StatusOk) else failed))))"

definition installApkVerity :: "dex_env \<Rightarrow> nat \<Rightarrow> string \<Rightarrow> string \<Rightarrow> int \<Rightarrow> int \<Rightarrow> status proc_prog" where
  "installApkVerity env fuel data filePath verityInputAshmem contentSize =
     guardx [uid_check (d_svc env), checkArgumentPath filePath] id
       (if \<not> GetBoolProperty env ''ro.apk_verity.mode'' False then pure StatusOk
        else Call (AshmemValid verityInputAshmem) (\<lambda>v.
          if rc v = 0 then error_x
          else Call (Open filePath [O_WRONLY] 0) (\<lambda>w.
            if rc w < 0 then error_x
            else bindx (with_fd (rc w)
              (Call (Fstat (rc w)) (\<lambda>st.
                 if rc st < 0 then bindx error_x (\<lambda>e. pure (False, e))
                 else Call (Lseek (rc w) (verity_offset (r_size st))) (\<lambda>l.
                   if rc l < 0 then bindx error_x (\<lambda>e. pure (False, e))
                   else verity_content fuel data (rc w) verityInputAshmem contentSize))))
              (\<lambda>(written, st).
                 if \<not> written then pure st
                 else Call (Open filePath [O_RDONLY] 0) (\<lambda>r. with_fd (rc r)
                   (Call (EnableVerity (rc r)) (\<lambda>i. if rc i < 0 then error_x else pure StatusOk)))))))"

definition assertFsverityRootHashMatches :: "dex_env \<Rightarrow> string \<Rightarrow> nat list \<Rightarrow> status proc_prog" where
  "assertFsverityRootHashMatches env filePath expectedHash =
     guardx [uid_check (d_svc env), checkArgumentPath filePath] id
       (if \<not> GetBoolProperty env ''ro.apk_verity.mode'' False then pure StatusOk
        else if length expectedHash \<noteq> 32 then error_x
        else Call (Open filePath [O_RDONLY] 0) (\<lambda>f.
          if rc f < 0 then error_x
          else with_fd (rc f)
            (Call (SetVerityMeasurement (rc f) expectedHash) (\<lambda>i. if rc i < 0 then error_x else pure StatusOk))))"

end
