(* ===== verification/InstalldServiceCorrect.thy ===== *)
theory InstalldServiceCorrect
  imports InstalldService
begin

text \<open>
  What the handlers of \<open>InstalldService\<close> promise: who may call them and with which privileges they run
  programs, that a resource map stands exactly when its handler reports success, and that verity is
  enabled only on the whole content.
\<close>

section \<open>Entry\<close>

text \<open>The handlers that run a binary as the user \<open>uid\<close>.\<close>

inductive service_call :: "dex_env \<Rightarrow> int \<Rightarrow> unit proc_prog \<Rightarrow> bool" for env where
  "service_call env uid (void (dumpProfiles env uid pkg prof code))"
| "service_call env uid (void (mergeProfiles env uid pkg prof))"
| "service_call env (if app = -1 then AID_SYSTEM (d_svc env) else to_u32 (se_shared_gid (d_svc env) 0 app))
     (void (createProfileSnapshot env fuel app pkg prof classpath))"
| "service_call env (to_u32 (se_shared_gid (d_svc env) user app))
     (void (prepareAppProfile env pkg user app prof code dm))"
| "service_call env (x_uid x) (void (dexopt_handler env pkg x))"
| "service_call env uid (void (reconcileSecondaryDexFile env dex pkg uid isas vol sf))"
| "service_call env uid (void (hashSecondaryDexFile env sha fuel dex pkg uid vol sf))"

lemma calls_within_True: "calls_within (\<lambda>c. True) p"
  by (induction p) auto

lemma calls_within_guardx:
  "calls_within (\<lambda>c. list_all isOk cs) (guardx cs f p)"
  by (induction cs) (auto simp: calls_within_True pure_def)

lemma calls_within_bindx: "calls_within C p \<Longrightarrow> (\<And>a. calls_within C (f a)) \<Longrightarrow> calls_within C (bindx p f)"
  unfolding bindx_def by (rule calls_within_bindp) (auto split: proc.split)

lemma calls_within_void: "calls_within C p \<Longrightarrow> calls_within C (void p)"
  unfolding void_def by (rule calls_within_bindx) (auto simp: pure_def)

lemma calls_within_mono: "calls_within C p \<Longrightarrow> (\<And>c. C c \<Longrightarrow> D c) \<Longrightarrow> calls_within D p"
  by (induction p) auto

lemma checked_void_guardx: "calls_within (\<lambda>c. uid_check e = StatusOk) (void (guardx (uid_check e # cs) f p))"
  by (rule calls_within_void, rule calls_within_mono, rule calls_within_guardx) (simp add: isOk_def)

lemma service_call_checked:
  "service_call env uid p \<Longrightarrow> calls_within (\<lambda>c. uid_check (d_svc env) = StatusOk) p"
  by (induction rule: service_call.induct)
    (simp_all only: dumpProfiles_def mergeProfiles_def createProfileSnapshot_def prepareAppProfile_def
      dexopt_handler_def dexopt_checks_def reconcileSecondaryDexFile_def hashSecondaryDexFile_def checked_void_guardx)

lemma unprivileged_guardx: "unprivileged uid p \<Longrightarrow> unprivileged uid (guardx cs f p)"
  by (induction cs) (auto simp: unprivileged_def)

lemma unprivileged_then: "unprivileged uid p \<Longrightarrow> (\<And>a. same_privs (f a)) \<Longrightarrow> unprivileged uid (bindx p f)"
  by (rule unprivilegedI, unfold wp_bindx, rule unprivilegedD, assumption) (auto intro: same_privsD)

lemma same_privs_error: "same_privs error_x"
  by (simp add: same_privs_def error_x_def errno_def)

lemma unprivileged_returning: "unprivileged uid p \<Longrightarrow> unprivileged uid (returning p)"
  unfolding returning_def by (rule unprivileged_then) (auto simp: same_privs_def)

lemma service_call_unprivileged: "service_call env uid p \<Longrightarrow> unprivileged uid p"
proof (induction rule: service_call.induct)
  case (5 x pkg)
  have "x_uid x = x_uid (x\<lparr>x_pkgname := n\<rparr>)" for n by simp
  then show ?case
    unfolding dexopt_handler_def
    by (intro unprivileged_void unprivileged_guardx unprivileged_then) (metis unprivileged_dexopt, auto)
qed (simp_all only: dumpProfiles_def mergeProfiles_def createProfileSnapshot_def prepareAppProfile_def
      reconcileSecondaryDexFile_def hashSecondaryDexFile_def,
    (intro unprivileged_void unprivileged_guardx unprivileged_returning unprivileged_then
      unprivileged_dump_profiles unprivileged_prepare_app_profile unprivileged_reconcile unprivileged_hash;
     auto simp: create_profile_snapshot_def analyze_primary_profiles_def unprivileged_analyze_profiles
      unprivileged_create_app_profile_snapshot unprivileged_create_boot_image_profile_snapshot
      intro!: same_privs_bindx same_privs_error)+)

text \<open>
  C11: The handlers that run the compiler, the profile manager or the analyser do nothing at all unless
  the caller is the system or root, and execute a binary only after the group, the user and the
  capabilities have been given up for those of the app.
\<close>

theorem service_runs_guarded:
  assumes "service_call env uid p" "run p os [] = (res, u @ (c, r) # v)"
  shows "uid_check (d_svc env) = StatusOk \<and> (\<forall>b argv. c = Execv b argv \<longrightarrow> dropped uid u)"
proof
  show "uid_check (d_svc env) = StatusOk"
    using calls_within_run [OF service_call_checked [OF assms(1)] assms(2)] .
  show "\<forall>b argv. c = Execv b argv \<longrightarrow> dropped uid u"
    using unprivileged_run [OF service_call_unprivileged [OF assms(1)]] assms(2) by blast
qed

section \<open>Resource maps\<close>

text \<open>
  What a run knows of a map: the descriptor of the last \<open>open\<close> of it that succeeded, whether that call
  created the file, whether its owner and mode were set and whether an \<open>unlink\<close> was asked for since;
  whether the last \<open>open\<close> failed; and whether the last child that was waited for ended with 0.
\<close>

record map_state =
  m_fd :: "int option"
  m_new :: bool
  m_owned :: bool
  m_public :: bool
  m_unlinked :: bool
  m_refused :: bool
  m_child_ok :: bool

definition map_start :: map_state where
  "map_start = \<lparr>m_fd = None, m_new = False, m_owned = False, m_public = False, m_unlinked = False, m_refused = False,
     m_child_ok = False\<rparr>"

text \<open>
  The monitor of a map \<open>p\<close>.  It lets only \<open>idmap\<close> be executed, on the two packages and the open descriptor:
  to fill a map that was created and to verify one that was there.
\<close>

definition idmap_argv :: "string \<Rightarrow> string \<Rightarrow> bool \<Rightarrow> int \<Rightarrow> string list" where
  "idmap_argv t ov created fd = [''/system/bin/idmap'', if created then ''--fd'' else ''--verify'', t, ov, dec_int fd]"

definition map_opened :: "map_state \<Rightarrow> bool \<Rightarrow> int \<Rightarrow> map_state" where
  "map_opened s created fd =
     (if fd < 0 then s\<lparr>m_refused := True\<rparr>
      else \<lparr>m_fd = Some fd, m_new = created, m_owned = False, m_public = False, m_unlinked = False, m_refused = False,
            m_child_ok = m_child_ok s \<and> \<not> created\<rparr>)"

fun map_mon :: "string \<Rightarrow> string \<Rightarrow> string \<Rightarrow> int \<Rightarrow> int \<Rightarrow> (pcall, preply, map_state) monitor" where
  "map_mon t ov p owner grp s (Open q fl m) r = Some (if q = p then map_opened s (O_CREAT \<in> set fl) (rc r) else s)"
| "map_mon t ov p owner grp s (Sys (Unlink q)) r = Some (if q = p then s\<lparr>m_unlinked := True\<rparr> else s)"
| "map_mon t ov p owner grp s (Fchown fd u g) r =
     Some (if m_fd s = Some fd then s\<lparr>m_owned := rc r \<ge> 0 \<and> u = owner \<and> g = grp\<rparr> else s)"
| "map_mon t ov p owner grp s (Fchmod fd m) r = Some (if m_fd s = Some fd then s\<lparr>m_public := rc r \<ge> 0 \<and> m = 420\<rparr> else s)"
| "map_mon t ov p owner grp s (Waitpid pid) r =
     Some (s\<lparr>m_child_ok := rc r = pid \<and> WIFEXITED (r_status r) \<and> WEXITSTATUS (r_status r) = 0\<rparr>)"
| "map_mon t ov p owner grp s (Execv b argv) r =
     (if \<exists>fd. m_fd s = Some fd \<and> argv = idmap_argv t ov (m_new s) fd \<and> b = hd argv then Some s else None)"
| "map_mon t ov p owner grp s c r = Some s"

text \<open>A map that was reported as made, and what is left of it after a failure.\<close>

definition map_ready :: "map_state \<Rightarrow> bool" where
  "map_ready s \<longleftrightarrow> m_fd s \<noteq> None \<and> \<not> m_refused s \<and> \<not> m_unlinked s \<and> m_owned s \<and> m_public s \<and> m_child_ok s"

definition map_abandoned :: "map_state \<Rightarrow> bool" where
  "map_abandoned s \<longleftrightarrow> m_fd s = None \<or> m_unlinked s \<or> m_refused s \<and> \<not> m_new s \<and> m_child_ok s"

lemma wp_map_child [wp_rules]:
  "m_fd s = Some fd \<Longrightarrow> mode = (if m_new s then ''--fd'' else ''--verify'') \<Longrightarrow>
   wp (map_mon t ov p owner grp) (idmap_child uid fd mode t ov) Q s"
  by (auto simp: idmap_child_def exec_or_exit_def idmap_argv_def)

lemma wp_map_close [simp]: "wp (map_mon t ov p owner grp) (close_fd fd) Q s = Q () s"
  by (simp add: close_fd_def)

lemma wp_map_error [simp]: "wp (map_mon t ov p owner grp) error_x Q s \<longleftrightarrow> (\<forall>e. Q (ServiceError e) s)"
  using all_rc [of "\<lambda>n m. Q (ServiceError n) s"] by (simp add: error_x_def errno_def)

lemma wp_map_wait:
  assumes "Q 0 (s\<lparr>m_child_ok := True\<rparr>)" "\<And>n. n \<noteq> 0 \<Longrightarrow> Q n (s\<lparr>m_child_ok := False\<rparr>)"
  shows "wp (map_mon t ov p owner grp) (wait_child pid) Q s"
  by (auto simp: wait_child_def WIFEXITED_def WEXITSTATUS_def intro!: assms)

definition map_outcome :: "status \<Rightarrow> map_state \<Rightarrow> bool" where
  "map_outcome st s \<longleftrightarrow> (if st = StatusOk then map_ready s else map_abandoned s)"

lemma wp_map_fail:
  "(fd \<ge> 0 \<and> m_fd s \<noteq> None) \<or> map_abandoned s \<Longrightarrow>
   wp (map_mon t ov p owner grp) (idmap_fail fd p) map_outcome s"
  by (auto simp: idmap_fail_def map_outcome_def map_abandoned_def)

lemma wp_map_make:
  assumes "outdated \<Longrightarrow> m_fd s = None \<or> m_unlinked s" "\<not> outdated \<Longrightarrow> m_child_ok s \<and> \<not> m_new s"
  shows "wp (map_mon t ov p (AID_SYSTEM (d_svc env)) uid) (idmap_make env t ov uid p outdated) map_outcome s"
  unfolding idmap_make_def
  using assms
  by (auto simp: map_opened_def fork_child_def map_outcome_def map_ready_def map_abandoned_def
      intro!: wp_map_fail wp_map_child wp_map_wait)

lemma wp_map_stale:
  assumes "Q True (map_start\<lparr>m_unlinked := True, m_refused := True\<rparr>)"
    "\<And>fd s. m_fd s = Some fd \<Longrightarrow> m_unlinked s \<Longrightarrow> Q True s"
    "\<And>fd s. m_fd s = Some fd \<Longrightarrow> m_child_ok s \<Longrightarrow> \<not> m_new s \<Longrightarrow> Q False s"
  shows "wp (map_mon t ov p owner grp) (delete_stale_idmap t ov p uid) Q map_start"
  unfolding delete_stale_idmap_def
  by (auto simp: map_opened_def map_start_def fork_child_def intro!: wp_map_child wp_map_wait
      assms [unfolded map_start_def, simplified])

lemma wp_map_idmap:
  assumes "idmap_path ov = Some p"
  shows "wp (map_mon t ov p (AID_SYSTEM (d_svc env)) uid) (idmap env t ov uid) map_outcome map_start"
proof -
  have failed: "st \<noteq> StatusOk \<Longrightarrow> map_outcome st map_start" for st
    by (simp add: map_outcome_def map_abandoned_def map_start_def)
  have "wp M p Q s \<Longrightarrow> (\<And>st. \<not> isOk st \<Longrightarrow> Q (f st) s) \<Longrightarrow> wp M (guardx cs f p) Q s"
    for M :: "(pcall, preply, 's) monitor" and p :: "'x proc_prog" and Q f cs s
    by (induction cs) auto
  then show ?thesis
    unfolding idmap_def
    by (auto simp: assms isOk_def map_start_def failed [unfolded map_start_def]
      intro!: wp_map_make wp_map_stale [unfolded map_start_def])
qed

lemma tidy_guardx: "tidy p \<Longrightarrow> tidy (guardx cs f p)"
  by (induction cs) (auto simp: tidy_def)

lemma tidy_error: "tidy error_x"
  by (simp add: tidy_def error_x_def errno_def)

lemma wp_ledger_idmap_child [wp_rules]: "wp ledger (idmap_child uid fd mode t ov) Q s"
  by (auto simp: idmap_child_def exec_or_exit_def)

lemma tidy_idmap: "tidy (idmap env t ov uid)"
  unfolding idmap_def delete_stale_idmap_def idmap_make_def idmap_fail_def
  by (intro tidy_guardx, rule tidyI) (auto simp: split: option.splits intro!: wp_rules tidyD [OF tidy_error])


text \<open>There is no map yet, and everything works.\<close>

definition map_os :: "(pcall, preply) os_oracle" where
  "map_os h c = (case c of Sys (Stat p) \<Rightarrow> good_reply (-1) 0 | Open p fl m \<Rightarrow> good_reply 5 0 | Fork \<Rightarrow> good_reply 7 0
     | Waitpid pid \<Rightarrow> good_reply 7 0 | _ \<Rightarrow> good_reply 0 0)"

definition demo_map :: "status proc option \<times> (pcall, preply) history" where
  "demo_map = run (idmap demo_dex ''/system/a.apk'' ''/vendor/o.apk'' 10001) map_os []"


section \<open>Verity\<close>

text \<open>
  What a run has done to the file \<open>path\<close>: the descriptor it is open for writing with, its size, the
  offset after the last seek and what was written behind it, and the descriptor of the last \<open>open\<close> for
  reading.  Only calls on the writing descriptor count, and a seek starts anew.
\<close>

record verity_state =
  vs_fd :: "int option"
  vs_size :: "int option"
  vs_pos :: "int option"
  vs_written :: string
  vs_reader :: "int option"

definition verity_start :: verity_state where
  "verity_start = \<lparr>vs_fd = None, vs_size = None, vs_pos = None, vs_written = [], vs_reader = None\<rparr>"

definition verity_open :: "verity_state \<Rightarrow> bool \<Rightarrow> int \<Rightarrow> verity_state" where
  "verity_open s write fd =
     (if write then (if fd \<ge> 0 then verity_start\<lparr>vs_fd := Some fd\<rparr> else s) else s\<lparr>vs_reader := Some fd\<rparr>)"

fun verity_step :: "string \<Rightarrow> verity_state \<Rightarrow> pcall \<Rightarrow> preply \<Rightarrow> verity_state" where
  "verity_step path s (Open q fl m) r = (if q = path then verity_open s (O_WRONLY \<in> set fl) (rc r) else s)"
| "verity_step path s (Fstat fd) r = (if vs_fd s = Some fd \<and> rc r \<ge> 0 then s\<lparr>vs_size := Some (r_size r)\<rparr> else s)"
| "verity_step path s (Lseek fd off) r =
     (if vs_fd s = Some fd \<and> rc r \<ge> 0 then s\<lparr>vs_pos := Some off, vs_written := []\<rparr> else s)"
| "verity_step path s (WriteFd fd d n) r =
     (if vs_fd s = Some fd \<and> rc r \<ge> 0 then s\<lparr>vs_written := vs_written s @ take (nat (rc r)) d\<rparr> else s)"
| "verity_step path s (Close fd) r = (if vs_fd s = Some fd then s\<lparr>vs_fd := None\<rparr> else s)"
| "verity_step path s c r = s"

definition verity_progress :: "string \<Rightarrow> (pcall, preply) history \<Rightarrow> verity_state" where
  "verity_progress path t = foldl (\<lambda>s (c, r). verity_step path s c r) verity_start t"

text \<open>The monitor lets no other descriptor be written to and forbids enabling verity before the content is complete.\<close>

definition verity_ready :: "string \<Rightarrow> int \<Rightarrow> verity_state \<Rightarrow> bool" where
  "verity_ready content fd s \<longleftrightarrow> vs_written s = content \<and> vs_fd s = None \<and> vs_reader s = Some fd \<and>
     (\<exists>n. vs_size s = Some n \<and> vs_pos s = Some (verity_offset n))"

definition verity_mon :: "string \<Rightarrow> string \<Rightarrow> (pcall, preply, verity_state) monitor" where
  "verity_mon path content s c r =
     (case c of EnableVerity fd \<Rightarrow> if verity_ready content fd s then Some s else None
      | WriteFd fd d n \<Rightarrow> if vs_fd s = Some fd then Some (verity_step path s c r) else None
      | _ \<Rightarrow> Some (verity_step path s c r))"

lemma verity_mon_simps [simp]:
  "verity_mon path content s (EnableVerity fd) r = (if verity_ready content fd s then Some s else None)"
  "verity_mon path content s (Sys c) r = Some s" "verity_mon path content s (AshmemValid fd) r = Some s"
  "verity_mon path content s (AshmemSize fd) r = Some s" "verity_mon path content s (Mmap fd n) r = Some s"
  "verity_mon path content s (Open q fl m) r = Some (verity_step path s (Open q fl m) r)"
  "verity_mon path content s (Close fd) r = Some (verity_step path s (Close fd) r)"
  "verity_mon path content s (Fstat fd) r = Some (verity_step path s (Fstat fd) r)"
  "verity_mon path content s (Lseek fd off) r = Some (verity_step path s (Lseek fd off) r)"
  "verity_mon path content s (WriteFd fd d n) r =
     (if vs_fd s = Some fd then Some (verity_step path s (WriteFd fd d n) r) else None)"
  by (simp_all add: verity_mon_def)

lemma watch_verity:
  "watch (verity_mon path content) s t = Some s' \<Longrightarrow> s' = foldl (\<lambda>s (c, r). verity_step path s c r) s t"
proof (induction t arbitrary: s)
  case (Cons x t)
  obtain c r where x: "x = (c, r)" by (cases x)
  show ?case using Cons by (cases c) (auto simp: x verity_mon_def split: if_splits)
qed simp

lemma vs_written_same [simp]: "s\<lparr>vs_written := vs_written s\<rparr> = s"
  by (cases s) simp

lemma wp_verity_write:
  assumes "Q True (s\<lparr>vs_written := vs_written s @ d\<rparr>)" "\<And>w. Q False (s\<lparr>vs_written := w\<rparr>)" "vs_fd s = Some fd"
  shows "wp (verity_mon path content) (verity_write n fd d) Q s"
  using assms
proof (induction n arbitrary: d s)
  case 0
  then show ?case by auto
next
  case (Suc n)
  have "Q False s" using Suc.prems(2) [of "vs_written s"] by simp
  with Suc.prems show ?case by (auto intro!: Suc.IH)
qed

lemma wp_verity_close [simp]:
  "wp (verity_mon path content) (close_fd fd) Q s \<longleftrightarrow> Q () (if fd \<ge> 0 \<and> vs_fd s = Some fd then s\<lparr>vs_fd := None\<rparr> else s)"
  by (simp add: close_fd_def)

lemma wp_verity_error [simp]: "wp (verity_mon path content) error_x Q s \<longleftrightarrow> (\<forall>e. Q (ServiceError e) s)"
  using all_rc [of "\<lambda>n m. Q (ServiceError n) s"] by (simp add: error_x_def errno_def)

lemma wp_guardx: "wp M p Q s \<Longrightarrow> (\<And>st. Q (f st) s) \<Longrightarrow> wp M (guardx cs f p) Q s"
  by (induction cs) auto

lemma wp_install_verity:
  "wp (verity_mon path (take (nat n) data)) (installApkVerity env fuel data path ashmem n) (\<lambda>_ _. True) verity_start"
  unfolding installApkVerity_def verity_content_def
  by (rule wp_guardx)
    (auto simp: Let_def split_beta with_fd_def verity_ready_def verity_start_def verity_open_def intro!: wp_verity_write)

lemma verity_offset_bounds: "verity_offset n mod 4096 = 0" "n \<le> verity_offset n" "verity_offset n < n + 4096"
proof -
  define q m where "q = n div 4096" and "m = n mod 4096"
  have n: "n = 4096 * q + m" "0 \<le> m" "m < 4096" by (simp_all add: q_def m_def)
  have "verity_offset n = (if m = 0 then n else 4096 * q + 4096)"
    using n by (auto simp: verity_offset_def kVerityPageSize_def)
  with n show "verity_offset n mod 4096 = 0" "n \<le> verity_offset n" "verity_offset n < n + 4096" by auto
qed

text \<open>
  C24: verity is enabled on a file only after the whole verity data was written to it.  Before the \<open>ioctl\<close>
  the file was opened for writing; through that descriptor its size was read, then the position was moved to the
  first page boundary at or behind the size, and what the calls of \<open>write\<close> took after this move is, piece by piece,
  exactly the first \<open>contentSize\<close> bytes of the shared memory, also when calls write less than they are given; then
  the descriptor was closed.  The \<open>ioctl\<close> is made on the descriptor that the last \<open>open\<close> of the file for reading returned.
\<close>

theorem verity_enabled_after_content:
  assumes "run (installApkVerity env fuel data path ashmem n) os [] = (res, u @ (EnableVerity fd, r) # v)"
  shows "vs_written (verity_progress path u) = take (nat n) data \<and> vs_fd (verity_progress path u) = None \<and>
    vs_reader (verity_progress path u) = Some fd \<and>
    (\<exists>size off. vs_size (verity_progress path u) = Some size \<and> vs_pos (verity_progress path u) = Some off \<and>
       off mod 4096 = 0 \<and> size \<le> off \<and> off < size + 4096)"
proof -
  let ?M = "verity_mon path (take (nat n) data)"
  from wp_sound [OF wp_install_verity assms] obtain s where
    "watch ?M verity_start (u @ (EnableVerity fd, r) # v) = Some s" by auto
  then obtain s' where s': "watch ?M verity_start u = Some s'" "verity_ready (take (nat n) data) fd s'"
    by (auto simp: watch_append split: option.splits if_splits)
  from watch_verity [OF s'(1)] have "s' = verity_progress path u" by (simp add: verity_progress_def)
  with s'(2) verity_offset_bounds show ?thesis by (auto simp: verity_ready_def)
qed

definition verity_dex :: dex_env where
  "verity_dex = demo_dex\<lparr>d_props := (\<lambda>k. if k = ''ro.apk_verity.mode'' then ''1'' else [])\<rparr>"

text \<open>Each \<open>write\<close> takes two bytes.\<close>

definition verity_os :: "(pcall, preply) os_oracle" where
  "verity_os h c =
     (case c of WriteFd fd d n \<Rightarrow> good_reply 2 0 | AshmemValid fd \<Rightarrow> good_reply 1 0 | AshmemSize fd \<Rightarrow> good_reply 8 0
      | Fstat fd \<Rightarrow> (good_reply 0 0)\<lparr>r_size := 5\<rparr> | _ \<Rightarrow> good_reply 3 0)"

definition demo_verity :: "status proc option \<times> (pcall, preply) history" where
  "demo_verity = run (installApkVerity verity_dex 9 ''abcdefgh'' ''/data/app/x/base.apk'' 9 5) verity_os []"

lemma demo_verity_calls: "length (snd demo_verity) = 13" "fst (snd demo_verity ! 11) = EnableVerity 3"
  by (code_simp, code_simp)

theorem verity_enabled_after_content_witness:
  "vs_written (verity_progress ''/data/app/x/base.apk'' (take 11 (snd demo_verity))) = ''abcde'' \<and>
   vs_pos (verity_progress ''/data/app/x/base.apk'' (take 11 (snd demo_verity))) = Some 4096"
proof -
  let ?t = "snd demo_verity" and ?p = "''/data/app/x/base.apk''"
  have "?t = take 11 ?t @ ?t ! 11 # drop 12 ?t"
    using id_take_nth_drop [of 11 ?t] by (simp add: demo_verity_calls(1))
  then have "?t = take 11 ?t @ (EnableVerity 3, snd (?t ! 11)) # drop 12 ?t"
    using demo_verity_calls(2) by (metis prod.collapse)
  then have "run (installApkVerity verity_dex 9 ''abcdefgh'' ?p 9 5) verity_os [] =
      (fst demo_verity, take 11 ?t @ (EnableVerity 3, snd (?t ! 11)) # drop 12 ?t)"
    unfolding demo_verity_def by (metis prod.collapse)
  from verity_enabled_after_content [OF this] have "vs_written (verity_progress ?p (take 11 ?t)) = ''abcde''" by simp
  moreover have "vs_pos (verity_progress ?p (take 11 ?t)) = Some 4096" by code_simp
  ultimately show ?thesis ..
qed

text \<open>
  The loop ends when every \<open>write\<close> takes something, and not at all when they take nothing, which the
  code does not look at.
\<close>

lemma verity_write_returns:
  assumes "\<And>h fd d k. d \<noteq> [] \<Longrightarrow> rc (os h (WriteFd fd d k)) \<noteq> 0" "length d \<le> n"
  shows "\<exists>ok. fst (run (verity_write n fd d) os h) = Some (Live ok)"
  using assms(2)
proof (induction n arbitrary: d h)
  case (Suc n)
  show ?case
  proof (cases "d = []")
    case False
    let ?r = "os h (WriteFd fd d (int (length d)))"
    show ?thesis
    proof (cases "rc ?r < 0")
      case False
      with assms(1) [OF \<open>d \<noteq> []\<close>, of h fd "int (length d)"] have "nat (rc ?r) > 0" by simp
      with Suc.prems \<open>d \<noteq> []\<close> have "length (drop (nat (rc ?r)) d) \<le> n" by (cases d) auto
      from Suc.IH [OF this] \<open>d \<noteq> []\<close> False show ?thesis by simp
    qed (use \<open>d \<noteq> []\<close> in \<open>auto simp: pure_def\<close>)
  qed (auto simp: pure_def)
qed (auto simp: pure_def)

lemma verity_write_stuck:
  "d \<noteq> [] \<Longrightarrow> fst (run (verity_write n fd d) (\<lambda>h c. good_reply 0 0) h) = Some Running"
  by (induction n arbitrary: h) (simp_all add: good_reply_def)

definition demo_service :: "status proc option \<times> (pcall, preply) history" where
  "demo_service = run (dexopt_handler demo_dex (Some ''com.example'') demo_dexopt) child_os []"

lemma demo_service_execs: "list_ex is_exec (snd demo_service)"
  by code_simp

theorem service_runs_guarded_witness:
  "\<exists>u b argv r v. snd demo_service = u @ (Execv b argv, r) # v \<and> dropped 10001 u"
proof -
  let ?p = "dexopt_handler demo_dex (Some ''com.example'') demo_dexopt"
  from demo_service_execs obtain x where "x \<in> set (snd demo_service)" "is_exec x" by (auto simp: list_ex_iff)
  moreover obtain b argv where "fst x = Execv b argv" using \<open>is_exec x\<close> by (auto simp: is_exec_def split: pcall.splits)
  ultimately obtain u v where s: "snd demo_service = u @ (Execv b argv, snd x) # v"
    by (metis split_list prod.collapse)
  then have "snd (run (void ?p) child_os []) = u @ (Execv b argv, snd x) # v"
    by (simp add: demo_service_def run_void_history)
  then have "run (void ?p) child_os [] = (fst (run (void ?p) child_os []), u @ (Execv b argv, snd x) # v)"
    by (metis prod.collapse)
  moreover have "service_call demo_dex 10001 (void ?p)"
    using service_call.intros(5) [of demo_dex demo_dexopt] by (simp add: demo_dexopt_def)
  ultimately have "dropped 10001 u" using service_runs_guarded by blast
  with s show ?thesis by blast
qed

end
