(* ===== verification/InstalldDaemon.thy ===== *)
theory InstalldDaemon
  imports InstalldServiceCorrect
begin

text \<open>
  The start of installd (\<open>installd/installd.cpp\<close>) with the upgrade of the directory layout, and the
  view compiler (\<open>installd/view_compiler.cpp\<close>), which the service starts without looking at its
  caller.
\<close>

section \<open>Calls\<close>

text \<open>\<open>CopyFiles\<close> is \<open>copy_dir_files\<close>, \<open>DeleteDir\<close> \<open>delete_dir_contents\<close> with the directory itself.\<close>

datatype init_call =
    ReadVersion string
  | WriteVersion string int
  | EnsureUser int
  | ListDir string
  | Exists string
  | CopyFiles string string int int
  | DeleteDir string
  | InitGlobals
  | SelinuxStatusOpen
  | StartNativeService
  | JoinThreadPool

record init_reply =
  i_rc :: int
  i_names :: "string list option"

type_synonym 'a init_prog = "(init_call, init_reply, 'a) prog"

text \<open>\<open>std::stoi\<close> throws without digits and outside the range of \<open>int\<close>.\<close>

definition stoi :: "string \<Rightarrow> int option" where
  "stoi s = (let (v, rest) = strtol 10 s in if rest = s then None else if v < -(2 ^ 31) \<or> 2 ^ 31 \<le> v then None else Some v)"

section \<open>The directory layout\<close>

text \<open>\<open>snprintf\<close> into a buffer of \<open>PATH_MAX\<close> bytes.\<close>

definition path_cut :: "string \<Rightarrow> string" where
  "path_cut s = take 4095 s"

text \<open>\<open>if (access(from, F_OK) == 0) copy_dir_files(...)\<close>: a failure is only logged.\<close>

definition copy_if_there :: "string \<Rightarrow> string \<Rightarrow> int \<Rightarrow> 'a init_prog \<Rightarrow> 'a init_prog" where
  "copy_if_there from_dir to_dir uid p =
     Call (Exists from_dir) (\<lambda>a. if i_rc a = 0 then Call (CopyFiles from_dir to_dir uid uid) (\<lambda>_. p) else p)"

definition delete_if_there :: "string \<Rightarrow> 'a init_prog \<Rightarrow> 'a init_prog" where
  "delete_if_there d p = Call (Exists d) (\<lambda>a. if i_rc a = 0 then Call (DeleteDir d) (\<lambda>_. p) else p)"

text \<open>
  The loop over \<open>/data/user\<close>.  A name that is no number is an exception nobody catches; \<open>uint32_t\<close>
  takes a negative one modulo $2^{32}$.
\<close>

fun upgrade_users :: "svc_env \<Rightarrow> string \<Rightarrow> string list \<Rightarrow> (bool \<Rightarrow> 'a init_prog) \<Rightarrow> 'a init_prog" where
  "upgrade_users env misc_dir [] f = f True"
| "upgrade_users env misc_dir (name # names) f =
     (if name = ''.'' \<or> name = ''..'' then upgrade_users env misc_dir names f
      else (case stoi name of
              None \<Rightarrow> Abort
            | Some v \<Rightarrow>
                (let user_id = to_u32 v in
                 Call (EnsureUser user_id) (\<lambda>r.
                   if i_rc r = -1 then f False
                   else (let uid = se_get_uid env user_id (AID_SYSTEM env) in
                     copy_if_there (path_cut (misc_dir @ ''/keychain/cacerts-added''))
                       (path_cut (misc_dir @ ''/user/'' @ name @ ''/cacerts-added'')) uid
                       (copy_if_there (path_cut (misc_dir @ ''/keychain/cacerts-removed''))
                         (path_cut (misc_dir @ ''/user/'' @ name @ ''/cacerts-removed'')) uid
                         (upgrade_users env misc_dir names f)))))))"

text \<open>The last step: \<open>if (version != oldVersion)\<close> and the end of the function.\<close>

definition persist_version :: "string \<Rightarrow> int \<Rightarrow> int \<Rightarrow> int init_prog" where
  "persist_version version_path old version =
     (if version \<noteq> old
      then Call (WriteVersion version_path version) (\<lambda>w. if i_rc w = -1 then Ret (-1) else Ret 0)
      else Ret 0)"

text \<open>From version 2 to 3: the certificates of the keychain are copied to every user, and then deleted.\<close>

definition upgrade_misc :: "svc_env \<Rightarrow> string \<Rightarrow> int init_prog \<Rightarrow> int init_prog" where
  "upgrade_misc env misc_dir p =
     Call (ListDir ''/data/user'') (\<lambda>d.
       case i_names d of
         None \<Rightarrow> p
       | Some names \<Rightarrow> upgrade_users env misc_dir names (\<lambda>ok.
           if \<not> ok then Ret (-1)
           else delete_if_there (path_cut (misc_dir @ ''/keychain/cacerts-added''))
                  (delete_if_there (path_cut (misc_dir @ ''/keychain/cacerts-removed'')) p)))"

definition layout_version :: "init_reply \<Rightarrow> int" where
  "layout_version v = (if i_names v = None then 0 else i_rc v)"

definition initialize_directories :: "svc_env \<Rightarrow> int init_prog" where
  "initialize_directories env =
     (let data = android_data_dir (se_globals env); version_path = path_cut (data @ ''.layout_version'');
          misc_dir = path_cut (data @ ''misc'')
      in Call (ReadVersion version_path) (\<lambda>v.
           let old = layout_version v; version = (if old < 2 then 2 else old)
           in Call (EnsureUser 0) (\<lambda>r.
                if i_rc r = -1 then Ret (-1)
                else if version = 2 then upgrade_misc env misc_dir (persist_version version_path old 3)
                else persist_version version_path old version)))"

text \<open>The exit status; the thread pool is joined until the service shuts down.\<close>

definition installd_main :: "svc_env \<Rightarrow> bool \<Rightarrow> int init_prog" where
  "installd_main env selinux_enabled =
     (let serve = Call StartNativeService (\<lambda>r. if i_rc r \<noteq> 0 then Ret 1 else Call JoinThreadPool (\<lambda>_. Ret 0))
      in Call InitGlobals (\<lambda>g.
           if i_rc g = 0 then Ret 1
           else bindp (initialize_directories env) (\<lambda>d.
             if d < 0 then Ret 1
             else if selinux_enabled then Call SelinuxStatusOpen (\<lambda>s. if i_rc s < 0 then Ret 1 else serve)
             else serve)))"

section \<open>The view compiler\<close>

definition view_compiler :: "string \<Rightarrow> string \<Rightarrow> string \<Rightarrow> int \<Rightarrow> bool proc_prog" where
  "view_compiler apk_path package_name out_dex_file uid =
     Call (Open apk_path [O_RDONLY] 0) (\<lambda>i.
       with_fd (rc i)
         (if rc i < 0 then pure False
          else Call (Open out_dex_file [O_CREAT, O_TRUNC, O_WRONLY, O_CLOEXEC] 420) (\<lambda>o1.
            with_fd (rc o1)
              (if rc o1 < 0 then pure False
               else Call (Fchmod (rc o1) 420) (\<lambda>m.
                 if rc m \<noteq> 0 then pure False
                 else Call (Dup2 (rc o1) 1) (\<lambda>d.
                   if rc d < 0 then pure False
                   else fork_exec uid [''/system/bin/viewcompiler'', ''--apk'', ''--infd'', dec_int (rc i), ''--dex'',
                                       ''--package'', package_name] 1
                     (\<lambda>pid. bindx (wait_child pid) (\<lambda>r. pure (r = 0)))))))))"

definition compileLayouts :: "string \<Rightarrow> string \<Rightarrow> string \<Rightarrow> int \<Rightarrow> (status \<times> bool) proc_prog" where
  "compileLayouts apkPath packageName outDexFile uid =
     bindx (view_compiler apkPath packageName outDexFile uid) (\<lambda>ok.
       if ok then pure (StatusOk, True) else bindx error_x (\<lambda>st. pure (st, False)))"

section \<open>The upgrade\<close>

text \<open>The version a run has stored, the users it has set up, and whether it has deleted the originals.\<close>

definition stored :: "(init_call, init_reply) history \<Rightarrow> int list" where
  "stored t = concat (map (\<lambda>(c, r). case c of WriteVersion p v \<Rightarrow> if i_rc r \<noteq> -1 then [v] else [] | _ \<Rightarrow> []) t)"

definition set_up :: "(init_call, init_reply) history \<Rightarrow> int set" where
  "set_up t = set (concat (map (\<lambda>(c, r). case c of EnsureUser u \<Rightarrow> if i_rc r \<noteq> -1 then [u] else [] | _ \<Rightarrow> []) t))"

definition deleted :: "(init_call, init_reply) history \<Rightarrow> string set" where
  "deleted t = set (concat (map (\<lambda>(c, r). case c of DeleteDir d \<Rightarrow> [d] | _ \<Rightarrow> []) t))"

definition listed :: "(init_call, init_reply) history \<Rightarrow> string set" where
  "listed t = set (concat (map (\<lambda>(c, r). case c of ListDir p \<Rightarrow>
     (case i_names r of None \<Rightarrow> [] | Some ns \<Rightarrow> filter (\<lambda>n. n \<noteq> ''.'' \<and> n \<noteq> ''..'') ns) | _ \<Rightarrow> []) t))"

lemma hist_append [simp]: "stored (t @ u) = stored t @ stored u" "set_up (t @ u) = set_up t \<union> set_up u"
  "deleted (t @ u) = deleted t \<union> deleted u" "listed (t @ u) = listed t \<union> listed u"
  by (auto simp: stored_def set_up_def deleted_def listed_def)

lemma hist_nil [simp]: "stored [] = []" "set_up [] = {}" "deleted [] = {}" "listed [] = {}"
  by (auto simp: stored_def set_up_def deleted_def listed_def)

lemma hist_Cons: "stored (x # t) = stored [x] @ stored t" "set_up (x # t) = set_up [x] \<union> set_up t"
  "deleted (x # t) = deleted [x] \<union> deleted t" "listed (x # t) = listed [x] \<union> listed t"
  by (auto simp: stored_def set_up_def deleted_def listed_def)

lemma hist_single [simp]:
  "stored [(Exists p, r)] = []" "set_up [(Exists p, r)] = {}" "deleted [(Exists p, r)] = {}" "listed [(Exists p, r)] = {}"
  "stored [(CopyFiles p q u g, r)] = []" "set_up [(CopyFiles p q u g, r)] = {}" "deleted [(CopyFiles p q u g, r)] = {}"
  "listed [(CopyFiles p q u g, r)] = {}" "stored [(EnsureUser u, r)] = []"
  "set_up [(EnsureUser u, r)] = (if i_rc r \<noteq> -1 then {u} else {})" "deleted [(EnsureUser u, r)] = {}"
  "listed [(EnsureUser u, r)] = {}" "stored [(DeleteDir d, r)] = []" "set_up [(DeleteDir d, r)] = {}"
  "deleted [(DeleteDir d, r)] = {d}" "listed [(DeleteDir d, r)] = {}" "stored [(ReadVersion p, r)] = []"
  "set_up [(ReadVersion p, r)] = {}" "deleted [(ReadVersion p, r)] = {}" "listed [(ReadVersion p, r)] = {}"
  "stored [(WriteVersion p v, r)] = (if i_rc r \<noteq> -1 then [v] else [])" "set_up [(WriteVersion p v, r)] = {}"
  "deleted [(WriteVersion p v, r)] = {}" "listed [(WriteVersion p v, r)] = {}" "stored [(ListDir p, r)] = []"
  "set_up [(ListDir p, r)] = {}" "deleted [(ListDir p, r)] = {}"
  "listed [(ListDir p, r)] = (case i_names r of None \<Rightarrow> {} | Some ns \<Rightarrow> set ns - {''.'', ''..''})"
  by (auto simp: stored_def set_up_def deleted_def listed_def split: option.splits)

lemma run_copy_if_there:
  "\<exists>t. run (copy_if_there a b u p) os h = run p os (h @ t) \<and> stored t = [] \<and> set_up t = {} \<and> deleted t = {} \<and> listed t = {}"
proof -
  let ?x = "(Exists a, os h (Exists a))"
  let ?y = "(CopyFiles a b u u, os (h @ [?x]) (CopyFiles a b u u))"
  show ?thesis
    by (cases "i_rc (snd ?x) = 0")
      (auto simp: copy_if_there_def hist_Cons [of _ "[_]"] intro: exI [of _ "[?x]"] exI [of _ "[?x, ?y]"])
qed

text \<open>Every listed user has a directory.\<close>

definition users_ready :: "string set \<Rightarrow> (init_call, init_reply) history \<Rightarrow> bool" where
  "users_ready ns t = (\<forall>n \<in> ns. \<exists>v. stoi n = Some v \<and> to_u32 v \<in> set_up t)"

lemma users_ready_append: "users_ready ns t \<Longrightarrow> users_ready ns (t @ u)" "users_ready ns u \<Longrightarrow> users_ready ns (t @ u)"
  "users_ready {} t"
  by (auto simp: users_ready_def)

lemma run_upgrade_users:
  assumes "run (upgrade_users env misc names f) os h = (res, h')"
  shows "\<exists>t. stored t = [] \<and> deleted t = {} \<and> listed t = {} \<and>
    (res = None \<and> h' = h @ t \<or> run (f False) os (h @ t) = (res, h') \<or>
     run (f True) os (h @ t) = (res, h') \<and> users_ready (set names - {''.'', ''..''}) t)"
  using assms
proof (induction names arbitrary: h)
  case Nil
  then show ?case by (intro exI [of _ "[]"]) (simp add: users_ready_def)
next
  case (Cons name names)
  show ?case
  proof (cases "name = ''.'' \<or> name = ''..''")
    case True
    with Cons show ?thesis by simp
  next
    case False
    show ?thesis
    proof (cases "stoi name")
      case None
      with False Cons.prems show ?thesis by (intro exI [of _ "[]"]) simp
    next
      case v: (Some v)
      let ?u = "to_u32 v"
      let ?e = "(EnsureUser ?u, os h (EnsureUser ?u))"
      let ?uid = "se_get_uid env ?u (AID_SYSTEM env)"
      let ?rest = "upgrade_users env misc names f"
      let ?from1 = "path_cut (misc @ ''/keychain/cacerts-added'')"
      let ?to1 = "path_cut (misc @ ''/user/'' @ name @ ''/cacerts-added'')"
      let ?from2 = "path_cut (misc @ ''/keychain/cacerts-removed'')"
      let ?to2 = "path_cut (misc @ ''/user/'' @ name @ ''/cacerts-removed'')"
      let ?k = "copy_if_there ?from2 ?to2 ?uid ?rest"
      show ?thesis
      proof (cases "i_rc (snd ?e) = -1")
        case True
        with False v Cons.prems show ?thesis by (intro exI [of _ "[?e]"]) (simp add: Let_def)
      next
        case ok: False
        obtain t1 where t1: "run (copy_if_there ?from1 ?to1 ?uid ?k) os (h @ [?e]) = run ?k os ((h @ [?e]) @ t1)"
            "stored t1 = []" "deleted t1 = {}" "listed t1 = {}"
          using run_copy_if_there by metis
        obtain t2 where t2: "run ?k os ((h @ [?e]) @ t1) = run ?rest os (((h @ [?e]) @ t1) @ t2)" "stored t2 = []"
            "deleted t2 = {}" "listed t2 = {}"
          using run_copy_if_there by metis
        from False v ok Cons.prems t1 t2 have "run ?rest os (h @ ?e # t1 @ t2) = (res, h')" by (simp add: Let_def)
        from Cons.IH [OF this] obtain t where t: "stored t = []" "deleted t = {}" "listed t = {}"
          "res = None \<and> h' = (h @ ?e # t1 @ t2) @ t \<or> run (f False) os ((h @ ?e # t1 @ t2) @ t) = (res, h') \<or>
           run (f True) os ((h @ ?e # t1 @ t2) @ t) = (res, h') \<and> users_ready (set names - {''.'', ''..''}) t" by blast
        with v ok t1 t2 show ?thesis
          by (intro exI [of _ "?e # t1 @ t2 @ t"]) (auto simp: hist_Cons [of ?e] users_ready_def)
      qed
    qed
  qed
qed

lemma run_delete_if_there:
  "\<exists>t. run (delete_if_there d p) os h = run p os (h @ t) \<and> stored t = [] \<and> listed t = {}"
proof -
  let ?x = "(Exists d, os h (Exists d))"
  let ?y = "(DeleteDir d, os (h @ [?x]) (DeleteDir d))"
  show ?thesis
    by (cases "i_rc (snd ?x) = 0")
      (auto simp: delete_if_there_def hist_Cons [of _ "[_]"] intro: exI [of _ "[?x]"] exI [of _ "[?x, ?y]"])
qed

lemma run_persist_version:
  "\<exists>t. run (persist_version p old v) os h = (Some (if stored t = [] \<and> v \<noteq> old then -1 else 0), h @ t) \<and>
     listed t = {} \<and> deleted t = {} \<and> (stored t \<noteq> [] \<longrightarrow> stored t = [v])"
proof -
  let ?x = "(WriteVersion p v, os h (WriteVersion p v))"
  show ?thesis
  proof (cases "v = old")
    case True
    then show ?thesis by (intro exI [of _ "[]"]) (simp add: persist_version_def)
  next
    case False
    then show ?thesis by (intro exI [of _ "[?x]"]) (simp add: persist_version_def)
  qed
qed

lemma run_upgrade_misc:
  assumes "run (upgrade_misc env misc p) os h = (res, h')"
  shows "\<exists>a u. stored a = [] \<and> deleted a = {} \<and> stored u = [] \<and> listed u = {} \<and>
    (res \<noteq> Some 0 \<and> h' = h @ a \<or> run p os (h @ a @ u) = (res, h') \<and> users_ready (listed a) a)"
proof -
  let ?l = "(ListDir ''/data/user'', os h (ListDir ''/data/user''))"
  show ?thesis
  proof (cases "i_names (snd ?l)")
    case None
    with assms show ?thesis
      by (intro exI [of _ "[?l]"] exI [of _ "[]"]) (simp add: upgrade_misc_def users_ready_def)
  next
    case (Some names)
    let ?del2 = "delete_if_there (path_cut (misc @ ''/keychain/cacerts-removed'')) p"
    let ?del = "delete_if_there (path_cut (misc @ ''/keychain/cacerts-added'')) ?del2"
    let ?f = "\<lambda>ok. if \<not> ok then Ret (-1) else ?del"
    from Some assms have "run (upgrade_users env misc names ?f) os (h @ [?l]) = (res, h')" by (simp add: upgrade_misc_def)
    from run_upgrade_users [OF this] obtain t where t: "stored t = []" "deleted t = {}" "listed t = {}"
      "res = None \<and> h' = (h @ [?l]) @ t \<or> run (?f False) os ((h @ [?l]) @ t) = (res, h') \<or>
       run (?f True) os ((h @ [?l]) @ t) = (res, h') \<and> users_ready (set names - {''.'', ''..''}) t" by blast
    then consider (stopped) "res \<noteq> Some 0" "h' = h @ ?l # t"
      | (ready) "run ?del os ((h @ [?l]) @ t) = (res, h')" "users_ready (set names - {''.'', ''..''}) t" by auto
    then show ?thesis
    proof cases
      case stopped
      with t show ?thesis by (intro exI [of _ "?l # t"] exI [of _ "[]"]) (simp add: hist_Cons [of _ t])
    next
      case ready
      obtain u1 where u1: "run ?del os ((h @ [?l]) @ t) = run ?del2 os (((h @ [?l]) @ t) @ u1)" "stored u1 = []"
          "listed u1 = {}"
        using run_delete_if_there by metis
      obtain u2 where u2: "run ?del2 os (((h @ [?l]) @ t) @ u1) = run p os ((((h @ [?l]) @ t) @ u1) @ u2)"
          "stored u2 = []" "listed u2 = {}"
        using run_delete_if_there by metis
      from Some t have "listed (?l # t) = set names - {''.'', ''..''}" by (simp add: hist_Cons [of _ t])
      with ready(2) have "users_ready (listed (?l # t)) (?l # t)"
        using users_ready_append(2) [of _ t "[?l]"] by simp
      with ready(1) t u1 u2 show ?thesis
        by (intro exI [of _ "?l # t"] exI [of _ "u1 @ u2"]) (simp add: hist_Cons [of _ t])
    qed
  qed
qed

lemma run_initialize_directories:
  assumes "run (initialize_directories env) os [] = (res, h)"
  shows "\<exists>a b. h = a @ b \<and> stored a = [] \<and> deleted a = {} \<and> listed b = {} \<and> (res \<noteq> Some 0 \<longrightarrow> stored b = []) \<and>
    (b \<noteq> [] \<or> res = Some 0 \<longrightarrow> users_ready (listed a) a \<and> 0 \<in> set_up a)"
proof -
  define path where "path = path_cut (android_data_dir (se_globals env) @ ''.layout_version'')"
  define v where "v = (ReadVersion path, os [] (ReadVersion path))"
  define old where "old = layout_version (snd v)"
  define e where "e = (EnsureUser 0, os [v] (EnsureUser 0))"
  have single: "stored [v, e] = []" "deleted [v, e] = {}" "listed [v, e] = {}" "i_rc (snd e) \<noteq> -1 \<Longrightarrow> 0 \<in> set_up [v, e]"
    by (simp_all add: v_def e_def hist_Cons [of _ "[_]"])
  let ?misc = "path_cut (android_data_dir (se_globals env) @ ''misc'')"
  have start: "run (if i_rc (snd e) = -1 then Ret (-1)
      else if (if old < 2 then 2 else old) = 2 then upgrade_misc env ?misc (persist_version path old 3)
      else persist_version path old (if old < 2 then 2 else old)) os [v, e] = (res, h)"
    using assms unfolding initialize_directories_def Let_def path_def v_def e_def old_def
    by (simp only: run.simps append.simps snd_conv)
  show ?thesis
  proof (cases "i_rc (snd e) = -1")
    case True
    with start have "res = Some (-1)" "h = [v, e]" by simp_all
    with single show ?thesis by (intro exI [of _ "[v, e]"] exI [of _ "[]"]) simp
  next
    case ok: False
    have finish: ?thesis
      if "run (persist_version path old w) os ([v, e] @ t @ u) = (res, h)" "stored t = []" "deleted t = {}"
        "stored u = []" "listed u = {}" "users_ready (listed t) t" for t u w
    proof -
      obtain x where x: "run (persist_version path old w) os ([v, e] @ t @ u)
          = (Some (if stored x = [] \<and> w \<noteq> old then -1 else 0), ([v, e] @ t @ u) @ x)" "listed x = {}"
          "stored x \<noteq> [] \<longrightarrow> stored x = [w]"
        using run_persist_version by metis
      with that(1) have h: "res = Some (if stored x = [] \<and> w \<noteq> old then -1 else 0)" "h = ([v, e] @ t) @ u @ x" by auto
      have "users_ready (listed ([v, e] @ t)) ([v, e] @ t)"
        using users_ready_append(2) [OF that(6)] single(3) by (metis Un_empty_left hist_append(4))
      moreover have "0 \<in> set_up ([v, e] @ t)" using single(4) [OF ok] by (metis UnI1 hist_append(2))
      moreover have "res \<noteq> Some 0 \<longrightarrow> stored (u @ x) = []" using h(1) that(4) by (auto split: if_splits)
      moreover have "stored ([v, e] @ t) = []" "deleted ([v, e] @ t) = {}" "listed (u @ x) = {}"
        using single that x(2) by (metis append_Nil hist_append(1), metis Un_empty hist_append(3), simp)
      ultimately show ?thesis using h(2) by blast
    qed
    show ?thesis
    proof (cases "(if old < 2 then 2 else old) = 2")
      case False
      with start have "run (persist_version path old (if old < 2 then 2 else old)) os ([v, e] @ [] @ []) = (res, h)"
        by (simp only: if_not_P [OF ok] if_not_P [OF False] append_Nil2 append_Nil if_False)
      from finish [OF this] show ?thesis by (simp add: users_ready_def)
    next
      case True
      with start have "run (upgrade_misc env ?misc (persist_version path old 3)) os [v, e] = (res, h)"
        by (simp only: if_not_P [OF ok] if_P [OF refl])
      from run_upgrade_misc [OF this] obtain t u where t: "stored t = []" "deleted t = {}" "stored u = []" "listed u = {}"
        "res \<noteq> Some 0 \<and> h = [v, e] @ t \<or>
         run (persist_version path old 3) os ([v, e] @ t @ u) = (res, h) \<and> users_ready (listed t) t" by blast
      from t(5) show ?thesis
      proof
        assume "res \<noteq> Some 0 \<and> h = [v, e] @ t"
        moreover have "stored ([v, e] @ t) = []" "deleted ([v, e] @ t) = {}"
          using single t by (metis append_Nil hist_append(1), metis Un_empty hist_append(3))
        ultimately show ?thesis by (metis append_Nil2 hist_nil(1,4))
      next
        assume "run (persist_version path old 3) os ([v, e] @ t @ u) = (res, h) \<and> users_ready (listed t) t"
        with finish t show ?thesis by blast
      qed
    qed
  qed
qed

lemma split_past:
  assumes "h = a @ b" "h = t1 @ x # t2" "x \<notin> set a"
  shows "\<exists>u. t1 = a @ u \<and> b \<noteq> []"
proof -
  from assms(1,2) have "a @ b = t1 @ x # t2" by simp
  then obtain us where "a = t1 @ us \<and> us @ b = x # t2 \<or> a @ us = t1 \<and> b = us @ x # t2"
    unfolding append_eq_append_conv2 by blast
  with assms(3) show ?thesis by (cases us) auto
qed

lemma upgrade_steps:
  assumes "run (initialize_directories env) os [] = (res, h)"
  shows "\<And>t1 c r t2. h = t1 @ (c, r) # t2 \<Longrightarrow> (\<exists>d. c = DeleteDir d) \<or> ((\<exists>p v. c = WriteVersion p v) \<and> i_rc r \<noteq> -1) \<Longrightarrow>
      users_ready (listed h) t1 \<and> 0 \<in> set_up t1"
    and "res = Some 0 \<Longrightarrow> users_ready (listed h) h \<and> 0 \<in> set_up h"
    and "res \<noteq> Some 0 \<Longrightarrow> stored h = []"
proof -
  from run_initialize_directories [OF assms] obtain a b where h: "h = a @ b" "stored a = []" "deleted a = {}" "listed b = {}"
    "res \<noteq> Some 0 \<longrightarrow> stored b = []" "b \<noteq> [] \<or> res = Some 0 \<longrightarrow> users_ready (listed a) a \<and> 0 \<in> set_up a" by blast
  { fix t1 c r t2
    assume s: "h = t1 @ (c, r) # t2" "(\<exists>d. c = DeleteDir d) \<or> ((\<exists>p v. c = WriteVersion p v) \<and> i_rc r \<noteq> -1)"
    have "(c, r) \<notin> set a"
    proof
      assume "(c, r) \<in> set a"
      from split_list [OF this] obtain x y where "a = x @ (c, r) # y" by blast
      with h(2,3) have "stored ((c, r) # y) = []" "deleted ((c, r) # y) = {}" by simp_all
      then have "stored [(c, r)] = []" "deleted [(c, r)] = {}" by (simp_all only: hist_Cons [of _ y] append_is_Nil_conv Un_empty)
      with s(2) show False by auto
    qed
    from split_past [OF h(1) s(1) this] obtain u where "t1 = a @ u" "b \<noteq> []" by blast
    with h(1,4,6) show "users_ready (listed h) t1 \<and> 0 \<in> set_up t1" by (simp add: users_ready_append(1)) }
  from h(1,4,6) show "res = Some 0 \<Longrightarrow> users_ready (listed h) h \<and> 0 \<in> set_up h" by (simp add: users_ready_append(1))
  from h show "res \<noteq> Some 0 \<Longrightarrow> stored h = []" by simp
qed

text \<open> C22: the upgrade of the directory layout touches the old state only when the new one is there.  Whatever the
  system answers, a directory of certificates is deleted, and a layout version recorded, only after the directories
  of user 0 and of every user found in \<open>/data/user\<close> have been set up; when start-up ends with success all of them are set up; when
  it fails or is killed by a user directory with a name that is no number, no version is recorded, so that the next start
  runs the upgrade again. \<close>

theorem upgrade_safe:
  assumes "run (initialize_directories env) os [] = (res, h)"
  shows "(\<forall>t1 c r t2. h = t1 @ (c, r) # t2 \<longrightarrow> (\<exists>d. c = DeleteDir d) \<or> ((\<exists>p v. c = WriteVersion p v) \<and> i_rc r \<noteq> -1) \<longrightarrow>
      users_ready (listed h) t1 \<and> 0 \<in> set_up t1) \<and>
    (res = Some 0 \<longrightarrow> users_ready (listed h) h \<and> 0 \<in> set_up h) \<and> (res \<noteq> Some 0 \<longrightarrow> stored h = [])"
  using upgrade_steps [OF assms] by blast

text \<open>A device with user 10 beside the system user, no recorded version, and certificates to copy.\<close>

definition two_users :: "(init_call, init_reply) os_oracle" where
  "two_users h c = \<lparr>i_rc = 0, i_names = (case c of ListDir p \<Rightarrow> Some [''.'', ''10''] | _ \<Rightarrow> None)\<rparr>"

lemma two_users_names: "stoi ''10'' = Some 10"
  by code_simp

lemma two_users_run:
  "case run (initialize_directories demo_svc) two_users [] of (res, h) \<Rightarrow> res = Some 0 \<and> listed h = {''10''}"
  by (simp add: initialize_directories_def upgrade_misc_def persist_version_def copy_if_there_def delete_if_there_def
      two_users_def two_users_names to_u32_def layout_version_def Let_def listed_def) auto

theorem upgrade_safe_witness:
  "\<exists>h. run (initialize_directories demo_svc) two_users [] = (Some 0, h) \<and> listed h = {''10''} \<and>
    users_ready (listed h) h \<and> 0 \<in> set_up h"
  using two_users_run upgrade_safe [of demo_svc two_users "Some 0"] by (auto split: prod.splits)

text \<open>Where \<open>/data/user\<close> cannot be read, version 3 is recorded although nothing was copied or deleted.\<close>

lemma unreadable_users_recorded:
  "i_names (os h (ListDir ''/data/user'')) = None \<Longrightarrow> run (upgrade_misc env misc (persist_version p 2 3)) os h =
     (Some (if i_rc (os (h @ [(ListDir ''/data/user'', os h (ListDir ''/data/user''))]) (WriteVersion p 3)) = -1 then -1 else 0),
      h @ [(ListDir ''/data/user'', os h (ListDir ''/data/user'')),
           (WriteVersion p 3, os (h @ [(ListDir ''/data/user'', os h (ListDir ''/data/user''))]) (WriteVersion p 3))])"
  by (simp add: upgrade_misc_def persist_version_def)

text \<open>An entry of \<open>/data/user\<close> that is no number ends the daemon, at every start.\<close>

lemma stray_entry_aborts: "run (upgrade_users env misc (''lost+found'' # names) f) os h = (None, h)"
proof -
  have "stoi ''lost+found'' = None" by code_simp
  then show ?thesis by simp
qed


section \<open>Compiling layouts\<close>

lemma tidy_compileLayouts: "tidy (compileLayouts apk pkg out uid)"
  unfolding compileLayouts_def view_compiler_def
  by (rule tidyI) (auto intro!: wp_rules tidyD [OF tidy_error])

lemma unprivileged_compileLayouts: "unprivileged uid (compileLayouts apk pkg out uid)"
  unfolding compileLayouts_def
  by (rule unprivileged_then, rule unprivilegedI)
    (auto simp: view_compiler_def intro!: wp_rules same_privs_bindx same_privs_error)

text \<open>The standard output of the daemon itself is replaced, and not put back.\<close>

definition stdout_replaced :: "(pcall, preply) history \<Rightarrow> bool" where
  "stdout_replaced h \<longleftrightarrow> (\<exists>(c, r) \<in> set h. (case c of Dup2 fd to \<Rightarrow> to = 1 \<and> 0 \<le> rc r | _ \<Rightarrow> False))"

text \<open>
  compiling the layouts of an app leaves the table of descriptors of the daemon as it was, but for
  the standard output, and executes the compiler only with the group, the user and the capabilities of
  the app.  Unlike the other handlers this one does not look at its caller.
\<close>

theorem compileLayouts_confined:
  assumes "run (compileLayouts apk pkg out uid) os [] = (res, h)"
  shows "\<And>st. res = Some (Live st) \<Longrightarrow> watch ledger {#} h = Some {#}"
    and "\<And>u b argv r v. h = u @ (Execv b argv, r) # v \<Longrightarrow> dropped uid u"
proof -
  show "\<And>st. res = Some (Live st) \<Longrightarrow> watch ledger {#} h = Some {#}"
    using tidy_run [OF tidy_compileLayouts] assms by blast
  show "\<And>u b argv r v. h = u @ (Execv b argv, r) # v \<Longrightarrow> dropped uid u"
    using unprivileged_run [OF unprivileged_compileLayouts] assms by blast
qed

definition demo_layouts :: "(status \<times> bool) proc option \<times> (pcall, preply) history" where
  "demo_layouts = run (compileLayouts ''/a.apk'' ''com.example'' ''/out'' 10001) good_os []"

lemma demo_layouts_done: "fst demo_layouts = Some (Live (StatusOk, True)) \<and> stdout_replaced (snd demo_layouts)"
  by code_simp

theorem compileLayouts_confined_witness:
  "fst demo_layouts = Some (Live (StatusOk, True)) \<and> watch ledger {#} (snd demo_layouts) = Some {#}"
proof -
  have "run (compileLayouts ''/a.apk'' ''com.example'' ''/out'' 10001) good_os [] =
      (fst demo_layouts, snd demo_layouts)" by (simp add: demo_layouts_def)
  from compileLayouts_confined(1) [OF this] demo_layouts_done show ?thesis by simp
qed

end
