(* ===== verification/Bugreport.thy ===== *)
theory Bugreport
  imports OsProg
begin

text \<open>
  The clients of the report services: \<open>bugreport/bugreport.cpp\<close> copies what dumpstate sends,
  \<open>bugreportz/bugreportz.cpp\<close> filters the lines of its protocol.  What \<open>read\<close> and \<open>write\<close> return is
  a reply of the system; the loops over the socket have a fuel, the number of reads.
\<close>

section \<open>Calls\<close>

datatype bug_call =
    StartService string
  | ConnectDumpstate
  | Sleep int
  | SetReceiveTimeout int
  | ReadSocket int
  | WriteStdout string
  | PrintStdout string
  | PrintStderr string
  | SocketErrno
  | CloseSocket

record bug_reply =
  b_rc :: int
  b_data :: string

type_synonym 'a bug_prog = "(bug_call, bug_reply, 'a) prog"

definition EAGAIN :: int where "EAGAIN = 11"
definition ETIMEDOUT :: int where "ETIMEDOUT = 110"

text \<open>The errno to report for a failed read: a time-out shows as \<open>EAGAIN\<close>.\<close>

definition read_errno :: "int \<Rightarrow> int" where
  "read_errno e = (if e = EAGAIN then ETIMEDOUT else e)"

text \<open>The socket of the service, tried every second; the last result is kept.\<close>

fun connect_loop :: "nat \<Rightarrow> int \<Rightarrow> (int \<Rightarrow> 'a bug_prog) \<Rightarrow> 'a bug_prog" where
  "connect_loop 0 s f = f s"
| "connect_loop (Suc n) s f =
     Call ConnectDumpstate (\<lambda>r. if b_rc r \<ge> 0 then f (b_rc r) else Call (Sleep 1) (\<lambda>_. connect_loop n (b_rc r) f))"

section \<open>bugreport\<close>

text \<open>
  The \<open>do\<close> loop that writes one buffer: it ends when a write fails, when one writes nothing or when
  everything is sent.  The fuel is the number of bytes, which every further turn makes smaller.
\<close>

fun send_buffer :: "nat \<Rightarrow> string \<Rightarrow> (bool \<Rightarrow> 'a bug_prog) \<Rightarrow> 'a bug_prog" where
  "send_buffer 0 buf f = Abort"
| "send_buffer (Suc n) buf f =
     Call (WriteStdout buf) (\<lambda>w.
       if b_rc w = -1 then f False
       else (let rest = drop (nat (b_rc w)) buf in
             if b_rc w \<noteq> 0 \<and> rest \<noteq> [] then send_buffer n rest f else f True))"

fun copy_report :: "nat \<Rightarrow> int option bug_prog" where
  "copy_report 0 = Ret None"
| "copy_report (Suc n) =
     Call (ReadSocket 65536) (\<lambda>r.
       let finish = Call CloseSocket (\<lambda>_. Ret (Some 0)) in
       if b_rc r = 0 then finish
       else if b_rc r = -1 then
         Call SocketErrno (\<lambda>e. Call (PrintStdout ''Bugreport read terminated abnormally.'') (\<lambda>_. finish))
       else send_buffer (Suc (length (b_data r))) (b_data r) (\<lambda>ok.
         if \<not> ok then Call (PrintStdout ''Failed to write data to stdout'') (\<lambda>_. Ret (Some 1)) else copy_report n))"

definition bugreport_main :: "nat \<Rightarrow> int option bug_prog" where
  "bugreport_main fuel =
     Call (PrintStderr ''WARNING: flat bugreports are deprecated'') (\<lambda>_.
     Call (StartService ''dumpstate'') (\<lambda>_.
       connect_loop 20 0 (\<lambda>s.
         if s = -1 then Call (PrintStdout ''Failed to connect to dumpstate service'') (\<lambda>_. Ret (Some 1))
         else Call (SetReceiveTimeout 180) (\<lambda>t.
           if b_rc t = -1 then Call (PrintStdout ''WARNING: Cannot set socket timeout'') (\<lambda>_. copy_report fuel)
           else copy_report fuel))))"

section \<open>bugreportz\<close>

definition write_line :: "bool \<Rightarrow> string \<Rightarrow> string list" where
  "write_line show_progress line =
     (if line = [] then []
      else if \<not> show_progress \<and> (prefix ''PROGRESS:'' line \<or> prefix ''BEGIN:'' line) then []
      else [line])"

text \<open>One buffer: the lines written and the unfinished one.\<close>

fun split_buffer :: "bool \<Rightarrow> string \<Rightarrow> string \<Rightarrow> string list \<times> string" where
  "split_buffer show_progress line [] = ([], line)"
| "split_buffer show_progress line (c # cs) =
     (let line = line @ [c] in
      if c = CHR 0x0A
      then (let (out, rest) = split_buffer show_progress [] cs in (write_line show_progress line @ out, rest))
      else split_buffer show_progress line cs)"

fun write_lines :: "string list \<Rightarrow> 'a bug_prog \<Rightarrow> 'a bug_prog" where
  "write_lines [] p = p"
| "write_lines (l # ls) p = Call (WriteStdout l) (\<lambda>_. write_lines ls p)"

fun bugreportz :: "nat \<Rightarrow> bool \<Rightarrow> string \<Rightarrow> int option bug_prog" where
  "bugreportz 0 show_progress line = Ret None"
| "bugreportz (Suc n) show_progress line =
     Call (ReadSocket 65536) (\<lambda>r.
       if b_rc r = 0 then write_lines (write_line show_progress line) (Ret (Some 0))
       else if b_rc r = -1 then
         Call SocketErrno (\<lambda>e.
           Call (PrintStdout (''FAIL:Bugreport read terminated abnormally '' @ dec_int (read_errno (b_rc e)))) (\<lambda>_. Ret (Some 1)))
       else (let (out, line') = split_buffer show_progress line (b_data r)
             in write_lines out (bugreportz n show_progress line')))"

text \<open>The options: the answer given at once, or whether progress is shown.\<close>

fun bugreportz_options :: "string \<Rightarrow> bool \<Rightarrow> int + bool" where
  "bugreportz_options [] show_progress = Inr show_progress"
| "bugreportz_options (c # cs) show_progress =
     (if c = CHR ''h'' then Inl 0
      else if c = CHR ''p'' then bugreportz_options cs True
      else if c = CHR ''v'' then Inl 0
      else Inl 1)"

text \<open>\<open>opts\<close> are the characters that \<open>getopt\<close> returns for \<open>hpv\<close>, a question mark for another.\<close>

definition bugreportz_main :: "nat \<Rightarrow> string \<Rightarrow> int option bug_prog" where
  "bugreportz_main fuel opts =
     (case bugreportz_options opts False of
        Inl ret \<Rightarrow> Call (PrintStderr ''usage or version'') (\<lambda>_. Ret (Some ret))
      | Inr show_progress \<Rightarrow>
          Call (StartService ''dumpstatez'') (\<lambda>_.
            connect_loop 20 0 (\<lambda>s.
              if s = -1 then Call (PrintStdout ''FAIL:Failed to connect to dumpstatez service'') (\<lambda>_. Ret (Some 1))
              else (let serve = bindp (bugreportz fuel show_progress []) (\<lambda>ret. case ret of None \<Rightarrow> Ret None
                          | Some ret \<Rightarrow> Call CloseSocket (\<lambda>c. Ret (Some (if b_rc c = -1 then 1 else ret))))
                    in Call (SetReceiveTimeout 600) (\<lambda>t.
                      if b_rc t = -1 then Call (PrintStderr ''WARNING: Cannot set socket timeout'') (\<lambda>_. serve)
                      else serve)))))"

section \<open>Lines do not depend on the buffers\<close>

text \<open>The lines of a text, each with its newline; the last may lack one.\<close>

fun text_lines :: "string \<Rightarrow> string list" where
  "text_lines [] = []"
| "text_lines (c # cs) =
     (if c = CHR 0x0A then [c] # text_lines cs
      else (case text_lines cs of [] \<Rightarrow> [[c]] | l # ls \<Rightarrow> (c # l) # ls))"

lemma concat_text_lines [simp]: "concat (text_lines s) = s"
  by (induction s) (auto split: list.split)

definition shown :: "bool \<Rightarrow> string \<Rightarrow> bool" where
  "shown show_progress line \<longleftrightarrow> show_progress \<or> \<not> (prefix ''PROGRESS:'' line \<or> prefix ''BEGIN:'' line)"

lemma text_lines_not_Nil: "[] \<notin> set (text_lines s)"
  by (induction s) (auto split: list.split)

lemma write_line_eq: "write_line sp line = filter (shown sp) (if line = [] then [] else [line])"
  by (auto simp: write_line_def shown_def)

text \<open>The unfinished line goes in front of what comes next.\<close>

lemma text_lines_no_newline: "CHR 0x0A \<notin> set l \<Longrightarrow> text_lines l = (if l = [] then [] else [l])"
  by (induction l) auto

lemma text_lines_newline: "CHR 0x0A \<notin> set l \<Longrightarrow> text_lines (l @ CHR 0x0A # s) = (l @ [CHR 0x0A]) # text_lines s"
  by (induction l) auto

lemma split_buffer_lines:
  assumes "CHR 0x0A \<notin> set line" "split_buffer sp line s = (out, rest)"
  shows "CHR 0x0A \<notin> set rest"
    "filter (shown sp) (text_lines (line @ s @ t)) = out @ filter (shown sp) (text_lines (rest @ t))"
  using assms
proof (induction sp line s arbitrary: out rest rule: split_buffer.induct)
  case (2 sp line c cs)
  {
    case 1
    with 2 show ?case by (auto simp: Let_def split: if_splits prod.splits)
  next
    case 2
    with "2.IH" show ?case
      by (auto simp: Let_def text_lines_newline write_line_eq split: if_splits prod.splits)
  }
qed auto


section \<open>What a run reads and writes\<close>

definition received :: "(bug_call, bug_reply) history \<Rightarrow> string" where
  "received t = concat (map (\<lambda>(c, r). case c of ReadSocket n \<Rightarrow> if b_rc r \<in> {0, -1} then [] else b_data r | _ \<Rightarrow> []) t)"

definition written :: "(bug_call, bug_reply) history \<Rightarrow> string list" where
  "written t = concat (map (\<lambda>(c, r). case c of WriteStdout d \<Rightarrow> [d] | _ \<Rightarrow> []) t)"

text \<open>The bytes that the calls of \<open>write\<close> took.\<close>

definition sent :: "(bug_call, bug_reply) history \<Rightarrow> string" where
  "sent t = concat (map (\<lambda>(c, r). case c of WriteStdout d \<Rightarrow> take (nat (b_rc r)) d | _ \<Rightarrow> []) t)"

lemma io_append [simp]: "received (t @ u) = received t @ received u" "written (t @ u) = written t @ written u"
  "sent (t @ u) = sent t @ sent u" "received [] = []" "written [] = []" "sent [] = []"
  by (simp_all add: received_def written_def sent_def)

lemma io_Cons [simp]:
  "received ((c, r) # t) = (case c of ReadSocket n \<Rightarrow> if b_rc r \<in> {0, -1} then [] else b_data r | _ \<Rightarrow> []) @ received t"
  "written ((c, r) # t) = (case c of WriteStdout d \<Rightarrow> [d] | _ \<Rightarrow> []) @ written t"
  "sent ((c, r) # t) = (case c of WriteStdout d \<Rightarrow> take (nat (b_rc r)) d | _ \<Rightarrow> []) @ sent t"
  by (simp_all add: received_def written_def sent_def)

lemma run_write_lines:
  "\<exists>t. run (write_lines ls p) os h = run p os (h @ t) \<and> written t = ls \<and> received t = []"
proof (induction ls arbitrary: h)
  case (Cons l ls)
  from Cons.IH [of "h @ [(WriteStdout l, os h (WriteStdout l))]"] obtain t where
    "run (write_lines ls p) os (h @ [(WriteStdout l, os h (WriteStdout l))]) =
       run p os (h @ (WriteStdout l, os h (WriteStdout l)) # t)" "written t = ls" "received t = []"
    by auto
  then show ?case by (intro exI [of _ "(WriteStdout l, os h (WriteStdout l)) # t"]) simp
qed (auto intro: exI [of _ "[]"])

lemma bugreportz_run:
  assumes "run (bugreportz n sp line) os h = (Some (Some ret), h')" "CHR 0x0A \<notin> set line"
  shows "\<exists>t rest. h' = h @ t \<and> CHR 0x0A \<notin> set rest \<and> ret \<in> {0, 1} \<and> (ret = 0 \<longrightarrow> rest = []) \<and>
    filter (shown sp) (text_lines (line @ received t)) = written t @ filter (shown sp) (text_lines rest)"
  using assms
proof (induction n arbitrary: line h)
  case (Suc n)
  let ?r = "os h (ReadSocket 65536)" and ?h = "h @ [(ReadSocket 65536, os h (ReadSocket 65536))]"
  consider "b_rc ?r = 0" | "b_rc ?r = -1" | "b_rc ?r \<noteq> 0" "b_rc ?r \<noteq> -1" by blast
  then show ?case
  proof cases
    case 1
    obtain t where t: "run (write_lines (write_line sp line) (Ret (Some (0 :: int)))) os ?h = run (Ret (Some 0)) os (?h @ t)"
      "written t = write_line sp line" "received t = []"
      using run_write_lines by blast
    from 1 Suc.prems(1) have "run (write_lines (write_line sp line) (Ret (Some 0))) os ?h = (Some (Some ret), h')" by simp
    from trans [OF sym [OF this] t(1)] have "ret = 0" "h' = ?h @ t" by simp_all
    with 1 t(2,3) Suc.prems(2) show ?thesis
      by (intro exI [of _ "(ReadSocket 65536, ?r) # t"] exI [of _ "[]"])
        (auto simp: write_line_eq text_lines_no_newline)
  next
    case 2
    with Suc.prems show ?thesis by (auto simp: Let_def intro!: exI [of _ line])
  next
    case 3
    obtain out line' where s: "split_buffer sp line (b_data ?r) = (out, line')" by (cases "split_buffer sp line (b_data ?r)")
    note sl = split_buffer_lines [OF Suc.prems(2) s]
    obtain t where t: "run (write_lines out (bugreportz n sp line')) os ?h = run (bugreportz n sp line') os (?h @ t)"
      "written t = out" "received t = []"
      using run_write_lines by blast
    from 3 Suc.prems(1) t(1) s have "run (bugreportz n sp line') os (?h @ t) = (Some (Some ret), h')" by simp
    from Suc.IH [OF this sl(1)] obtain u rest where u: "h' = (?h @ t) @ u" "CHR 0x0A \<notin> set rest" "ret \<in> {0, 1}"
      "ret = 0 \<longrightarrow> rest = []"
      "filter (shown sp) (text_lines (line' @ received u)) = written u @ filter (shown sp) (text_lines rest)"
      by blast
    with 3 t sl(2) [of "received u"] show ?thesis
      by (intro exI [of _ "(ReadSocket 65536, ?r) # t @ u"] exI [of _ rest]) simp
  qed
qed simp

text \<open>
  C31: What \<open>bugreportz\<close> prints does not depend on how the stream was cut into buffers: at the end of
  the stream it has written, in order and one call each, exactly the lines of everything received, an
  unfinished last line included, less the progress lines unless they were asked for.  When a read
  fails instead, only the unfinished line is missing, and the result is 1.
\<close>

theorem bugreportz_lines:
  assumes "run (bugreportz n sp []) os [] = (Some (Some ret), t)"
  shows "ret \<in> {0, 1} \<and> (ret = 0 \<longrightarrow> written t = filter (shown sp) (text_lines (received t))) \<and>
    (\<exists>rest. CHR 0x0A \<notin> set rest \<and>
       filter (shown sp) (text_lines (received t)) = written t @ filter (shown sp) (text_lines rest))"
  using bugreportz_run [OF assms] by auto

definition chunks_os :: "string list \<Rightarrow> (bug_call, bug_reply) os_oracle" where
  "chunks_os chunks h c =
     (case c of
        ReadSocket n \<Rightarrow>
          (let i = length (filter (\<lambda>x. fst x = ReadSocket n) h)
           in if i < length chunks then \<lparr>b_rc = int (length (chunks ! i)), b_data = chunks ! i\<rparr> else \<lparr>b_rc = 0, b_data = []\<rparr>)
      | WriteStdout d \<Rightarrow> \<lparr>b_rc = int (length d), b_data = []\<rparr>
      | _ \<Rightarrow> \<lparr>b_rc = 0, b_data = []\<rparr>)"

definition demo_stream :: "string list" where
  "demo_stream = [''BEGIN:/a.zi'', ''p'' @ [CHR 0x0A] @ ''PROG'', ''RESS:1/2'' @ [CHR 0x0A] @ ''OK:/a'', ''.zip'']"

theorem bugreportz_lines_witness:
  "\<exists>t. run (bugreportz 9 False []) (chunks_os demo_stream) [] = (Some (Some 0), t) \<and> written t = [''OK:/a.zip'']"
proof -
  have "fst (run (bugreportz 9 False []) (chunks_os demo_stream) []) = Some (Some 0)" by code_simp
  then obtain t where t: "run (bugreportz 9 False []) (chunks_os demo_stream) [] = (Some (Some 0), t)"
    by (metis prod.collapse)
  have "filter (shown False) (text_lines (received (snd (run (bugreportz 9 False []) (chunks_os demo_stream) [])))) =
      [''OK:/a.zip'']" by code_simp
  with bugreportz_lines [OF t] t show ?thesis by simp
qed

text \<open>A \<open>write\<close> takes at least one byte and at most what it is given, or fails.\<close>

definition proper_writes :: "(bug_call, bug_reply) history \<Rightarrow> bool" where
  "proper_writes t \<longleftrightarrow> (\<forall>d r. (WriteStdout d, r) \<in> set t \<longrightarrow> b_rc r = -1 \<or> (0 < b_rc r \<and> b_rc r \<le> int (length d)))"

lemma run_send_buffer:
  "run (send_buffer n buf f) os h = (Some res, h') \<Longrightarrow>
    \<exists>t ok. run (f ok) os (h @ t) = (Some res, h') \<and> received t = [] \<and> (ok \<longrightarrow> proper_writes t \<longrightarrow> sent t = buf)"
proof (induction n arbitrary: buf h)
  case (Suc n)
  let ?w = "os h (WriteStdout buf)" and ?h = "h @ [(WriteStdout buf, os h (WriteStdout buf))]"
  let ?rest = "drop (nat (b_rc ?w)) buf"
  consider "b_rc ?w = -1" | "b_rc ?w \<noteq> -1" "b_rc ?w \<noteq> 0 \<and> ?rest \<noteq> []" | "b_rc ?w \<noteq> -1" "\<not> (b_rc ?w \<noteq> 0 \<and> ?rest \<noteq> [])"
    by blast
  then show ?case
  proof cases
    case 1
    with Suc.prems show ?thesis by (intro exI [of _ "[(WriteStdout buf, ?w)]"] exI [of _ False]) simp
  next
    case 2
    with Suc.prems have "run (send_buffer n ?rest f) os ?h = (Some res, h')" by (simp add: Let_def)
    from Suc.IH [OF this] obtain t ok where t: "run (f ok) os (?h @ t) = (Some res, h')" "received t = []"
      "ok \<longrightarrow> proper_writes t \<longrightarrow> sent t = ?rest" by blast
    then show ?thesis
      by (intro exI [of _ "(WriteStdout buf, ?w) # t"] exI [of _ ok]) (auto simp: proper_writes_def)
  next
    case 3
    from Suc.prems have "run (f True) os ?h = (Some res, h')"
      by (simp only: send_buffer.simps run.simps Let_def if_not_P [OF 3(1)] if_not_P [OF 3(2)])
    with 3 show ?thesis
      by (intro exI [of _ "[(WriteStdout buf, ?w)]"] exI [of _ True]) (auto simp: proper_writes_def)
  qed
qed simp

lemma proper_writes_append: "proper_writes (t @ u) \<longleftrightarrow> proper_writes t \<and> proper_writes u"
  by (auto simp: proper_writes_def)

lemma copy_report_run:
  "run (copy_report n) os h = (Some (Some 0), h') \<Longrightarrow>
    \<exists>t. h' = h @ t \<and> (proper_writes t \<longrightarrow> sent t = received t)"
proof (induction n arbitrary: h)
  case (Suc n)
  let ?r = "os h (ReadSocket 65536)" and ?h = "h @ [(ReadSocket 65536, os h (ReadSocket 65536))]"
  show ?case
  proof (cases "b_rc ?r \<in> {0, -1}")
    case True
    with Suc.prems show ?thesis by (auto simp: Let_def)
  next
    case False
    let ?f = "\<lambda>ok. if \<not> ok then Call (PrintStdout ''Failed to write data to stdout'') (\<lambda>_. Ret (Some 1)) else copy_report n"
    from False Suc.prems have "run (send_buffer (Suc (length (b_data ?r))) (b_data ?r) ?f) os ?h = (Some (Some 0), h')"
      by (simp add: Let_def del: send_buffer.simps)
    from run_send_buffer [OF this] obtain t ok where t: "run (?f ok) os (?h @ t) = (Some (Some 0), h')" "received t = []"
      "ok \<longrightarrow> proper_writes t \<longrightarrow> sent t = b_data ?r" by blast
    from t(1) have ok by (cases ok) auto
    with t(1) have "run (copy_report n) os (?h @ t) = (Some (Some 0), h')" by simp
    from Suc.IH [OF this] obtain u where u: "h' = (?h @ t) @ u" "proper_writes u \<longrightarrow> sent u = received u" by blast
    have "proper_writes ((ReadSocket 65536, ?r) # t @ u) \<longleftrightarrow> proper_writes t \<and> proper_writes u"
      by (auto simp: proper_writes_def)
    with False t u \<open>ok\<close> show ?thesis
      by (intro exI [of _ "(ReadSocket 65536, ?r) # t @ u"]) simp
  qed
qed simp


lemma run_connect_loop:
  "run (connect_loop n s f) os h = (Some res, h') \<Longrightarrow>
    \<exists>t s'. run (f s') os (h @ t) = (Some res, h') \<and> received t = [] \<and> sent t = [] \<and> proper_writes t \<and>
      length (filter (\<lambda>x. fst x = ConnectDumpstate) t) \<le> n"
proof (induction n arbitrary: s h)
  case 0
  then show ?case by (intro exI [of _ "[]"] exI [of _ s]) (simp add: proper_writes_def)
next
  case (Suc n)
  let ?c = "(ConnectDumpstate, os h ConnectDumpstate)"
  show ?case
  proof (cases "b_rc (snd ?c) \<ge> 0")
    case True
    with Suc.prems show ?thesis
      by (intro exI [of _ "[?c]"] exI [of _ "b_rc (snd ?c)"]) (simp add: proper_writes_def)
  next
    case False
    let ?z = "(Sleep 1, os (h @ [?c]) (Sleep 1))"
    from False Suc.prems have "run (connect_loop n (b_rc (snd ?c)) f) os (h @ [?c, ?z]) = (Some res, h')" by simp
    from Suc.IH [OF this] obtain t s' where "run (f s') os ((h @ [?c, ?z]) @ t) = (Some res, h')" "received t = []"
      "sent t = []" "proper_writes t" "length (filter (\<lambda>x. fst x = ConnectDumpstate) t) \<le> n" by blast
    then show ?thesis
      by (intro exI [of _ "[?c, ?z] @ t"] exI [of _ s']) (auto simp: proper_writes_def)
  qed
qed

text \<open>
  C32: When \<open>bugreport\<close> ends with 0 and every \<open>write\<close> took at least one byte or failed, it has written
  exactly what it received from dumpstate, byte for byte, also when a write took only a part.
\<close>

theorem bugreport_forwards:
  assumes "run (bugreport_main n) os [] = (Some (Some 0), t)" "proper_writes t"
  shows "sent t = received t"
proof -
  let ?w = "Call (PrintStdout ''WARNING: Cannot set socket timeout'') (\<lambda>_. copy_report n)"
  let ?f = "\<lambda>s. if s = -1 then Call (PrintStdout ''Failed to connect to dumpstate service'') (\<lambda>_. Ret (Some 1))
         else Call (SetReceiveTimeout 180) (\<lambda>t. if b_rc t = -1 then ?w else copy_report n)"
  from assms(1) obtain a b where "run (connect_loop 20 0 ?f) os [(PrintStderr ''WARNING: flat bugreports are deprecated'', a),
      (StartService ''dumpstate'', b)] = (Some (Some 0), t)"
    by (auto simp: bugreport_main_def simp del: connect_loop.simps)
  from run_connect_loop [OF this] show ?thesis
  proof (elim exE conjE)
    fix u s'
    assume u: "received u = []" "sent u = []" and r: "run (?f s') os ([(PrintStderr ''WARNING: flat bugreports are deprecated'', a),
        (StartService ''dumpstate'', b)] @ u) = (Some (Some 0), t)"
    have s': "s' \<noteq> -1" using r by auto
    then obtain v where v: "run (copy_report n) os v = (Some (Some 0), t)" "received v = []" "sent v = []"
      using r u by (auto split: if_splits)
    from copy_report_run [OF v(1)] obtain w where "t = v @ w" "proper_writes w \<longrightarrow> sent w = received w" by blast
    with v assms(2) show ?thesis by (simp add: proper_writes_append)
  qed
qed

text \<open>Each \<open>write\<close> takes at most two bytes.\<close>

definition slow_os :: "string list \<Rightarrow> (bug_call, bug_reply) os_oracle" where
  "slow_os chunks h c = (case c of WriteStdout d \<Rightarrow> \<lparr>b_rc = int (min 2 (length d)), b_data = []\<rparr> | _ \<Rightarrow> chunks_os chunks h c)"

definition demo_report :: "int option option \<times> (bug_call, bug_reply) history" where
  "demo_report = run (bugreport_main 5) (slow_os [''abc'', ''de'']) []"

definition proper_write :: "bug_call \<times> bug_reply \<Rightarrow> bool" where
  "proper_write x = (case fst x of WriteStdout d \<Rightarrow> b_rc (snd x) = -1 \<or> (0 < b_rc (snd x) \<and> b_rc (snd x) \<le> int (length d)) | _ \<Rightarrow> True)"

lemma proper_writes_list: "list_all proper_write t \<Longrightarrow> proper_writes t"
  by (fastforce simp: list_all_iff proper_writes_def proper_write_def)

theorem bugreport_forwards_witness:
  "fst demo_report = Some (Some 0) \<and> sent (snd demo_report) = ''abcde''"
proof -
  have f: "fst demo_report = Some (Some 0)" by code_simp
  have "proper_writes (snd demo_report)" by (rule proper_writes_list) code_simp
  moreover have "run (bugreport_main 5) (slow_os [''abc'', ''de'']) [] = (Some (Some 0), snd demo_report)"
    using f by (simp add: demo_report_def prod_eq_iff)
  moreover have "received (snd demo_report) = ''abcde''" by code_simp
  ultimately show ?thesis using bugreport_forwards f by metis
qed

section \<open>Where the code does not do what it means to\<close>

text \<open>A report that breaks off because a read fails is not told from a whole one by the result.\<close>

definition broken_os :: "(bug_call, bug_reply) os_oracle" where
  "broken_os h c = (case c of ReadSocket n \<Rightarrow> \<lparr>b_rc = -1, b_data = []\<rparr> | _ \<Rightarrow> \<lparr>b_rc = 3, b_data = []\<rparr>)"

lemma bugreport_read_error_succeeds: "fst (run (bugreport_main 5) broken_os []) = Some (Some 0)"
  by code_simp

end
