(* ===== verification/OtaPreopt.thy ===== *)
theory OtaPreopt
  imports OtaParams DexMove
begin

text \<open>
  The driver of \<open>otapreopt\<close> (\<open>installd/otapreopt.cpp\<close>): it reads the properties of the new system,
  prepares its boot image and compiles one package for it.  \<open>dexopt\<close> itself is a call whose argument
  is the parameters; the plug-in functions that make it write to the other slot are those of the last section.
\<close>

section \<open>Calls\<close>

datatype dtype = DT_REG | DT_LNK | DT_OTHER

datatype ota_call =
    OReadFile string
  | OSetenv string string
  | OPutenv string
  | OInitGlobals string string
  | OAccess string
  | OUmask int
  | OMkdir string int
  | OErrno
  | OListDir string
  | OUnlink string
  | OCloseDir
  | ORandom int int
  | OFork
  | OSetpgid
  | OExecv string "string list"
  | OWaitpid int
  | ODexopt ota_params
  | OSelinuxStatus
  | OCloseFd int
  | OUnshare
  | OMount string string cstring "string list"
  | ODmValid string
  | ODmPath string
  | ORestorecon string
  | OChmod string int
  | OChown string int int
  | OChdir string
  | OChroot string
  | OActivatePackages string
  | ODeactivatePackage string

text \<open>
  \<open>o_rc\<close> is the value returned (0 and 1 for a \<open>bool\<close>), \<open>o_text\<close> the contents of a file that can be opened or the path of a
  device, \<open>o_names\<close> the entries of a directory or the names of packages.
\<close>

record ota_reply =
  o_rc :: int
  o_text :: "string option"
  o_names :: "(string \<times> dtype) list option"
  o_status :: int

type_synonym 'a ota_prog = "(ota_call, ota_reply, 'a) process"

text \<open>Constants of ART and the size of a page, which are not in the repository.\<close>

record ota_env =
  oe_base :: int
  oe_min_delta :: int
  oe_max_delta :: int
  oe_page :: int
  oe_create_runtime :: int

section \<open>Properties\<close>

type_synonym props = "string \<rightharpoonup> string"

text \<open>\<open>std::unordered_map::insert\<close> keeps a value that is there.\<close>

definition SetProperty :: "string \<Rightarrow> string \<Rightarrow> props \<Rightarrow> props" where
  "SetProperty key v m = (if m key = None then m(key \<mapsto> v) else m)"

text \<open>The lines of a file without the empty ones and the comments; a callback that fails ends the loop.\<close>

fun parse_lines :: "(string \<Rightarrow> 's \<Rightarrow> bool \<times> 's) \<Rightarrow> string list \<Rightarrow> 's \<Rightarrow> bool \<times> 's" where
  "parse_lines parse [] s = (True, s)"
| "parse_lines parse (line # rest) s =
     (if line = [] then parse_lines parse rest s
      else if hd line = CHR ''#'' then parse_lines parse rest s
      else (let (ok, s') = parse line s in if \<not> ok then (False, s') else parse_lines parse rest s'))"

definition ParseFile :: "string \<Rightarrow> (string \<Rightarrow> 's \<Rightarrow> bool \<times> 's) \<Rightarrow> 's \<Rightarrow> (bool \<times> 's) ota_prog" where
  "ParseFile strFile parse s =
     Call (OReadFile strFile) (\<lambda>r.
       case o_text r of
         None \<Rightarrow> pure (False, s)
       | Some text \<Rightarrow> pure (parse_lines parse (split_on CHR 0x0A text) s))"

definition property_line :: "string \<Rightarrow> props \<Rightarrow> bool \<times> props" where
  "property_line line m =
     (case find_char CHR ''='' line 0 of
        None \<Rightarrow> (True, m)
      | Some equals_pos \<Rightarrow>
          if equals_pos = 0 then (True, m)
          else (True, SetProperty (take equals_pos line) (drop (equals_pos + 1) line) m))"

definition Load :: "string \<Rightarrow> props \<Rightarrow> (bool \<times> props) ota_prog" where
  "Load strFile m = ParseFile strFile property_line m"

text \<open>
  \<open>std::regex_match\<close> against \<open>\s*export\s+(\S+)\s+(\S+)\<close>: white space and the rest are disjoint, so there
  is one way to match.
\<close>

definition match_export :: "string \<Rightarrow> (string \<times> string) option" where
  "match_export line =
     (let s = dropWhile is_space_chr line; t = drop 6 s; u = dropWhile is_space_chr t;
          name = takeWhile (\<lambda>c. \<not> is_space_chr c) u; v = dropWhile (\<lambda>c. \<not> is_space_chr c) u;
          value = dropWhile is_space_chr v
      in if prefix ''export'' s \<and> u \<noteq> t \<and> name \<noteq> [] \<and> v \<noteq> value \<and> value \<noteq> [] \<and> list_all (\<lambda>c. \<not> is_space_chr c) value
         then Some (name, value) else None)"

definition export_line :: "string \<Rightarrow> props \<Rightarrow> bool \<times> props" where
  "export_line line m = (case match_export line of None \<Rightarrow> (True, m) | Some (n, v) \<Rightarrow> (True, SetProperty n v m))"

definition kPropertyValueMax :: nat where "kPropertyValueMax = 92"

text \<open>
  The number returned and what is in the buffer behind it; \<open>strlcpy\<close> copies one character less than the size
  it is given.
\<close>

definition ota_GetProperty :: "props \<Rightarrow> string \<Rightarrow> cstring \<Rightarrow> nat \<times> string option" where
  "ota_GetProperty m key default_value =
     (case m key of
        None \<Rightarrow>
          (case default_value of
             None \<Rightarrow> (0, None)
           | Some d \<Rightarrow> (length d, Some (take (kPropertyValueMax - 2) d)))
      | Some v \<Rightarrow>
          (let size = min (kPropertyValueMax - 1) (length v) + 1 in (size - 1, Some (take (size - 1) v))))"

section \<open>The service object\<close>

record ota_service =
  system_properties :: props
  android_root :: string
  android_data :: string
  boot_classpath :: string
  asec_mountpoint :: string
  parameters :: ota_params
  environment :: "string list"

definition GetOtaDirectoryPrefix :: "ota_service \<Rightarrow> string" where
  "GetOtaDirectoryPrefix s = android_data s @ ''/ota''"

definition GetOTADataDirectory :: "ota_service \<Rightarrow> string" where
  "GetOTADataDirectory s = GetOtaDirectoryPrefix s @ ''/'' @ target_slot (parameters s)"

definition ReadSystemProperties :: "ota_service \<Rightarrow> (bool \<times> ota_service) ota_prog" where
  "ReadSystemProperties s =
     bindx (Load ''/default.prop'' (system_properties s)) (\<lambda>(ok, m).
       if \<not> ok then pure (False, s\<lparr>system_properties := m\<rparr>)
       else bindx (Load ''/system/build.prop'' m) (\<lambda>(ok, m). pure (ok, s\<lparr>system_properties := m\<rparr>)))"

definition ReadEnvironment :: "ota_service \<Rightarrow> (bool \<times> ota_service) ota_prog" where
  "ReadEnvironment s =
     bindx (ParseFile ''/init.environ.rc'' export_line (system_properties s)) (\<lambda>(ok, m).
       let s = s\<lparr>system_properties := m\<rparr>
       in if \<not> ok then pure (False, s)
          else (case m ''ANDROID_DATA'' of
                  None \<Rightarrow> pure (False, s)
                | Some d \<Rightarrow> (let s = s\<lparr>android_data := d\<rparr> in
          (case m ''ANDROID_ROOT'' of
             None \<Rightarrow> pure (False, s)
           | Some r \<Rightarrow> (let s = s\<lparr>android_root := r\<rparr> in
          (case m ''BOOTCLASSPATH'' of
             None \<Rightarrow> pure (False, s)
           | Some b \<Rightarrow> (let s = s\<lparr>boot_classpath := b\<rparr> in
          (case m ''ASEC_MOUNTPOINT'' of
             None \<Rightarrow> pure (False, s)
           | Some a \<Rightarrow> pure (True, s\<lparr>asec_mountpoint := a\<rparr>)))))))))"

definition CheckAndInitializeInstalldGlobals :: "ota_service \<Rightarrow> bool ota_prog" where
  "CheckAndInitializeInstalldGlobals s =
     (if system_properties s ''ASEC_MOUNTPOINT'' = None then Abort
      else Call (OSetenv ''ASEC_MOUNTPOINT'' (asec_mountpoint s)) (\<lambda>e.
        if o_rc e \<noteq> 0 then pure False
        else Call (OInitGlobals (android_data s) (android_root s)) (\<lambda>g.
          if o_rc g = 0 then pure False
          else Call (OAccess (GetOtaDirectoryPrefix s)) (\<lambda>a. pure (\<not> o_rc a < 0)))))"

fun put_all :: "string list \<Rightarrow> 'a ota_prog \<Rightarrow> 'a ota_prog" where
  "put_all [] p = p"
| "put_all (e # es) p = Call (OPutenv e) (\<lambda>_. put_all es p)"

definition PrepareEnvironment :: "ota_service \<Rightarrow> ota_service ota_prog" where
  "PrepareEnvironment s =
     (let s = s\<lparr>environment := environment s @ [''BOOTCLASSPATH='' @ boot_classpath s,
                ''ANDROID_DATA='' @ GetOTADataDirectory s, ''ANDROID_ROOT='' @ android_root s]\<rparr>
      in put_all (environment s) (pure s))"


section \<open>Running a tool\<close>

text \<open>\<open>Exec\<close> of \<open>installd/otapreopt_utils.cpp\<close>; \<open>execv\<close> returns only when it fails.\<close>

definition Exec :: "string list \<Rightarrow> bool ota_prog" where
  "Exec arg_vector =
     (if arg_vector = [] then Abort
      else Call OFork (\<lambda>f.
        if o_rc f = 0
        then Call OSetpgid (\<lambda>_. Call (OExecv (hd arg_vector) arg_vector) (\<lambda>x. if o_rc x = 0 then Ret Execed else exit_process 1))
        else if o_rc f = -1 then pure False
        else Call (OWaitpid (o_rc f)) (\<lambda>w.
          if o_rc w \<noteq> o_rc f then pure False
          else pure (WIFEXITED (o_status w) \<and> WEXITSTATUS (o_status w) = 0))))"

section \<open>The boot image\<close>

function CreatePath :: "string \<Rightarrow> bool ota_prog" where
  "CreatePath path =
     Call (OMkdir path 457) (\<lambda>m.
       if o_rc m = 0 then pure True
       else Call OErrno (\<lambda>e.
         if o_rc e \<noteq> ENOENT then pure False
         else (case rfind_char CHR ''/'' path of
                 None \<Rightarrow> pure False
               | Some last_slash \<Rightarrow>
                   if last_slash = 0 then pure False
                   else bindx (CreatePath (take last_slash path)) (\<lambda>ok.
                     if \<not> ok then pure False
                     else Call (OMkdir path 457) (\<lambda>m. pure (o_rc m = 0))))))"
  by pat_completeness auto

termination by (relation "measure length") (auto dest: rfind_char_Some(3))

declare CreatePath.simps [simp del]

fun clear_entries :: "string \<Rightarrow> (string \<times> dtype) list \<Rightarrow> unit ota_prog" where
  "clear_entries d [] = Call OCloseDir (\<lambda>c. if o_rc c \<noteq> 0 then Abort else pure ())"
| "clear_entries d ((name, d_type) # es) =
     (if name = ''.'' \<or> name = ''..'' then clear_entries d es
      else if d_type \<noteq> DT_REG \<and> d_type \<noteq> DT_LNK then clear_entries d es
      else Call (OUnlink (d @ ''/'' @ name)) (\<lambda>_. clear_entries d es))"

definition ClearDirectory :: "string \<Rightarrow> unit ota_prog" where
  "ClearDirectory d = Call (OListDir d) (\<lambda>r. case o_names r of None \<Rightarrow> pure () | Some es \<Rightarrow> clear_entries d es)"

definition AddCompilerOptionFromSystemProperty :: "props \<Rightarrow> string \<Rightarrow> string \<Rightarrow> bool \<Rightarrow> string list" where
  "AddCompilerOptionFromSystemProperty m system_property pre runtime =
     (case m system_property of
        None \<Rightarrow> []
      | Some value \<Rightarrow> (if runtime then [''--runtime-arg''] else []) @ [pre @ value])"

text \<open>
  \<open>x & -n\<close> on 32 bits; \<open>n\<close> is a power of two.  \<open>min_delta % kPageSize\<close> is a remainder of \<open>size_t\<close>, for a
  negative delta that of a number that a power of two divides exactly when it divides the delta.
\<close>

definition RoundDown :: "int \<Rightarrow> int \<Rightarrow> int" where
  "RoundDown x n = x AND (- n)"

definition RoundUp :: "int \<Rightarrow> int \<Rightarrow> int" where
  "RoundUp x n = RoundDown (x + n - 1) n"

text \<open>\<open>None\<close>: a \<open>CHECK\<close> fails.  \<open>r\<close> is the number drawn.\<close>

definition ChooseRelocationOffsetDelta :: "ota_env \<Rightarrow> int \<Rightarrow> int option" where
  "ChooseRelocationOffsetDelta env r =
     (let kPageSize = oe_page env; min_delta = oe_min_delta env; max_delta = oe_max_delta env
      in if min_delta mod kPageSize \<noteq> 0 \<or> max_delta mod kPageSize \<noteq> 0 \<or> \<not> min_delta < max_delta then None
         else (let r = (if r mod 2 = 0 then RoundUp r kPageSize else RoundDown r kPageSize)
               in if min_delta \<le> r \<and> max_delta \<ge> r \<and> r mod kPageSize = 0 then Some r else None))"

text \<open>The format \<open>%x\<close> of an unsigned number.\<close>

fun hex_digits :: "int \<Rightarrow> string" where
  "hex_digits n =
     (if n < 16 then [''0123456789abcdef'' ! nat n] else hex_digits (n div 16) @ [''0123456789abcdef'' ! nat (n mod 16)])"

declare hex_digits.simps [simp del]

definition boot_image_command :: "ota_env \<Rightarrow> props \<Rightarrow> string \<Rightarrow> string \<Rightarrow> string \<Rightarrow> string \<Rightarrow> int \<Rightarrow> string list" where
  "boot_image_command env m boot_cp art_path oat_path isa base_offset =
     [''/apex/com.android.runtime/bin/dex2oat'', ''--image='' @ art_path]
     @ map (\<lambda>boot_part. ''--dex-file='' @ boot_part) (split_on CHR '':'' boot_cp)
     @ [''--oat-file='' @ oat_path,
        ''--base=0x'' @ hex_digits (to_u32 (oe_base env + base_offset)),
        ''--instruction-set='' @ isa]
     @ AddCompilerOptionFromSystemProperty m ''dalvik.vm.image-dex2oat-Xms'' ''-Xms'' True
     @ AddCompilerOptionFromSystemProperty m ''dalvik.vm.image-dex2oat-Xmx'' ''-Xmx'' True
     @ AddCompilerOptionFromSystemProperty m ''dalvik.vm.image-dex2oat-filter'' ''--compiler-filter='' False
     @ [''--image-classes=/system/etc/preloaded-classes'']
     @ (case m ''dalvik.vm.image-dex2oat-flags'' of None \<Rightarrow> [] | Some extra_opts \<Rightarrow> split_on CHR '' '' extra_opts)
     @ AddCompilerOptionFromSystemProperty m ''dalvik.vm.image-dex2oat-threads'' ''-j'' False
     @ AddCompilerOptionFromSystemProperty m (''dalvik.vm.isa.'' @ isa @ ''.variant'') ''--instruction-set-variant='' False
     @ AddCompilerOptionFromSystemProperty m (''dalvik.vm.isa.'' @ isa @ ''.features'') ''--instruction-set-features='' False"

definition Dex2oatBootImage :: "ota_env \<Rightarrow> ota_service \<Rightarrow> string \<Rightarrow> string \<Rightarrow> string \<Rightarrow> string \<Rightarrow> bool ota_prog" where
  "Dex2oatBootImage env s boot_cp art_path oat_path isa =
     Call (ORandom (oe_min_delta env) (oe_max_delta env)) (\<lambda>r.
       case ChooseRelocationOffsetDelta env (o_rc r) of
         None \<Rightarrow> Abort
       | Some base_offset \<Rightarrow> Exec (boot_image_command env (system_properties s) boot_cp art_path oat_path isa base_offset))"

text \<open>\<open>if (access(dir) != 0) { if (!CreatePath(dir)) return false; }\<close>\<close>

definition ensure_path :: "string \<Rightarrow> bool ota_prog" where
  "ensure_path d = Call (OAccess d) (\<lambda>a. if o_rc a \<noteq> 0 then CreatePath d else pure True)"

definition make_boot_image :: "ota_env \<Rightarrow> ota_service \<Rightarrow> bool \<Rightarrow> string \<Rightarrow> string \<Rightarrow> bool ota_prog" where
  "make_boot_image env s force isa isa_path =
     (let art_path = isa_path @ ''/system@framework@boot.art''; oat_path = isa_path @ ''/system@framework@boot.oat'';
          compile = Dex2oatBootImage env s (boot_classpath s) art_path oat_path isa;
          preopted = (\<lambda>cleared. Call (OAccess (''/system/framework/'' @ isa @ ''/boot.art'')) (\<lambda>p.
            if o_rc p = 0 then pure True
            else if \<not> cleared then bindx (ClearDirectory isa_path) (\<lambda>_. compile)
            else compile))
      in Call (OAccess art_path) (\<lambda>a.
           if o_rc a \<noteq> 0 then preopted False
           else Call (OAccess oat_path) (\<lambda>b.
             if o_rc b \<noteq> 0 then preopted False
             else if \<not> force then pure True
             else bindx (ClearDirectory isa_path) (\<lambda>_. preopted True))))"

definition PrepareBootImage :: "ota_env \<Rightarrow> ota_service \<Rightarrow> bool \<Rightarrow> bool ota_prog" where
  "PrepareBootImage env s force =
     (case instruction_set (parameters s) of
        None \<Rightarrow> pure False
      | Some isa \<Rightarrow>
          (let dalvik_cache = GetOTADataDirectory s @ ''/dalvik-cache''; isa_path = dalvik_cache @ ''/'' @ isa
           in Call (OUmask 0) (\<lambda>_.
                bindx (ensure_path dalvik_cache) (\<lambda>ok.
                  if \<not> ok then pure False
                  else bindx (ensure_path isa_path) (\<lambda>ok.
                    if \<not> ok then pure False else make_boot_image env s force isa isa_path)))))"

section \<open>Compiling the package\<close>

definition ShouldSkipPreopt :: "ota_service \<Rightarrow> bool ota_prog" where
  "ShouldSkipPreopt s =
     (case apk_path (parameters s) of
        None \<Rightarrow> Abort
      | Some apk \<Rightarrow>
          (let exists = Call (OAccess apk) (\<lambda>a. pure (o_rc a \<noteq> 0))
           in if prefix (android_root s) apk
              then (case rfind_char CHR ''/'' apk of
                      None \<Rightarrow> exists
                    | Some last_slash \<Rightarrow>
                        Call (OAccess (take (last_slash + 1) apk @ ''oat'')) (\<lambda>a.
                          if o_rc a = 0 then pure True else exists))
              else exists))"

definition run_dexopt :: "ota_service \<Rightarrow> (int \<Rightarrow> 'a ota_prog) \<Rightarrow> 'a ota_prog" where
  "run_dexopt s f = Call (ODexopt (parameters s)) (\<lambda>r. f (o_rc r))"

text \<open>The end of \<open>RunPreopt\<close>: without the profile, if there was one.\<close>

definition downgrade_preopt :: "ota_service \<Rightarrow> int \<Rightarrow> int ota_prog" where
  "downgrade_preopt s dexopt_result =
     (if dexopt_flags (parameters s) AND DEXOPT_PROFILE_GUIDED = 0 then pure dexopt_result
      else run_dexopt (s\<lparr>parameters := (parameters s)\<lparr>dexopt_flags :=
             dexopt_flags (parameters s) AND NOT DEXOPT_PROFILE_GUIDED\<rparr>\<rparr>) pure)"

definition RunPreopt :: "ota_env \<Rightarrow> ota_service \<Rightarrow> int ota_prog" where
  "RunPreopt env s =
     bindx (ShouldSkipPreopt s) (\<lambda>skip.
       if skip then pure 0
       else run_dexopt s (\<lambda>dexopt_result.
         if dexopt_result = 0 then pure 0
         else if WEXITSTATUS dexopt_result = oe_create_runtime env
         then bindx (PrepareBootImage env s True) (\<lambda>ok.
           if \<not> ok then pure dexopt_result
           else run_dexopt s (\<lambda>retry. if retry = 0 then pure 0 else downgrade_preopt s dexopt_result))
         else downgrade_preopt s dexopt_result))"

definition Main :: "ota_env \<Rightarrow> string list \<Rightarrow> ota_service \<Rightarrow> int ota_prog" where
  "Main env argv s =
     (let (ok, p) = ReadArguments argv (parameters s); s = s\<lparr>parameters := p\<rparr>
      in if \<not> ok then pure 1
         else bindx (ReadSystemProperties s) (\<lambda>(ok, s).
           if \<not> ok then pure 2
           else bindx (ReadEnvironment s) (\<lambda>(ok, s).
             if \<not> ok then pure 3
             else bindx (CheckAndInitializeInstalldGlobals s) (\<lambda>ok.
               if \<not> ok then pure 4
               else bindx (PrepareEnvironment s) (\<lambda>s.
                 bindx (PrepareBootImage env s False) (\<lambda>ok.
                   if \<not> ok then pure 5 else RunPreopt env s))))))"

definition otapreopt_main :: "ota_env \<Rightarrow> bool \<Rightarrow> string list \<Rightarrow> ota_service \<Rightarrow> int ota_prog" where
  "otapreopt_main env selinux_enabled argv gOps =
     (if length argv < 2 then exit_process 1
      else if selinux_enabled
      then Call OSelinuxStatus (\<lambda>r. if o_rc r < 0 then exit_process 1 else Main env argv gOps)
      else Main env argv gOps)"

section \<open>The plug-in functions\<close>

definition calculate_oat_file_path :: "ota_service \<Rightarrow> string \<Rightarrow> string \<Rightarrow> string \<Rightarrow> string option" where
  "calculate_oat_file_path s oat apk isa =
     (case rfind_char CHR ''/'' apk of
        None \<Rightarrow> None
      | Some start \<Rightarrow>
          (case rfind_char CHR ''.'' (drop start apk) of
             None \<Rightarrow> None
           | Some n \<Rightarrow>
               Some (cut (oat @ ''/'' @ isa @ ''/'' @ take (n - 1) (drop (start + 1) apk) @ ''.odex.'' @ target_slot (parameters s)))))"

definition calculate_odex_file_path :: "ota_service \<Rightarrow> string \<Rightarrow> string \<Rightarrow> string option" where
  "calculate_odex_file_path s apk isa =
     (case rfind_char CHR ''/'' apk of
        None \<Rightarrow> None
      | Some path_end \<Rightarrow>
          (case rfind_char CHR ''.'' (drop (path_end + 1) apk) of
             None \<Rightarrow> None
           | Some n \<Rightarrow>
               (let new_path = take path_end apk @ ''/oat/'' @ isa @ ''/'' @ take n (drop (path_end + 1) apk) @ ''.odex.''
                      @ target_slot (parameters s)
                in if length new_path \<ge> PKG_PATH_MAX then None else Some new_path)))"

definition create_cache_path :: "ota_service \<Rightarrow> string \<Rightarrow> string \<Rightarrow> string option" where
  "create_cache_path s src isa =
     (if (case src of [] \<Rightarrow> True | c # _ \<Rightarrow> c \<noteq> CHR ''/'') \<or> find_sub ''..'' src \<noteq> None then None
      else if length src > PKG_PATH_MAX then None
      else (let assembled_path = GetOTADataDirectory s @ ''/dalvik-cache/'' @ isa @ ''/''
                  @ map (\<lambda>c. if c = CHR ''/'' then CHR ''@'' else c) (drop 1 src) @ ''@classes.dex''
            in if length assembled_path + 1 > PKG_PATH_MAX then None else Some assembled_path))"

end
