(* ===== verification/OtaPreoptCorrect.thy ===== *)
theory OtaPreoptCorrect
  imports OtaPreopt
begin

text \<open>
  What \<open>otapreopt\<close> promises: the offset of the boot image, the properties it reads, where it writes, when it
  makes a boot image, how often it compiles, and that installd finds what it wrote.
\<close>

section \<open>The offset of the boot image\<close>

lemma RoundDown_power: "RoundDown x (2 ^ k) = x - x mod 2 ^ k"
proof -
  have "x AND NOT (mask k) = push_bit k (drop_bit k x)"
    by (rule bit_eqI) (auto simp: bit_simps)
  also have "\<dots> = x - x mod 2 ^ k"
    by (simp add: push_bit_eq_mult drop_bit_eq_div minus_mod_eq_div_mult)
  finally show ?thesis by (simp add: RoundDown_def minus_exp_eq_not_mask)
qed

lemma aligned_between:
  fixes lo hi :: int
  assumes "n > 0" "lo mod n = 0" "hi mod n = 0" "lo \<le> r" "r \<le> hi"
  shows "lo \<le> r - r mod n" "r + n - 1 - (r + n - 1) mod n \<le> hi" "lo \<le> r + n - 1 - (r + n - 1) mod n"
    "(r + n - 1 - (r + n - 1) mod n) mod n = 0"
proof -
  obtain a b where ab: "lo = n * a" "hi = n * b" using assms(2,3) by (meson dvd_def mod_0_imp_dvd)
  have "a \<le> r div n" using assms(1,4) ab by (metis zdiv_mono1 nonzero_mult_div_cancel_left less_irrefl)
  then have "n * a \<le> n * (r div n)" using assms(1) by simp
  then show "lo \<le> r - r mod n" using ab by (simp add: minus_mod_eq_mult_div)
  have "(r + n - 1) div n \<le> (n * b + (n - 1)) div n" using assms ab by (intro zdiv_mono1) auto
  also have "\<dots> = b" using assms(1) by simp
  finally have "n * ((r + n - 1) div n) \<le> n * b" using assms(1) by simp
  then show "r + n - 1 - (r + n - 1) mod n \<le> hi" using ab by (simp add: minus_mod_eq_mult_div)
  have "(r + n - 1) mod n \<le> n - 1" using assms(1) by (simp add: pos_mod_bound zle_diff1_eq)
  then show "lo \<le> r + n - 1 - (r + n - 1) mod n" using assms(4) by linarith
  show "(r + n - 1 - (r + n - 1) mod n) mod n = 0" by (simp add: minus_mod_eq_mult_div)
qed

lemma rounding_near:
  fixes n r :: int
  assumes "n > 0"
  shows "\<bar>(r + n - 1 - (r + n - 1) mod n) - r\<bar> < n" "\<bar>(r - r mod n) - r\<bar> < n"
proof -
  have m: "0 \<le> x mod n" "x mod n < n" for x using assms by simp_all
  show "\<bar>(r + n - 1 - (r + n - 1) mod n) - r\<bar> < n" unfolding abs_less_iff using m [of "r + n - 1"] by linarith
  show "\<bar>(r - r mod n) - r\<bar> < n" unfolding abs_less_iff using m [of r] by linarith
qed

lemma page_room:
  fixes hi :: int
  assumes "n = (2 :: int) ^ k" "k \<le> 31" "hi mod 2 ^ k = 0" "hi < 2 ^ 31"
  shows "hi + 2 ^ k \<le> 2 ^ 31"
proof -
  obtain x where x: "hi = 2 ^ k * x" using assms(3) by (meson dvd_def mod_0_imp_dvd)
  have p: "(2 :: int) ^ 31 = 2 ^ k * 2 ^ (31 - k)" using assms(2) by (simp flip: power_add)
  from assms(4) have "2 ^ k * x < 2 ^ k * 2 ^ (31 - k)" unfolding x p .
  then have "x < 2 ^ (31 - k)" by (simp add: mult_less_cancel_left_pos)
  then have "x + 1 \<le> 2 ^ (31 - k)" by simp
  then have "2 ^ k * (x + 1) \<le> 2 ^ k * 2 ^ (31 - k)" by (rule mult_left_mono) simp
  then show ?thesis unfolding x p by (simp add: distrib_left)
qed

text \<open> C34: whatever number is drawn between the two bounds of the configuration, the choice of a relocation offset
  passes its own checks: the offset is a multiple of the page size, lies between the bounds and less than a
  page from the number drawn, and no step leaves the range of 32 bits. \<close>

theorem ChooseRelocationOffsetDelta_ok:
  assumes "oe_page env = 2 ^ k" "oe_min_delta env mod oe_page env = 0" "oe_max_delta env mod oe_page env = 0"
    and "oe_min_delta env < oe_max_delta env" "- (2 ^ 31) \<le> oe_min_delta env" "oe_max_delta env < 2 ^ 31" "k \<le> 31"
    and "oe_min_delta env \<le> r" "r \<le> oe_max_delta env"
  shows "\<exists>d. ChooseRelocationOffsetDelta env r = Some d \<and> oe_min_delta env \<le> d \<and> d \<le> oe_max_delta env \<and>
    d mod oe_page env = 0 \<and> \<bar>d - r\<bar> < oe_page env \<and> r + oe_page env - 1 < 2 ^ 31"
proof -
  define n where "n = oe_page env"
  have n: "n > 0" by (simp add: n_def assms(1))
  note assms' = assms(2-4) [folded n_def]
  define d where "d = (if r mod 2 = 0 then r + n - 1 - (r + n - 1) mod n else r - r mod n)"
  have d: "d = (if r mod 2 = 0 then RoundUp r n else RoundDown r n)"
    unfolding d_def RoundUp_def n_def assms(1) RoundDown_power by (rule refl)
  note b = aligned_between [OF n assms'(1,2) assms(8,9)]
  have "\<bar>(r + n - 1 - (r + n - 1) mod n) - r\<bar> < n" "\<bar>(r - r mod n) - r\<bar> < n"
    by (rule rounding_near [OF n])+
  then have near: "\<bar>d - r\<bar> < n" unfolding d_def by (cases "r mod 2 = 0") (simp_all only: simp_thms if_True if_False)
  have down0: "(r - r mod n) mod n = 0" by (simp add: minus_mod_eq_mult_div)
  have mod: "d mod n = 0" unfolding d_def by (cases "r mod 2 = 0") (simp_all only: b down0 simp_thms if_True if_False)
  have "r - r mod n \<le> r" using n by simp
  then have down: "r - r mod n \<le> oe_max_delta env" using assms(9) by (rule order_trans)
  have lo: "oe_min_delta env \<le> d" unfolding d_def by (cases "r mod 2 = 0") (simp_all only: b simp_thms if_True if_False)
  have hi: "d \<le> oe_max_delta env" unfolding d_def by (cases "r mod 2 = 0") (simp_all only: b down simp_thms if_True if_False)
  have "r + n - 1 < 2 ^ 31"
    using page_room [OF refl assms(7) assms'(2) [unfolded n_def assms(1)] assms(6)] assms(9)
    unfolding n_def assms(1) by linarith
  moreover have "ChooseRelocationOffsetDelta env r = Some d"
    unfolding ChooseRelocationOffsetDelta_def Let_def n_def [symmetric] d [symmetric]
    by (simp only: lo hi mod assms' simp_thms if_True if_False)
  ultimately show ?thesis using lo hi mod near unfolding n_def by (intro exI [of _ d] conjI)
qed

definition demo_ota_env :: ota_env where
  "demo_ota_env = \<lparr>oe_base = 0x70000000, oe_min_delta = -0x1000000, oe_max_delta = 0x1000000, oe_page = 4096,
     oe_create_runtime = 2\<rparr>"

theorem ChooseRelocationOffsetDelta_ok_witness:
  "\<exists>d. ChooseRelocationOffsetDelta demo_ota_env (-4097) = Some d \<and> d mod 4096 = 0 \<and> \<bar>d + 4097\<bar> < 4096"
  using ChooseRelocationOffsetDelta_ok [of demo_ota_env 12 "-4097"] by (auto simp: demo_ota_env_def)

section \<open>Properties\<close>

text \<open>The assignments of a text, in order.\<close>

definition assignment :: "string \<Rightarrow> (string \<times> string) list" where
  "assignment line =
     (if line = [] \<or> hd line = CHR ''#'' then []
      else case find_char CHR ''='' line 0 of None \<Rightarrow> [] | Some i \<Rightarrow> if i = 0 then [] else [(take i line, drop (i + 1) line)])"

definition assignments :: "string \<Rightarrow> (string \<times> string) list" where
  "assignments t = concat (map assignment (split_on CHR 0x0A t))"

lemma SetProperty_map: "SetProperty k v m = [k \<mapsto> v] ++ m"
  by (rule ext) (auto simp: SetProperty_def map_add_def split: option.splits)

lemma parse_property_lines:
  "parse_lines property_line ls m = (True, map_of (concat (map assignment ls)) ++ m)"
proof (induction ls arbitrary: m)
  case (Cons l ls)
  have one: "property_line l m = (True, map_of (assignment l) ++ m)" if "l \<noteq> []" "hd l \<noteq> CHR ''#''"
    using that by (auto simp: property_line_def assignment_def SetProperty_map split: option.splits)
  show ?case
  proof (cases "l = [] \<or> hd l = CHR ''#''")
    case True
    with Cons.IH show ?thesis by (auto simp: assignment_def)
  next
    case False
    then have "length (assignment l) \<le> 1" by (auto simp: assignment_def split: option.splits)
    then have "map_of (concat (map assignment ls)) ++ (map_of (assignment l) ++ m) = map_of (assignment l @ concat (map assignment ls)) ++ m"
      by (simp add: map_add_assoc)
    with False Cons.IH one show ?thesis by simp
  qed
qed (simp add: map_add_def split: option.splits)

text \<open> the properties that otapreopt works with are those of the new system: after \<open>ReadSystemProperties\<close>
  succeeds, a key has the value of its first assignment in \<open>/default.prop\<close>, or else of its first one in \<open>/system/build.prop\<close>,
  and nothing that was set before is replaced. \<close>

theorem ReadSystemProperties_first:
  assumes "run (ReadSystemProperties s) os [] = (Some (Live (ok, s')), h)"
  shows "ok \<longleftrightarrow> (\<exists>t u. o_text (os [] (OReadFile ''/default.prop'')) = Some t \<and>
      o_text (os [(OReadFile ''/default.prop'', os [] (OReadFile ''/default.prop''))] (OReadFile ''/system/build.prop'')) = Some u \<and>
      s' = s\<lparr>system_properties := map_of (assignments t @ assignments u) ++ system_properties s\<rparr>)"
  using assms
  by (auto simp: ReadSystemProperties_def Load_def ParseFile_def parse_property_lines assignments_def pure_def
      split: option.splits)


theorem ReadSystemProperties_first_witness:
  "\<forall>s. \<exists>s' h. run (ReadSystemProperties s) (\<lambda>h c. \<lparr>o_rc = 0, o_text = Some ''k=v'', o_names = None, o_status = 0\<rparr>) [] =
      (Some (Live (True, s')), h) \<and> s' = s\<lparr>system_properties := map_of (assignments ''k=v'' @ assignments ''k=v'') ++ system_properties s\<rparr>"
proof
  fix s :: ota_service
  let ?os = "\<lambda>h c. \<lparr>o_rc = 0, o_text = Some ''k=v'', o_names = None, o_status = 0\<rparr>"
  obtain s' h where r: "run (ReadSystemProperties s) ?os [] = (Some (Live (True, s')), h)"
    by (simp add: ReadSystemProperties_def Load_def ParseFile_def parse_property_lines pure_def del: parse_lines.simps split_on.simps)
  from ReadSystemProperties_first [OF r] r show "\<exists>s' h. run (ReadSystemProperties s) ?os [] = (Some (Live (True, s')), h) \<and>
      s' = s\<lparr>system_properties := map_of (assignments ''k=v'' @ assignments ''k=v'') ++ system_properties s\<rparr>" by simp
qed

section \<open>What a process leaves in the history\<close>

text \<open>Where the process returns, \<open>R\<close> relates its result to the calls it made and their replies.\<close>

primrec leaves :: "('c, 'r, 'a) process \<Rightarrow> ('a \<Rightarrow> ('c, 'r) history \<Rightarrow> bool) \<Rightarrow> bool" where
  "leaves (Ret x) R = (case x of Live a \<Rightarrow> R a [] | _ \<Rightarrow> True)"
| "leaves Abort R = True"
| "leaves (Call c k) R = (\<forall>r. leaves (k r) (\<lambda>a t. R a ((c, r) # t)))"

lemma leaves_ends [simp]: "leaves (pure a) R = R a []" "leaves (exit_process n) R"
  by (simp_all add: pure_def exit_process_def)

lemma leaves_If: "(b \<Longrightarrow> leaves p R) \<Longrightarrow> (\<not> b \<Longrightarrow> leaves q R) \<Longrightarrow> leaves (if b then p else q) R"
  by simp

lemma leaves_Call: "(\<And>r. leaves (k r) (\<lambda>a t. R a ((c, r) # t))) \<Longrightarrow> leaves (Call c k) R"
  by simp

lemma leaves_bindx [simp]: "leaves (bindx p f) R \<longleftrightarrow> leaves p (\<lambda>a t. leaves (f a) (\<lambda>b u. R b (t @ u)))"
proof (induction p arbitrary: R)
  case (Ret x)
  then show ?case by (cases x) simp_all
qed simp_all

lemma leaves_mono: "leaves p R \<Longrightarrow> (\<And>a t. R a t \<Longrightarrow> S a t) \<Longrightarrow> leaves p S"
proof (induction p arbitrary: R S)
  case (Ret x)
  then show ?case by (cases x) auto
next
  case (Call c k)
  have "leaves (k r) (\<lambda>a t. S a ((c, r) # t))" for r
    by (rule Call.IH [OF rangeI, of r "\<lambda>a t. R a ((c, r) # t)"]) (use Call.prems in auto)
  then show ?case by simp
qed simp

lemma leaves_conj: "leaves p R \<Longrightarrow> leaves p S \<Longrightarrow> leaves p (\<lambda>a t. R a t \<and> S a t)"
proof (induction p arbitrary: R S)
  case (Ret x)
  then show ?case by (cases x) auto
qed auto

lemma leaves_sound: "leaves p R \<Longrightarrow> run p os h = (Some (Live a), h') \<Longrightarrow> \<exists>t. h' = h @ t \<and> R a t"
proof (induction p arbitrary: R h)
  case (Call c k)
  then have "leaves (k (os h c)) (\<lambda>a t. R a ((c, os h c) # t))"
    "run (k (os h c)) os (h @ [(c, os h c)]) = (Some (Live a), h')" by simp_all
  from Call.IH [OF rangeI this] show ?case by auto
qed auto

lemma wp_leaves: "wp M p Q s \<Longrightarrow> leaves p (\<lambda>a t. \<exists>s'. watch M s t = Some s' \<and> Q a s')"
proof (induction p arbitrary: s)
  case (Ret x)
  then show ?case by (cases x) auto
next
  case (Call c k)
  have "leaves (k r) (\<lambda>a t. \<exists>s'. watch M s ((c, r) # t) = Some s' \<and> Q a s')" for r
  proof -
    from Call.prems obtain s1 where "M s c r = Some s1" "wp M (k r) Q s1"
      by (auto split: option.splits)
    with Call.IH [OF rangeI this(2)] show ?thesis by simp
  qed
  then show ?case by simp
qed simp

section \<open>Attempts\<close>

text \<open>The compilations of a run with their results.\<close>

definition attempts :: "(ota_call, ota_reply) history \<Rightarrow> (ota_params \<times> int) list" where
  "attempts t = concat (map (\<lambda>(c, r). case c of ODexopt p \<Rightarrow> [(p, o_rc r)] | _ \<Rightarrow> []) t)"

fun dexopts :: "(ota_call, ota_reply, (ota_params \<times> int) list) monitor" where
  "dexopts ds (ODexopt p) r = Some (ds @ [(p, o_rc r)])"
| "dexopts ds c r = Some ds"

lemma watch_dexopts: "watch dexopts ds t = Some (ds @ attempts t)"
proof (induction t arbitrary: ds)
  case (Cons x t)
  obtain c r where x: "x = (c, r)" by force
  have "dexopts ds c r = Some (ds @ attempts [x])" by (cases c) (simp_all add: attempts_def x)
  with Cons show ?case by (simp add: x attempts_def)
qed (simp add: attempts_def)

text \<open>Programs that compile nothing.\<close>

definition compiles_not :: "'a ota_prog \<Rightarrow> bool" where
  "compiles_not p \<longleftrightarrow> calls_within (\<lambda>c. \<forall>x. c \<noteq> ODexopt x) p"

lemma wp_dexopts_same:
  "compiles_not p \<Longrightarrow> (\<And>a. Q a ds) \<Longrightarrow> wp dexopts p Q ds"
proof (induction p)
  case (Ret x)
  then show ?case by (cases x) auto
next
  case (Call c k)
  then have "dexopts ds c r = Some ds" for r by (cases c) (auto simp: compiles_not_def)
  with Call show ?case by (auto simp: compiles_not_def)
qed simp

lemma ota_calls_within_bindx [simp]:
  "calls_within C p \<Longrightarrow> (\<And>a. calls_within C (f a)) \<Longrightarrow> calls_within C (bindx p f)"
  unfolding bindx_def by (rule calls_within_bindp) (auto split: proc.split)

lemma calls_within_ends [simp]: "calls_within C (pure a)" "calls_within C (exit_process n)"
  by (simp_all add: pure_def exit_process_def)

text \<open>The calls of a boot image.\<close>

fun boot_call :: "string \<Rightarrow> ota_call \<Rightarrow> bool" where
  "boot_call isa_path (OMkdir d m) = prefix d isa_path"
| "boot_call isa_path (OUnlink f) = (\<exists>name. f = isa_path @ ''/'' @ name \<and> name \<notin> {''.'', ''..''})"
| "boot_call isa_path (OListDir d) = (d = isa_path)"
| "boot_call isa_path (OExecv b argv) = (b = ''/apex/com.android.runtime/bin/dex2oat'' \<and> argv \<noteq> [] \<and> hd argv = b)"
| "boot_call isa_path (ODexopt p) = False"
| "boot_call isa_path c = True"

lemma boot_call_CreatePath: "prefix path isa_path \<Longrightarrow> calls_within (boot_call isa_path) (CreatePath path)"
proof (induction path rule: measure_induct_rule [of length])
  case (less path)
  have "calls_within (boot_call isa_path) (CreatePath (take i path))" if "rfind_char CHR ''/'' path = Some i" for i
  proof (rule less.IH)
    show "length (take i path) < length path" using rfind_char_Some(3) [OF that] by simp
    show "prefix (take i path) isa_path" using less.prems take_is_prefix prefix_order.order_trans by blast
  qed
  with less.prems show ?case by (subst CreatePath.simps) (auto split: option.split)
qed

lemma boot_call_clear: "calls_within (boot_call d) (clear_entries d es)"
  by (induction d es rule: clear_entries.induct) auto

lemma boot_call_ClearDirectory: "calls_within (boot_call d) (ClearDirectory d)"
  by (auto simp: ClearDirectory_def boot_call_clear split: option.split)

lemma boot_call_Exec: "hd argv = ''/apex/com.android.runtime/bin/dex2oat'' \<Longrightarrow> calls_within (boot_call d) (Exec argv)"
  by (auto simp: Exec_def)

lemma boot_call_dex2oat: "calls_within (boot_call d) (Dex2oatBootImage env s cp art oat isa)"
  by (auto simp: Dex2oatBootImage_def boot_image_command_def intro!: boot_call_Exec split: option.split)

lemma boot_call_make: "calls_within (boot_call d) (make_boot_image env s force isa d)"
  by (auto simp: make_boot_image_def Let_def boot_call_ClearDirectory boot_call_dex2oat)

definition boot_dir :: "ota_service \<Rightarrow> string \<Rightarrow> string" where
  "boot_dir s isa = GetOTADataDirectory s @ ''/dalvik-cache/'' @ isa"

lemma boot_call_ensure: "prefix d isa_path \<Longrightarrow> calls_within (boot_call isa_path) (ensure_path d)"
  by (auto simp: ensure_path_def boot_call_CreatePath)

lemma boot_call_PrepareBootImage:
  assumes "instruction_set (parameters s) = Some isa"
  shows "calls_within (boot_call (boot_dir s isa)) (PrepareBootImage env s force)"
proof -
  let ?c = "GetOTADataDirectory s @ ''/dalvik-cache''"
  have d: "?c @ ''/'' @ isa = boot_dir s isa" by (simp add: boot_dir_def)
  then have "prefix ?c (boot_dir s isa)" by (metis prefixI)
  note e = boot_call_ensure [OF this] boot_call_ensure [OF prefix_order.refl [of "boot_dir s isa"]]
  show ?thesis
    unfolding PrepareBootImage_def Let_def d assms option.case
    by (simp only: calls_within.simps boot_call.simps simp_thms, intro allI ota_calls_within_bindx)
      (simp_all add: e boot_call_make split: if_split)
qed

lemma compiles_not_boot: "compiles_not (PrepareBootImage env s force)"
proof (cases "instruction_set (parameters s)")
  case (Some isa)
  have "calls_within C p \<Longrightarrow> (\<And>c. C c \<Longrightarrow> D c) \<Longrightarrow> calls_within D p" for C D and p :: "bool ota_prog"
    by (induction p) auto
  note mono = this
  show ?thesis
    unfolding compiles_not_def by (rule mono [OF boot_call_PrepareBootImage [OF Some]]) auto
qed (simp add: PrepareBootImage_def compiles_not_def)

lemma compiles_not_skip: "compiles_not (ShouldSkipPreopt s)"
  by (auto simp: ShouldSkipPreopt_def compiles_not_def Let_def split: option.split)

text \<open>Without the profile.\<close>

definition unprofiled :: "ota_params \<Rightarrow> ota_params" where
  "unprofiled p = p\<lparr>dexopt_flags := dexopt_flags p AND NOT DEXOPT_PROFILE_GUIDED\<rparr>"

definition profiled :: "ota_params \<Rightarrow> bool" where
  "profiled p \<longleftrightarrow> dexopt_flags p AND DEXOPT_PROFILE_GUIDED \<noteq> 0"

definition preopt_contract :: "ota_env \<Rightarrow> ota_params \<Rightarrow> int \<Rightarrow> (ota_params \<times> int) list \<Rightarrow> bool" where
  "preopt_contract env p n ds \<longleftrightarrow>
     (ds = [] \<longrightarrow> n = 0) \<and> (ds \<noteq> [] \<longrightarrow> (n = 0 \<longleftrightarrow> snd (last ds) = 0)) \<and>
     (\<forall>d \<in> set (butlast ds). snd d \<noteq> 0) \<and>
     map fst ds \<in> {[], [p], [p, p], [p, unprofiled p], [p, p, unprofiled p]} \<and>
     (length ds = 3 \<longrightarrow> profiled p) \<and>
     (1 < length ds \<and> (length ds = 3 \<or> \<not> profiled p) \<longrightarrow> WEXITSTATUS (snd (hd ds)) = oe_create_runtime env) \<and>
     (n \<noteq> 0 \<and> profiled p \<longrightarrow> fst (last ds) = unprofiled p \<or> WEXITSTATUS (snd (hd ds)) = oe_create_runtime env)"

lemma wp_RunPreopt: "wp dexopts (RunPreopt env s) (preopt_contract env (parameters s)) []"
  unfolding RunPreopt_def downgrade_preopt_def run_dexopt_def
  by (auto simp: preopt_contract_def profiled_def unprofiled_def
      intro!: wp_dexopts_same [OF compiles_not_skip] wp_dexopts_same [OF compiles_not_boot])

text \<open> How otapreopt compiles a package.  There are at most three attempts, all with the parameters of the command
  line but for the last, which may leave out the profile; an attempt is made again only after one that failed; with the same
  parameters only when dex2oat could not create its runtime.  The result is 0 exactly when nothing had to be
  compiled or the last attempt succeeded, and a profile-guided compilation is given up only after an attempt without the
  profile, unless the boot image could not be made again. \<close>

lemma RunPreopt_attempts:
  assumes "run (RunPreopt env s) os [] = (Some (Live n), h)"
  shows "preopt_contract env (parameters s) n (attempts h)"
  using wp_sound [OF wp_RunPreopt assms] watch_dexopts [of "[]"] by force


definition demo_ota_params :: ota_params where
  "demo_ota_params = \<lparr>apk_path = Some ''/data/app/a.apk'', uid = 10001, pkgName = Some ''com.example'', instruction_set = Some ''arm64'',
     dexopt_needed = 1, oat_dir = Some ''/data/app/oat'', dexopt_flags = 16, compiler_filter = Some ''speed-profile'',
     volume_uuid = None, shared_libraries = None, se_info = None, downgrade = False, target_sdk_version = 28,
     profile_name = Some ''primary.prof'', dex_metadata_path = None, compilation_reason = Some ''ab-ota'', target_slot = ''_b''\<rparr>"

definition demo_ota :: ota_service where
  "demo_ota = \<lparr>system_properties = Map.empty, android_root = ''/system'', android_data = ''/data'',
     boot_classpath = ''/system/framework/core.jar'', asec_mountpoint = ''/mnt/asec'', parameters = demo_ota_params, environment = []\<rparr>"

definition ota_result :: "int \<Rightarrow> ota_reply" where
  "ota_result n = \<lparr>o_rc = n, o_text = None, o_names = Some [], o_status = 0\<rparr>"

section \<open>The command line\<close>

text \<open>The parameters that the compilation reads without a test for null.\<close>

definition pointers_set :: "ota_params \<Rightarrow> bool" where
  "pointers_set p \<longleftrightarrow> apk_path p \<noteq> None \<and> pkgName p \<noteq> None \<and> instruction_set p \<noteq> None \<and> oat_dir p \<noteq> None \<and>
     compiler_filter p \<noteq> None"

lemma pointers_set_spec [simp]: "pointers_set (ota_spec v slot ps)" "pointers_set (ota_spec_v1 slot ps)"
  by (simp_all add: pointers_set_def ota_spec_def ota_spec_v1_def)

lemma target_slot_spec [simp]: "target_slot (ota_spec v slot ps) = slot" "target_slot (ota_spec_v1 slot ps) = slot"
  by (simp_all add: ota_spec_def ota_spec_v1_def)

lemma PostV1_pointers:
  assumes "ReadArgumentsPostV1 v argv b p = (True, p')"
  shows "pointers_set p' \<and> target_slot p' = target_slot p"
proof -
  from assms obtain n where n: "num_args_expected v = Some n" by (auto simp: ReadArgumentsPostV1_def split: option.splits)
  with assms have a: "argv_at argv (if b then 3 else 2) = Some ''dexopt''"
    by (auto simp: ReadArgumentsPostV1_def Let_def split: option.splits if_splits)
  from assms show ?thesis unfolding ReadArgumentsPostV1_spec [OF n refl a] by (auto split: if_splits)
qed

lemma ReadArguments_pointers:
  assumes "ReadArguments argv p = (True, p')"
  shows "pointers_set p' \<and> ValidateTargetSlotSuffix (target_slot p')"
proof -
  from assms obtain slot where slot: "argv_at argv 1 = Some slot" by (auto simp: ReadArguments_def split: option.splits)
  let ?p = "p\<lparr>target_slot := slot\<rparr>"
  from assms slot have v: "ValidateTargetSlotSuffix slot" by (auto simp: ReadArguments_def Let_def split: if_splits)
  from assms slot v obtain a where a: "argv_at argv 2 = Some a" by (auto simp: ReadArguments_def Let_def split: option.splits)
  show ?thesis
  proof (cases "a = ''dexopt'' \<and> length argv \<noteq> 14")
    case False
    with assms slot v a obtain w b where "ReadArgumentsPostV1 w argv b ?p = (True, p')"
      by (auto simp: ReadArguments_def Let_def split: if_splits option.splits)
    from PostV1_pointers [OF this] v show ?thesis by simp
  next
    case True
    then have "ReadArgumentsV1 argv ?p = (True, p')" using assms slot v a by (auto simp: ReadArguments_def Let_def)
    with a True obtain i where l: "v1_loop 0 (drop 3 argv) (SetDefaultsForPostV1Arguments ?p) = (Some i, p')" and i: "i = 10"
      by (auto simp: ReadArgumentsV1_def split: prod.splits option.splits)
    have "length (drop 3 argv) = 10" using v1_loop_index [of 0 "drop 3 argv" "SetDefaultsForPostV1Arguments ?p"] l i
      by (auto split: if_splits)
    from v1_loop_spec [OF this, of ?p] l v show ?thesis by simp
  qed
qed

text \<open> C33: whatever the command line, after it was read with success every parameter that is used without a test is
  there, so that no null pointer is followed, and the suffix of the slot consists of letters, digits and underscores only. \<close>

theorem ReadArguments_typed:
  assumes "ReadArguments argv p = (True, p')"
  shows "pointers_set p' \<and> ValidateTargetSlotSuffix (target_slot p')"
  by (rule ReadArguments_pointers [OF assms])

theorem ReadArguments_typed_witness:
  "\<exists>p'. ReadArguments (''otapreopt'' # ''_b'' # ''dexopt'' # replicate 10 ''0'') demo_ota_params = (True, p') \<and>
    pointers_set p' \<and> ValidateTargetSlotSuffix (target_slot p')"
proof -
  have "ReadArguments (''otapreopt'' # ''_b'' # ''dexopt'' # replicate 10 ''0'') demo_ota_params =
      (True, ota_spec_v1 ''_b'' (replicate 10 ''0''))"
    by (subst ReadArguments_unversioned) (simp add: ValidateTargetSlotSuffix_def)
  with ReadArguments_typed [OF this] show ?thesis by blast
qed

section \<open>The driver\<close>

lemma compiles_not_basics [simp]: "compiles_not (pure a)" "compiles_not (Ret x)"
  "(\<And>x. c \<noteq> ODexopt x) \<Longrightarrow> (\<And>r. compiles_not (k r)) \<Longrightarrow> compiles_not (Call c k)"
  "compiles_not q \<Longrightarrow> (\<And>a. compiles_not (f a)) \<Longrightarrow> compiles_not (bindx q f)"
  by (auto simp: compiles_not_def)

lemma compiles_not_reading:
  "compiles_not (ReadSystemProperties s)" "compiles_not (ReadEnvironment s)" "compiles_not (CheckAndInitializeInstalldGlobals s)"
proof -
  have f: "compiles_not (ParseFile n parse x)" for n x and parse :: "string \<Rightarrow> props \<Rightarrow> bool \<times> props"
    by (auto simp: ParseFile_def split: option.split)
  show "compiles_not (ReadSystemProperties s)" by (auto simp: ReadSystemProperties_def Load_def f split: prod.split)
  show "compiles_not (ReadEnvironment s)" by (auto simp: ReadEnvironment_def Let_def f split: prod.split option.split)
  show "compiles_not (CheckAndInitializeInstalldGlobals s)"
    by (auto simp: CheckAndInitializeInstalldGlobals_def compiles_not_def)
qed

text \<open>A device on which \<open>dexopt\<close> fails with the profile and succeeds without it, and what it reads.\<close>

definition export_text :: string where
  "export_text = ''export ANDROID_DATA /data'' @ [CHR 0x0A] @ ''  export ANDROID_ROOT /system'' @ [CHR 0x0A] @
     ''export BOOTCLASSPATH /core.jar'' @ [CHR 0x0A] @ ''export ASEC_MOUNTPOINT /mnt/asec'' @ [CHR 0x0A]"

definition profile_os :: "(ota_call, ota_reply) os_oracle" where
  "profile_os h c = (case c of ODexopt p \<Rightarrow> ota_result (if dexopt_flags p = 2064 then 256 else 0)
     | OInitGlobals d r \<Rightarrow> ota_result 1
     | OReadFile f \<Rightarrow> (ota_result 0)\<lparr>o_text := Some (if f = ''/init.environ.rc'' then export_text else [])\<rparr>
     | _ \<Rightarrow> ota_result 0)"

definition demo_argv :: "string list" where
  "demo_argv = [''otapreopt'', ''_b'', ''dexopt'', ''/data/app/a.apk'', ''10001'', ''com.example'', ''arm64'', ''1'',
     ''/data/app/oat'', ''16'', ''speed-profile'', ''!'', ''!'', ''!'']"

definition demo_read :: ota_params where
  "demo_read = \<lparr>apk_path = Some ''/data/app/a.apk'', uid = 10001, pkgName = Some ''com.example'', instruction_set = Some ''arm64'',
     dexopt_needed = 1, oat_dir = Some ''/data/app/oat'', dexopt_flags = 2064, compiler_filter = Some ''speed-profile'',
     volume_uuid = None, shared_libraries = None, se_info = None, downgrade = False, target_sdk_version = 0,
     profile_name = Some ''primary.prof'', dex_metadata_path = None, compilation_reason = Some ''ab-ota'', target_slot = ''_b''\<rparr>"

lemma demo_read: "ReadArguments demo_argv demo_ota_params = (True, demo_read)"
  by code_simp

lemma demo_exports:
  "split_on CHR 0x0A export_text = [''export ANDROID_DATA /data'', ''  export ANDROID_ROOT /system'',
     ''export BOOTCLASSPATH /core.jar'', ''export ASEC_MOUNTPOINT /mnt/asec'', []]"
  "match_export ''export ANDROID_DATA /data'' = Some (''ANDROID_DATA'', ''/data'')"
  "match_export ''  export ANDROID_ROOT /system'' = Some (''ANDROID_ROOT'', ''/system'')"
  "match_export ''export BOOTCLASSPATH /core.jar'' = Some (''BOOTCLASSPATH'', ''/core.jar'')"
  "match_export ''export ASEC_MOUNTPOINT /mnt/asec'' = Some (''ASEC_MOUNTPOINT'', ''/mnt/asec'')"
  by (code_simp, code_simp, code_simp, code_simp, code_simp)

lemma demo_environment: "\<exists>m. parse_lines export_line (split_on CHR 0x0A export_text) Map.empty = (True, m) \<and>
    m ''ANDROID_DATA'' = Some ''/data'' \<and> m ''ANDROID_ROOT'' = Some ''/system'' \<and> m ''BOOTCLASSPATH'' = Some ''/core.jar'' \<and>
    m ''ASEC_MOUNTPOINT'' = Some ''/mnt/asec''"
  by (simp add: demo_exports(1) export_line_def demo_exports(2-) SetProperty_def)

lemma demo_main: "(case run (Main demo_ota_env demo_argv demo_ota) profile_os [] of (res, h) \<Rightarrow>
    res = Some (Live 0) \<and> map (\<lambda>(p, n). (dexopt_flags p, n)) (attempts h) = [(2064, 256), (2048, 0)])"
proof -
  obtain m where m: "parse_lines export_line (split_on CHR 0x0A export_text) Map.empty = (True, m)"
    "m ''ANDROID_DATA'' = Some ''/data''" "m ''ANDROID_ROOT'' = Some ''/system''" "m ''BOOTCLASSPATH'' = Some ''/core.jar''"
    "m ''ASEC_MOUNTPOINT'' = Some ''/mnt/asec''" using demo_environment by blast
  have p: "parameters demo_ota = demo_ota_params" "system_properties demo_ota = Map.empty" "environment demo_ota = []"
    by (simp_all add: demo_ota_def)
  show ?thesis
    by (simp add: Main_def p demo_read Let_def ReadSystemProperties_def Load_def ParseFile_def profile_os_def ota_result_def
        ReadEnvironment_def m CheckAndInitializeInstalldGlobals_def PrepareEnvironment_def PrepareBootImage_def demo_read_def
        ensure_path_def make_boot_image_def RunPreopt_def ShouldSkipPreopt_def run_dexopt_def downgrade_preopt_def
        DexSecondary.DEXOPT_PROFILE_GUIDED_def WEXITSTATUS_def demo_ota_env_def attempts_def pure_def)
qed

section \<open>The boot image\<close>

text \<open> preparing the boot image touches nothing but the directory of the image: directories are made only on
  the way to it, only entries of it are unlinked, and only dex2oat is executed. \<close>

theorem PrepareBootImage_confined:
  assumes "run (PrepareBootImage env s force) os [] = (res, u @ (c, r) # v)" "instruction_set (parameters s) = Some isa"
  shows "boot_call (boot_dir s isa) c"
  by (rule calls_within_run [OF boot_call_PrepareBootImage [OF assms(2)] assms(1)])

text \<open>
  The histories of a directory that was cleared: it was listed, every regular file and every link in it was asked to be
  unlinked and the stream was closed, or it could not be opened, which the code only reports.
\<close>

definition cleared_entries :: "string \<Rightarrow> (string \<times> dtype) list \<Rightarrow> ota_call list" where
  "cleared_entries d es =
     map (\<lambda>(name, k). OUnlink (d @ ''/'' @ name))
       (filter (\<lambda>(name, k). name \<notin> {''.'', ''..''} \<and> k \<in> {DT_REG, DT_LNK}) es) @ [OCloseDir]"

definition cleared :: "string \<Rightarrow> (ota_call, ota_reply) history \<Rightarrow> bool" where
  "cleared d t \<longleftrightarrow> (\<exists>r c. t = (OListDir d, r) # c \<and>
     map fst c = (case o_names r of None \<Rightarrow> [] | Some es \<Rightarrow> cleared_entries d es))"

lemma leaves_clear:
  "(\<And>c. map fst c = cleared_entries d es \<Longrightarrow> R () c) \<Longrightarrow> leaves (clear_entries d es) R"
proof (induction d es arbitrary: R rule: clear_entries.induct)
  case (1 d)
  then show ?case by (auto simp: cleared_entries_def)
next
  case (2 d name k es)
  show ?case
  proof (cases "(name = ''.'' \<or> name = ''..'') \<or> k \<noteq> DT_REG \<and> k \<noteq> DT_LNK")
    case True
    then have "cleared_entries d ((name, k) # es) = cleared_entries d es" by (auto simp: cleared_entries_def)
    with 2 True show ?thesis by auto
  next
    case False
    then have "cleared_entries d ((name, k) # es) = OUnlink (d @ ''/'' @ name) # cleared_entries d es"
      by (auto simp: cleared_entries_def)
    with 2 False show ?thesis by auto
  qed
qed

lemma leaves_ClearDirectory: "(\<And>c. cleared d c \<Longrightarrow> R () c) \<Longrightarrow> leaves (ClearDirectory d) R"
  by (auto simp: ClearDirectory_def cleared_def intro!: leaves_clear split: option.split)

text \<open>The histories of an image that was compiled: the child that was to run dex2oat was waited for and exited with 0.\<close>

definition compiled :: "(ota_call, ota_reply) history \<Rightarrow> bool" where
  "compiled t \<longleftrightarrow> (\<exists>x y r f w. t = [(ORandom x y, r), (OFork, f), (OWaitpid (o_rc f), w)] \<and> o_rc f \<noteq> 0 \<and>
     o_rc w = o_rc f \<and> WIFEXITED (o_status w) \<and> WEXITSTATUS (o_status w) = 0)"

definition boot_art :: "ota_service \<Rightarrow> string \<Rightarrow> string" where
  "boot_art s isa = boot_dir s isa @ ''/system@framework@boot.art''"

definition boot_oat :: "ota_service \<Rightarrow> string \<Rightarrow> string" where
  "boot_oat s isa = boot_dir s isa @ ''/system@framework@boot.oat''"

definition system_art :: "string \<Rightarrow> string" where
  "system_art isa = ''/system/framework/'' @ isa @ ''/boot.art''"

definition image_ready :: "ota_service \<Rightarrow> string \<Rightarrow> bool \<Rightarrow> (ota_call, ota_reply) history \<Rightarrow> bool" where
  "image_ready s isa force t \<longleftrightarrow>
     (\<exists>u a b. t = u @ [(OAccess (boot_art s isa), a), (OAccess (boot_oat s isa), b)] \<and> \<not> force \<and> o_rc a = 0 \<and> o_rc b = 0) \<or>
     (\<exists>u a. t = u @ [(OAccess (system_art isa), a)] \<and> o_rc a = 0) \<or>
     (\<exists>u c v w. t = u @ c @ v @ w \<and> cleared (boot_dir s isa) c \<and> (v = [] \<or> (\<exists>a. v = [(OAccess (system_art isa), a)])) \<and>
        compiled w)"

text \<open>The last call of a run that has no image failed.\<close>

fun failed_call :: "ota_call \<times> ota_reply \<Rightarrow> bool" where
  "failed_call (OMkdir d m, r) = (o_rc r \<noteq> 0)"
| "failed_call (OErrno, r) = True"
| "failed_call (OFork, r) = (o_rc r = -1)"
| "failed_call (OWaitpid pid, r) = (\<not> (o_rc r = pid \<and> WIFEXITED (o_status r) \<and> WEXITSTATUS (o_status r) = 0))"
| "failed_call x = False"

definition image_failed :: "(ota_call, ota_reply) history \<Rightarrow> bool" where
  "image_failed t \<longleftrightarrow> t \<noteq> [] \<and> failed_call (last t)"

lemma ready_not_failed: "image_ready s isa force t \<Longrightarrow> \<not> image_failed t"
  by (auto simp: image_ready_def image_failed_def compiled_def)

lemma image_failed_simps [simp]:
  "\<not> image_failed []" "image_failed (x # t) \<longleftrightarrow> (if t = [] then failed_call x else image_failed t)"
  "image_failed (u @ x # t) \<longleftrightarrow> image_failed (x # t)"
  by (auto simp: image_failed_def)

lemma image_failed_append: "image_failed t \<Longrightarrow> image_failed (u @ t)"
  by (cases t) auto

lemma leaves_CreatePath:
  assumes "\<And>ok t. (\<not> ok \<Longrightarrow> image_failed t) \<Longrightarrow> R ok t"
  shows "leaves (CreatePath path) R"
  using assms
proof (induction path arbitrary: R rule: measure_induct_rule [of length])
  case (less path)
  have IH: "leaves (CreatePath (take i path)) R'"
    if "rfind_char CHR ''/'' path = Some i" "\<And>ok t. (\<not> ok \<Longrightarrow> image_failed t) \<Longrightarrow> R' ok t" for i R'
    by (rule less.IH) (use rfind_char_Some(3) [OF that(1)] that(2) in auto)
  show ?case
    by (subst CreatePath.simps)
      (auto split: option.split intro!: IH less.prems image_failed_append split: if_splits)
qed

lemma leaves_ensure:
  assumes "\<And>ok t. (\<not> ok \<Longrightarrow> image_failed t) \<Longrightarrow> R ok t"
  shows "leaves (ensure_path d) R"
  by (auto simp: ensure_path_def intro!: leaves_CreatePath assms)

lemma leaves_dex2oat:
  assumes "\<And>t. compiled t \<Longrightarrow> R True t" "\<And>t. image_failed t \<Longrightarrow> R False t"
  shows "leaves (Dex2oatBootImage env s cp art oat isa) R"
proof -
  have leaf: "R (WIFEXITED (o_status w) \<and> WEXITSTATUS (o_status w) = 0) [(ORandom x y, r), (OFork, f), (OWaitpid (o_rc f), w)]"
    if "o_rc f \<noteq> 0" "o_rc w = o_rc f" for x y r f w
    using that assms by (cases "WIFEXITED (o_status w) \<and> WEXITSTATUS (o_status w) = 0") (auto simp: compiled_def)
  have "R False [(ORandom x y, r), (OFork, f), (OWaitpid (o_rc f), w)]" if "o_rc w \<noteq> o_rc f" for x y r f w
    using that by (intro assms(2)) simp
  moreover have "R False [(ORandom x y, r), (OFork, f)]" if "o_rc f = -1" for x y r f
    using that by (intro assms(2)) simp
  ultimately show ?thesis
    using leaf by (simp add: Dex2oatBootImage_def Exec_def boot_image_command_def split: option.split)
qed

definition boot_outcome :: "ota_service \<Rightarrow> string \<Rightarrow> bool \<Rightarrow> bool \<Rightarrow> (ota_call, ota_reply) history \<Rightarrow> bool" where
  "boot_outcome s isa force ok t \<longleftrightarrow> (if ok then image_ready s isa force t else image_failed t)"

lemma boot_outcome_compiled:
  "cleared (boot_dir s isa) c \<Longrightarrow> v = [] \<or> (\<exists>a. v = [(OAccess (system_art isa), a)]) \<Longrightarrow> compiled w \<Longrightarrow>
   boot_outcome s isa force True (u @ c @ v @ w)"
  unfolding boot_outcome_def image_ready_def if_True
  by (rule disjI2, rule disjI2, rule exI [of _ u], rule exI [of _ c], rule exI [of _ v], rule exI [of _ w]) simp

lemma boot_outcome_system:
  "o_rc a = 0 \<Longrightarrow> boot_outcome s isa force True (u @ [(OAccess (system_art isa), a)])"
  by (auto simp: boot_outcome_def image_ready_def)

lemma boot_outcome_found:
  "o_rc a = 0 \<Longrightarrow> o_rc b = 0 \<Longrightarrow> \<not> force \<Longrightarrow>
   boot_outcome s isa force True (u @ [(OAccess (boot_art s isa), a), (OAccess (boot_oat s isa), b)])"
  by (auto simp: boot_outcome_def image_ready_def)

lemma boot_outcome_failed: "image_failed t \<Longrightarrow> boot_outcome s isa force False (u @ t)"
  by (simp add: boot_outcome_def image_failed_append)

lemma leaves_compile_cleared:
  assumes "cleared (boot_dir s isa) c" "v = [] \<or> (\<exists>a. v = [(OAccess (system_art isa), a)])"
  shows "leaves (Dex2oatBootImage env s cp art oat isa) (\<lambda>ok t. boot_outcome s isa force ok (u @ c @ v @ t))"
proof (rule leaves_dex2oat)
  show "boot_outcome s isa force True (u @ c @ v @ w)" if "compiled w" for w
    using boot_outcome_compiled [OF assms that] .
  show "boot_outcome s isa force False (u @ c @ v @ t)" if "image_failed t" for t
    using boot_outcome_failed [OF that, of s isa force "u @ c @ v"] by simp
qed

lemma leaves_make:
  "leaves (make_boot_image env s force isa (boot_dir s isa)) (\<lambda>ok t. boot_outcome s isa force ok (u @ t))"
proof -
  let ?d = "boot_dir s isa" and ?sys = "OAccess (system_art isa)"
  let ?art = "OAccess (boot_art s isa)" and ?oat = "OAccess (boot_oat s isa)"
  let ?C = "Dex2oatBootImage env s (boot_classpath s) (boot_art s isa) (boot_oat s isa) isa"
  let ?R = "\<lambda>u ok t. boot_outcome s isa force ok (u @ t)"
  let ?again = "Call ?sys (\<lambda>p. if o_rc p = 0 then pure True else ?C)"
  let ?first = "Call ?sys (\<lambda>p. if o_rc p = 0 then pure True else bindx (ClearDirectory ?d) (\<lambda>_. ?C))"
  have R: "?R u ok (x # t) = ?R (u @ [x]) ok t" for u ok x t by simp
  have fresh: "leaves (bindx (ClearDirectory ?d) (\<lambda>_. ?C)) (?R u)" for u
    unfolding leaves_bindx
    by (rule leaves_ClearDirectory) (use leaves_compile_cleared [where v = "[]"] in simp)
  have again: "leaves (bindx (ClearDirectory ?d) (\<lambda>_. ?again)) (?R u)" for u
    unfolding leaves_bindx
  proof (rule leaves_ClearDirectory)
    fix c assume c: "cleared ?d c"
    have "leaves ?C (\<lambda>ok t. boot_outcome s isa force ok (u @ c @ (?sys, p) # t))" for p
      using leaves_compile_cleared [OF c, of "[(?sys, p)]"] by simp
    moreover have "boot_outcome s isa force True (u @ c @ [(?sys, p)])" if "o_rc p = 0" for p
      using boot_outcome_system [OF that, of s isa force "u @ c"] by simp
    ultimately show "leaves ?again (\<lambda>ok t. boot_outcome s isa force ok (u @ c @ t))" by simp
  qed
  have first: "leaves ?first (?R u)" for u
    unfolding leaves.simps(3) [of ?sys] R
    by (intro allI leaves_If fresh) (use boot_outcome_system in simp)
  have "leaves (Call ?art (\<lambda>a. if o_rc a \<noteq> 0 then ?first else Call ?oat (\<lambda>b. if o_rc b \<noteq> 0 then ?first
      else if \<not> force then pure True else bindx (ClearDirectory ?d) (\<lambda>_. ?again)))) (?R u)"
    unfolding leaves.simps(3) [of ?art] R
  proof (intro allI leaves_If first)
    fix a :: ota_reply assume "\<not> o_rc a \<noteq> 0"
    then show "leaves (Call ?oat (\<lambda>b. if o_rc b \<noteq> 0 then ?first
      else if \<not> force then pure True else bindx (ClearDirectory ?d) (\<lambda>_. ?again))) (?R (u @ [(?art, a)]))"
      unfolding leaves.simps(3) [of ?oat] R
      by (intro allI leaves_If first again) (use boot_outcome_found in simp)
  qed
  then show ?thesis
    unfolding make_boot_image_def Let_def boot_art_def [symmetric] boot_oat_def [symmetric] system_art_def [symmetric]
    by (simp only: simp_thms if_True if_False)
qed

lemma leaves_PrepareBootImage:
  assumes "instruction_set (parameters s) = Some isa"
  shows "leaves (PrepareBootImage env s force) (boot_outcome s isa force)"
proof -
  let ?c = "GetOTADataDirectory s @ ''/dalvik-cache''"
  have d: "?c @ ''/'' @ isa = boot_dir s isa" by (simp add: boot_dir_def)
  note failed = boot_outcome_failed
  have second: "leaves (bindx (ensure_path (boot_dir s isa)) (\<lambda>ok. if \<not> ok then pure False else make_boot_image env s force isa (boot_dir s isa)))
      (\<lambda>ok t. boot_outcome s isa force ok (u @ t))" for u
    unfolding leaves_bindx [of "ensure_path (boot_dir s isa)"]
  proof (intro leaves_ensure leaves_If)
    fix ok t assume t: "\<not> ok \<Longrightarrow> image_failed t"
    show "leaves (pure False) (\<lambda>ok w. boot_outcome s isa force ok (u @ t @ w))" if "\<not> ok"
      using failed [OF t [OF that]] by simp
    show "leaves (make_boot_image env s force isa (boot_dir s isa)) (\<lambda>ok w. boot_outcome s isa force ok (u @ t @ w))"
      using leaves_make [of env s force isa "u @ t"] by simp
  qed
  show ?thesis
    unfolding PrepareBootImage_def Let_def d assms option.case
  proof (intro leaves_Call, unfold leaves_bindx [of "ensure_path ?c"], intro leaves_ensure leaves_If)
    fix r ok t assume t: "\<not> ok \<Longrightarrow> image_failed t"
    show "leaves (pure False) (\<lambda>ok w. boot_outcome s isa force ok ((OUmask 0, r) # t @ w))" if "\<not> ok"
      using failed [OF t [OF that], of s isa force "[(OUmask 0, r)]"] by simp
    show "leaves (bindx (ensure_path (boot_dir s isa)) (\<lambda>ok. if \<not> ok then pure False else make_boot_image env s force isa (boot_dir s isa)))
      (\<lambda>ok w. boot_outcome s isa force ok ((OUmask 0, r) # t @ w))"
      using second [of "(OUmask 0, r) # t"] by (simp only: append.simps)
  qed
qed

text \<open> C21: \<open>PrepareBootImage\<close> reports success only when there is an image to run with, and the last thing it saw says so: both
  files of the image were found and no new image was asked for, or the system partition was found to hold one, or the directory of
  the image was listed and each regular file and link of the listing was asked to be unlinked (a directory that cannot be
  opened is only reported) and after that, with at most the look at the system partition in between, a child was forked for
  dex2oat, waited for, and exited with 0. \<close>

theorem PrepareBootImage_ready:
  assumes "run (PrepareBootImage env s force) os [] = (Some (Live True), h)"
  shows "\<exists>isa. instruction_set (parameters s) = Some isa \<and> image_ready s isa force h"
proof (cases "instruction_set (parameters s)")
  case None
  with assms show ?thesis by (simp add: PrepareBootImage_def pure_def)
next
  case (Some isa)
  from leaves_sound [OF leaves_PrepareBootImage [OF Some] assms] Some show ?thesis by (auto simp: boot_outcome_def)
qed

text \<open>The three files read at the start, and what is known after some of them.\<close>

definition ota_files :: "string list" where
  "ota_files = [''/default.prop'', ''/system/build.prop'', ''/init.environ.rc'']"

definition texts_read :: "string list \<Rightarrow> (ota_call, ota_reply) history \<Rightarrow> bool" where
  "texts_read ts t \<longleftrightarrow> list_all2 (\<lambda>f (c, r). c = OReadFile f) (take (length ts) ota_files) t \<and>
     list_all2 (\<lambda>x (c, r). o_text r = Some x) ts t"

definition unreadable :: "string list \<Rightarrow> (ota_call, ota_reply) history \<Rightarrow> bool" where
  "unreadable ts t \<longleftrightarrow> (\<exists>r. t = [(OReadFile (ota_files ! length ts), r)] \<and> o_text r = None)"

definition parse_texts :: "props \<Rightarrow> string list \<Rightarrow> props" where
  "parse_texts m ts = foldl (\<lambda>m (parse, t). snd (parse_lines parse (split_on CHR 0x0A t) m)) m
     (zip [property_line, property_line, export_line] ts)"

definition exported :: "props \<Rightarrow> string \<Rightarrow> string \<Rightarrow> string \<Rightarrow> string \<Rightarrow> bool" where
  "exported m d r b a \<longleftrightarrow> m ''ANDROID_DATA'' = Some d \<and> m ''ANDROID_ROOT'' = Some r \<and> m ''BOOTCLASSPATH'' = Some b \<and>
     m ''ASEC_MOUNTPOINT'' = Some a"

definition configured :: "ota_service \<Rightarrow> props \<Rightarrow> string \<Rightarrow> string \<Rightarrow> string \<Rightarrow> string \<Rightarrow> ota_service" where
  "configured s m d r b a = s\<lparr>system_properties := m, android_data := d, android_root := r, boot_classpath := b,
     asec_mountpoint := a\<rparr>"

text \<open>The three calls that set up installd's globals: all good, or all but the last one made.\<close>

definition globals_done :: "ota_service \<Rightarrow> (ota_call, ota_reply) history \<Rightarrow> bool" where
  "globals_done s t \<longleftrightarrow> (\<exists>e g a. t = [(OSetenv ''ASEC_MOUNTPOINT'' (asec_mountpoint s), e),
       (OInitGlobals (android_data s) (android_root s), g), (OAccess (android_data s @ ''/ota''), a)] \<and>
     o_rc e = 0 \<and> o_rc g \<noteq> 0 \<and> o_rc a \<ge> 0)"

definition globals_failed :: "ota_service \<Rightarrow> (ota_call, ota_reply) history \<Rightarrow> bool" where
  "globals_failed s t \<longleftrightarrow>
     (\<exists>e. t = [(OSetenv ''ASEC_MOUNTPOINT'' (asec_mountpoint s), e)] \<and> o_rc e \<noteq> 0) \<or>
     (\<exists>e g. t = [(OSetenv ''ASEC_MOUNTPOINT'' (asec_mountpoint s), e),
        (OInitGlobals (android_data s) (android_root s), g)] \<and> o_rc g = 0) \<or>
     (\<exists>e g a. t = [(OSetenv ''ASEC_MOUNTPOINT'' (asec_mountpoint s), e),
       (OInitGlobals (android_data s) (android_root s), g), (OAccess (android_data s @ ''/ota''), a)] \<and> o_rc a < 0)"

definition environment_set :: "ota_service \<Rightarrow> (ota_call, ota_reply) history \<Rightarrow> bool" where
  "environment_set s t \<longleftrightarrow> map fst t = map OPutenv (environment s @ [''BOOTCLASSPATH='' @ boot_classpath s,
     ''ANDROID_DATA='' @ android_data s @ ''/ota/'' @ target_slot (parameters s), ''ANDROID_ROOT='' @ android_root s])"

text \<open>From the globals on: they fail with 4, the boot image fails with 5, or the package is dealt with.\<close>

definition prepared_contract :: "ota_env \<Rightarrow> ota_service \<Rightarrow> int \<Rightarrow> (ota_call, ota_reply) history \<Rightarrow> bool" where
  "prepared_contract env s n t \<longleftrightarrow>
     globals_failed s t \<and> n = 4 \<or>
     (\<exists>g e x isa. t = g @ e @ x \<and> globals_done s g \<and> environment_set s e \<and> instruction_set (parameters s) = Some isa \<and>
        (image_failed x \<and> attempts x = [] \<and> n = 5 \<or>
         (\<exists>b v. x = b @ v \<and> image_ready s isa False b \<and> attempts b = [] \<and> preopt_contract env (parameters s) n (attempts v))))"

definition main_contract :: "ota_env \<Rightarrow> string list \<Rightarrow> ota_service \<Rightarrow> int \<Rightarrow> (ota_call, ota_reply) history \<Rightarrow> bool" where
  "main_contract env argv s n h \<longleftrightarrow>
     (case ReadArguments argv (parameters s) of
        (False, _) \<Rightarrow> n = 1 \<and> h = []
      | (True, p) \<Rightarrow>
          (\<exists>ts u t. h = u @ t \<and> texts_read ts u \<and>
             (let m = parse_texts (system_properties s) ts in
              length ts < 2 \<and> unreadable ts t \<and> n = 2 \<or>
              length ts = 2 \<and> unreadable ts t \<and> n = 3 \<or>
              length ts = 3 \<and> (\<nexists>d r b a. exported m d r b a) \<and> t = [] \<and> n = 3 \<or>
              length ts = 3 \<and> (\<exists>d r b a. exported m d r b a \<and>
                prepared_contract env (configured (s\<lparr>parameters := p\<rparr>) m d r b a) n t))))"

lemma leaves_bindxI:
  "leaves p R \<Longrightarrow> (\<And>a t. R a t \<Longrightarrow> leaves (f a) (\<lambda>b u. S b (t @ u))) \<Longrightarrow> leaves (bindx p f) S"
  unfolding leaves_bindx by (erule leaves_mono) auto

lemma leaves_RunPreopt:
  "leaves (RunPreopt env s) (\<lambda>n v. preopt_contract env (parameters s) n (attempts v))"
  by (rule leaves_mono [OF wp_leaves [OF wp_RunPreopt]]) (auto simp: watch_dexopts)

lemma leaves_boot_attempts: "leaves (PrepareBootImage env s force) (\<lambda>ok t. attempts t = [])"
  by (rule leaves_mono [OF wp_leaves [OF wp_dexopts_same [OF compiles_not_boot, where Q = "\<lambda>_ ds. ds = []"]]])
    (auto simp: watch_dexopts)

lemma leaves_globals:
  "system_properties s ''ASEC_MOUNTPOINT'' \<noteq> None \<Longrightarrow>
   leaves (CheckAndInitializeInstalldGlobals s) (\<lambda>ok t. if ok then globals_done s t else globals_failed s t)"
  by (auto simp: CheckAndInitializeInstalldGlobals_def globals_done_def globals_failed_def GetOtaDirectoryPrefix_def)

lemma leaves_put_all: "leaves (put_all es (pure s)) (\<lambda>s' t. s' = s \<and> map fst t = map OPutenv es)"
proof -
  have "leaves (put_all es (pure s)) (\<lambda>s' t. s' = s \<and> map fst (u @ t) = map fst u @ map OPutenv es)"
    for u :: "(ota_call, ota_reply) history"
  proof (induction es arbitrary: u)
    case (Cons e es)
    show ?case using Cons [of "u @ [(OPutenv e, r)]" for r] by simp
  qed simp
  from this [of "[]"] show ?thesis by simp
qed

lemma leaves_PrepareEnvironment:
  "leaves (PrepareEnvironment s) (\<lambda>s' t. environment_set s t \<and> (\<exists>es. s' = s\<lparr>environment := es\<rparr>))"
  unfolding PrepareEnvironment_def Let_def
  by (rule leaves_mono [OF leaves_put_all])
    (auto simp: environment_set_def GetOTADataDirectory_def GetOtaDirectoryPrefix_def)

lemma boot_dir_environment [simp]: "boot_dir (s\<lparr>environment := es\<rparr>) isa = boot_dir s isa"
  by (simp add: boot_dir_def GetOTADataDirectory_def GetOtaDirectoryPrefix_def)

lemma image_ready_environment [simp]: "image_ready (s\<lparr>environment := es\<rparr>) isa force t = image_ready s isa force t"
  by (simp add: image_ready_def boot_art_def boot_oat_def)

lemma leaves_prepared:
  assumes "system_properties s ''ASEC_MOUNTPOINT'' \<noteq> None" "instruction_set (parameters s) = Some isa"
  shows "leaves (bindx (CheckAndInitializeInstalldGlobals s) (\<lambda>ok. if \<not> ok then pure 4
      else bindx (PrepareEnvironment s) (\<lambda>s. bindx (PrepareBootImage env s False) (\<lambda>ok. if \<not> ok then pure 5 else RunPreopt env s))))
    (prepared_contract env s)"
proof (rule leaves_bindxI [OF leaves_globals [OF assms(1)]], rule leaves_If)
  fix ok g assume g: "if ok then globals_done s g else globals_failed s g"
  show "leaves (pure 4) (\<lambda>n t. prepared_contract env s n (g @ t))" if "\<not> ok"
    using that g by (simp add: prepared_contract_def)
  assume "\<not> \<not> ok"
  with g have g: "globals_done s g" by simp
  show "leaves (bindx (PrepareEnvironment s) (\<lambda>s. bindx (PrepareBootImage env s False)
      (\<lambda>ok. if \<not> ok then pure 5 else RunPreopt env s))) (\<lambda>n t. prepared_contract env s n (g @ t))"
  proof (rule leaves_bindxI [OF leaves_PrepareEnvironment], elim conjE exE)
    fix s' e es assume e: "environment_set s e" and s': "s' = s\<lparr>environment := es\<rparr>"
    have isa: "instruction_set (parameters s') = Some isa" using assms(2) s' by simp
    have contract: "prepared_contract env s n (g @ e @ x)"
      if "image_failed x \<and> attempts x = [] \<and> n = 5 \<or>
         (\<exists>b v. x = b @ v \<and> image_ready s isa False b \<and> attempts b = [] \<and> preopt_contract env (parameters s) n (attempts v))"
      for n x
      unfolding prepared_contract_def using g e assms(2) that by blast
    show "leaves (bindx (PrepareBootImage env s' False) (\<lambda>ok. if \<not> ok then pure 5 else RunPreopt env s'))
        (\<lambda>n t. prepared_contract env s n (g @ e @ t))"
    proof (rule leaves_bindxI [OF leaves_conj [OF leaves_PrepareBootImage [OF isa] leaves_boot_attempts]], rule leaves_If)
      fix ok b assume b: "boot_outcome s' isa False ok b \<and> attempts b = []"
      show "leaves (pure 5) (\<lambda>n t. prepared_contract env s n (g @ e @ b @ t))" if "\<not> ok"
        using that b contract by (simp add: boot_outcome_def)
      assume "\<not> \<not> ok"
      with b s' have "image_ready s isa False b" by (simp add: boot_outcome_def)
      with b s' show "leaves (RunPreopt env s') (\<lambda>n t. prepared_contract env s n (g @ e @ b @ t))"
        by (intro leaves_mono [OF leaves_RunPreopt] contract disjI2) auto
    qed
  qed
qed

lemma parse_ok [simp]: "fst (parse_lines property_line ls m)" "fst (parse_lines export_line ls m)"
proof -
  have "fst (parse_lines parse ls m)" if "\<And>l m. fst (parse l m)" for parse :: "string \<Rightarrow> props \<Rightarrow> bool \<times> props"
    using that by (induction ls arbitrary: m) (auto simp: split_beta)
  then show "fst (parse_lines property_line ls m)" "fst (parse_lines export_line ls m)"
    by (auto simp: property_line_def export_line_def split: option.split)
qed

lemma parse_export_ok: "parse_lines export_line ls m = (True, snd (parse_lines export_line ls m))"
  by (rule prod_eqI) simp_all

lemma Load_eq:
  "Load f m = Call (OReadFile f) (\<lambda>r. case o_text r of None \<Rightarrow> pure (False, m)
     | Some t \<Rightarrow> pure (True, parse_texts m [t]))"
proof -
  have "parse_lines property_line ls m = (True, snd (parse_lines property_line ls m))" for ls m
    by (rule prod_eqI) simp_all
  then show ?thesis unfolding Load_def ParseFile_def parse_texts_def by (simp cong: option.case_cong)
qed

lemma texts_read_simps [simp]: "texts_read [] t \<longleftrightarrow> t = []"
  "texts_read [a] t \<longleftrightarrow> (\<exists>r. t = [(OReadFile ''/default.prop'', r)] \<and> o_text r = Some a)"
  "texts_read [a, b] t \<longleftrightarrow> (\<exists>r q. t = [(OReadFile ''/default.prop'', r), (OReadFile ''/system/build.prop'', q)] \<and>
     o_text r = Some a \<and> o_text q = Some b)"
  by (auto simp: texts_read_def ota_files_def list_all2_Cons1)

lemma texts_read_snoc:
  "length ts = 2 \<Longrightarrow> texts_read ts u \<Longrightarrow> o_text r = Some t \<Longrightarrow> texts_read (ts @ [t]) (u @ [(OReadFile ''/init.environ.rc'', r)])"
  by (auto simp: length_Suc_conv numeral_2_eq_2 texts_read_def ota_files_def list_all2_Cons1)

lemma leaves_ReadSystemProperties:
  "leaves (ReadSystemProperties s) (\<lambda>(ok, s') u.
     if ok then \<exists>ts. length ts = 2 \<and> texts_read ts u \<and> s' = s\<lparr>system_properties := parse_texts (system_properties s) ts\<rparr>
     else \<exists>ts v w. u = v @ w \<and> length ts < 2 \<and> texts_read ts v \<and> unreadable ts w)"
proof -
  have first: "\<exists>ts v w. [(OReadFile ''/default.prop'', r)] = v @ w \<and> length ts < 2 \<and> texts_read ts v \<and> unreadable ts w"
    if "o_text r = None" for r
    by (rule exI [of _ "[]"], rule exI [of _ "[]"]) (simp add: that unreadable_def ota_files_def)
  have second: "\<exists>ts v w. [(OReadFile ''/default.prop'', r), (OReadFile ''/system/build.prop'', q)] = v @ w \<and> length ts < 2 \<and>
      texts_read ts v \<and> unreadable ts w" if "o_text r = Some t" "o_text q = None" for r q t
    by (rule exI [of _ "[t]"], rule exI [of _ "[(OReadFile ''/default.prop'', r)]"]) (simp add: that unreadable_def ota_files_def)
  have both: "\<exists>ts. length ts = 2 \<and> texts_read ts [(OReadFile ''/default.prop'', r), (OReadFile ''/system/build.prop'', q)] \<and>
      s\<lparr>system_properties := parse_texts (parse_texts (system_properties s) [t]) [x]\<rparr> =
      s\<lparr>system_properties := parse_texts (system_properties s) ts\<rparr>" if "o_text r = Some t" "o_text q = Some x" for r q t x
    using that by (intro exI [of _ "[t, x]"]) (simp add: parse_texts_def)
  show ?thesis
    unfolding ReadSystemProperties_def Load_eq using first second both by (simp split: option.split)
qed

text \<open>What is left of the contract after the properties were read.\<close>

definition environment_contract :: "ota_service \<Rightarrow> bool \<times> ota_service \<Rightarrow> (ota_call, ota_reply) history \<Rightarrow> bool" where
  "environment_contract s res w \<longleftrightarrow>
     (\<exists>r. w = [(OReadFile ''/init.environ.rc'', r)] \<and>
        (case o_text r of
           None \<Rightarrow> \<not> fst res
         | Some t \<Rightarrow>
             (let m = snd (parse_lines export_line (split_on CHR 0x0A t) (system_properties s))
              in if fst res then \<exists>d r b a. exported m d r b a \<and> snd res = configured s m d r b a
                 else \<nexists>d r b a. exported m d r b a)))"

lemma leaves_ReadEnvironment: "leaves (ReadEnvironment s) (environment_contract s)"
  unfolding ReadEnvironment_def ParseFile_def
proof (simp only: bindx_simps leaves.simps, intro allI)
  fix r :: ota_reply
  let ?e = "OReadFile ''/init.environ.rc''"
  show "leaves (bindx (case o_text r of None \<Rightarrow> pure (False, system_properties s)
      | Some text \<Rightarrow> pure (parse_lines export_line (split_on CHR 0x0A text) (system_properties s)))
     (\<lambda>(ok, m). let s = s\<lparr>system_properties := m\<rparr> in if \<not> ok then pure (False, s)
       else (case m ''ANDROID_DATA'' of None \<Rightarrow> pure (False, s) | Some d \<Rightarrow> (let s = s\<lparr>android_data := d\<rparr> in
          (case m ''ANDROID_ROOT'' of None \<Rightarrow> pure (False, s) | Some r \<Rightarrow> (let s = s\<lparr>android_root := r\<rparr> in
          (case m ''BOOTCLASSPATH'' of None \<Rightarrow> pure (False, s) | Some b \<Rightarrow> (let s = s\<lparr>boot_classpath := b\<rparr> in
          (case m ''ASEC_MOUNTPOINT'' of None \<Rightarrow> pure (False, s)
           | Some a \<Rightarrow> pure (True, s\<lparr>asec_mountpoint := a\<rparr>)))))))))) (\<lambda>res t. environment_contract s res ((?e, r) # t))"
  proof (cases "o_text r")
    case None
    then show ?thesis by (simp add: environment_contract_def)
  next
    case (Some t)
    obtain m where m: "parse_lines export_line (split_on CHR 0x0A t) (system_properties s) = (True, m)"
      using parse_export_ok by blast
    show ?thesis
      by (cases "m ''ANDROID_DATA''"; cases "m ''ANDROID_ROOT''"; cases "m ''BOOTCLASSPATH''"; cases "m ''ASEC_MOUNTPOINT''")
        (simp_all add: Some m environment_contract_def exported_def configured_def Let_def del: parse_lines.simps split_on.simps)
  qed
qed

lemma leaves_Main: "leaves (Main env argv s) (main_contract env argv s)"
proof -
  obtain ok p where r: "ReadArguments argv (parameters s) = (ok, p)" by force
  let ?s = "s\<lparr>parameters := p\<rparr>"
  show ?thesis
  proof (cases ok)
    case False
    then show ?thesis by (simp add: Main_def r main_contract_def)
  next
    case True
    with r have r: "ReadArguments argv (parameters s) = (True, p)" by simp
    obtain isa where isa: "instruction_set p = Some isa" using ReadArguments_pointers [OF r] by (auto simp: pointers_set_def)
    let ?G = "\<lambda>s. bindx (CheckAndInitializeInstalldGlobals s) (\<lambda>ok. if \<not> ok then pure 4
      else bindx (PrepareEnvironment s) (\<lambda>s. bindx (PrepareBootImage env s False) (\<lambda>ok. if \<not> ok then pure 5 else RunPreopt env s)))"
    have contract: "main_contract env argv s n (u @ t)"
      if "texts_read ts u" "let m = parse_texts (system_properties s) ts in
              length ts < 2 \<and> unreadable ts t \<and> n = 2 \<or>
              length ts = 2 \<and> unreadable ts t \<and> n = 3 \<or>
              length ts = 3 \<and> (\<nexists>d r b a. exported m d r b a) \<and> t = [] \<and> n = 3 \<or>
              length ts = 3 \<and> (\<exists>d r b a. exported m d r b a \<and> prepared_contract env (configured ?s m d r b a) n t)" for n u t ts
      unfolding main_contract_def r prod.case bool.case using that by blast
    have "leaves (bindx (ReadSystemProperties ?s) (\<lambda>(ok, s). if \<not> ok then pure 2
        else bindx (ReadEnvironment s) (\<lambda>(ok, s). if \<not> ok then pure 3 else ?G s))) (main_contract env argv s)"
    proof (rule leaves_bindxI [OF leaves_ReadSystemProperties], clarify, rule leaves_If)
      fix ok s1 u
      assume u: "if ok then \<exists>ts. length ts = 2 \<and> texts_read ts u \<and> s1 = ?s\<lparr>system_properties := parse_texts (system_properties ?s) ts\<rparr>
        else \<exists>ts v w. u = v @ w \<and> length ts < 2 \<and> texts_read ts v \<and> unreadable ts w"
      show "leaves (pure 2) (\<lambda>n t. main_contract env argv s n (u @ t))" if "\<not> ok"
        using u that contract by (auto simp: Let_def)
      assume "\<not> \<not> ok"
      with u obtain ts where ts: "length ts = 2" "texts_read ts u" "s1 = ?s\<lparr>system_properties := parse_texts (system_properties s) ts\<rparr>"
        by auto
      show "leaves (bindx (ReadEnvironment s1) (\<lambda>(ok, s). if \<not> ok then pure 3 else ?G s)) (\<lambda>n t. main_contract env argv s n (u @ t))"
      proof (rule leaves_bindxI [OF leaves_ReadEnvironment], clarify, rule leaves_If)
        fix ok s2 w assume w: "environment_contract s1 (ok, s2) w"
        then obtain r where r: "w = [(OReadFile ''/init.environ.rc'', r)]" by (auto simp: environment_contract_def)
        have step: "parse_texts (system_properties s) (ts @ [t]) = snd (parse_lines export_line (split_on CHR 0x0A t) (system_properties s1))" for t
          using ts(1,3) by (auto simp: parse_texts_def length_Suc_conv numeral_2_eq_2)
        show "leaves (pure 3) (\<lambda>n t. main_contract env argv s n (u @ w @ t))" if "\<not> ok"
        proof (cases "o_text r")
          case None
          then show ?thesis using contract [OF ts(2)] ts(1) r by (simp add: Let_def unreadable_def ota_files_def numeral_2_eq_2)
        next
          case (Some t)
          with w r that have "\<nexists>d r b a. exported (parse_texts (system_properties s) (ts @ [t])) d r b a"
            by (auto simp: environment_contract_def step Let_def)
          with contract [OF texts_read_snoc [OF ts(1,2) Some], of "[]" 3] ts(1) r show ?thesis by (simp add: Let_def)
        qed
        assume "\<not> \<not> ok"
        with w r obtain t where t: "o_text r = Some t" by (auto simp: environment_contract_def split: option.splits)
        let ?m = "parse_texts (system_properties s) (ts @ [t])"
        from w r t \<open>\<not> \<not> ok\<close> obtain d x b a where e: "exported ?m d x b a" "s2 = configured s1 ?m d x b a"
          by (auto simp: environment_contract_def step Let_def)
        with ts(3) have s2: "s2 = configured ?s ?m d x b a" by (simp add: configured_def)
        with e(1) isa have "system_properties s2 ''ASEC_MOUNTPOINT'' \<noteq> None" "instruction_set (parameters s2) = Some isa"
          by (simp_all add: configured_def exported_def)
        from leaves_prepared [OF this, of env]
        show "leaves (?G s2) (\<lambda>n t. main_contract env argv s n (u @ w @ t))"
        proof (rule leaves_mono)
          fix n v assume "prepared_contract env s2 n v"
          with contract [OF texts_read_snoc [OF ts(1,2) t], of v n] ts(1) e(1) s2 r
          show "main_contract env argv s n (u @ w @ v)" by (auto simp: Let_def)
        qed
      qed
    qed
    then show ?thesis unfolding Main_def r Let_def by simp
  qed
qed

text \<open> C12: what otapreopt does with a command line, step by step.  A command line that is refused ends it with 1 and no
  call at all.  Otherwise the history starts with the files that were read: the two property files and the
  environment, in this order; when a property file cannot be read the status is 2; when the environment cannot be read
  or lacks one of its four variables it is 3; when the globals cannot be set up from these variables it is 4; when the boot image is not ready
  it is 5; in all these cases nothing was compiled.  Only behind the globals, the environment variables
  and a boot image that is ready is the package compiled with the parameters read, at most three times: each attempt but the last has failed;
  one with the same parameters follows only when dex2oat could not create its runtime, and the last may leave out the profile, which is
  tried before a profile-guided compilation is given up, unless the boot image could not be made again.  Then the status
  is 0 exactly when there was nothing to compile or the last attempt succeeded. \<close>

theorem Main_attempts:
  assumes "run (Main env argv s) os [] = (Some (Live n), h)"
  shows "main_contract env argv s n h"
  using leaves_sound [OF leaves_Main assms] by simp

theorem Main_attempts_witness:
  "case run (Main demo_ota_env demo_argv demo_ota) profile_os [] of (res, h) \<Rightarrow>
     res = Some (Live 0) \<and> main_contract demo_ota_env demo_argv demo_ota 0 h \<and> length (attempts h) = 2"
proof -
  let ?r = "run (Main demo_ota_env demo_argv demo_ota) profile_os []"
  obtain res h where r: "?r = (res, h)" by force
  with demo_main have res: "res = Some (Live 0)"
    and m: "map (\<lambda>(p, n). (dexopt_flags p, n)) (attempts h) = [(2064, 256), (2048, 0)]" by simp_all
  from arg_cong [OF m, of length] have "length (attempts h) = 2" by simp
  moreover have "main_contract demo_ota_env demo_argv demo_ota 0 h"
    using Main_attempts [of demo_ota_env demo_argv demo_ota profile_os 0 h] r res by (simp only:)
  ultimately show ?thesis using r res by (simp only: prod.case simp_thms)
qed

text \<open>A device without an image, on which everything works; an entry of the old image is in the way.\<close>

definition build_os :: "(ota_call, ota_reply) os_oracle" where
  "build_os h c = (case c of OAccess p \<Rightarrow> ota_result (if suffix ''.art'' p then -1 else 0)
     | OListDir d \<Rightarrow> (ota_result 0)\<lparr>o_names := Some [(''.'', DT_OTHER), (''old.art'', DT_REG), (''oat'', DT_OTHER)]\<rparr>
     | OFork \<Rightarrow> ota_result 7 | OWaitpid pid \<Rightarrow> ota_result 7 | _ \<Rightarrow> ota_result 0)"

definition demo_boot :: "bool proc option \<times> (ota_call, ota_reply) history" where
  "demo_boot = run (PrepareBootImage demo_ota_env demo_ota True) build_os []"

lemma demo_boot_run: "fst demo_boot = Some (Live True)" "map fst (filter (\<lambda>(c, r). case c of OUnlink f \<Rightarrow> True | _ \<Rightarrow> False) (snd demo_boot))
    = [OUnlink ''/data/ota/_b/dalvik-cache/arm64/old.art'']"
  by (code_simp, code_simp)

lemma demo_isa: "instruction_set (parameters demo_ota) = Some ''arm64''"
  by (simp add: demo_ota_def demo_ota_params_def)

theorem PrepareBootImage_ready_witness:
  "image_ready demo_ota ''arm64'' True (snd demo_boot)"
proof -
  have "run (PrepareBootImage demo_ota_env demo_ota True) build_os [] = (Some (Live True), snd demo_boot)"
    using demo_boot_run(1) by (metis demo_boot_def prod.collapse)
  from PrepareBootImage_ready [OF this] show ?thesis by (simp only: demo_isa option.inject) blast
qed

theorem PrepareBootImage_confined_witness:
  "\<exists>u r v. snd demo_boot = u @ (OUnlink ''/data/ota/_b/dalvik-cache/arm64/old.art'', r) # v \<and>
    boot_call (boot_dir demo_ota ''arm64'') (OUnlink ''/data/ota/_b/dalvik-cache/arm64/old.art'')"
proof -
  let ?c = "OUnlink ''/data/ota/_b/dalvik-cache/arm64/old.art''"
  let ?unlinks = "filter (\<lambda>(c, r). case c of OUnlink f \<Rightarrow> True | _ \<Rightarrow> False) (snd demo_boot)"
  have "?c \<in> set (map fst ?unlinks)" unfolding demo_boot_run(2) by simp
  then have "?c \<in> fst ` set ?unlinks" unfolding list.set_map .
  then obtain x where x: "?c = fst x" "x \<in> set ?unlinks" by (rule imageE)
  then have "(?c, snd x) \<in> set (snd demo_boot)" using subsetD [OF filter_is_subset x(2)] by (simp only: prod.collapse)
  from split_list [OF this] obtain u v where s: "snd demo_boot = u @ (?c, snd x) # v" by (elim exE)
  have "run (PrepareBootImage demo_ota_env demo_ota True) build_os [] = (fst demo_boot, u @ (?c, snd x) # v)"
    unfolding s [symmetric] demo_boot_def by (rule prod.collapse [symmetric])
  from PrepareBootImage_confined [OF this demo_isa] s show ?thesis by (intro exI conjI)
qed

section \<open>Where the artifacts go\<close>

lemma takeWhile_until: "c \<notin> set t \<Longrightarrow> takeWhile (\<lambda>y. y \<noteq> c) (t @ c # r) = t"
  by (induction t) auto

text \<open>A pattern that ends with its only \<open>c\<close> is not found across the first \<open>c\<close> of a text.\<close>

lemma find_sub_past:
  assumes "c \<notin> set q" "c \<notin> set s" "\<not> suffix q s"
  shows "find_sub (q @ [c]) (s @ c # v) = map_option ((+) (Suc (length s))) (find_sub (q @ [c]) v)"
  using assms(2,3)
proof (induction s)
  case Nil
  then have "\<not> prefix (q @ [c]) (c # v)" using assms(1) by (cases q) auto
  then show ?case by simp
next
  case (Cons x s)
  have "q = x # s" if "prefix (q @ [c]) ((x # s) @ c # v)"
  proof -
    from that obtain w where "q @ c # w = (x # s) @ c # v" by (auto simp: prefix_def)
    then have "takeWhile (\<lambda>y. y \<noteq> c) (q @ c # w) = takeWhile (\<lambda>y. y \<noteq> c) ((x # s) @ c # v)" by simp
    then show ?thesis using assms(1) Cons.prems(1) by (metis takeWhile_until)
  qed
  with Cons.prems have "\<not> prefix (q @ [c]) (x # s @ c # v)" by auto
  moreover have "\<not> suffix q s" using Cons.prems(2) by (auto intro: suffix_ConsI)
  ultimately show ?case using Cons by (simp add: option.map_comp comp_def)
qed

text \<open>A suffix that does not look like an extension of an artifact.\<close>

definition plain_slot :: "string \<Rightarrow> bool" where
  "plain_slot slot \<longleftrightarrow> ValidateTargetSlotSuffix slot \<and> \<not> prefix ''odex'' slot \<and> slot \<noteq> ''dex''"

lemma slot_no_dot: "ValidateTargetSlotSuffix slot \<Longrightarrow> CHR ''.'' \<notin> set slot"
  by (auto simp: ValidateTargetSlotSuffix_def list_all_iff less_eq_char_def)

lemma rfind_odex_slot:
  assumes "plain_slot slot"
  shows "rfind_sub ''.odex'' (x @ ''.odex.'' @ slot) = Some (length x)"
proof -
  have "CHR ''.'' \<notin> set (rev slot)" using assms by (simp add: plain_slot_def slot_no_dot)
  moreover have "\<not> suffix ''xedo'' (rev slot)" using assms by (simp add: plain_slot_def suffix_to_prefix)
  ultimately have "find_sub (''xedo'' @ ''.'') (rev slot @ CHR ''.'' # ''xedo.'' @ rev x)
      = map_option ((+) (Suc (length (rev slot)))) (find_sub (''xedo'' @ ''.'') (''xedo.'' @ rev x))"
    by (intro find_sub_past) auto
  also have "\<dots> = Some (Suc (length slot))" using find_sub_append [of "''xedo.''" "rev x"] by simp
  finally show ?thesis by (simp add: rfind_sub_def)
qed

lemma slot_file_extension:
  assumes "plain_slot slot"
  shows "replace_file_extension (x @ ''.odex.'' @ slot) ext = slot_path slot (replace_file_extension (x @ ''.odex'') ext)"
proof -
  have slot: "CHR ''.'' \<notin> set slot" "slot \<noteq> ''dex''" using assms by (auto simp: plain_slot_def slot_no_dot)
  have "\<not> suffix ''.dex'' (x @ ''.odex.'' @ slot)"
  proof
    assume "suffix ''.dex'' (x @ ''.odex.'' @ slot)"
    then have "prefix (''xed'' @ ''.'') (rev slot @ CHR ''.'' # ''xedo.'' @ rev x)" by (simp add: suffix_to_prefix)
    then have "find_sub (''xed'' @ ''.'') (rev slot @ CHR ''.'' # ''xedo.'' @ rev x) = Some 0"
      by (cases "rev slot @ CHR ''.'' # ''xedo.'' @ rev x") auto
    moreover obtain w where "''xed'' @ CHR ''.'' # w = rev slot @ CHR ''.'' # ''xedo.'' @ rev x"
      using \<open>prefix _ _\<close> by (auto simp: prefix_def)
    then have "takeWhile (\<lambda>y. y \<noteq> CHR ''.'') (''xed'' @ CHR ''.'' # w) =
        takeWhile (\<lambda>y. y \<noteq> CHR ''.'') (rev slot @ CHR ''.'' # ''xedo.'' @ rev x)" by simp
    then have "''xed'' = rev slot" using takeWhile_until [of "CHR ''.''" "rev slot"] slot(1) by simp
    with slot(2) show False by (metis rev_swap rev.simps append.simps)
  qed
  moreover have "\<not> suffix ''.dex'' (x @ ''.odex'')" by (simp add: suffix_to_prefix)
  moreover have "rfind_sub ''.odex'' (x @ ''.odex'') = Some (length x)" by (rule rfind_sub_suffix)
  ultimately show ?thesis
    using rfind_odex_slot [OF assms, of x] by (simp add: replace_file_extension_def slot_path_def)
qed

lemma oat_paths:
  assumes "calculate_oat_file_path_default d apk isa = Some a" "calculate_oat_file_path s d apk isa = Some p"
  shows "\<exists>x. a = x @ ''.odex'' \<and> p = cut (x @ ''.odex.'' @ target_slot (parameters s))"
proof -
  from assms(2) obtain i n where i: "rfind_char CHR ''/'' apk = Some i" and n: "rfind_char CHR ''.'' (drop i apk) = Some n"
    and p: "p = cut (d @ ''/'' @ isa @ ''/'' @ take (n - 1) (drop (i + 1) apk) @ ''.odex.'' @ target_slot (parameters s))"
    by (auto simp: calculate_oat_file_path_def split: option.splits)
  define A where "A = take i apk"
  have apk: "apk = A @ CHR ''/'' # drop (Suc i) apk" and nos: "CHR ''/'' \<notin> set (drop (Suc i) apk)"
    using rfind_char_Some [OF i] by (simp_all add: A_def)
  have len: "length A = i" using rfind_char_Some(3) [OF i] by (simp add: A_def)
  have di: "drop i apk = CHR ''/'' # drop (Suc i) apk" using rfind_char_Some(3) [OF i] apk len by (metis append_eq_conv_conj)
  have n0: "n \<noteq> 0" using rfind_char_Some(1) [OF n] di by (cases n) auto
  define B where "B = take (n - 1) (drop (Suc i) apk)"
  define C where "C = drop n (drop (Suc i) apk)"
  have "drop i apk = take n (drop i apk) @ CHR ''.'' # drop (Suc n) (drop i apk)" and noc: "CHR ''.'' \<notin> set (drop (Suc n) (drop i apk))"
    using rfind_char_Some [OF n] by simp_all
  then have dd: "drop (Suc i) apk = B @ CHR ''.'' # C" using n0 di by (cases n) (auto simp: B_def C_def)
  have noC: "CHR ''.'' \<notin> set C" using noc by (simp add: C_def add.commute)
  have apk2: "apk = (A @ CHR ''/'' # B) @ CHR ''.'' # C" using apk dd by simp
  have dot: "rfind_char CHR ''.'' apk = Some (length (A @ CHR ''/'' # B))" unfolding apk2 using noC by (rule rfind_char_append)
  have slash: "rfind_char_upto CHR ''/'' apk (length (A @ CHR ''/'' # B)) = Some (length A)"
  proof -
    have "take (Suc (length (A @ CHR ''/'' # B))) apk = A @ CHR ''/'' # (B @ ''.'')" by (subst apk2) simp
    moreover have "CHR ''/'' \<notin> set (B @ ''.'')" using nos dd by auto
    ultimately show ?thesis by (simp add: rfind_char_upto_def rfind_char_append)
  qed
  have "take (length (A @ CHR ''/'' # B) - length A - 1) (drop (length A + 1) apk) = B" by (subst apk2) simp
  with assms(1) dot slash have "a = d @ ''/'' @ isa @ ''/'' @ B @ ''.odex''"
    by (auto simp: calculate_oat_file_path_default_def Let_def split: if_splits)
  with p show ?thesis by (intro exI [of _ "d @ ''/'' @ isa @ ''/'' @ B"]) (simp add: B_def)
qed

text \<open> C13: what otapreopt writes for the other slot is what installd moves into place after the update.  Where both
  have a path for an APK, and the longer one fits the buffer, the path of the oat file of otapreopt is that of installd with the
  suffix of the slot behind it, and so are the paths of the vdex file and of the image that are derived from it: the
  three names that \<open>move_ab\<close> looks for. \<close>

theorem oat_paths_meet:
  assumes "calculate_oat_file_path_default d apk isa = Some a" "calculate_oat_file_path s d apk isa = Some p"
    and "slot = target_slot (parameters s)" "plain_slot slot" "length a + 1 + length slot < PKG_PATH_MAX"
  shows "p = slot_path slot a \<and> create_vdex_filename p = slot_path slot (create_vdex_filename a) \<and>
    create_image_filename p = slot_path slot (create_image_filename a)"
proof -
  from oat_paths [OF assms(1,2)] obtain x where x: "a = x @ ''.odex''" "p = cut (x @ ''.odex.'' @ slot)" using assms(3) by auto
  then have p: "p = x @ ''.odex.'' @ slot" using assms(5) by (simp add: cut_def)
  show ?thesis unfolding create_vdex_filename_def create_image_filename_def p x(1) using slot_file_extension [OF assms(4), of x]
    by (simp add: slot_path_def)
qed

definition demo_oat_path :: string where
  "demo_oat_path = ''/data/app/oat/arm64/a.odex''"

theorem oat_paths_meet_witness:
  "calculate_oat_file_path demo_ota ''/data/app/oat'' ''/data/app/a.apk'' ''arm64'' = Some (slot_path ''_b'' demo_oat_path) \<and>
   create_vdex_filename (slot_path ''_b'' demo_oat_path) = slot_path ''_b'' ''/data/app/oat/arm64/a.vdex''"
proof -
  let ?d = "''/data/app/oat''" and ?apk = "''/data/app/a.apk''" and ?isa = "''arm64''"
  have a: "calculate_oat_file_path_default ?d ?apk ?isa = Some demo_oat_path"
    by (simp add: calculate_oat_file_path_default_def demo_oat_path_def is_absolute_path_def is_valid_instruction_set_def
        find_char_def rfind_char_def rfind_char_upto_def PKG_PATH_MAX_def)
  have s: "''_b'' = target_slot (parameters demo_ota)" by (simp add: demo_ota_def demo_ota_params_def)
  obtain p where p: "calculate_oat_file_path demo_ota ?d ?apk ?isa = Some p"
    by (simp add: calculate_oat_file_path_def rfind_char_def)
  have "plain_slot ''_b''" by (simp add: plain_slot_def ValidateTargetSlotSuffix_def)
  moreover have "length demo_oat_path + 1 + length ''_b'' < PKG_PATH_MAX" by (simp add: demo_oat_path_def PKG_PATH_MAX_def)
  ultimately have "p = slot_path ''_b'' demo_oat_path \<and> create_vdex_filename p = slot_path ''_b'' (create_vdex_filename demo_oat_path)"
    using oat_paths_meet [OF a p s] by blast
  moreover have v: "create_vdex_filename demo_oat_path = ''/data/app/oat/arm64/a.vdex''" by code_simp
  ultimately show ?thesis unfolding v [symmetric] using p by (elim conjE, intro conjI) (simp_all only:)
qed


text \<open>A default that does not fit is cut, but its full length is returned; so is a path that does not fit.\<close>

lemma GetProperty_overlong:
  "m key = None \<Longrightarrow> 90 < length d \<Longrightarrow> \<exists>n b. ota_GetProperty m key (Some d) = (n, Some b) \<and> length b < n"
  by (simp add: ota_GetProperty_def kPropertyValueMax_def)

lemma oat_path_cut:
  "length d = 1100 \<Longrightarrow> \<exists>p. calculate_oat_file_path s d ''/a.apk'' isa = Some p \<and> p = take 1023 d"
  by (simp add: calculate_oat_file_path_def rfind_char_def cut_def PKG_PATH_MAX_def)

end
