(* ===== verification/OtaChroot.thy ===== *)
theory OtaChroot
  imports OtaPreoptCorrect
begin

text \<open>
  \<open>otapreopt_chroot\<close> (\<open>installd/otapreopt_chroot.cpp\<close>): it makes the partition of the new system the root of
  a mount namespace of its own and runs \<open>otapreopt\<close> there.
\<close>

section \<open>Descriptors\<close>

definition CloseDescriptor :: "int \<Rightarrow> 'a ota_prog \<Rightarrow> 'a ota_prog" where
  "CloseDescriptor fd p = (if fd \<ge> 0 then Call (OCloseFd fd) (\<lambda>_. p) else p)"

text \<open>\<open>stream >> fd\<close> fails without digits and outside the range of \<open>int\<close>.\<close>

definition CloseDescriptorString :: "string \<Rightarrow> 'a ota_prog \<Rightarrow> 'a ota_prog" where
  "CloseDescriptorString descriptor_string p =
     (let (fd, rest) = strtol 10 descriptor_string
      in if rest = descriptor_string \<or> fd < - (2 ^ 31) \<or> 2 ^ 31 \<le> fd then p else CloseDescriptor fd p)"

section \<open>Mounts\<close>

text \<open>A logical partition first, then the block device; nothing is reported.\<close>

definition TryExtraMount :: "string \<Rightarrow> string \<Rightarrow> string \<Rightarrow> 'a ota_prog \<Rightarrow> 'a ota_prog" where
  "TryExtraMount name slot target p =
     (let partition_name = name @ slot;
          direct = Call (OMount (''/dev/block/by-name/'' @ partition_name) target (Some ''ext4'') [''MS_RDONLY'']) (\<lambda>_. p)
      in Call (ODmValid partition_name) (\<lambda>d.
           if o_rc d \<noteq> 0
           then Call (ODmPath partition_name) (\<lambda>q. case o_text q of
                    None \<Rightarrow> direct
                  | Some path \<Rightarrow> Call (OMount path target (Some ''ext4'') [''MS_RDONLY'']) (\<lambda>m. if o_rc m = 0 then p else direct))
           else direct))"

text \<open>A call that has to succeed, and the status to exit with when it does not.\<close>

definition required :: "ota_call \<Rightarrow> int \<Rightarrow> 'a ota_prog \<Rightarrow> 'a ota_prog" where
  "required c code p = Call c (\<lambda>r. if o_rc r \<noteq> 0 then exit_process code else p)"

fun bind_mounts :: "string list \<Rightarrow> 'a ota_prog \<Rightarrow> 'a ota_prog" where
  "bind_mounts [] p = p"
| "bind_mounts (d # ds) p = required (OMount d (''/postinstall'' @ d) None [''MS_BIND'']) 202 (bind_mounts ds p)"

fun DeactivateApexPackages :: "string list \<Rightarrow> 'a ota_prog \<Rightarrow> 'a ota_prog" where
  "DeactivateApexPackages [] p = p"
| "DeactivateApexPackages (q # qs) p = Call (ODeactivatePackage q) (\<lambda>_. DeactivateApexPackages qs p)"

text \<open>The directory of the packages.\<close>

definition setup_apex :: "'a ota_prog \<Rightarrow> 'a ota_prog" where
  "setup_apex p =
     required (OMount ''tmpfs'' ''/postinstall/apex'' (Some ''tmpfs'') [''MS_NODEV'', ''MS_NOEXEC'', ''MS_NOSUID'']) 209
       (Call (ORestorecon ''/postinstall/apex'') (\<lambda>r. if o_rc r < 0 then exit_process 214
          else required (OChmod ''/postinstall/apex'' 493) 210 (required (OChown ''/postinstall/apex'' 0 0) 211 p)))"

text \<open>Behind the change of root.\<close>

definition run_in_chroot :: "string list \<Rightarrow> int ota_prog" where
  "run_in_chroot arg =
     Call (OActivatePackages ''/system/apex'') (\<lambda>a.
       let active_packages = (case o_names a of None \<Rightarrow> [] | Some ns \<Rightarrow> map fst ns)
       in bindx (Exec (''/system/bin/otapreopt'' # drop 2 arg)) (\<lambda>exec_result.
            DeactivateApexPackages active_packages (if \<not> exec_result then exit_process 213 else pure 0)))"

definition otapreopt_chroot :: "string list \<Rightarrow> int ota_prog" where
  "otapreopt_chroot arg =
     (if length arg < 3 then exit_process 208
      else CloseDescriptor 0 (CloseDescriptor 1 (CloseDescriptor 2 (CloseDescriptorString (arg ! 1)
        (required OUnshare 200
        (required (OMount [] ''/postinstall'' None [''MS_PRIVATE'']) 201
        (bind_mounts [''/data'', ''/dev'', ''/proc'', ''/sys'']
        (if \<not> ValidateTargetSlotSuffix (arg ! 2) then exit_process 207
         else TryExtraMount ''vendor'' (arg ! 2) ''/postinstall/vendor''
                (TryExtraMount ''product'' (arg ! 2) ''/postinstall/product''
                  (setup_apex
                    (required (OChdir ''/postinstall'') 203
                    (required (OChroot ''.'') 204
                    (required (OChdir ''/'') 205
                      (run_in_chroot arg))))))))))))))"

section \<open>What has happened before \<open>otapreopt\<close> runs\<close>

text \<open>The steps that have to succeed, in order.\<close>

definition confinement :: "ota_call list" where
  "confinement =
     [OCloseFd 0, OCloseFd 1, OCloseFd 2, OUnshare, OMount [] ''/postinstall'' None [''MS_PRIVATE'']]
     @ map (\<lambda>d. OMount d (''/postinstall'' @ d) None [''MS_BIND'']) [''/data'', ''/dev'', ''/proc'', ''/sys'']
     @ [OMount ''tmpfs'' ''/postinstall/apex'' (Some ''tmpfs'') [''MS_NODEV'', ''MS_NOEXEC'', ''MS_NOSUID''],
        ORestorecon ''/postinstall/apex'', OChmod ''/postinstall/apex'' 493, OChown ''/postinstall/apex'' 0 0,
        OChdir ''/postinstall'', OChroot ''.'', OChdir ''/'']"

text \<open>Closing a descriptor is not checked, a label may be answered with any number that is not negative.\<close>

definition done_by :: "ota_call \<Rightarrow> ota_reply \<Rightarrow> bool" where
  "done_by c r = (case c of OCloseFd fd \<Rightarrow> True | ORestorecon p \<Rightarrow> 0 \<le> o_rc r | _ \<Rightarrow> o_rc r = 0)"

text \<open>The steps that are left; packages are activated and binaries executed behind the last one.\<close>

fun steps :: "string list \<Rightarrow> (ota_call, ota_reply, ota_call list) monitor" where
  "steps arg s c r =
     (if (\<exists>b argv. c = OExecv b argv \<and> (b \<noteq> ''/system/bin/otapreopt'' \<or> argv \<noteq> b # drop 2 arg \<or> s \<noteq> []))
        \<or> (\<exists>p. c = OActivatePackages p \<and> s \<noteq> []) then None
      else if s \<noteq> [] \<and> c = hd s \<and> done_by c r then Some (tl s) else Some s)"

text \<open>What an empty rest means.\<close>

lemma watch_steps:
  "watch (steps arg) s t = Some s' \<Longrightarrow> \<exists>u. s = u @ s' \<and> subseq u (map fst (filter (\<lambda>(c, r). done_by c r) t))"
proof (induction t arbitrary: s)
  case (Cons x t)
  obtain c r where x: "x = (c, r)" by force
  from Cons.prems x obtain s1 where s1: "steps arg s c r = Some s1" "watch (steps arg) s1 t = Some s'"
    by (auto split: option.splits simp del: steps.simps)
  from Cons.IH [OF s1(2)] obtain u where u: "s1 = u @ s'" "subseq u (map fst (filter (\<lambda>(c, r). done_by c r) t))" by blast
  show ?case
  proof (cases "s \<noteq> [] \<and> c = hd s \<and> done_by c r")
    case True
    with s1(1) u x show ?thesis
      by (intro exI [of _ "c # u"]) (auto split: if_splits simp: neq_Nil_conv)
  next
    case False
    with s1(1) have "s1 = s" by (auto split: if_splits)
    with u x show ?thesis by (intro exI [of _ u]) auto
  qed
qed simp


fun plain_step :: "ota_call \<Rightarrow> bool" where
  "plain_step (OExecv b argv) = False"
| "plain_step (OActivatePackages p) = False"
| "plain_step (ORestorecon p) = False"
| "plain_step (OCloseFd fd) = False"
| "plain_step c = True"

lemma done_by_plain: "plain_step c \<Longrightarrow> done_by c r \<longleftrightarrow> o_rc r = 0"
  by (cases c) (simp_all add: done_by_def)

lemma wp_required:
  "plain_step c \<Longrightarrow> wp (steps arg) p Q s \<Longrightarrow> wp (steps arg) (required c code p) Q (c # s)"
  by (auto simp: required_def done_by_plain)

lemma wp_close: "fd \<ge> 0 \<Longrightarrow> wp (steps arg) p Q s \<Longrightarrow> wp (steps arg) (CloseDescriptor fd p) Q (OCloseFd fd # s)"
  by (simp add: CloseDescriptor_def done_by_def)

lemma wp_close_string:
  "s = OUnshare # s' \<Longrightarrow> wp (steps arg) p Q s \<Longrightarrow> wp (steps arg) (CloseDescriptorString d p) Q s"
  by (simp add: CloseDescriptorString_def CloseDescriptor_def split_beta)

lemma wp_bind_mounts:
  "wp (steps arg) p Q s \<Longrightarrow>
   wp (steps arg) (bind_mounts ds p) Q (map (\<lambda>d. OMount d (''/postinstall'' @ d) None [''MS_BIND'']) ds @ s)"
  by (induction ds) (auto intro!: wp_required simp del: steps.simps)

lemma wp_extra_mount:
  "s = OMount a b c f # s' \<Longrightarrow> b \<noteq> target \<Longrightarrow> wp (steps arg) p Q s \<Longrightarrow> wp (steps arg) (TryExtraMount n slot target p) Q s"
  by (auto simp: TryExtraMount_def Let_def split: option.split)

lemma wp_setup_apex:
  "wp (steps arg) p Q s \<Longrightarrow> wp (steps arg) (setup_apex p) Q
     ([OMount ''tmpfs'' ''/postinstall/apex'' (Some ''tmpfs'') [''MS_NODEV'', ''MS_NOEXEC'', ''MS_NOSUID''],
       ORestorecon ''/postinstall/apex'', OChmod ''/postinstall/apex'' 493, OChown ''/postinstall/apex'' 0 0] @ s)"
  unfolding setup_apex_def append.simps
  by (rule wp_required, simp) (auto simp: done_by_def intro!: wp_required)

lemma wp_deactivate: "wp (steps arg) p Q [] \<Longrightarrow> wp (steps arg) (DeactivateApexPackages qs p) Q []"
  by (induction qs) auto

lemma wp_run_in_chroot: "wp (steps arg) (run_in_chroot arg) (\<lambda>n s. n = 0 \<and> s = []) []"
  by (auto simp: run_in_chroot_def Exec_def Let_def intro!: wp_deactivate)

lemma wp_otapreopt_chroot: "wp (steps arg) (otapreopt_chroot arg) (\<lambda>n s. n = 0 \<and> s = []) confinement"
proof (cases "length arg < 3")
  case False
  let ?apex = "[OMount ''tmpfs'' ''/postinstall/apex'' (Some ''tmpfs'') [''MS_NODEV'', ''MS_NOEXEC'', ''MS_NOSUID''],
       ORestorecon ''/postinstall/apex'', OChmod ''/postinstall/apex'' 493, OChown ''/postinstall/apex'' 0 0]"
  let ?root = "[OChdir ''/postinstall'', OChroot ''.'', OChdir ''/'']"
  let ?Q = "\<lambda>n s. n = 0 \<and> s = []"
  define inner :: "int ota_prog" where
    "inner = setup_apex (required (OChdir ''/postinstall'') 203 (required (OChroot ''.'') 204 (required (OChdir ''/'') 205 (run_in_chroot arg))))"
  have "wp (steps arg) inner ?Q (?apex @ ?root)"
    unfolding inner_def by (intro wp_setup_apex wp_required wp_run_in_chroot) simp_all
  then have "wp (steps arg) (TryExtraMount ''vendor'' (arg ! 2) ''/postinstall/vendor''
      (TryExtraMount ''product'' (arg ! 2) ''/postinstall/product'' inner)) ?Q (?apex @ ?root)"
    by (intro wp_extra_mount [OF append.simps(2)]) simp_all
  then have mounts: "wp (steps arg) (bind_mounts [''/data'', ''/dev'', ''/proc'', ''/sys'']
      (if \<not> ValidateTargetSlotSuffix (arg ! 2) then exit_process 207
       else TryExtraMount ''vendor'' (arg ! 2) ''/postinstall/vendor''
         (TryExtraMount ''product'' (arg ! 2) ''/postinstall/product'' inner))) ?Q
      (map (\<lambda>d. OMount d (''/postinstall'' @ d) None [''MS_BIND'']) [''/data'', ''/dev'', ''/proc'', ''/sys''] @ ?apex @ ?root)"
    by (intro wp_bind_mounts) (simp split: if_split)
  show ?thesis
    unfolding otapreopt_chroot_def if_not_P [OF False] confinement_def append.simps inner_def [symmetric]
    by (intro wp_close wp_close_string [OF refl] wp_required mounts [unfolded append.simps]) simp_all
qed (simp add: otapreopt_chroot_def)


text \<open> C14: otapreopt runs only in its cage.  Whatever fails and however, \<open>otapreopt_chroot\<close> executes nothing but
  \<open>/system/bin/otapreopt\<close> with the arguments behind the status descriptor, and only after the standard descriptors were
  closed, the mount namespace was made private, the four directories were bound, the package directory was mounted and
  protected and the root was changed, each with success and in this order.  It returns 0 after all of this, or exits. \<close>

theorem otapreopt_confined:
  assumes "run (otapreopt_chroot arg) os [] = (res, h)"
  shows "(\<forall>u b argv r v. h = u @ (OExecv b argv, r) # v \<longrightarrow>
      b = ''/system/bin/otapreopt'' \<and> argv = b # drop 2 arg \<and> subseq confinement (map fst (filter (\<lambda>(c, r). done_by c r) u))) \<and>
    (\<forall>n. res = Some (Live n) \<longrightarrow> n = 0 \<and> subseq confinement (map fst (filter (\<lambda>(c, r). done_by c r) h)))"
proof (intro conjI allI impI)
  from wp_sound [OF wp_otapreopt_chroot assms] obtain s where s: "watch (steps arg) confinement h = Some s"
    "\<forall>n. res = Some (Live n) \<longrightarrow> n = 0 \<and> s = []" by auto
  { fix n assume "res = Some (Live n)"
    with s(2) have "n = 0" "s = []" by auto
    with watch_steps [OF s(1)] show "n = 0" "subseq confinement (map fst (filter (\<lambda>(c, r). done_by c r) h))" by auto }
  { fix u b argv r v assume "h = u @ (OExecv b argv, r) # v"
    with s(1) obtain s1 where s1: "watch (steps arg) confinement u = Some s1" "steps arg s1 (OExecv b argv) r \<noteq> None"
      by (auto simp: watch_append simp del: steps.simps split: option.splits)
    then have "b = ''/system/bin/otapreopt''" "argv = b # drop 2 arg" "s1 = []" by (auto split: if_splits)
    with watch_steps [OF s1(1)] show "b = ''/system/bin/otapreopt''" "argv = b # drop 2 arg"
      "subseq confinement (map fst (filter (\<lambda>(c, r). done_by c r) u))" by auto }
qed

text \<open>The child of the run in which everything works.\<close>

definition chroot_os :: "(ota_call, ota_reply) os_oracle" where
  "chroot_os h c = ota_result 0"

definition demo_chroot :: "int proc option \<times> (ota_call, ota_reply) history" where
  "demo_chroot = run (otapreopt_chroot [''otapreopt_chroot'', ''3'', ''_b'', ''dexopt'']) chroot_os []"

lemma demo_chroot_last: "fst (last (snd demo_chroot)) = OExecv ''/system/bin/otapreopt'' [''/system/bin/otapreopt'', ''_b'', ''dexopt'']"
  "snd demo_chroot \<noteq> []"
  by (code_simp, code_simp)

theorem otapreopt_confined_witness:
  "\<exists>u r. snd demo_chroot = u @ [(OExecv ''/system/bin/otapreopt'' [''/system/bin/otapreopt'', ''_b'', ''dexopt''], r)] \<and>
    subseq confinement (map fst (filter (\<lambda>(c, r). done_by c r) u))"
proof -
  let ?u = "butlast (snd demo_chroot)" and ?x = "OExecv ''/system/bin/otapreopt'' [''/system/bin/otapreopt'', ''_b'', ''dexopt'']"
  have x: "last (snd demo_chroot) = (?x, snd (last (snd demo_chroot)))"
    unfolding demo_chroot_last(1) [symmetric] by (rule prod.collapse [symmetric])
  have s: "snd demo_chroot = ?u @ (?x, snd (last (snd demo_chroot))) # []"
    unfolding x [symmetric] using demo_chroot_last(2) by (rule append_butlast_last_id [symmetric])
  have "run (otapreopt_chroot [''otapreopt_chroot'', ''3'', ''_b'', ''dexopt'']) chroot_os [] = (fst demo_chroot, snd demo_chroot)"
    unfolding demo_chroot_def by (rule prod.collapse [symmetric])
  from conjunct1 [OF otapreopt_confined [OF this], rule_format, OF s] s show ?thesis by blast
qed

end
