(* ===== verification/Spec2Isabelle.thy ===== *)
theory Spec2Isabelle
  imports OtaParams RawBackupCorrect FreeCache InstalldRollback InstalldSizes Bctest BinderOpen InstalldDaemon Bugreport OtaChroot
begin

text \<open>
  The command-line programs and daemons of the Android native layer.

  \<^bold>\<open>The program.\<close>  The repository holds small programs that share little but their style.  The two
  with a state and a contract of their own are installd (\<open>installd/\<close>), the privileged daemon that owns
  the data and the code of applications, and the service manager (\<open>servicemanager/\<close>), the registry
  of binder services.  Around them: \<open>otapreopt\<close>, whose command line (\<open>installd/otapreopt_parameters.cpp\<close>)
  has ten versions, \<open>rawbu\<close>, which backs up and restores the data partition, the two readers of
  \<open>dumpstate\<close>'s socket (\<open>bugreport/\<close>, \<open>bugreportz/\<close>), and clients that only show what others compute.

  \<^bold>\<open>How code becomes definitions.\<close>  A pure function is a function.  C strings are lists of characters
  without a null, a pointer that may be null is an option (\<open>cstring\<close>), an unsigned number of fixed width
  is a word or an integer with its remainder written out, and \<open>CHECK\<close>, an exception nobody catches and
  \<open>abort\<close> are a program that ends with \<open>Abort\<close> or the value \<open>None\<close>.  Code that calls the system is a
  program of calls (theory \<open>OsProg\<close>): a tree whose inner nodes are calls and whose branches are the
  replies.  It is run against an oracle that may answer every call as it likes, dependent on all that went
  before; so what is proved for every oracle holds for every failure at every point, and for every change
  made by others between two calls.  A run gives the result and the history of calls and replies, and the
  properties speak of both: what was deleted before what, which descriptors are open at the end, what an
  \<open>execv\<close> has before it.  Where the contents of the file system matter (\<open>rawbu\<close>, the measurements, the
  cache trackers) the file system is a value: a map from paths to inodes (theory \<open>Fs\<close>) or a tree
  as \<open>fts\<close> walks it (theory \<open>InstalldFs\<close>).  A \<open>fork\<close> is a branch of the program on the reply, and the child
  ends in \<open>Exited\<close> or \<open>Execed\<close> (theory \<open>InstalldProc\<close>).

  \<^bold>\<open>Foundations.\<close>
  \<^item> \<open>Prelude\<close>: C and C++ strings, \<open>strtol\<close>, splitting, mode bits and the collection \<open>cstr\<close>.
  \<^item> \<open>Bytes\<close>: little-endian numbers and writes into buffers.  \<open>Fs\<close>: a file system of paths.  \<open>Getopt\<close>: the
    options of a command line.
  \<^item> \<open>OsProg\<close>: programs of calls, runs, and the rules for their histories (\<open>yields\<close>, \<open>calls_within\<close>).
  \<^item> \<open>ProcProg\<close>: processes over any type of calls (the end of a process is a value), monitors over a history, and
    the weakest precondition \<open>wp\<close> of a program under one; the collection \<open>wp_rules\<close>.  \<open>ProcMonitor\<close>: the monitors
    \<open>ledger\<close> (open descriptors) and \<open>privs\<close> (dropped privileges) serve every program that forks.

  \<^bold>\<open>installd.\<close>
  \<^item> \<open>InstalldPaths\<close> (\<open>utils.cpp\<close>, \<open>globals.cpp\<close>): the global directories, every path builder and every
    validator.  The lemmas give the grammar of package names, the form of every accepted code path, the
    end of the recursion of \<open>validate_apk_path\<close>, and that different packages have different directories.
  \<^item> \<open>InstalldArgs\<close> (the checks at the entry of \<open>InstalldNativeService.cpp\<close>), \<open>InstalldQuota\<close>
    (\<open>QuotaUtils.cpp\<close>), \<open>InstalldMounts\<close> (the mounts kept by the service).
  \<^item> \<open>InstalldFs\<close> (\<open>utils.cpp\<close>): tree sizes, recursive deletion and copying, inode markers.  Deletion reports
    an error exactly when something is left of what \<open>readdir\<close> delivered; an error of \<open>readdir\<close> itself is not noticed.
  \<^item> \<open>CacheTracker\<close> and \<open>FreeCache\<close> (\<open>CacheItem.cpp\<close>, \<open>CacheTracker.cpp\<close>, \<open>freeCache\<close>): the items of a cache, their
    order, and the loop that frees from the application most over its quota.  The priority queue is a locale
    with the contract of \<open>std::priority_queue\<close>, interpreted on the model's queue, and the sort is one as well;
    the loop ends, takes items only in the order of the queue, never purges outside the cache directories, and
    the handler reports success exactly when the space is there.
  \<^item> \<open>InstalldApp\<close>, \<open>InstalldAppCorrect\<close>, \<open>InstalldSnapshot\<close>, \<open>InstalldRollback\<close> (\<open>InstalldNativeService.cpp\<close>): creating,
    clearing, destroying, moving, snapshotting and restoring the data of applications.  Which calls
    are made, in which order, what is deleted, and that a failed move or snapshot is asked to be undone.
  \<^item> \<open>InstalldSizes\<close> and \<open>MatchExtension\<close>: measuring, by quota and by walking, and the classification of media.
  \<^item> \<open>DexPaths\<close>, \<open>DexProfiles\<close>, \<open>DexSecondary\<close>, \<open>DexCompile\<close>, \<open>DexMove\<close> (\<open>dexopt.cpp\<close>): paths of artifacts, profiles, secondary
    dex files, the compilation and the artifacts of an A/B update; \<open>DexProfilesCorrect\<close>, \<open>DexCompileCorrect\<close>,
    \<open>DexOutcome\<close>, \<open>DexSafety\<close> hold what is proved of them: outputs stand exactly after success, descriptors are
    balanced but for one directory stream, and no binary is executed with privileges.
  \<^item> \<open>InstalldLinks\<close>, \<open>InstalldService\<close>, \<open>InstalldServiceCorrect\<close>: the remaining handlers, which link libraries, make
    resource maps, append verity data, and hand over to \<open>dexopt.cpp\<close>.
  \<^item> \<open>InstalldDaemon\<close> (\<open>installd.cpp\<close>, \<open>view_compiler.cpp\<close>): the start of the daemon with the upgrade of the directory
    layout, and the compilation of layouts.
  \<^item> \<open>OtaUtils\<close>, \<open>OtaParams\<close> (\<open>otapreopt_parameters.cpp\<close>): all ten versions of the command line of \<open>otapreopt\<close>.
    \<open>OtaPreopt\<close>, \<open>OtaPreoptCorrect\<close> (\<open>otapreopt.cpp\<close>): its properties, the boot image it prepares, and the
    attempts to compile.  A compilation is attempted only after a boot image is ready, a further one only after
    the one before failed, and the image is made and removed only under its own directory.  \<open>OtaChroot\<close>
    (\<open>otapreopt_chroot.cpp\<close>): the tool is executed only in its own mount namespace and below the new root.

  \<^bold>\<open>The service manager.\<close>
  \<^item> \<open>BinderIo\<close> (\<open>binder.c\<close>): the message buffers byte by byte; what is written without overflow is read back,
    but for null handles.
  \<^item> \<open>Binder\<close>: the protocol of the driver, over the bytes the driver delivers and, where a record is cut short, the stale
    bytes behind them; a run ends where the behaviour is undefined, with all that was done before.  The locales \<open>binder_service\<close> and
    \<open>quiet_service\<close> state what a handler owes to the loop; \<open>svcmgr\<close> interprets them with the registry.
  \<^item> \<open>ServiceManager\<close>, \<open>ServiceManagerCorrect\<close> (\<open>service_manager.c\<close>): the list of services, its handler and the
    refinement to a map from names to live handles (locale \<open>name_registry\<close>), the balance of references over
    all inputs, up to a forged death notification, and the answers to all transactions.
  \<^item> \<open>Bctest\<close> (\<open>bctest.c\<close>) is a client whose requests are run against the handler.  \<open>BinderOpen\<close>: opening the driver.

  \<^bold>\<open>The other programs.\<close>
  \<^item> \<open>RawArchive\<close>, \<open>RawBackup\<close>, \<open>RawBackupCorrect\<close> (\<open>rawbu/backup.cpp\<close>): the archive format, backup, wipe and restore on a
    file system with a fault oracle; restoring an archive gives back what was saved (if its times and owners are such as
    the reader accepts), a wipe spares the archive,
    and an archive that was cut off is rejected.
  \<^item> \<open>Bugreport\<close>: \<open>bugreport\<close> and \<open>bugreportz\<close>; the lines written do not depend on the buffers they came in.

  \<^bold>\<open>Bounds and fuel.\<close>  Recursions that follow data have their measures, and no fuel.  A loop over what the system
  delivers (reads of a socket, of the driver or of a pipe, the entries of a directory, reading to the end of a file) has a fuel that counts the calls;
  running out is a value of its own (\<open>None\<close> or \<open>Running\<close>), which no theorem takes for a result: they hold for every fuel and
  say what a run that did end has done.  Loops that the code itself bounds (the twenty attempts to connect, the walk of
  \<open>rawbu\<close> through directories, the loop of \<open>freeCache\<close>) end with the fuel given to them, and that is proved or
  follows from the recursion.  The writing loops use the number of bytes, since every turn writes one at least.  The
  exception is the loop of \<open>installApkVerity\<close>, where a write of nothing never ends (\<open>verity_write_stuck\<close>).

  \<^bold>\<open>Parameters.\<close>  What is not in the repository is an argument of the definitions: the ids of the platform and the
  derivation of a user's ids (\<open>svc_env\<close>), the properties of the device, \<open>quotactl\<close>, the hash of a file, the answers of
  the operating system.  No theorem assumes more of them than its hypotheses state.

  \<^bold>\<open>Not modelled.\<close>
  Messages of the log and texts of an error beside a status; \<open>toString\<close> and \<open>dump\<close> methods.  \<open>atrace\<close> and \<open>dumpstate\<close> (writes to kernel
  files, runs of other programs whose output is copied), \<open>flatland\<close> and \<open>surfacereplayer\<close> (calls of the graphics
  stack), \<open>lshal\<close>, \<open>dumpsys\<close>, \<open>cmd\<close> and \<open>service\<close> (they show what services outside the repository answer),
  and the unit tests.  The scheduling of threads is left out:
  the handlers of installd take one lock for their whole duration, and the service manager has one thread.
\<close>

end
